(* ===== verification/Prelude.thy ===== *)
theory Prelude
  imports Complex_Main "HOL-Library.Char_ord" "HOL-Library.List_Lexorder"
begin

section \<open>Prelude: results, tables, decimals, strings\<close>

text \<open>
  The vocabulary shared by every component of the development:
  \<^item> the failures a handler can raise and the sequencing of fallible steps;
  \<^item> database tables as lists of rows with a primary key, and the one locale through
    which the components read and write them;
  \<^item> decimal arithmetic as the source uses it (exact sums and products, and the one
    half-up rounding of stored money);
  \<^item> the Python string operations the source applies to identifiers and labels.

  \<^bold>\<open>Conventions.\<close> A UUID is a natural number: the source only compares UUIDs, and the
  order of their canonical text is the numeric order. A timestamp is an \<open>int\<close>, the number
  of microseconds since the Unix epoch in UTC. A finite \<open>Decimal\<close> is a \<open>rat\<close>: the stored
  values have scale two and at most eleven integer digits, so the sums, differences and
  products of the source stay below the 28 digits of the decimal context and are exact.
\<close>

type_synonym uuid = nat
type_synonym time = int
type_synonym dec = rat

named_theorems ledger_simps \<open>how each primitive state update changes the ledgers\<close>
named_theorems frame_simps \<open>fields that an operation leaves alone\<close>

subsection \<open>Failures and sequencing\<close>

text \<open>
  \<open>HTTPException\<close> is the exception the routers turn into a response; the other
  constructors are the Python exceptions the modelled code can let escape.
\<close>

datatype failure =
    HTTPException nat string
  | ValueError string
  | RuntimeError string
  | TypeError string
  | OverflowError string
  | KeyError
  | UnboundLocalError
  | RetryableMarketTransactionError string
  | DBAPIError string
  | IntegrityError

type_synonym 'a result = "failure + 'a"

definition bindR :: "'a result \<Rightarrow> ('a \<Rightarrow> 'b result) \<Rightarrow> 'b result" where
  "bindR m f = (case m of Inl e \<Rightarrow> Inl e | Inr x \<Rightarrow> f x)"

text \<open>A guard of the source: \<open>if bad: raise e\<close>.\<close>

definition refuse :: "bool \<Rightarrow> failure \<Rightarrow> unit result" where
  "refuse bad e = (if bad then Inl e else Inr ())"

fun mapR :: "('a \<Rightarrow> 's \<Rightarrow> 's result) \<Rightarrow> 'a list \<Rightarrow> 's \<Rightarrow> 's result" where
  "mapR f [] s = Inr s"
| "mapR f (x # xs) s = bindR (f x s) (mapR f xs)"

lemma bindR_simps [simp]:
  "bindR (Inl e) f = Inl e"
  "bindR (Inr x) f = f x"
  by (simp_all add: bindR_def)

lemma bindR_Inr [simp]: "bindR m f = Inr y \<longleftrightarrow> (\<exists>x. m = Inr x \<and> f x = Inr y)"
  by (cases m) auto

lemma refuse_simps [simp]:
  "refuse False e = Inr ()"
  "refuse True e = Inl e"
  by (simp_all add: refuse_def)

lemma refuse_Inr [simp]: "refuse b e = Inr u \<longleftrightarrow> \<not> b"
  by (simp add: refuse_def)

lemma bindR_cong [fundef_cong]:
  "m = m' \<Longrightarrow> (\<And>x. m' = Inr x \<Longrightarrow> f x = f' x) \<Longrightarrow> bindR m f = bindR m' f'"
  by (cases m') auto

lemma mapR_invariant:
  assumes "mapR f xs s = Inr s'" and "I s"
    and "\<And>x t t'. x \<in> set xs \<Longrightarrow> I t \<Longrightarrow> f x t = Inr t' \<Longrightarrow> I t'"
  shows "I s'"
  using assms
proof (induction xs arbitrary: s)
  case Nil
  then show ?case by simp
next
  case (Cons x xs)
  then obtain t where "f x s = Inr t" and "mapR f xs t = Inr s'" by auto
  from Cons.prems(3) [OF _ Cons.prems(2) this(1)] have "I t" by simp
  from Cons.IH [OF \<open>mapR f xs t = Inr s'\<close> this] show ?case
    using Cons.prems(3) by (meson list.set_intros(2))
qed

subsection \<open>Tables\<close>

text \<open>
  A table is the list of its rows. \<open>row_by\<close> is a primary-key lookup
  (\<^verbatim>\<open>scalar_one_or_none\<close>), \<open>put_row\<close> is what a flush writes back for a changed
  row, and \<open>row_in\<close> the dictionary of rows selected by \<^verbatim>\<open>id.in_(...)\<close>.
\<close>

definition row_by :: "('r \<Rightarrow> uuid) \<Rightarrow> uuid \<Rightarrow> 'r list \<Rightarrow> 'r option" where
  "row_by pk k rs = find (\<lambda>r. pk r = k) rs"

definition put_row :: "('r \<Rightarrow> uuid) \<Rightarrow> 'r \<Rightarrow> 'r list \<Rightarrow> 'r list" where
  "put_row pk r rs = map (\<lambda>x. if pk x = pk r then r else x) rs"

text \<open>A query by other columns may find several rows, which \<^verbatim>\<open>scalar_one_or_none\<close> refuses.\<close>

definition scalar_one_or_none :: "('r \<Rightarrow> bool) \<Rightarrow> 'r list \<Rightarrow> 'r option result" where
  "scalar_one_or_none p rs = (case filter p rs of [] \<Rightarrow> Inr None | [r] \<Rightarrow> Inr (Some r)
     | _ \<Rightarrow> Inl (RuntimeError ''MultipleResultsFound''))"

lemma scalar_one_or_none_SomeD: "scalar_one_or_none p rs = Inr (Some r) \<Longrightarrow> r \<in> set rs \<and> p r"
proof -
  assume "scalar_one_or_none p rs = Inr (Some r)"
  then have "filter p rs = [r]" by (auto simp: scalar_one_or_none_def split: list.splits)
  then show ?thesis by (metis list.set_intros(1) mem_Collect_eq set_filter)
qed

lemma row_by_list [simp]:
  "row_by pk k [] = None"
  "row_by pk k (x # xs) = (if pk x = k then Some x else row_by pk k xs)"
  by (simp_all add: row_by_def)

lemma row_by_SomeD: "row_by pk k rs = Some r \<Longrightarrow> r \<in> set rs \<and> pk r = k"
  by (auto simp: row_by_def find_Some_iff)

lemma row_by_None_iff: "row_by pk k rs = None \<longleftrightarrow> k \<notin> pk ` set rs"
  by (auto simp: row_by_def find_None_iff)

lemma row_by_distinct:
  "distinct (map pk rs) \<Longrightarrow> r \<in> set rs \<Longrightarrow> row_by pk (pk r) rs = Some r"
  by (induction rs) (auto simp: row_by_def)

lemma row_by_append:
  "row_by pk k (rs @ ss) = (case row_by pk k rs of None \<Rightarrow> row_by pk k ss | Some r \<Rightarrow> Some r)"
  by (induction rs) (auto simp: row_by_def)

lemma row_by_map: "(\<And>x. pk (f x) = pk x) \<Longrightarrow> row_by pk k (map f rs) = map_option f (row_by pk k rs)"
  by (induction rs) (auto simp: row_by_def)

lemma map_pk_put_row [simp]: "map pk (put_row pk r rs) = map pk rs"
  by (induction rs) (auto simp: put_row_def)

lemma pk_image_put_row [simp]: "pk ` set (put_row pk r rs) = pk ` set rs"
  by (metis map_pk_put_row list.set_map)

lemma row_by_put_row:
  "row_by pk k (put_row pk r rs) =
     (if k = pk r \<and> k \<in> pk ` set rs then Some r else row_by pk k rs)"
  by (induction rs) (auto simp: row_by_def put_row_def)

lemma put_row_absent: "pk r \<notin> pk ` set rs \<Longrightarrow> put_row pk r rs = rs"
  by (induction rs) (auto simp: put_row_def)

lemma set_put_row: "x \<in> set (put_row pk r rs) \<Longrightarrow> x = r \<or> (x \<in> set rs \<and> pk x \<noteq> pk r)"
  by (auto simp: put_row_def split: if_splits)

lemma in_put_row_other: "x \<in> set rs \<Longrightarrow> pk x \<noteq> pk r \<Longrightarrow> x \<in> set (put_row pk r rs)"
  by (auto simp: put_row_def image_iff intro: bexI [of _ x])

lemma length_put_row [simp]: "length (put_row pk r rs) = length rs"
  by (simp add: put_row_def)

lemma filter_put_row:
  assumes "\<And>x. pk x = pk r \<Longrightarrow> x \<in> set rs \<Longrightarrow> P x = P r"
  shows "map pk (filter P (put_row pk r rs)) = map pk (filter P rs)"
  using assms by (induction rs) (auto simp: put_row_def)

text \<open>The sum of a numeric column expression after one row changed.\<close>

lemma sum_put_row:
  fixes f :: "'r \<Rightarrow> 'n::ab_group_add"
  assumes "distinct (map pk rs)" and "row_by pk (pk r) rs = Some old"
  shows "sum_list (map f (put_row pk r rs)) = sum_list (map f rs) - f old + f r"
  using assms
proof (induction rs)
  case Nil
  then show ?case by (simp add: row_by_def)
next
  case (Cons x rs)
  show ?case
  proof (cases "pk x = pk r")
    case True
    with Cons.prems have "pk r \<notin> pk ` set rs" and "old = x"
      by (auto simp: row_by_def)
    moreover from this have "put_row pk r rs = rs" by (simp add: put_row_absent)
    ultimately show ?thesis using True by (simp add: put_row_def)
  next
    case False
    with Cons show ?thesis by (simp add: put_row_def row_by_def)
  qed
qed

text \<open>A batch of updates, one row after the other, is one pass over the table.\<close>

lemma put_rows_map:
  assumes "distinct (map pk xs)" "\<forall>y\<in>set rs. pk y \<in> pk ` set xs \<longrightarrow> y \<in> set xs" "\<And>x. pk (f x) = pk x"
  shows "fold (\<lambda>x. put_row pk (f x)) xs rs = map (\<lambda>y. if pk y \<in> pk ` set xs then f y else y) rs"
  using assms(1,2)
proof (induction xs arbitrary: rs)
  case (Cons x xs)
  let ?rs = "put_row pk (f x) rs"
  have x: "pk x \<notin> pk ` set xs" using Cons.prems(1) by auto
  have "y \<in> set xs" if "y \<in> set ?rs" "pk y \<in> pk ` set xs" for y
  proof -
    from that(1) obtain z where z: "z \<in> set rs" "y = (if pk z = pk x then f x else z)" by (auto simp: put_row_def assms(3))
    then have "y = z" "pk z \<noteq> pk x" using that(2) x by (auto simp: assms(3) split: if_splits)
    then show ?thesis using Cons.prems(2) z(1) that(2) by auto
  qed
  then have "fold (\<lambda>x. put_row pk (f x)) xs ?rs = map (\<lambda>y. if pk y \<in> pk ` set xs then f y else y) ?rs"
    using Cons.prems(1) by (intro Cons.IH) simp_all
  also have "\<dots> = map (\<lambda>y. if pk y \<in> pk ` set (x # xs) then f y else y) rs"
    unfolding put_row_def map_map
  proof (rule map_cong [OF refl])
    fix y assume y: "y \<in> set rs"
    show "((\<lambda>y. if pk y \<in> pk ` set xs then f y else y) \<circ> (\<lambda>z. if pk z = pk (f x) then f x else z)) y =
        (if pk y \<in> pk ` set (x # xs) then f y else y)"
    proof (cases "pk y = pk x")
      case True
      then have "y \<in> set (x # xs)" using Cons.prems(2) y by simp
      then have "y = x" using True x by (metis image_eqI set_ConsD)
      then show ?thesis using x by (simp add: assms(3))
    qed (simp add: assms(3))
  qed
  finally show ?case by simp
qed simp

text \<open>
  The interface through which the components use a table of the state: how the table is
  read (\<open>rows\<close>), and that writing one row back or inserting one changes exactly that.
\<close>

locale row_store =
  fixes pk :: "'r \<Rightarrow> uuid"
    and rows :: "'s \<Rightarrow> 'r list"
    and put :: "'r \<Rightarrow> 's \<Rightarrow> 's"
    and ins :: "'r \<Rightarrow> 's \<Rightarrow> 's"
  assumes rows_put: "rows (put r s) = put_row pk r (rows s)"
    and rows_ins: "rows (ins r s) = rows s @ [r]"
begin

lemma keys_put: "map pk (rows (put r s)) = map pk (rows s)"
  by (simp add: rows_put)

lemma get_put_same:
  "row_by pk (pk r) (rows s) = Some old \<Longrightarrow> row_by pk (pk r) (rows (put r s)) = Some r"
proof -
  assume "row_by pk (pk r) (rows s) = Some old"
  then have "pk r \<in> pk ` set (rows s)" by (auto dest!: row_by_SomeD intro: rev_image_eqI)
  then show ?thesis by (simp add: rows_put row_by_put_row)
qed

lemma get_put_other: "k \<noteq> pk r \<Longrightarrow> row_by pk k (rows (put r s)) = row_by pk k (rows s)"
  by (auto simp: rows_put row_by_put_row)

lemma get_ins_fresh: "pk r \<notin> pk ` set (rows s) \<Longrightarrow> row_by pk (pk r) (rows (ins r s)) = Some r"
  by (simp add: rows_ins row_by_append row_by_None_iff [THEN iffD2])

lemma get_ins_other: "k \<noteq> pk r \<Longrightarrow> row_by pk k (rows (ins r s)) = row_by pk k (rows s)"
  by (simp add: rows_ins row_by_append split: option.splits)

lemma distinct_ins:
  "distinct (map pk (rows s)) \<Longrightarrow> pk r \<notin> pk ` set (rows s) \<Longrightarrow> distinct (map pk (rows (ins r s)))"
  by (auto simp: rows_ins)

lemma total_put:
  fixes f :: "'r \<Rightarrow> 'n::ab_group_add"
  assumes "distinct (map pk (rows s))" and "row_by pk (pk r) (rows s) = Some old"
  shows "sum_list (map f (rows (put r s))) = sum_list (map f (rows s)) - f old + f r"
  using assms by (simp add: rows_put sum_put_row)

lemma total_ins: "sum_list (map f (rows (ins r s))) = sum_list (map f (rows s)) + f r"
  by (simp add: rows_ins)

end

subsection \<open>Decimals\<close>

text \<open>
  \<^verbatim>\<open>Decimal.quantize(Decimal("0.01"), rounding=ROUND_HALF_UP)\<close>: the nearest multiple
  of a hundredth, a tie going away from zero.
\<close>

definition round_half_up :: "rat \<Rightarrow> int" where
  "round_half_up x = (if 0 \<le> x then \<lfloor>x + 1 / 2\<rfloor> else - \<lfloor>- x + 1 / 2\<rfloor>)"

definition quantize_money :: "dec \<Rightarrow> dec" where
  "quantize_money x = of_int (round_half_up (x * 100)) / 100"

text \<open>A value with at most two decimal places: PostgreSQL's \<^verbatim>\<open>v * 100 = trunc(v * 100)\<close>.\<close>

definition scale2 :: "dec \<Rightarrow> bool" where
  "scale2 x \<longleftrightarrow> of_int \<lfloor>x * 100\<rfloor> = x * 100"

lemma scale2_iff: "scale2 x \<longleftrightarrow> (\<exists>n::int. x = of_int n / 100)"
proof
  assume "scale2 x"
  then have "of_int \<lfloor>x * 100\<rfloor> = x * 100" unfolding scale2_def .
  then have "x * 100 / 100 = of_int \<lfloor>x * 100\<rfloor> / 100" by (rule arg_cong [OF sym])
  then have "x = of_int \<lfloor>x * 100\<rfloor> / 100"
    by (simp only: nonzero_mult_div_cancel_right [OF zero_neq_numeral [THEN not_sym]])
  then show "\<exists>n::int. x = of_int n / 100" ..
next
  assume "\<exists>n::int. x = of_int n / 100"
  then obtain n :: int where "x = of_int n / 100" ..
  then have "x * 100 = of_int n" by simp
  then show "scale2 x" by (simp add: scale2_def)
qed

lemma scale2_add [intro]: "scale2 x \<Longrightarrow> scale2 y \<Longrightarrow> scale2 (x + y)"
  by (auto simp: scale2_iff simp flip: add_divide_distrib of_int_add)

lemma scale2_diff [intro]: "scale2 x \<Longrightarrow> scale2 y \<Longrightarrow> scale2 (x - y)"
  by (auto simp: scale2_iff simp flip: diff_divide_distrib of_int_diff)

lemma scale2_0 [simp]: "scale2 0"
  by (simp add: scale2_def)

lemma scale2_min [intro]: "scale2 x \<Longrightarrow> scale2 y \<Longrightarrow> scale2 (min x y)"
  by (simp add: min_def)

lemma quantize_money_scale2 [simp]: "scale2 (quantize_money x)"
  by (auto simp: scale2_iff quantize_money_def)

lemma quantize_money_id: "scale2 x \<Longrightarrow> quantize_money x = x"
proof -
  assume "scale2 x"
  then obtain n :: int where x: "x * 100 = of_int n" by (auto simp: scale2_iff)
  have "\<lfloor>of_int k + (1::rat) / 2\<rfloor> = k" for k :: int
    by (rule floor_unique) auto
  from this [of n] this [of "- n"] have "round_half_up (x * 100) = n"
    by (simp add: round_half_up_def x)
  then show ?thesis using x by (simp add: quantize_money_def)
qed

lemma quantize_money_error: "\<bar>quantize_money x - x\<bar> \<le> 1 / 200"
proof -
  have half: "\<bar>of_int \<lfloor>z + 1 / 2\<rfloor> - z\<bar> \<le> 1 / 2" for z :: rat
  proof -
    have "of_int \<lfloor>z + 1 / 2\<rfloor> \<le> z + 1 / 2" and "z + 1 / 2 < of_int \<lfloor>z + 1 / 2\<rfloor> + 1"
      by linarith+
    then show ?thesis by linarith
  qed
  have "\<bar>of_int (round_half_up y) - y\<bar> \<le> 1 / 2" for y :: rat
  proof (cases "0 \<le> y")
    case True
    then show ?thesis using half [of y] by (simp add: round_half_up_def)
  next
    case False
    have "\<bar>- of_int \<lfloor>- y + 1 / 2\<rfloor> - y\<bar> = \<bar>of_int \<lfloor>- y + 1 / 2\<rfloor> - (- y)\<bar>"
      by (simp add: abs_if)
    also have "\<dots> \<le> 1 / 2" by (rule half)
    finally show ?thesis using False by (simp add: round_half_up_def)
  qed
  from this [of "x * 100"] show ?thesis
    by (simp add: quantize_money_def abs_le_iff field_simps)
qed

lemma quantize_money_mono: "0 \<le> x \<Longrightarrow> x \<le> y \<Longrightarrow> quantize_money x \<le> quantize_money y"
  by (simp add: quantize_money_def round_half_up_def divide_right_mono floor_mono)

lemma quantize_money_nonneg: "0 \<le> x \<Longrightarrow> 0 \<le> quantize_money x"
  using quantize_money_mono [of 0 x] quantize_money_id [of 0] by simp

subsection \<open>Strings\<close>

text \<open>
  A character is a code point below 256. \<open>str.strip\<close> removes all white space of that range, the information separators, NEL
  and the no-break space included; \<open>str.upper\<close> is modelled on the ASCII letters, the range of the labels and
  keys the source applies it to.
\<close>

definition is_space :: "char \<Rightarrow> bool" where
  "is_space c \<longleftrightarrow> (let n = of_char c :: nat in n = 32 \<or> (9 \<le> n \<and> n \<le> 13) \<or> (28 \<le> n \<and> n \<le> 31) \<or> n = 133 \<or> n = 160)"

definition py_strip :: "string \<Rightarrow> string" where
  "py_strip s = rev (dropWhile is_space (rev (dropWhile is_space s)))"

definition upper_char :: "char \<Rightarrow> char" where
  "upper_char c = (let n = of_char c :: nat in if 97 \<le> n \<and> n \<le> 122 then char_of (n - 32) else c)"

definition py_upper :: "string \<Rightarrow> string" where
  "py_upper s = map upper_char s"

definition or_empty :: "string option \<Rightarrow> string" where
  "or_empty v = (case v of None \<Rightarrow> '''' | Some s \<Rightarrow> s)"

lemma dropWhile_idem_last:
  "xs = [] \<or> \<not> P (last xs) \<Longrightarrow> dropWhile P (rev xs) = rev xs"
  by (cases xs rule: rev_cases) auto

lemma dropWhile_hd: "dropWhile P xs = [] \<or> \<not> P (hd (dropWhile P xs))"
  by (induction xs) auto

lemma py_strip_cases: "py_strip s = [] \<or> (\<not> is_space (hd (py_strip s)) \<and> \<not> is_space (last (py_strip s)))"
proof -
  define a where "a = dropWhile is_space s"
  define b where "b = dropWhile is_space (rev a)"
  have strip: "py_strip s = rev b" by (simp add: py_strip_def a_def b_def)
  have b: "b = [] \<or> \<not> is_space (hd b)" unfolding b_def by (rule dropWhile_hd)
  show ?thesis
  proof (cases "b = []")
    case True
    then show ?thesis by (simp add: strip)
  next
    case False
    obtain c where "rev a = c @ b" unfolding b_def by (metis takeWhile_dropWhile_id)
    then have a: "a = rev b @ rev c" by (metis rev_append rev_rev_ident)
    have "a = [] \<or> \<not> is_space (hd a)" unfolding a_def by (rule dropWhile_hd)
    with a False have "\<not> is_space (hd (rev b))" by auto
    moreover from b False have "\<not> is_space (last (rev b))" by (simp add: last_rev)
    ultimately show ?thesis by (simp add: strip)
  qed
qed

lemma py_strip_id: "s = [] \<or> (\<not> is_space (hd s) \<and> \<not> is_space (last s)) \<Longrightarrow> py_strip s = s"
proof (cases "s = []")
  case True
  then show ?thesis by (simp add: py_strip_def)
next
  case False
  moreover assume "s = [] \<or> (\<not> is_space (hd s) \<and> \<not> is_space (last s))"
  ultimately have "\<not> is_space (hd s)" and "\<not> is_space (last s)" by auto
  from this(1) False have "dropWhile is_space s = s" by (cases s) auto
  moreover from \<open>\<not> is_space (last s)\<close> False have "dropWhile is_space (rev s) = rev s"
    by (simp add: dropWhile_idem_last)
  ultimately show ?thesis by (simp add: py_strip_def)
qed

lemma py_strip_idem [simp]: "py_strip (py_strip s) = py_strip s"
  by (rule py_strip_id, rule py_strip_cases)

lemma upper_char_idem [simp]: "upper_char (upper_char c) = upper_char c"
  by (auto simp: upper_char_def Let_def of_char_of)

lemma py_upper_idem [simp]: "py_upper (py_upper s) = py_upper s"
  by (simp add: py_upper_def)

lemma is_space_upper [simp]: "is_space (upper_char c) = is_space c"
  by (auto simp: upper_char_def is_space_def Let_def of_char_of)

lemma py_upper_Nil_iff [simp]: "py_upper s = [] \<longleftrightarrow> s = []"
  by (simp add: py_upper_def)

lemma py_strip_upper: "py_strip (py_upper (py_strip s)) = py_upper (py_strip s)"
proof (rule py_strip_id)
  show "py_upper (py_strip s) = [] \<or>
    \<not> is_space (hd (py_upper (py_strip s))) \<and> \<not> is_space (last (py_upper (py_strip s)))"
    using py_strip_cases [of s] by (auto simp: py_upper_def hd_map last_map)
qed

end
