(* ===== verification/Market_Types.thy ===== *)
theory Market_Types
  imports Prelude
begin

section \<open>The data model\<close>

text \<open>
  The enumerations and table rows of \<^verbatim>\<open>src/app/models/\<close> that carry the market's state, and
  the database as one record of tables. Row fields carry a prefix for their table (\<open>o_\<close>
  order, \<open>t_\<close> trade, \<open>i_\<close> inventory item, \<open>u_\<close> user, \<open>g_\<close> organization, \<open>p_\<close> product,
  \<open>d_\<close> delivery point, \<open>s_\<close> subscription); otherwise the column names are those of the
  source. Columns that no market operation reads (password hashes, onboarding and KYC review
  texts, labels of the user interface) are left out of the user and organization rows.

  Every table is reached through the \<open>row_store\<close> interface of the prelude, interpreted
  below once per table.
\<close>

subsection \<open>Enumerations\<close>

datatype OrderSide = BID | ASK

datatype OrderBookStatus = OPEN | PARTIALLY_FILLED | FILLED | CANCELLED | EXPIRED

datatype OrderCreationMethod = SELF_SERVICE | MARKET_SUPPORT | SYSTEM | LEGACY_UNKNOWN

datatype TradeStatus =
  PENDING_CONFIRMATION | CONFIRMED | DELIVERED | PAID | TRADE_CANCELLED | DECLINED

datatype Initiator = BY_BUYER | BY_SELLER

datatype UserRole = BUYER | SUPPLIER | ADMIN

datatype UserStatus = PENDING | APPROVED | REJECTED

datatype OrganizationProvenance = UNKNOWN | REAL | DEMO | TEST | CANARY

datatype SubscriptionTier = FREE | STANDARD | ENTERPRISE

datatype ReferralStatus = SIGNED_UP | VERIFIED | ACTIVE

datatype NotificationType =
    NOTIFY_SYSTEM | ORDER_UPDATE | DIRECT_ORDER | DIRECT_ORDER_OFFER | USER_STATUS
  | TRADE_INITIATED | TRADE_CONFIRMED | TRADE_DECLINED | TRADE_DELIVERED | TRADE_PAID
  | MATCH_SUGGESTION | NEGOTIATION_RECEIVED | NEGOTIATION_COUNTERED | NEGOTIATION_ACCEPTED
  | NEGOTIATION_DECLINED

definition tier_value :: "SubscriptionTier \<Rightarrow> string" where
  "tier_value t = (case t of FREE \<Rightarrow> ''free'' | STANDARD \<Rightarrow> ''standard'' | ENTERPRISE \<Rightarrow> ''enterprise'')"

text \<open>
  A Python \<open>Decimal\<close> as it crosses the API boundary: a coefficient with an exponent, or one of
  the special values. Stored columns hold the value only.
\<close>

datatype pydecimal = Finite int int | Infinite bool | NaN

definition dec_value :: "int \<Rightarrow> int \<Rightarrow> dec" where
  "dec_value c e = (if 0 \<le> e then of_int c * 10 ^ nat e else of_int c / 10 ^ nat (- e))"

subsection \<open>Rows\<close>

text \<open>The supplier metadata that orders and inventory items share column by column.\<close>

record supplier_metadata =
  certification_declared :: bool
  certification_scheme :: "string option"
  specification_standard :: "string option"
  msds_available :: bool
  carbon_intensity_gco2_mj :: "dec option"
  carbon_intensity_method :: "string option"
  energy_density_mj_kg :: "dec option"
  feedstock :: "string option"
  origin :: "string option"
  off_spec :: bool
  off_spec_notes :: "string option"

record idempotency_columns =
  idempotency_key :: "string option"
  idempotency_operation :: "string option"
  idempotency_request_hash :: "string option"

record order =
  o_id :: uuid
  o_acceptance_ordinal :: int
  o_organization_id :: uuid
  o_owner_user_id :: "uuid option"
  o_created_by_actor_user_id :: "uuid option"
  o_creation_method :: OrderCreationMethod
  o_support_authorization_id :: "uuid option"
  o_version :: int
  o_inventory_item_id :: "uuid option"
  o_provenance :: OrganizationProvenance
  o_side :: OrderSide
  o_product_id :: uuid
  o_delivery_point_id :: "uuid option"
  o_port_id :: "string option"
  o_vessel_id :: "uuid option"
  o_quantity_mt :: dec
  o_remaining_quantity_mt :: dec
  o_price_per_mt_usd :: dec
  o_availability_window :: string
  o_delivery_window_start :: "int option"
  o_delivery_window_end :: "int option"
  o_certifications :: "string list"
  o_metadata :: supplier_metadata
  o_is_verdaxis_verified :: bool
  o_status :: OrderBookStatus
  o_expires_at :: "time option"
  o_idempotency :: idempotency_columns
  o_created_at :: time

text \<open>The market slice a trade was agreed on, copied from the order when the trade is made.\<close>

record market_snapshot =
  product_id :: "uuid option"
  product_name :: "string option"
  fuel_type :: "string option"
  fuel_grade :: "string option"
  market_product :: "string option"
  delivery_point_id :: "uuid option"
  delivery_point_name :: "string option"
  delivery_point_region :: "string option"
  availability_window :: "string option"

record trade =
  t_id :: uuid
  t_bid_order_id :: "uuid option"
  t_ask_order_id :: "uuid option"
  t_buyer_id :: uuid
  t_seller_id :: uuid
  t_buyer_user_id :: "uuid option"
  t_seller_user_id :: "uuid option"
  t_initiator_org_id :: uuid
  t_buyer_provenance :: OrganizationProvenance
  t_seller_provenance :: OrganizationProvenance
  t_initiated_by :: Initiator
  t_is_anonymous :: bool
  t_snapshot :: market_snapshot
  t_market_snapshot_version :: "int option"
  t_quantity_mt :: dec
  t_price_per_mt_usd :: dec
  t_status :: TradeStatus
  t_final_quantity_mt :: "dec option"
  t_final_price_per_mt :: "dec option"
  t_final_total_usd :: "dec option"
  t_commission_rate_pct :: dec
  t_commission_fee_per_mt_usd :: "dec option"
  t_commission_plan :: "string option"
  t_commission_amount_usd :: "dec option"
  t_confirmed_at :: "time option"
  t_delivered_at :: "time option"
  t_paid_at :: "time option"
  t_created_at :: time
  t_idempotency :: idempotency_columns

record inventory_item =
  i_id :: uuid
  i_supplier_id :: "uuid option"
  i_owner_user_id :: "uuid option"
  i_port_id :: "string option"
  i_fuel_type :: string
  i_product_name :: "string option"
  i_current_stock_mt :: dec
  i_incoming_stock_mt :: dec
  i_reserved_stock_mt :: dec
  i_price_per_mt_usd :: "dec option"
  i_is_certified :: bool
  i_metadata :: supplier_metadata
  i_updated_at :: time

record user =
  u_id :: uuid
  u_role :: "UserRole option"
  u_status :: UserStatus
  u_organization_id :: "uuid option"
  u_must_change_password :: bool
  u_email_verified :: bool
  u_kyc_status :: string
  u_kyc_organization_id :: "uuid option"

record organization =
  g_id :: uuid
  g_name :: string
  g_country_code :: "string option"
  g_verification_status :: string
  g_provenance :: OrganizationProvenance

record product =
  p_id :: uuid
  p_name :: string
  p_fuel_type :: string
  p_fuel_grade :: string
  p_unit :: "string option"
  p_min_lot_size :: "pydecimal option"
  p_is_active :: bool

record delivery_point =
  d_id :: uuid
  d_name :: string
  d_region :: string
  d_is_active :: bool

record port =
  pt_id :: string
  pt_name :: string
  pt_is_active :: bool

record subscription =
  s_org_id :: uuid
  s_tier :: string
  s_expires_at :: "time option"
  s_is_active :: bool
  s_seller_fee_per_mt_usd :: "dec option"

record referral =
  r_referred_user_id :: uuid
  r_status :: ReferralStatus
  r_activated_at :: "time option"

record command_result =
  c_actor_user_id :: uuid
  c_effective_organization_id :: uuid
  c_support_context_id :: "uuid option"
  c_operation :: string
  c_idempotency_key :: string
  c_request_hash :: string
  c_resource_type :: string
  c_resource_id :: uuid
  c_response_status :: int
  c_response_body :: string

record notification =
  n_recipient_id :: uuid
  n_type :: NotificationType
  n_subject_id :: uuid

record audit_entry =
  a_user_id :: "uuid option"
  a_action :: string
  a_resource_type :: string
  a_resource_id :: uuid

record outbox_event =
  e_event_type :: string
  e_aggregate_type :: string
  e_aggregate_id :: uuid
  e_participant_org_ids :: "uuid list"
  e_public_market_invalidation :: bool

text \<open>
  Calls to services whose effect stays outside the tables above (watchlist subscribers,
  benchmark rebuilds): they are recorded in call order with the row they are about.
\<close>

datatype projection_call =
    EmitOrderCreated uuid
  | EmitOrderUpdated uuid
  | EmitPinUpdated uuid
  | EmitSliceStateChanged uuid
  | RebuildBenchmarks uuid

record market_db =
  orders :: "order list"
  trades :: "trade list"
  inventory :: "inventory_item list"
  users :: "user list"
  organizations :: "organization list"
  products :: "product list"
  delivery_points :: "delivery_point list"
  ports :: "port list"
  subscriptions :: "subscription list"
  referrals :: "referral list"
  command_results :: "command_result list"
  notifications :: "notification list"
  audit_log :: "audit_entry list"
  outbox :: "outbox_event list"
  projections :: "projection_call list"
  next_ordinal :: int
  next_id :: uuid

text \<open>\<open>OrderBookOrder.bump_version\<close>: only support-managed orders carry an advancing version.\<close>

definition bump_version :: "order \<Rightarrow> order" where
  "bump_version ord = (if o_creation_method ord = MARKET_SUPPORT then ord\<lparr>o_version := o_version ord + 1\<rparr> else ord)"

lemma bump_version_fields [simp]:
  "o_id (bump_version x) = o_id x" "o_inventory_item_id (bump_version x) = o_inventory_item_id x"
  "o_status (bump_version x) = o_status x" "o_quantity_mt (bump_version x) = o_quantity_mt x"
  "o_remaining_quantity_mt (bump_version x) = o_remaining_quantity_mt x" "o_side (bump_version x) = o_side x"
  "o_organization_id (bump_version x) = o_organization_id x" "o_price_per_mt_usd (bump_version x) = o_price_per_mt_usd x"
  "o_provenance (bump_version x) = o_provenance x" "o_expires_at (bump_version x) = o_expires_at x"
  "o_product_id (bump_version x) = o_product_id x" "o_delivery_point_id (bump_version x) = o_delivery_point_id x"
  "o_availability_window (bump_version x) = o_availability_window x" "o_metadata (bump_version x) = o_metadata x"
  "o_certifications (bump_version x) = o_certifications x" "o_owner_user_id (bump_version x) = o_owner_user_id x"
  "o_created_by_actor_user_id (bump_version x) = o_created_by_actor_user_id x"
  "o_creation_method (bump_version x) = o_creation_method x"
  "o_acceptance_ordinal (bump_version x) = o_acceptance_ordinal x"
  by (simp_all add: bump_version_def)

subsection \<open>Table access\<close>

definition put_order :: "order \<Rightarrow> market_db \<Rightarrow> market_db" where
  "put_order r s = s\<lparr>orders := put_row o_id r (orders s)\<rparr>"

definition ins_order :: "order \<Rightarrow> market_db \<Rightarrow> market_db" where
  "ins_order r s = s\<lparr>orders := orders s @ [r]\<rparr>"

definition put_trade :: "trade \<Rightarrow> market_db \<Rightarrow> market_db" where
  "put_trade r s = s\<lparr>trades := put_row t_id r (trades s)\<rparr>"

definition ins_trade :: "trade \<Rightarrow> market_db \<Rightarrow> market_db" where
  "ins_trade r s = s\<lparr>trades := trades s @ [r]\<rparr>"

definition put_item :: "inventory_item \<Rightarrow> market_db \<Rightarrow> market_db" where
  "put_item r s = s\<lparr>inventory := put_row i_id r (inventory s)\<rparr>"

definition ins_item :: "inventory_item \<Rightarrow> market_db \<Rightarrow> market_db" where
  "ins_item r s = s\<lparr>inventory := inventory s @ [r]\<rparr>"

abbreviation order_of :: "uuid \<Rightarrow> market_db \<Rightarrow> order option" where
  "order_of k s \<equiv> row_by o_id k (orders s)"

abbreviation trade_of :: "uuid \<Rightarrow> market_db \<Rightarrow> trade option" where
  "trade_of k s \<equiv> row_by t_id k (trades s)"

abbreviation item_of :: "uuid \<Rightarrow> market_db \<Rightarrow> inventory_item option" where
  "item_of k s \<equiv> row_by i_id k (inventory s)"

abbreviation user_of :: "uuid \<Rightarrow> market_db \<Rightarrow> user option" where
  "user_of k s \<equiv> row_by u_id k (users s)"

abbreviation organization_of :: "uuid \<Rightarrow> market_db \<Rightarrow> organization option" where
  "organization_of k s \<equiv> row_by g_id k (organizations s)"

abbreviation product_of :: "uuid \<Rightarrow> market_db \<Rightarrow> product option" where
  "product_of k s \<equiv> row_by p_id k (products s)"

abbreviation delivery_point_of :: "uuid \<Rightarrow> market_db \<Rightarrow> delivery_point option" where
  "delivery_point_of k s \<equiv> row_by d_id k (delivery_points s)"

interpretation order_tab: row_store o_id orders put_order ins_order
  by unfold_locales (simp_all add: put_order_def ins_order_def)

interpretation trade_tab: row_store t_id trades put_trade ins_trade
  by unfold_locales (simp_all add: put_trade_def ins_trade_def)

interpretation item_tab: row_store i_id inventory put_item ins_item
  by unfold_locales (simp_all add: put_item_def ins_item_def)

end
