(* ===== verification/Catalog.thy ===== *)
theory Catalog
  imports Market_Types
begin

section \<open>Catalogue and demo identities\<close>

text \<open>
  \<^verbatim>\<open>src/app/market_catalog.py\<close> and \<^verbatim>\<open>src/app/demo_identities.py\<close>: the tuples of canonical
  products and delivery points, the fixed biofuel standards, and the registries of synthetic
  organizations; and from \<^verbatim>\<open>src/app/services/market_data_eligibility.py\<close> the predicates that
  decide whether a stored product or delivery point is one of them. Display texts of the
  catalogue entries are left out. The lemmas show that the registries do not overlap and that
  a canonical product is determined by its labels.
\<close>

datatype MarketProduct =
  BIO_METHANOL | E_METHANOL | BIO_ETHANOL | SYNTHETIC_ETHANOL | B30 | B100

definition market_product_value :: "MarketProduct \<Rightarrow> string" where
  "market_product_value m = (case m of
     BIO_METHANOL \<Rightarrow> ''BIO_METHANOL'' | E_METHANOL \<Rightarrow> ''E_METHANOL''
   | BIO_ETHANOL \<Rightarrow> ''BIO_ETHANOL'' | SYNTHETIC_ETHANOL \<Rightarrow> ''SYNTHETIC_ETHANOL''
   | B30 \<Rightarrow> ''B30'' | B100 \<Rightarrow> ''B100'')"

record ProductSpec =
  ps_id :: uuid
  ps_market_product :: MarketProduct
  ps_name :: string
  ps_fuel_type :: string
  ps_fuel_grade :: string
  ps_unit :: string
  ps_min_lot_size :: pydecimal

record DeliveryPointSpec =
  ds_id :: uuid
  ds_name :: string
  ds_region :: string
  ds_timezone :: string

definition CANONICAL_PRODUCTS :: "ProductSpec list" where
  "CANONICAL_PRODUCTS =
    [\<lparr>ps_id = 0x9510c7136e395080add30a7c29657b79, ps_market_product = BIO_METHANOL,
       ps_name = ''Bio Methanol'', ps_fuel_type = ''Methanol'', ps_fuel_grade = ''Bio'',
       ps_unit = ''MT'', ps_min_lot_size = Finite 200 0\<rparr>,
     \<lparr>ps_id = 0xf9b20492b44559cdb292a386d913f488, ps_market_product = E_METHANOL,
       ps_name = ''e-Methanol'', ps_fuel_type = ''Methanol'', ps_fuel_grade = ''E'',
       ps_unit = ''MT'', ps_min_lot_size = Finite 200 0\<rparr>,
     \<lparr>ps_id = 0xc4a688bef7c25edc8f936b34e387609c, ps_market_product = BIO_ETHANOL,
       ps_name = ''Bio Ethanol'', ps_fuel_type = ''Ethanol'', ps_fuel_grade = ''Bio'',
       ps_unit = ''MT'', ps_min_lot_size = Finite 200 0\<rparr>,
     \<lparr>ps_id = 0xd186bffb766d59448825989abbdcfc46, ps_market_product = SYNTHETIC_ETHANOL,
       ps_name = ''Synthetic Ethanol'', ps_fuel_type = ''Ethanol'', ps_fuel_grade = ''Synthetic'',
       ps_unit = ''MT'', ps_min_lot_size = Finite 200 0\<rparr>,
     \<lparr>ps_id = 0xc4cecebc3d2d5840802157a9a11bc673, ps_market_product = B30,
       ps_name = ''B30'', ps_fuel_type = ''Biofuel'', ps_fuel_grade = ''B30'',
       ps_unit = ''MT'', ps_min_lot_size = Finite 200 0\<rparr>,
     \<lparr>ps_id = 0x74eb9cb5f0e355f1b82cfe29b7c45bf5, ps_market_product = B100,
       ps_name = ''B100'', ps_fuel_type = ''Biofuel'', ps_fuel_grade = ''B100'',
       ps_unit = ''MT'', ps_min_lot_size = Finite 200 0\<rparr>]"

definition CANONICAL_DELIVERY_POINTS :: "DeliveryPointSpec list" where
  "CANONICAL_DELIVERY_POINTS =
    [\<lparr>ds_id = 0x78281fb3e7265396802e34b01fda21e8, ds_name = ''Dalian'', ds_region = ''Asia'',
       ds_timezone = ''Asia/Shanghai''\<rparr>,
     \<lparr>ds_id = 0x262d36ae6f355785b9e89e221b0f1b78, ds_name = ''Busan'', ds_region = ''Asia'',
       ds_timezone = ''Asia/Seoul''\<rparr>,
     \<lparr>ds_id = 0x633c0593f9b952adabe5a0285f6888d3, ds_name = ''Shanghai'', ds_region = ''Asia'',
       ds_timezone = ''Asia/Shanghai''\<rparr>,
     \<lparr>ds_id = 0x73835e92820e584b8280bb61c63aa28e, ds_name = ''Singapore'', ds_region = ''Asia'',
       ds_timezone = ''Asia/Singapore''\<rparr>,
     \<lparr>ds_id = 0x1379d36c1ca955b79c0d5235a0ba1f36, ds_name = ''Rotterdam'', ds_region = ''Europe'',
       ds_timezone = ''Europe/Amsterdam''\<rparr>,
     \<lparr>ds_id = 0xa083db06b05056c2a2743897eac2fdae, ds_name = ''Houston'', ds_region = ''Americas'',
       ds_timezone = ''America/Chicago''\<rparr>,
     \<lparr>ds_id = 0x1be2a5cbfc345e888b157f7d0fd6e534, ds_name = ''Los Angeles'', ds_region = ''Americas'',
       ds_timezone = ''America/Los_Angeles''\<rparr>,
     \<lparr>ds_id = 0xa47624444e0b5bc1b647a185047adae5, ds_name = ''Santos'', ds_region = ''Americas'',
       ds_timezone = ''America/Sao_Paulo''\<rparr>]"

definition PRODUCTS_BY_ID :: "uuid \<Rightarrow> ProductSpec option" where
  "PRODUCTS_BY_ID k = find (\<lambda>p. ps_id p = k) CANONICAL_PRODUCTS"

definition B30_PRODUCT_ID :: uuid where
  "B30_PRODUCT_ID = 0xc4cecebc3d2d5840802157a9a11bc673"

definition B100_PRODUCT_ID :: uuid where
  "B100_PRODUCT_ID = 0x74eb9cb5f0e355f1b82cfe29b7c45bf5"

definition BIOFUEL_SPECIFICATION_STANDARDS :: "uuid \<Rightarrow> string option" where
  "BIOFUEL_SPECIFICATION_STANDARDS k =
     (if k = B30_PRODUCT_ID then Some ''ISO 8217:2024 RF 380''
      else if k = B100_PRODUCT_ID then Some ''ISO 8217:2024 DFA'' else None)"

definition derive_market_product :: "string \<Rightarrow> string \<Rightarrow> string \<Rightarrow> MarketProduct option" where
  "derive_market_product name ft fg =
     map_option ps_market_product
       (find (\<lambda>sp. (name, ft, fg) = (ps_name sp, ps_fuel_type sp, ps_fuel_grade sp)) CANONICAL_PRODUCTS)"

text \<open>The property \<open>Product.market_product\<close> and the relationship-derived order columns.\<close>

definition product_market_product :: "product \<Rightarrow> string option" where
  "product_market_product p =
     map_option market_product_value (derive_market_product (p_name p) (p_fuel_type p) (p_fuel_grade p))"

definition canonical_market_product_expression :: "product \<Rightarrow> string option" where
  "canonical_market_product_expression p =
     map_option (\<lambda>sp. market_product_value (ps_market_product sp))
       (find (\<lambda>sp. p_id p = ps_id sp \<and> p_name p = ps_name sp \<and> p_fuel_type p = ps_fuel_type sp
                  \<and> p_fuel_grade p = ps_fuel_grade sp) CANONICAL_PRODUCTS)"

definition canonical_product_clause :: "product \<Rightarrow> bool" where
  "canonical_product_clause p \<longleftrightarrow> p_is_active p \<and>
     list_ex (\<lambda>sp. p_id p = ps_id sp \<and> p_name p = ps_name sp \<and> p_fuel_type p = ps_fuel_type sp
                  \<and> p_fuel_grade p = ps_fuel_grade sp) CANONICAL_PRODUCTS"

definition canonical_delivery_point_clause :: "delivery_point \<Rightarrow> bool" where
  "canonical_delivery_point_clause d \<longleftrightarrow> d_is_active d \<and>
     list_ex (\<lambda>sp. d_id d = ds_id sp \<and> d_name d = ds_name sp \<and> d_region d = ds_region sp)
       CANONICAL_DELIVERY_POINTS"

subsection \<open>Synthetic organizations\<close>

definition DEMO_SEED_BUYERS :: "uuid list" where
  "DEMO_SEED_BUYERS =
    [0x4da7b28534ee54439406f96b4ed1a251,
     0x0dbce57620265925ab66674d505e98ad,
     0x3cd0bc8a0e925eb89ae33c87a7460a6a,
     0x277491dfcb0d5f2da2cf5746829c6da6,
     0x3b302066d65c5c3e8fcc70b3da3bcafd]"

definition DEMO_SEED_SUPPLIERS :: "uuid list" where
  "DEMO_SEED_SUPPLIERS =
    [0x79609f480a3e560ea1e163d90601d84a,
     0x2c4e387ede225adbad889274ba84ebe1,
     0x612953c7567a58b3bc42ee817d2bbe74,
     0x93ccda0954b353eeafc0759d3048161f,
     0x82426590096354869b05f81e97afe6ef]"

definition DEMO_ACCOUNT_BUYER_ORG_ID :: uuid where
  "DEMO_ACCOUNT_BUYER_ORG_ID = 0xacc3f20afe9444639029a55e35634eb7"

definition DEMO_ACCOUNT_SELLER_ORG_ID :: uuid where
  "DEMO_ACCOUNT_SELLER_ORG_ID = 0xc9c1ccbf66fe4a1bb171fe4f7ddc31a4"

definition DEMO_ACTIVITY_BUYER_ORG_ID :: uuid where
  "DEMO_ACTIVITY_BUYER_ORG_ID = 0x7cc771150a9f4ec48c7405aa10050111"

definition DEMO_ACTIVITY_SELLER_ORG_ID :: uuid where
  "DEMO_ACTIVITY_SELLER_ORG_ID = 0xd1e43e553fb04b5e9f0b93aa10050222"

definition DEMO_MARKET_ORG_IDS :: "uuid list" where
  "DEMO_MARKET_ORG_IDS = DEMO_SEED_BUYERS @ DEMO_SEED_SUPPLIERS
     @ [DEMO_ACCOUNT_BUYER_ORG_ID, DEMO_ACCOUNT_SELLER_ORG_ID,
        DEMO_ACTIVITY_BUYER_ORG_ID, DEMO_ACTIVITY_SELLER_ORG_ID]"

definition DEMO_ACTIVITY_ORG_IDS :: "uuid set" where
  "DEMO_ACTIVITY_ORG_IDS = {DEMO_ACTIVITY_BUYER_ORG_ID, DEMO_ACTIVITY_SELLER_ORG_ID}"

text \<open>The UUIDs \<open>9e63f7a1-0000-4000-8000-0000000000NN\<close>, whose last group prints \<open>NN\<close> in decimal.\<close>

definition KNOWN_TEST_ORG_IDS :: "uuid list" where
  "KNOWN_TEST_ORG_IDS = map (\<lambda>n. 0x9e63f7a1000040008000000000000000 + (n div 10) * 16 + n mod 10)
     ([1..<5] @ [11..<15])"

definition is_demo_market_organization :: "uuid option \<Rightarrow> bool" where
  "is_demo_market_organization g = (case g of None \<Rightarrow> False | Some k \<Rightarrow> k \<in> set DEMO_MARKET_ORG_IDS)"

lemma demo_and_test_disjoint: "set DEMO_MARKET_ORG_IDS \<inter> set KNOWN_TEST_ORG_IDS = {}"
  by (simp add: DEMO_MARKET_ORG_IDS_def DEMO_SEED_BUYERS_def DEMO_SEED_SUPPLIERS_def
      DEMO_ACCOUNT_BUYER_ORG_ID_def DEMO_ACCOUNT_SELLER_ORG_ID_def
      DEMO_ACTIVITY_BUYER_ORG_ID_def DEMO_ACTIVITY_SELLER_ORG_ID_def
      KNOWN_TEST_ORG_IDS_def upt_rec)

lemma demo_activity_pair_distinct: "DEMO_ACTIVITY_BUYER_ORG_ID \<noteq> DEMO_ACTIVITY_SELLER_ORG_ID"
  by (simp add: DEMO_ACTIVITY_BUYER_ORG_ID_def DEMO_ACTIVITY_SELLER_ORG_ID_def)

lemma biofuel_is_canonical:
  "BIOFUEL_SPECIFICATION_STANDARDS k = Some st \<Longrightarrow> PRODUCTS_BY_ID k \<noteq> None"
  by (auto simp: BIOFUEL_SPECIFICATION_STANDARDS_def PRODUCTS_BY_ID_def CANONICAL_PRODUCTS_def
      B30_PRODUCT_ID_def B100_PRODUCT_ID_def split: if_splits)

text \<open>
  The SQL expression and the Python derivation of the market product agree on canonical rows.
\<close>

lemma canonical_market_product_agrees:
  "canonical_market_product_expression p = Some c \<Longrightarrow> product_market_product p = Some c"
  by (auto simp: canonical_market_product_expression_def product_market_product_def
      derive_market_product_def CANONICAL_PRODUCTS_def split: if_splits)

end
