(* ===== verification/Example_Market.thy ===== *)
theory Example_Market
  imports Catalog
begin

section \<open>A concrete market\<close>

text \<open>
  A small database on which the properties of the development are instantiated: two admitted
  organizations (supplier 41, buyer 42) with one user each, the bio-methanol product at
  Rotterdam, one inventory item of the supplier, and order and trade rows to start from.
\<close>

definition ex_metadata :: supplier_metadata where
  "ex_metadata = \<lparr>certification_declared = True, certification_scheme = Some ''ISCC EU'',
     specification_standard = Some ''iso 8217:2024 dfa'', msds_available = True,
     carbon_intensity_gco2_mj = Some 14, carbon_intensity_method = Some ''RED II'',
     energy_density_mj_kg = None, feedstock = Some ''used cooking oil'', origin = Some ''NL'',
     off_spec = False, off_spec_notes = None\<rparr>"

definition no_idempotency :: idempotency_columns where
  "no_idempotency = \<lparr>idempotency_key = None, idempotency_operation = None, idempotency_request_hash = None\<rparr>"

definition ex_product :: product where
  "ex_product = \<lparr>p_id = 0x9510c7136e395080add30a7c29657b79, p_name = ''Bio Methanol'', p_fuel_type = ''Methanol'',
     p_fuel_grade = ''Bio'', p_unit = Some ''MT'', p_min_lot_size = Some (Finite 20000 (-2)), p_is_active = True\<rparr>"

definition ex_point :: delivery_point where
  "ex_point = \<lparr>d_id = 0x1379d36c1ca955b79c0d5235a0ba1f36, d_name = ''Rotterdam'', d_region = ''Europe'',
     d_is_active = True\<rparr>"

definition ex_ask :: order where
  "ex_ask = \<lparr>o_id = 31, o_acceptance_ordinal = 1, o_organization_id = 41, o_owner_user_id = Some 11,
     o_created_by_actor_user_id = Some 11, o_creation_method = SELF_SERVICE, o_support_authorization_id = None,
     o_version = 1, o_inventory_item_id = Some 21, o_provenance = REAL, o_side = ASK,
     o_product_id = p_id ex_product, o_delivery_point_id = Some (d_id ex_point), o_port_id = None, o_vessel_id = None,
     o_quantity_mt = 500, o_remaining_quantity_mt = 500, o_price_per_mt_usd = 900,
     o_availability_window = ''SPOT'', o_delivery_window_start = None, o_delivery_window_end = None,
     o_certifications = [], o_metadata = ex_metadata, o_is_verdaxis_verified = False, o_status = OPEN,
     o_expires_at = Some 2000, o_idempotency = no_idempotency, o_created_at = 100\<rparr>"

definition ex_bid :: order where
  "ex_bid = ex_ask\<lparr>o_id := 32, o_acceptance_ordinal := 2, o_organization_id := 42, o_owner_user_id := Some 12,
     o_created_by_actor_user_id := Some 12, o_inventory_item_id := None, o_side := BID,
     o_quantity_mt := 300, o_remaining_quantity_mt := 300, o_price_per_mt_usd := 950,
     o_expires_at := None\<rparr>"

definition ex_item :: inventory_item where
  "ex_item = \<lparr>i_id = 21, i_supplier_id = Some 41, i_owner_user_id = Some 11, i_port_id = None,
     i_fuel_type = ''Methanol'', i_product_name = Some ''Bio Methanol'', i_current_stock_mt = 1000,
     i_incoming_stock_mt = 0, i_reserved_stock_mt = 500, i_price_per_mt_usd = Some 900, i_is_certified = True,
     i_metadata = ex_metadata, i_updated_at = 50\<rparr>"

definition ex_user :: "uuid \<Rightarrow> UserRole \<Rightarrow> uuid \<Rightarrow> user" where
  "ex_user k role g = \<lparr>u_id = k, u_role = Some role, u_status = APPROVED, u_organization_id = Some g,
     u_must_change_password = False, u_email_verified = True, u_kyc_status = ''PENDING'', u_kyc_organization_id = None\<rparr>"

definition ex_org :: "uuid \<Rightarrow> string \<Rightarrow> organization" where
  "ex_org k nm = \<lparr>g_id = k, g_name = nm, g_country_code = Some ''NL'', g_verification_status = ''APPROVED'',
     g_provenance = REAL\<rparr>"

definition ex_db :: market_db where
  "ex_db = \<lparr>orders = [ex_ask, ex_bid], trades = [], inventory = [ex_item],
     users = [ex_user 11 SUPPLIER 41, ex_user 12 BUYER 42],
     organizations = [ex_org 41 ''Supplier'', ex_org 42 ''Buyer''],
     products = [ex_product], delivery_points = [ex_point],
     ports = [\<lparr>pt_id = ''nl-rtm'', pt_name = ''Rotterdam'', pt_is_active = True\<rparr>], subscriptions = [], referrals = [],
     command_results = [], notifications = [], audit_log = [], outbox = [], projections = [],
     next_ordinal = 3, next_id = 1000\<rparr>"

lemma ex_ask_simps [simp]:
  "o_id ex_ask = 31"
  "o_acceptance_ordinal ex_ask = 1"
  "o_organization_id ex_ask = 41"
  "o_owner_user_id ex_ask = Some 11"
  "o_created_by_actor_user_id ex_ask = Some 11"
  "o_creation_method ex_ask = SELF_SERVICE"
  "o_support_authorization_id ex_ask = None"
  "o_version ex_ask = 1"
  "o_inventory_item_id ex_ask = Some 21"
  "o_provenance ex_ask = REAL"
  "o_side ex_ask = ASK"
  "o_product_id ex_ask = p_id ex_product"
  "o_delivery_point_id ex_ask = Some (d_id ex_point)"
  "o_port_id ex_ask = None"
  "o_vessel_id ex_ask = None"
  "o_quantity_mt ex_ask = 500"
  "o_remaining_quantity_mt ex_ask = 500"
  "o_price_per_mt_usd ex_ask = 900"
  "o_availability_window ex_ask = ''SPOT''"
  "o_delivery_window_start ex_ask = None"
  "o_delivery_window_end ex_ask = None"
  "o_certifications ex_ask = []"
  "o_metadata ex_ask = ex_metadata"
  "o_is_verdaxis_verified ex_ask = False"
  "o_status ex_ask = OPEN"
  "o_expires_at ex_ask = Some 2000"
  "o_idempotency ex_ask = no_idempotency"
  "o_created_at ex_ask = 100"
  by (simp_all add: ex_ask_def)

lemma ex_bid_simps [simp]:
  "o_id ex_bid = 32"
  "o_acceptance_ordinal ex_bid = 2"
  "o_organization_id ex_bid = 42"
  "o_owner_user_id ex_bid = Some 12"
  "o_created_by_actor_user_id ex_bid = Some 12"
  "o_creation_method ex_bid = SELF_SERVICE"
  "o_support_authorization_id ex_bid = None"
  "o_version ex_bid = 1"
  "o_inventory_item_id ex_bid = None"
  "o_provenance ex_bid = REAL"
  "o_side ex_bid = BID"
  "o_product_id ex_bid = p_id ex_product"
  "o_delivery_point_id ex_bid = Some (d_id ex_point)"
  "o_port_id ex_bid = None"
  "o_vessel_id ex_bid = None"
  "o_quantity_mt ex_bid = 300"
  "o_remaining_quantity_mt ex_bid = 300"
  "o_price_per_mt_usd ex_bid = 950"
  "o_availability_window ex_bid = ''SPOT''"
  "o_delivery_window_start ex_bid = None"
  "o_delivery_window_end ex_bid = None"
  "o_certifications ex_bid = []"
  "o_metadata ex_bid = ex_metadata"
  "o_is_verdaxis_verified ex_bid = False"
  "o_status ex_bid = OPEN"
  "o_expires_at ex_bid = None"
  "o_idempotency ex_bid = no_idempotency"
  "o_created_at ex_bid = 100"
  by (simp_all add: ex_bid_def)

lemma ex_item_simps [simp]:
  "i_id ex_item = 21"
  "i_supplier_id ex_item = Some 41"
  "i_owner_user_id ex_item = Some 11"
  "i_port_id ex_item = None"
  "i_fuel_type ex_item = ''Methanol''"
  "i_product_name ex_item = Some ''Bio Methanol''"
  "i_current_stock_mt ex_item = 1000"
  "i_incoming_stock_mt ex_item = 0"
  "i_reserved_stock_mt ex_item = 500"
  "i_price_per_mt_usd ex_item = Some 900"
  "i_is_certified ex_item = True"
  "i_metadata ex_item = ex_metadata"
  "i_updated_at ex_item = 50"
  by (simp_all add: ex_item_def)

lemma ex_db_simps [simp]:
  "orders ex_db = [ex_ask, ex_bid]"
  "trades ex_db = []"
  "inventory ex_db = [ex_item]"
  "users ex_db = [ex_user 11 SUPPLIER 41, ex_user 12 BUYER 42]"
  "organizations ex_db = [ex_org 41 ''Supplier'', ex_org 42 ''Buyer'']"
  "products ex_db = [ex_product]"
  "delivery_points ex_db = [ex_point]"
  "ports ex_db = [\<lparr>pt_id = ''nl-rtm'', pt_name = ''Rotterdam'', pt_is_active = True\<rparr>]"
  "subscriptions ex_db = []"
  "referrals ex_db = []"
  "command_results ex_db = []"
  "outbox ex_db = []"
  "next_ordinal ex_db = 3"
  "next_id ex_db = 1000"
  by (simp_all add: ex_db_def)

lemma ex_people_simps [simp]:
  "u_id (ex_user k r g) = k"
  "u_role (ex_user k r g) = Some r"
  "u_status (ex_user k r g) = APPROVED"
  "u_organization_id (ex_user k r g) = Some g"
  "u_must_change_password (ex_user k r g) = False"
  "u_email_verified (ex_user k r g) = True"
  "u_kyc_status (ex_user k r g) = ''PENDING''"
  "u_kyc_organization_id (ex_user k r g) = None"
  "g_id (ex_org k n) = k"
  "g_verification_status (ex_org k n) = ''APPROVED''"
  "g_provenance (ex_org k n) = REAL"
  by (simp_all add: ex_user_def ex_org_def)

text \<open>A second, better priced ask that is not backed by inventory.\<close>

definition ex_ask2 :: order where
  "ex_ask2 = ex_ask\<lparr>o_id := 33, o_acceptance_ordinal := 5, o_inventory_item_id := None,
     o_quantity_mt := 100, o_remaining_quantity_mt := 100, o_price_per_mt_usd := 890\<rparr>"

lemma ex_ask2_simps [simp]:
  "o_id ex_ask2 = 33" "o_acceptance_ordinal ex_ask2 = 5" "o_inventory_item_id ex_ask2 = None"
  "o_quantity_mt ex_ask2 = 100" "o_remaining_quantity_mt ex_ask2 = 100" "o_price_per_mt_usd ex_ask2 = 890"
  "o_organization_id ex_ask2 = 41" "o_owner_user_id ex_ask2 = Some 11" "o_creation_method ex_ask2 = SELF_SERVICE"
  "o_provenance ex_ask2 = REAL" "o_side ex_ask2 = ASK" "o_product_id ex_ask2 = p_id ex_product"
  "o_delivery_point_id ex_ask2 = Some (d_id ex_point)" "o_availability_window ex_ask2 = ''SPOT''"
  "o_certifications ex_ask2 = []" "o_metadata ex_ask2 = ex_metadata" "o_status ex_ask2 = OPEN"
  "o_expires_at ex_ask2 = Some 2000"
  by (simp_all add: ex_ask2_def)

definition ex_db2 :: market_db where
  "ex_db2 = ex_db\<lparr>orders := [ex_ask, ex_bid, ex_ask2]\<rparr>"

lemma ex_db2_simps [simp]:
  "orders ex_db2 = [ex_ask, ex_bid, ex_ask2]" "trades ex_db2 = []" "inventory ex_db2 = [ex_item]"
  "users ex_db2 = [ex_user 11 SUPPLIER 41, ex_user 12 BUYER 42]"
  "organizations ex_db2 = [ex_org 41 ''Supplier'', ex_org 42 ''Buyer'']"
  "subscriptions ex_db2 = []" "next_id ex_db2 = 1000"
  by (simp_all add: ex_db2_def)

lemmas ex_defs = ex_db_def ex_ask_def ex_bid_def ex_item_def ex_user_def ex_org_def ex_metadata_def
  ex_product_def ex_point_def no_idempotency_def

end
