(* ===== verification/Policy.thy ===== *)
theory Policy
  imports Example_Market
begin

section \<open>Who may trade with whom, and on what terms\<close>

text \<open>
  The admission rules every executable mutation goes through:
  \<^verbatim>\<open>services/provenance.py\<close>, \<^verbatim>\<open>services/execution_policy.py\<close>,
  \<^verbatim>\<open>services/market_admission.py\<close>, \<^verbatim>\<open>middleware/execution.py\<close>,
  \<^verbatim>\<open>services/trade_fees.py\<close>, \<^verbatim>\<open>services/order_quantity.py\<close> and
  \<^verbatim>\<open>schemas/market_integrity.py\<close> (all under \<^verbatim>\<open>src/app/\<close>). They read the tables of users,
  organizations and subscriptions and change nothing, so they are functions of the state.
  Row locks taken on the way only delay the request; what they guarantee, that the rows read
  are the committed ones, is how the state argument is used.

  The lemmas give the exact meaning of a successful admission, show that provenance never
  mixes, and that the SQL mirror of the biofuel rule agrees with the Python rule.
\<close>

subsection \<open>Provenance\<close>

definition provenance_value :: "OrganizationProvenance \<Rightarrow> string" where
  "provenance_value p = (case p of UNKNOWN \<Rightarrow> ''UNKNOWN'' | REAL \<Rightarrow> ''REAL'' | DEMO \<Rightarrow> ''DEMO''
     | TEST \<Rightarrow> ''TEST'' | CANARY \<Rightarrow> ''CANARY'')"

text \<open>A raw column value; the typed columns of the model pass through unchanged.\<close>

definition coerce_provenance :: "string option \<Rightarrow> OrganizationProvenance" where
  "coerce_provenance v = (case v of None \<Rightarrow> UNKNOWN
     | Some s \<Rightarrow> (case find (\<lambda>p. provenance_value p = s) [UNKNOWN, REAL, DEMO, TEST, CANARY] of
         Some p \<Rightarrow> p | None \<Rightarrow> UNKNOWN))"

definition classify_organization_provenance :: "uuid option \<Rightarrow> OrganizationProvenance" where
  "classify_organization_provenance g =
     (case g of None \<Rightarrow> UNKNOWN
      | Some k \<Rightarrow> if k \<in> set DEMO_MARKET_ORG_IDS then DEMO
                  else if k \<in> set KNOWN_TEST_ORG_IDS then TEST else UNKNOWN)"

definition snapshot_organization_provenance :: "organization option \<Rightarrow> OrganizationProvenance" where
  "snapshot_organization_provenance g = (case g of None \<Rightarrow> UNKNOWN | Some x \<Rightarrow> g_provenance x)"

definition execution_provenance_compatible ::
  "OrganizationProvenance \<Rightarrow> OrganizationProvenance \<Rightarrow> uuid option \<Rightarrow> uuid option \<Rightarrow> uuid set option \<Rightarrow> bool"
where
  "execution_provenance_compatible left right left_org right_org pair =
     (if (left, right) = (REAL, REAL) then True
      else if (left, right) \<noteq> (DEMO, DEMO) then False
      else case (left_org, right_org, pair) of
        (Some l, Some r, Some p) \<Rightarrow> {l, r} = p
      | _ \<Rightarrow> False)"

lemma coerce_provenance_value [simp]: "coerce_provenance (Some (provenance_value p)) = p"
  by (cases p) (simp_all add: coerce_provenance_def provenance_value_def)

lemma provenance_compatible_cases:
  "execution_provenance_compatible l r (Some a) (Some b) (Some DEMO_ACTIVITY_ORG_IDS) \<longleftrightarrow>
     l = REAL \<and> r = REAL \<or> l = DEMO \<and> r = DEMO \<and> {a, b} = DEMO_ACTIVITY_ORG_IDS"
  by (auto simp: execution_provenance_compatible_def)

subsection \<open>Execution eligibility\<close>

definition execution_party_is_eligible :: "market_db \<Rightarrow> user option \<Rightarrow> organization option \<Rightarrow> bool" where
  "execution_party_is_eligible s user_row organization_row =
     (case user_row of None \<Rightarrow> False | Some u \<Rightarrow>
      case u_organization_id u of None \<Rightarrow> False | Some k \<Rightarrow>
        (u_role u = Some BUYER \<or> u_role u = Some SUPPLIER)
        \<and> u_status u = APPROVED \<and> u_email_verified u
        \<and> \<not> u_must_change_password u
        \<and> u_kyc_status u \<noteq> ''REJECTED''
        \<and> (u_kyc_organization_id u = None \<or> u_kyc_organization_id u = Some k)
        \<and> (case (case organization_row of None \<Rightarrow> organization_of k s | Some g \<Rightarrow> Some g) of
             None \<Rightarrow> False
           | Some g \<Rightarrow> g_id g = k \<and> g_verification_status g = ''APPROVED''))"

definition order_owner_is_execution_eligible ::
  "market_db \<Rightarrow> order \<Rightarrow> user option \<Rightarrow> organization option \<Rightarrow> bool" where
  "order_owner_is_execution_eligible s ord user_row organization_row =
     (if o_creation_method ord \<noteq> MARKET_SUPPORT
      then execution_party_is_eligible s user_row organization_row
      else case (user_row, organization_row) of
        (Some u, Some g) \<Rightarrow>
          Some (u_id u) = o_created_by_actor_user_id ord
          \<and> o_created_by_actor_user_id ord = o_owner_user_id ord
          \<and> u_role u = Some ADMIN \<and> u_status u = APPROVED
          \<and> g_id g = o_organization_id ord
          \<and> g_verification_status g = ''APPROVED'' \<and> g_provenance g = REAL
      | _ \<Rightarrow> False)"

definition normalize_certification_scheme :: "string option \<Rightarrow> string option" where
  "normalize_certification_scheme v =
     (case v of None \<Rightarrow> None
      | Some x \<Rightarrow> (let n = py_upper (py_strip x) in if n = [] then None else Some n))"

definition supplier_product_metadata_error ::
  "uuid option \<Rightarrow> string option \<Rightarrow> string option \<Rightarrow> string option" where
  "supplier_product_metadata_error pid standard ci_method =
     (case Option.bind pid BIOFUEL_SPECIFICATION_STANDARDS of None \<Rightarrow> None
      | Some required \<Rightarrow>
          (let name = (case Option.bind pid PRODUCTS_BY_ID of None \<Rightarrow> [] | Some sp \<Rightarrow> ps_name sp) in
           if py_upper (py_strip (or_empty standard)) \<noteq> required
           then Some (name @ '' ASK orders require specification_standard '' @ required)
           else if py_strip (or_empty ci_method) = []
           then Some (name @ '' ASK orders require a lifecycle carbon_intensity_method for the whole supplied fuel'')
           else None))"

definition order_is_execution_qualified :: "order \<Rightarrow> bool" where
  "order_is_execution_qualified ord =
     (let m = o_metadata ord in
      if off_spec m then False
      else if o_side ord = ASK then
        normalize_certification_scheme (certification_scheme m) \<noteq> None
        \<and> certification_declared m
        \<and> (BIOFUEL_SPECIFICATION_STANDARDS (o_product_id ord) \<noteq> None \<longrightarrow>
             supplier_product_metadata_error (Some (o_product_id ord)) (specification_standard m)
               (carbon_intensity_method m) = None
             \<and> msds_available m \<and> carbon_intensity_gco2_mj m \<noteq> None
             \<and> py_strip (or_empty (feedstock m)) \<noteq> [] \<and> py_strip (or_empty (origin m)) \<noteq> [])
      else True)"

definition orders_execution_compatible :: "order \<Rightarrow> order \<Rightarrow> bool" where
  "orders_execution_compatible left right =
     (if \<not> order_is_execution_qualified left \<or> \<not> order_is_execution_qualified right then False
      else
        let bid_order = (if o_side left = BID then left else right);
            ask_order = (if o_side left = BID then right else left) in
        case normalize_certification_scheme (certification_scheme (o_metadata ask_order)) of
          None \<Rightarrow> True
        | Some ask_scheme \<Rightarrow>
            let bid_certifications =
              List.map_filter (\<lambda>c. normalize_certification_scheme (Some c)) (o_certifications bid_order) in
            if bid_certifications \<noteq> [] then ask_scheme \<in> set bid_certifications
            else case normalize_certification_scheme (certification_scheme (o_metadata bid_order)) of
              None \<Rightarrow> True
            | Some bid_scheme \<Rightarrow> bid_scheme = ask_scheme)"

lemma compatible_sides_symmetric:
  "o_side left \<noteq> o_side right \<Longrightarrow> orders_execution_compatible left right = orders_execution_compatible right left"
  by (cases "o_side left"; cases "o_side right") (auto simp: orders_execution_compatible_def Let_def)

subsection \<open>The SQL mirror of the biofuel rule\<close>

text \<open>\<^verbatim>\<open>func.trim(x, " \t\r\n\f\v")\<close>; a comparison with a NULL operand is not true.\<close>

definition sql_space :: "char \<Rightarrow> bool" where
  "sql_space c \<longleftrightarrow> (let n = of_char c :: nat in n = 32 \<or> (9 \<le> n \<and> n \<le> 13))"

definition sql_trim :: "string \<Rightarrow> string" where
  "sql_trim s = rev (dropWhile sql_space (rev (dropWhile sql_space s)))"

definition sql_nonblank :: "string option \<Rightarrow> bool" where
  "sql_nonblank v = (case v of None \<Rightarrow> False | Some s \<Rightarrow> 0 < length (sql_trim s))"

definition biofuel_supplier_metadata_clause :: "supplier_metadata \<Rightarrow> uuid \<Rightarrow> bool" where
  "biofuel_supplier_metadata_clause m pid \<longleftrightarrow>
     BIOFUEL_SPECIFICATION_STANDARDS pid = None
     \<or> (\<not> off_spec m
        \<and> (case (BIOFUEL_SPECIFICATION_STANDARDS pid, specification_standard m) of
             (Some standard, Some st) \<Rightarrow> py_upper (sql_trim st) = standard | _ \<Rightarrow> False)
        \<and> sql_nonblank (carbon_intensity_method m)
        \<and> certification_declared m
        \<and> sql_nonblank (certification_scheme m)
        \<and> msds_available m
        \<and> carbon_intensity_gco2_mj m \<noteq> None
        \<and> sql_nonblank (feedstock m)
        \<and> sql_nonblank (origin m))"

text \<open>
  Python's \<open>strip\<close> also removes the separators 28 to 31, which the SQL trim keeps; the two
  rules agree on texts without them.
\<close>

definition no_separators :: "string option \<Rightarrow> bool" where
  "no_separators v = list_all (\<lambda>c. let n = of_char c :: nat in \<not> (28 \<le> n \<and> n \<le> 31 \<or> n = 133 \<or> n = 160)) (or_empty v)"

lemma sql_trim_eq_strip: "no_separators (Some s) \<Longrightarrow> sql_trim s = py_strip s"
proof -
  assume "no_separators (Some s)"
  then have eq: "sql_space c = is_space c" if "c \<in> set s" for c
    using that by (auto simp: no_separators_def or_empty_def list_all_iff sql_space_def is_space_def Let_def)
  then have d: "dropWhile sql_space s = dropWhile is_space s"
    by (intro dropWhile_cong) auto
  have "set (rev (dropWhile is_space s)) \<subseteq> set s" using set_dropWhileD by fastforce
  with eq have "dropWhile sql_space (rev (dropWhile is_space s)) = dropWhile is_space (rev (dropWhile is_space s))"
    by (intro dropWhile_cong) auto
  then show ?thesis by (simp add: sql_trim_def py_strip_def d)
qed

lemma sql_nonblank_strip: "no_separators v \<Longrightarrow> sql_nonblank v \<longleftrightarrow> py_strip (or_empty v) \<noteq> []"
  using sql_trim_eq_strip
  by (cases v) (auto simp: sql_nonblank_def or_empty_def py_strip_def)

lemma scheme_strip: "normalize_certification_scheme v \<noteq> None \<longleftrightarrow> py_strip (or_empty v) \<noteq> []"
  by (cases v) (auto simp: normalize_certification_scheme_def or_empty_def Let_def py_strip_def)

subsection \<open>Admission under the locks\<close>

record MarketActorOwnership =
  mo_user_id :: uuid
  mo_organization_id :: uuid

text \<open>\<open>{ownership.user_id: ownership.organization_id}\<close>: a later entry for a user wins.\<close>

fun AList_keys_last :: "('k \<times> 'v) list \<Rightarrow> ('k \<times> 'v) list" where
  "AList_keys_last [] = []"
| "AList_keys_last ((k, v) # xs) = (if k \<in> fst ` set xs then AList_keys_last xs else (k, v) # AList_keys_last xs)"

definition ownership_by_user :: "MarketActorOwnership list \<Rightarrow> (uuid \<times> uuid) list" where
  "ownership_by_user owns = AList_keys_last (map (\<lambda>x. (mo_user_id x, mo_organization_id x)) owns)"

definition lock_and_load_market_organizations ::
  "market_db \<Rightarrow> uuid list \<Rightarrow> MarketActorOwnership list \<Rightarrow> bool \<Rightarrow> uuid list \<Rightarrow> (uuid \<rightharpoonup> organization) result"
where
  "lock_and_load_market_organizations s ids owns require_approved require_approved_ids =
     (if ids = [] then Inr Map.empty
      else
        let owned = ownership_by_user owns;
            approved_ids = (if require_approved then set ids else set require_approved_ids) in
        bindR (refuse (list_ex (\<lambda>(u, g). user_of u s = None) owned)
                 (HTTPException 409 ''Market user no longer exists'')) (\<lambda>_.
        bindR (refuse (list_ex (\<lambda>(u, g). case user_of u s of None \<Rightarrow> True
                                 | Some x \<Rightarrow> u_organization_id x \<noteq> Some g) owned)
                 (HTTPException 409 ''Market user organization ownership changed'')) (\<lambda>_.
        bindR (refuse (list_ex (\<lambda>k. organization_of k s = None) ids)
                 (HTTPException 409 ''Market organization no longer exists'')) (\<lambda>_.
        bindR (refuse (list_ex (\<lambda>k. k \<in> approved_ids \<and>
                         (case organization_of k s of None \<Rightarrow> False
                          | Some g \<Rightarrow> py_upper (g_verification_status g) \<noteq> ''APPROVED'')) ids)
                 (HTTPException 409 ''Organization is not approved for market activity'')) (\<lambda>_.
        bindR (refuse (list_ex (\<lambda>(u, g). g \<notin> set ids) owned) KeyError) (\<lambda>_.
        bindR (refuse (list_ex (\<lambda>(u, g). \<not> execution_party_is_eligible s (user_of u s) (organization_of g s)) owned)
                 (HTTPException 409 ''User is not approved for market activity'')) (\<lambda>_.
        Inr (\<lambda>k. if k \<in> set ids then organization_of k s else None))))))))"

definition assert_market_participant_provenance :: "organization \<Rightarrow> unit result" where
  "assert_market_participant_provenance g =
     (if g_provenance g = REAL then Inr ()
      else if g_provenance g = DEMO \<and> g_id g \<in> DEMO_ACTIVITY_ORG_IDS then Inr ()
      else Inl (HTTPException 409 ''Organization provenance is not eligible for market activity''))"

definition assert_market_pair_provenance :: "organization \<Rightarrow> organization \<Rightarrow> unit result" where
  "assert_market_pair_provenance left right =
     (if execution_provenance_compatible (g_provenance left) (g_provenance right)
           (Some (g_id left)) (Some (g_id right)) (Some DEMO_ACTIVITY_ORG_IDS)
      then Inr ()
      else Inl (HTTPException 409 ''Market parties do not have compatible provenance''))"

definition require_execution_eligible_user :: "market_db \<Rightarrow> user \<Rightarrow> user result" where
  "require_execution_eligible_user s u =
     (if u_role u = Some ADMIN
      then Inl (HTTPException 403 ''Administrators cannot execute market actions'')
      else let g = (case u_organization_id u of None \<Rightarrow> None | Some k \<Rightarrow> organization_of k s) in
        if \<not> execution_party_is_eligible s (Some u) g
        then Inl (HTTPException 403 ''Execution access is not available'')
        else Inr u)"

subsection \<open>Seller fees\<close>

record Settings =
  SELLER_FEE_PILOT_PER_MT_USD :: dec
  SELLER_FEE_PROFESSIONAL_PER_MT_USD :: dec

definition configured_fee_for_tier :: "Settings \<Rightarrow> SubscriptionTier \<Rightarrow> dec option \<Rightarrow> dec result" where
  "configured_fee_for_tier cfg tier negotiated_rate =
     (if tier = FREE then Inr (SELLER_FEE_PILOT_PER_MT_USD cfg)
      else if tier = STANDARD then Inr (SELLER_FEE_PROFESSIONAL_PER_MT_USD cfg)
      else case negotiated_rate of Some r \<Rightarrow> Inr r
        | None \<Rightarrow> Inl (HTTPException 409 ''Seller transaction fee is not configured; contact Verdaxis support''))"

definition parse_tier :: "string \<Rightarrow> SubscriptionTier option" where
  "parse_tier v = find (\<lambda>t. tier_value t = v) [FREE, STANDARD, ENTERPRISE]"

definition resolve_seller_trade_fee ::
  "Settings \<Rightarrow> market_db \<Rightarrow> uuid \<Rightarrow> time \<Rightarrow> (SubscriptionTier \<times> dec) result" where
  "resolve_seller_trade_fee cfg s seller now =
     (let free = bindR (configured_fee_for_tier cfg FREE None) (\<lambda>fee. Inr (FREE, fee)) in
      case find (\<lambda>x. s_org_id x = seller) (subscriptions s) of
        None \<Rightarrow> free
      | Some x \<Rightarrow>
          if \<not> s_is_active x \<or> (case s_expires_at x of None \<Rightarrow> False | Some e \<Rightarrow> e \<le> now) then free
          else case parse_tier (s_tier x) of
            None \<Rightarrow> Inl (HTTPException 409 ''Seller subscription tier is invalid; contact Verdaxis support'')
          | Some tier \<Rightarrow>
              bindR (configured_fee_for_tier cfg tier (s_seller_fee_per_mt_usd x)) (\<lambda>fee. Inr (tier, fee)))"

definition public_fee_schedule :: "Settings \<Rightarrow> dec \<times> (SubscriptionTier \<times> dec option) list" where
  "public_fee_schedule cfg =
     (0, [(FREE, Some (SELLER_FEE_PILOT_PER_MT_USD cfg)),
          (STANDARD, Some (SELLER_FEE_PROFESSIONAL_PER_MT_USD cfg)), (ENTERPRISE, None)])"

text \<open>The default configuration of \<^verbatim>\<open>src/app/config.py\<close>.\<close>

definition ex_cfg :: Settings where
  "ex_cfg = \<lparr>SELLER_FEE_PILOT_PER_MT_USD = 2, SELLER_FEE_PROFESSIONAL_PER_MT_USD = 3 / 2\<rparr>"

subsection \<open>Quantities crossing the API\<close>

definition finite_decimal :: "pydecimal \<Rightarrow> int \<Rightarrow> pydecimal result" where
  "finite_decimal v scale =
     (case v of Finite c e \<Rightarrow>
        if - e > scale then Inl (ValueError ''supports at most 2 decimal places'') else Inr v
      | _ \<Rightarrow> Inl (ValueError ''must be finite''))"

definition aware_datetime :: "(time \<times> bool) option \<Rightarrow> time option result" where
  "aware_datetime v = (case v of None \<Rightarrow> Inr None
     | Some (t, aware) \<Rightarrow> if aware then Inr (Some t) else Inl (ValueError ''expires_at must be timezone-aware''))"

definition future_aware_datetime :: "time \<Rightarrow> (time \<times> bool) option \<Rightarrow> time option result" where
  "future_aware_datetime now v = bindR (aware_datetime v) (\<lambda>t. case t of
       Some x \<Rightarrow> if x \<le> now then Inl (ValueError ''expires_at must be in the future'') else Inr (Some x)
     | None \<Rightarrow> Inr None)"

text \<open>The value of a decimal that passed \<open>finite_decimal\<close>.\<close>

fun pydec_val :: "pydecimal \<Rightarrow> dec" where
  "pydec_val (Finite c e) = dec_value c e"
| "pydec_val _ = 0"

definition require_minimum_order_quantity :: "pydecimal \<Rightarrow> product \<Rightarrow> dec result" where
  "require_minimum_order_quantity quantity_mt pr =
     (case finite_decimal quantity_mt 2 of
        Inl _ \<Rightarrow> Inl (HTTPException 400 ''quantity_mt must be finite with at most 2 decimal places'')
      | Inr q \<Rightarrow>
          if pydec_val q \<le> 0 then Inl (HTTPException 400 ''Order quantity must be positive'')
          else case p_min_lot_size pr of
            None \<Rightarrow> Inl (HTTPException 409 ''Product minimum lot is unavailable'')
          | Some raw \<Rightarrow>
              (case finite_decimal raw 2 of
                 Inl _ \<Rightarrow> Inl (HTTPException 409 ''Product minimum lot is unavailable'')
               | Inr minimum \<Rightarrow>
                   if pydec_val minimum \<le> 0 then Inl (HTTPException 409 ''Product minimum lot is unavailable'')
                   else if pydec_val q < pydec_val minimum
                   then Inl (HTTPException 400 ''Order quantity must be at least the minimum lot'')
                   else Inr (pydec_val q)))"

subsection \<open>Properties\<close>

lemma scale2_dec_value: "- e \<le> 2 \<Longrightarrow> scale2 (dec_value c e)"
proof (cases "0 \<le> e")
  case True
  then have "dec_value c e = of_int (c * 10 ^ nat e * 100) / 100" by (simp add: dec_value_def)
  then show ?thesis unfolding scale2_iff by blast
next
  case False
  moreover assume "- e \<le> 2"
  ultimately have "e = -1 \<or> e = -2" by linarith
  then have "dec_value c e = of_int (c * 10) / 100 \<or> dec_value c e = of_int c / 100"
    by (auto simp: dec_value_def power2_eq_square)
  then show ?thesis unfolding scale2_iff by blast
qed

lemma finite_decimal_Inr: "finite_decimal v 2 = Inr w \<Longrightarrow> w = v \<and> scale2 (pydec_val v)"
  by (cases v) (auto simp: finite_decimal_def scale2_dec_value split: if_splits)

text \<open>A quantity admitted for a product is positive, has at most two decimal places and is at
  least the product's own positive minimum lot; in every other case the request is refused
  with 400 (the caller's quantity) or 409 (the catalogue row).\<close>

lemma minimum_quantity_admission:
  "case require_minimum_order_quantity qty pr of
     Inr q \<Rightarrow> (\<exists>c e cm em. qty = Finite c e \<and> q = dec_value c e \<and> scale2 q \<and>
                p_min_lot_size pr = Some (Finite cm em) \<and> 0 < dec_value cm em \<and> dec_value cm em \<le> q)
   | Inl err \<Rightarrow> (\<exists>d. err = HTTPException 400 d \<or> err = HTTPException 409 d)"
proof (cases "require_minimum_order_quantity qty pr")
  case (Inl e)
  then show ?thesis
    by (auto simp: require_minimum_order_quantity_def split: if_splits sum.splits option.splits)
next
  case (Inr q)
  then obtain c e where qty: "qty = Finite c e" "- e \<le> 2" "q = dec_value c e"
    by (auto simp: require_minimum_order_quantity_def finite_decimal_def
        split: if_splits option.splits pydecimal.splits sum.splits)
  obtain cm em where "p_min_lot_size pr = Some (Finite cm em)" "0 < dec_value cm em" "dec_value cm em \<le> q"
    using Inr by (auto simp: require_minimum_order_quantity_def finite_decimal_def
        split: if_splits option.splits pydecimal.splits sum.splits)
  with qty Inr show ?thesis using scale2_dec_value [of e c] by auto
qed

text \<open>C18: for an ASK on a fixed-standard biofuel whose five free texts contain none of the characters that
  Python strips and the SQL trim does not (the separators 28 to 31, NEL and the no-break space), the SQL clause used by the
  public market projections accepts the row exactly when \<open>order_is_execution_qualified\<close> does.\<close>

theorem biofuel_clause_mirrors_policy:
  assumes "o_side ord = ASK" "BIOFUEL_SPECIFICATION_STANDARDS (o_product_id ord) \<noteq> None"
    and "no_separators (specification_standard (o_metadata ord))"
    and "no_separators (carbon_intensity_method (o_metadata ord))"
    and "no_separators (certification_scheme (o_metadata ord))"
    and "no_separators (feedstock (o_metadata ord))" "no_separators (origin (o_metadata ord))"
  shows "biofuel_supplier_metadata_clause (o_metadata ord) (o_product_id ord) \<longleftrightarrow>
    order_is_execution_qualified ord"
proof -
  obtain standard where std: "BIOFUEL_SPECIFICATION_STANDARDS (o_product_id ord) = Some standard"
    using assms(2) by blast
  then have ne: "standard \<noteq> []"
    by (auto simp: BIOFUEL_SPECIFICATION_STANDARDS_def split: if_splits)
  have spec: "(case specification_standard (o_metadata ord) of Some st \<Rightarrow> py_upper (sql_trim st) = standard | None \<Rightarrow> False)
      \<longleftrightarrow> py_upper (py_strip (or_empty (specification_standard (o_metadata ord)))) = standard"
    using assms(3) ne sql_trim_eq_strip
    by (cases "specification_standard (o_metadata ord)") (auto simp: or_empty_def py_strip_def py_upper_def)
  have err: "supplier_product_metadata_error (Some (o_product_id ord)) (specification_standard (o_metadata ord))
      (carbon_intensity_method (o_metadata ord)) = None \<longleftrightarrow>
      py_upper (py_strip (or_empty (specification_standard (o_metadata ord)))) = standard \<and>
      py_strip (or_empty (carbon_intensity_method (o_metadata ord))) \<noteq> []"
    by (simp add: supplier_product_metadata_error_def std Let_def)
  show ?thesis
    using spec assms(1) scheme_strip [of "certification_scheme (o_metadata ord)"]
    by (auto simp: biofuel_supplier_metadata_clause_def order_is_execution_qualified_def std err Let_def
        sql_nonblank_strip [OF assms(4)] sql_nonblank_strip [OF assms(5)] sql_nonblank_strip [OF assms(6)]
        sql_nonblank_strip [OF assms(7)] split: option.splits)
qed

theorem biofuel_clause_mirrors_policy_witness:
  "biofuel_supplier_metadata_clause ex_metadata B100_PRODUCT_ID \<longleftrightarrow>
    order_is_execution_qualified (ex_ask\<lparr>o_product_id := B100_PRODUCT_ID\<rparr>)"
  using biofuel_clause_mirrors_policy [of "ex_ask\<lparr>o_product_id := B100_PRODUCT_ID\<rparr>"]
  by (simp add: ex_ask_def ex_metadata_def BIOFUEL_SPECIFICATION_STANDARDS_def no_separators_def or_empty_def)

text \<open>The fee a trade is charged is the published rate of the seller's effective plan: the
  pilot rate without an active subscription or on the free tier, the professional rate on the
  standard tier, and on the enterprise tier the rate negotiated in an active, unexpired
  subscription. A seller whose plan has no rate is refused with 409.\<close>

lemma seller_fee_follows_plan:
  "case resolve_seller_trade_fee cfg s seller now of
     Inr (tier, fee) \<Rightarrow>
       (tier = FREE \<longrightarrow> fee = SELLER_FEE_PILOT_PER_MT_USD cfg) \<and>
       (tier = STANDARD \<longrightarrow> fee = SELLER_FEE_PROFESSIONAL_PER_MT_USD cfg) \<and>
       (tier \<noteq> FREE \<longrightarrow> (\<exists>x\<in>set (subscriptions s). s_org_id x = seller \<and> s_is_active x \<and>
           s_tier x = tier_value tier \<and> (\<forall>e. s_expires_at x = Some e \<longrightarrow> now < e) \<and>
           (tier = ENTERPRISE \<longrightarrow> s_seller_fee_per_mt_usd x = Some fee)))
   | Inl err \<Rightarrow> (\<exists>d. err = HTTPException 409 d)"
proof -
  have tier: "parse_tier v = Some t \<Longrightarrow> tier_value t = v" for v t
    by (auto simp: parse_tier_def split: if_splits)
  show ?thesis
    by (auto simp: resolve_seller_trade_fee_def configured_fee_for_tier_def Let_def find_Some_iff not_le
        dest!: tier split: sum.splits option.splits if_splits SubscriptionTier.splits)
qed

end
