(* ===== verification/Windows.thy ===== *)
theory Windows
  imports Prelude
begin

section \<open>Availability windows\<close>

text \<open>
  \<^verbatim>\<open>src/app/services/availability_windows.py\<close>: the delivery windows of a market slice
  (\<open>SPOT\<close>, \<open>YYYY-MM\<close>, \<open>YYYY-QN\<close>, \<open>YYYY-CAL\<close>), their normalisation, the windows open for
  new orders on a given day, and the instant at which a window expires.

  A \<open>date\<close> is the triple of its year, month and day; \<open>date_ordinal\<close> is the proleptic
  Gregorian ordinal of Python's \<open>datetime\<close>, and instants are microseconds from the epoch.
  The lemmas show that normalisation is a projection onto the canonical spellings, that the
  printed windows parse back, and that an open window always has a later expiry.
\<close>

subsection \<open>Decimal digits\<close>

definition is_digit :: "char \<Rightarrow> bool" where
  "is_digit c \<longleftrightarrow> (let n = of_char c :: nat in 48 \<le> n \<and> n \<le> 57)"

definition digit_val :: "char \<Rightarrow> nat" where
  "digit_val c = of_char c - 48"

definition digit_char :: "nat \<Rightarrow> char" where
  "digit_char n = char_of (48 + n)"

text \<open>\<open>str(n)\<close>, and \<open>f"{n:02d}"\<close>.\<close>

fun show_nat :: "nat \<Rightarrow> string" where
  "show_nat n = (if n < 10 then [digit_char n] else show_nat (n div 10) @ [digit_char (n mod 10)])"

declare show_nat.simps [simp del]

definition show_02d :: "nat \<Rightarrow> string" where
  "show_02d n = (if n < 10 then ''0'' @ show_nat n else show_nat n)"

lemma digit_val_char [simp]: "n < 10 \<Longrightarrow> digit_val (digit_char n) = n"
  by (simp add: digit_val_def digit_char_def of_char_of)

lemma is_digit_char [simp]: "n < 10 \<Longrightarrow> is_digit (digit_char n)"
  by (simp add: is_digit_def digit_char_def of_char_of Let_def)

lemma show_nat_4:
  assumes "1000 \<le> n" "n \<le> 9999"
  shows "show_nat n = [digit_char (n div 1000), digit_char (n div 100 mod 10),
                       digit_char (n div 10 mod 10), digit_char (n mod 10)]"
proof -
  have "n div 1000 < 10" "\<not> n div 100 < 10" "\<not> n div 10 < 10" "\<not> n < 10"
    using assms by linarith+
  then show ?thesis
    by (simp add: show_nat.simps [of n] show_nat.simps [of "n div 10"]
        show_nat.simps [of "n div 100"] show_nat.simps [of "n div 1000"] flip: div_mult2_eq)
qed

lemma digit_char_0: "CHR ''0'' = digit_char 0"
  by code_simp

lemma show_02d_2: "n < 100 \<Longrightarrow> show_02d n = [digit_char (n div 10), digit_char (n mod 10)]"
  by (auto simp: show_02d_def show_nat.simps [of n] show_nat.simps [of "n div 10"] digit_char_0)

lemma show_nat_1: "n < 10 \<Longrightarrow> show_nat n = [digit_char n]"
  by (simp add: show_nat.simps)

subsection \<open>Calendar dates\<close>

type_synonym date = "int \<times> nat \<times> nat"

definition is_leap :: "int \<Rightarrow> bool" where
  "is_leap y \<longleftrightarrow> y mod 4 = 0 \<and> (y mod 100 \<noteq> 0 \<or> y mod 400 = 0)"

definition month_days :: "int \<Rightarrow> nat \<Rightarrow> nat" where
  "month_days y m =
     (if m = 2 then (if is_leap y then 29 else 28)
      else if m \<in> {4, 6, 9, 11} then 30 else 31)"

definition days_before_year :: "int \<Rightarrow> int" where
  "days_before_year y = (y - 1) * 365 + (y - 1) div 4 - (y - 1) div 100 + (y - 1) div 400"

definition days_before_month :: "int \<Rightarrow> nat \<Rightarrow> int" where
  "days_before_month y m = (\<Sum>k\<leftarrow>[1..<m]. int (month_days y k))"

definition date_ordinal :: "date \<Rightarrow> int" where
  "date_ordinal x = (case x of (y, m, d) \<Rightarrow> days_before_year y + days_before_month y m + int d)"

definition valid_date :: "date \<Rightarrow> bool" where
  "valid_date x = (case x of (y, m, d) \<Rightarrow>
     1 \<le> y \<and> y \<le> 9999 \<and> 1 \<le> m \<and> m \<le> 12 \<and> 1 \<le> d \<and> d \<le> month_days y m)"

text \<open>The constructor \<open>date(y, m, d)\<close>, and midnight UTC at the start of an ordinal day.\<close>

definition make_date :: "int \<Rightarrow> nat \<Rightarrow> nat \<Rightarrow> date result" where
  "make_date y m d = (if valid_date (y, m, d) then Inr (y, m, d) else Inl (ValueError ''year is out of range''))"

definition day_us :: int where
  "day_us = 86400000000"

definition midnight :: "int \<Rightarrow> time" where
  "midnight ordinal = (ordinal - 719163) * day_us"

definition max_ordinal :: int where
  "max_ordinal = 3652059"

lemma leap_count:
  fixes y :: int
  assumes "y mod 400 = 0 \<Longrightarrow> y mod 100 = 0" "y mod 100 = 0 \<Longrightarrow> y mod 4 = 0"
    and q: "q4 = a + (if y mod 4 = 0 then 1 else 0)" "q100 = b + (if y mod 100 = 0 then 1 else 0)"
      "q400 = c + (if y mod 400 = 0 then 1 else 0)"
  shows "y * 365 + q4 - q100 + q400 = (y - 1) * 365 + a - b + c
    + (if y mod 4 = 0 \<and> (y mod 100 \<noteq> 0 \<or> y mod 400 = 0) then 366 else 365)"
  using assms(1,2) unfolding q
  by (cases "y mod 4 = 0"; cases "y mod 100 = 0"; cases "y mod 400 = 0"; simp)

lemma days_before_year_Suc:
  "days_before_year (y + 1) = days_before_year y + (if is_leap y then 366 else 365)"
proof -
  have step: "y div k = (y - 1) div k + (if y mod k = 0 then 1 else 0)" if "0 < k" for k :: int
  proof -
    have "y = y div k * k + y mod k" by simp
    moreover have "0 \<le> y mod k" "y mod k < k" using that by simp_all
    ultimately show ?thesis
    proof (cases "y mod k = 0")
      case True
      then have "y - 1 = (k - 1) + (y div k - 1) * k"
        using \<open>y = y div k * k + y mod k\<close> by (simp add: algebra_simps)
      then have "(y - 1) div k = ((k - 1) + (y div k - 1) * k) div k" by (rule arg_cong)
      also have "\<dots> = (y div k - 1) + (k - 1) div k" using that by (simp add: div_mult_self1)
      also have "(k - 1) div k = 0" using that by simp
      finally show ?thesis using True by simp
    next
      case False
      then have "y - 1 = (y mod k - 1) + y div k * k" by simp
      then have "(y - 1) div k = ((y mod k - 1) + y div k * k) div k" by (rule arg_cong)
      also have "\<dots> = y div k + (y mod k - 1) div k" using that by (simp add: div_mult_self1)
      also have "(y mod k - 1) div k = 0"
        using False \<open>0 \<le> y mod k\<close> \<open>y mod k < k\<close> by (simp add: div_pos_pos_trivial)
      finally show ?thesis using False by simp
    qed
  qed
  have "y mod 400 = 0 \<Longrightarrow> y mod 100 = 0" and "y mod 100 = 0 \<Longrightarrow> y mod 4 = 0"
    using mod_mod_cancel [of 100 400 y] mod_mod_cancel [of 4 100 y] by simp_all
  then show ?thesis
    unfolding days_before_year_def is_leap_def add_diff_cancel_right'
    by (rule leap_count) (assumption | (rule step, simp))+
qed

lemma days_before_month_Suc:
  "1 \<le> m \<Longrightarrow> days_before_month y (Suc m) = days_before_month y m + int (month_days y m)"
  by (simp add: days_before_month_def)

lemma days_before_month_1 [simp]: "days_before_month y (Suc 0) = 0"
  by (simp add: days_before_month_def)

lemma days_in_year: "days_before_month y 13 = (if is_leap y then 366 else 365)"
  by (simp add: days_before_month_def upt_rec month_days_def)

text \<open>The first day of the month after \<open>(y, m)\<close>.\<close>

definition next_month :: "int \<Rightarrow> nat \<Rightarrow> int \<times> nat" where
  "next_month y m = (if m = 12 then (y + 1, 1) else (y, m + 1))"

lemma month_end_ordinal:
  assumes "1 \<le> m" "m \<le> 12"
  shows "date_ordinal (y, m, month_days y m) + 1 =
    (case next_month y m of (y', m') \<Rightarrow> date_ordinal (y', m', 1))"
  using assms days_before_month_Suc [of m y] days_before_year_Suc [of y] days_in_year [of y]
  by (auto simp: date_ordinal_def next_month_def eval_nat_numeral)

lemma days_before_month_mono: "1 \<le> m \<Longrightarrow> m \<le> n \<Longrightarrow> days_before_month y m \<le> days_before_month y n"
proof (induction n)
  case (Suc n)
  then show ?case using days_before_month_Suc [of n y] by (cases "m = Suc n") auto
qed simp

lemma days_before_year_mono: "y \<le> y' \<Longrightarrow> days_before_year y \<le> days_before_year y'"
proof (induction y' rule: int_ge_induct)
  case (step i)
  then show ?case using days_before_year_Suc [of i] by (auto split: if_splits)
qed simp

lemma days_before_year_less:
  assumes "y < y'" shows "days_before_year y + (if is_leap y then 366 else 365) \<le> days_before_year y'"
  using days_before_year_mono [of "y + 1" y'] days_before_year_Suc [of y] assms by auto

text \<open>A day of month \<open>(y, m)\<close> comes before the end of any month that is not earlier.\<close>

lemma ordinal_le_month_end:
  assumes "1 \<le> m" "m \<le> 12" "1 \<le> m'" "m' \<le> 12" "d \<le> month_days y m"
    and "y < y' \<or> (y = y' \<and> m \<le> m')"
  shows "date_ordinal (y, m, d) \<le> date_ordinal (y', m', month_days y' m')"
proof -
  have end_m: "days_before_month y m + int d \<le> days_before_month y (Suc m)"
    using assms(1,5) by (simp add: days_before_month_Suc)
  from assms(6) show ?thesis
  proof
    assume "y < y'"
    have "days_before_month y (Suc m) \<le> days_before_month y 13"
      using assms(1,2) by (intro days_before_month_mono) auto
    with end_m have "days_before_month y m + int d \<le> (if is_leap y then 366 else 365)"
      by (simp add: days_in_year)
    moreover have "0 \<le> days_before_month y' m'"
      using days_before_month_mono [of 1 m' y'] assms(3) by simp
    ultimately show ?thesis
      using days_before_year_less [OF \<open>y < y'\<close>] by (simp add: date_ordinal_def split: if_splits)
  next
    assume "y = y' \<and> m \<le> m'"
    then have "days_before_month y (Suc m) \<le> days_before_month y (Suc m')"
      using assms(1) by (intro days_before_month_mono) auto
    with end_m \<open>y = y' \<and> m \<le> m'\<close> assms(3) show ?thesis
      by (simp add: date_ordinal_def days_before_month_Suc)
  qed
qed

subsection \<open>Window labels\<close>

definition SPOT_WINDOW :: string where
  "SPOT_WINDOW = ''SPOT''"

definition FORWARD_QUARTER_COUNT :: nat where
  "FORWARD_QUARTER_COUNT = 5 * 4"

definition LEGACY_WINDOW_ALIASES :: "(string \<times> string) list" where
  "LEGACY_WINDOW_ALIASES =
    [(''SPOT'', SPOT_WINDOW), (''Spot'', SPOT_WINDOW),
     (''Q1_2025'', ''2025-Q1''), (''Q2_2025'', ''2025-Q2''), (''Q3_2025'', ''2025-Q3''),
     (''Q4_2025'', ''2025-Q4''), (''Q1_2026'', ''2026-Q1''), (''Q2_2026'', ''2026-Q2''),
     (''Q3_2026'', ''2026-Q3''), (''Q4_2026'', ''2026-Q4''),
     (''Q1 2025'', ''2025-Q1''), (''Q2 2025'', ''2025-Q2''), (''Q3 2025'', ''2025-Q3''),
     (''Q4 2025'', ''2025-Q4''), (''Q1 2026'', ''2026-Q1''), (''Q2 2026'', ''2026-Q2''),
     (''Q3 2026'', ''2026-Q3''), (''Q4 2026'', ''2026-Q4''),
     (''FORWARD_2027'', ''2027-CAL''), (''FORWARD_2028'', ''2028-CAL''),
     (''Forward 2027'', ''2027-CAL''), (''Forward 2028'', ''2028-CAL'')]"

text \<open>
  The three regular expressions, as matchers that return their groups. Each \<open>fullmatch\<close>
  fixes the length of the string.
\<close>

definition year_of :: "char list \<Rightarrow> nat" where
  "year_of cs = foldl (\<lambda>n c. 10 * n + digit_val c) 0 cs"

fun MONTH_WINDOW_RE :: "string \<Rightarrow> (int \<times> nat) option" where
  "MONTH_WINDOW_RE [a, b, c, d, e, f, g] =
     (if list_all is_digit [a, b, c, d] \<and> e = CHR ''-'' \<and>
         (f = CHR ''0'' \<and> is_digit g \<and> g \<noteq> CHR ''0'' \<or>
          f = CHR ''1'' \<and> (g = CHR ''0'' \<or> g = CHR ''1'' \<or> g = CHR ''2''))
      then Some (int (year_of [a, b, c, d]), 10 * digit_val f + digit_val g) else None)"
| "MONTH_WINDOW_RE _ = None"

fun QUARTER_WINDOW_RE :: "string \<Rightarrow> (int \<times> nat) option" where
  "QUARTER_WINDOW_RE [a, b, c, d, e, f, g] =
     (if list_all is_digit [a, b, c, d] \<and> e = CHR ''-'' \<and> f = CHR ''Q'' \<and>
         is_digit g \<and> 1 \<le> digit_val g \<and> digit_val g \<le> 4
      then Some (int (year_of [a, b, c, d]), digit_val g) else None)"
| "QUARTER_WINDOW_RE _ = None"

fun CALENDAR_WINDOW_RE :: "string \<Rightarrow> int option" where
  "CALENDAR_WINDOW_RE [a, b, c, d, e, f, g, h] =
     (if list_all is_digit [a, b, c, d] \<and> [e, f, g, h] = ''-CAL''
      then Some (int (year_of [a, b, c, d])) else None)"
| "CALENDAR_WINDOW_RE _ = None"

definition normalize_availability_window :: "string \<Rightarrow> string result" where
  "normalize_availability_window v =
     (let raw = py_strip v in
      if raw = [] then Inl (ValueError ''availability_window cannot be blank'')
      else case map_of LEGACY_WINDOW_ALIASES raw of
        Some w \<Rightarrow> Inr w
      | None \<Rightarrow>
          if py_upper raw = SPOT_WINDOW then Inr SPOT_WINDOW
          else if MONTH_WINDOW_RE raw \<noteq> None \<or> QUARTER_WINDOW_RE raw \<noteq> None
                  \<or> CALENDAR_WINDOW_RE raw \<noteq> None then Inr raw
          else Inl (ValueError ''availability_window must be SPOT, YYYY-MM, YYYY-QN, or YYYY-CAL''))"

definition is_valid_availability_window :: "string \<Rightarrow> bool" where
  "is_valid_availability_window v = (case normalize_availability_window v of Inl _ \<Rightarrow> False | Inr _ \<Rightarrow> True)"

definition window_start_date :: "string \<Rightarrow> date \<Rightarrow> date result" where
  "window_start_date v today =
     bindR (normalize_availability_window v) (\<lambda>w.
     if w = SPOT_WINDOW then Inr today
     else case MONTH_WINDOW_RE w of Some (y, m) \<Rightarrow> make_date y m 1
     | None \<Rightarrow> (case QUARTER_WINDOW_RE w of Some (y, q) \<Rightarrow> make_date y ((q - 1) * 3 + 1) 1
     | None \<Rightarrow> (case CALENDAR_WINDOW_RE w of Some y \<Rightarrow> make_date y 1 1
     | None \<Rightarrow> Inl (ValueError ''Unsupported availability window''))))"

definition availability_window_sort_key :: "string \<Rightarrow> date \<Rightarrow> (nat \<times> date \<times> nat) result" where
  "availability_window_sort_key v today =
     bindR (normalize_availability_window v) (\<lambda>w.
     if w = SPOT_WINDOW then Inr (0, today, 0)
     else if MONTH_WINDOW_RE w \<noteq> None then bindR (window_start_date w today) (\<lambda>d. Inr (1, d, 0))
     else if QUARTER_WINDOW_RE w \<noteq> None then bindR (window_start_date w today) (\<lambda>d. Inr (1, d, 1))
     else if CALENDAR_WINDOW_RE w \<noteq> None then bindR (window_start_date w today) (\<lambda>d. Inr (1, d, 2))
     else Inr (99, (9999, 12, 31), 99))"

definition MONTH_NAMES :: "string list" where
  "MONTH_NAMES = [''Jan'', ''Feb'', ''Mar'', ''Apr'', ''May'', ''Jun'',
                  ''Jul'', ''Aug'', ''Sep'', ''Oct'', ''Nov'', ''Dec'']"

definition availability_window_display_label :: "string \<Rightarrow> string result" where
  "availability_window_display_label v =
     bindR (normalize_availability_window v) (\<lambda>w.
     if w = SPOT_WINDOW then Inr ''Spot''
     else case MONTH_WINDOW_RE w of
       Some (y, m) \<Rightarrow> Inr (MONTH_NAMES ! (m - 1) @ '' '' @ show_nat (nat y))
     | None \<Rightarrow> if QUARTER_WINDOW_RE w \<noteq> None then Inr (''Q'' @ drop 6 w @ '' '' @ take 4 w)
     else if CALENDAR_WINDOW_RE w \<noteq> None then Inr (''CAL '' @ take 4 w)
     else Inr w)"

definition month_label :: "nat \<Rightarrow> nat \<Rightarrow> string" where
  "month_label y m = show_nat y @ ''-'' @ show_02d m"

definition quarter_label :: "nat \<Rightarrow> nat \<Rightarrow> string" where
  "quarter_label y q = show_nat y @ ''-Q'' @ show_nat q"

definition calendar_label :: "nat \<Rightarrow> string" where
  "calendar_label y = show_nat y @ ''-CAL''"

definition forward_monitoring_default_windows :: "nat \<Rightarrow> nat \<Rightarrow> string list" where
  "forward_monitoring_default_windows year month =
     (let quarter = (month - 1) div 3 + 1 in
      [SPOT_WINDOW]
      @ map (\<lambda>offset. let zero_based = month - 1 + offset in
               month_label (year + zero_based div 12) (zero_based mod 12 + 1)) [1..<7]
      @ map (\<lambda>offset. let absolute_quarter = year * 4 + (quarter - 1) + offset in
               quarter_label (absolute_quarter div 4) (absolute_quarter mod 4 + 1)) [1..<5]
      @ [calendar_label (year + 1), calendar_label (year + 2)])"

definition tradable_availability_windows :: "nat \<Rightarrow> nat \<Rightarrow> nat \<Rightarrow> string list" where
  "tradable_availability_windows year month quarter_count =
     (let current_quarter = (month - 1) div 3 + 1;
          current_quarter_end_month = current_quarter * 3 in
      [SPOT_WINDOW]
      @ map (month_label year) [month..<current_quarter_end_month + 1]
      @ map (\<lambda>index. let absolute_quarter = year * 4 + (current_quarter - 1) + 1 + index in
               quarter_label (absolute_quarter div 4) (absolute_quarter mod 4 + 1)) [0..<quarter_count])"

definition is_tradable_availability_window :: "string \<Rightarrow> nat \<Rightarrow> nat \<Rightarrow> nat \<Rightarrow> bool result" where
  "is_tradable_availability_window v year month quarter_count =
     bindR (normalize_availability_window v) (\<lambda>w.
     Inr (w \<in> set (tradable_availability_windows year month quarter_count)))"

text \<open>\<open>date(y, m, last_day) + timedelta(days=1)\<close> at midnight UTC.\<close>

definition day_after :: "date \<Rightarrow> time result" where
  "day_after d = (if date_ordinal d + 1 > max_ordinal then Inl (OverflowError ''date value out of range'')
                  else Inr (midnight (date_ordinal d + 1)))"

definition availability_window_expiry :: "string \<Rightarrow> time \<Rightarrow> time result" where
  "availability_window_expiry v observed =
     bindR (normalize_availability_window v) (\<lambda>w.
     if w = SPOT_WINDOW then Inr (observed + day_us)
     else case MONTH_WINDOW_RE w of
       Some (y, m) \<Rightarrow> bindR (make_date y m (month_days y m)) day_after
     | None \<Rightarrow> (case QUARTER_WINDOW_RE w of
       Some (y, q) \<Rightarrow> bindR (make_date y (q * 3) (month_days y (q * 3))) day_after
     | None \<Rightarrow> (case CALENDAR_WINDOW_RE w of
       Some y \<Rightarrow> bindR (make_date (y + 1) 1 1) (\<lambda>d. Inr (midnight (date_ordinal d)))
     | None \<Rightarrow> Inl (ValueError ''Unsupported availability window''))))"

subsection \<open>Canonical spellings\<close>

text \<open>The specification: the strings of \<open>JSON_SCHEMA_PATTERN\<close>.\<close>

definition canonical_window :: "string \<Rightarrow> bool" where
  "canonical_window w \<longleftrightarrow> w = SPOT_WINDOW \<or> MONTH_WINDOW_RE w \<noteq> None \<or> QUARTER_WINDOW_RE w \<noteq> None
     \<or> CALENDAR_WINDOW_RE w \<noteq> None"

lemma digit_val_bound: "is_digit c \<Longrightarrow> digit_val c < 10"
  by (auto simp: is_digit_def digit_val_def Let_def)

lemma four_digits:
  fixes y :: nat
  shows "1000 * (y div 1000) + 100 * (y div 100 mod 10) + 10 * (y div 10 mod 10) + y mod 10 = y"
proof -
  have "10 * (y div 10) + y mod 10 = y" by simp
  moreover have "10 * (y div 100) + y div 10 mod 10 = y div 10"
    using mult_div_mod_eq [of 10 "y div 10"] by (simp flip: div_mult2_eq)
  moreover have "10 * (y div 1000) + y div 100 mod 10 = y div 100"
    using mult_div_mod_eq [of 10 "y div 100"] by (simp flip: div_mult2_eq)
  ultimately show ?thesis by linarith
qed

lemma not_space_digit: "is_digit c \<Longrightarrow> \<not> is_space c"
  by (auto simp: is_digit_def is_space_def Let_def)

lemma digit_consts [simp]: "is_digit CHR ''0''" "is_digit CHR ''1''" "is_digit CHR ''2''"
  "digit_val CHR ''0'' = 0" "digit_val CHR ''1'' = 1" "digit_val CHR ''2'' = 2"
  by code_simp+

lemma digit_val_0: "is_digit g \<Longrightarrow> g \<noteq> CHR ''0'' \<Longrightarrow> 0 < digit_val g"
proof (rule ccontr)
  assume "is_digit g" "g \<noteq> CHR ''0''" "\<not> 0 < digit_val g"
  then have "of_char g = (48::nat)" by (simp add: is_digit_def digit_val_def Let_def)
  then have "char_of (of_char g :: nat) = (char_of (48::nat) :: char)" by simp
  moreover have "char_of (48::nat) = CHR ''0''" by code_simp
  ultimately show False using \<open>g \<noteq> CHR ''0''\<close> by simp
qed

lemma year_of_4: "year_of [a, b, c, d] = 1000 * digit_val a + 100 * digit_val b + 10 * digit_val c + digit_val d"
  by (simp add: year_of_def)

lemma MONTH_WINDOW_RE_Some:
  assumes "MONTH_WINDOW_RE s = Some (y, m)"
  shows "s \<noteq> [] \<and> is_digit (hd s) \<and> is_digit (last s) \<and> 0 \<le> y \<and> y \<le> 9999 \<and> 1 \<le> m \<and> m \<le> 12"
  using assms
proof (cases s rule: MONTH_WINDOW_RE.cases)
  case (1 a b c d e f g)
  with assms have "is_digit a" "is_digit b" "is_digit c" "is_digit d" "is_digit g"
    by (auto split: if_splits)
  moreover from this have "0 \<le> y" "y \<le> 9999"
    using 1 assms digit_val_bound [of a] digit_val_bound [of b] digit_val_bound [of c] digit_val_bound [of d]
    by (auto simp: year_of_4 split: if_splits)
  ultimately show ?thesis using 1 assms digit_val_0 [of g] digit_val_bound [of g]
    by (auto split: if_splits)
qed simp_all

lemma QUARTER_WINDOW_RE_Some:
  assumes "QUARTER_WINDOW_RE s = Some (y, q)"
  shows "s \<noteq> [] \<and> is_digit (hd s) \<and> is_digit (last s) \<and> 0 \<le> y \<and> y \<le> 9999 \<and> 1 \<le> q \<and> q \<le> 4"
  using assms
proof (cases s rule: QUARTER_WINDOW_RE.cases)
  case (1 a b c d e f g)
  with assms show ?thesis
    using digit_val_bound [of a] digit_val_bound [of b] digit_val_bound [of c] digit_val_bound [of d]
    by (auto simp: year_of_4 split: if_splits)
qed simp_all

lemma CALENDAR_WINDOW_RE_Some:
  assumes "CALENDAR_WINDOW_RE s = Some y"
  shows "s \<noteq> [] \<and> is_digit (hd s) \<and> last s = CHR ''L'' \<and> 0 \<le> y \<and> y \<le> 9999"
  using assms
proof (cases s rule: CALENDAR_WINDOW_RE.cases)
  case (1 a b c d e f g h)
  with assms show ?thesis
    using digit_val_bound [of a] digit_val_bound [of b] digit_val_bound [of c] digit_val_bound [of d]
    by (auto simp: year_of_4 split: if_splits)
qed simp_all

lemma aliases_not_digit: "map_of LEGACY_WINDOW_ALIASES raw = Some w \<Longrightarrow> \<not> is_digit (hd raw)"
proof -
  have "list_all (\<lambda>(k, v). \<not> is_digit (hd k)) LEGACY_WINDOW_ALIASES" by code_simp
  moreover assume "map_of LEGACY_WINDOW_ALIASES raw = Some w"
  then have "(raw, w) \<in> set LEGACY_WINDOW_ALIASES" by (rule map_of_SomeD)
  ultimately show ?thesis by (auto simp: list_all_iff)
qed

lemma aliases_canonical: "map_of LEGACY_WINDOW_ALIASES raw = Some w \<Longrightarrow> canonical_window w"
proof -
  have "list_all (\<lambda>(k, v). canonical_window v) LEGACY_WINDOW_ALIASES" by code_simp
  moreover assume "map_of LEGACY_WINDOW_ALIASES raw = Some w"
  then have "(raw, w) \<in> set LEGACY_WINDOW_ALIASES" by (rule map_of_SomeD)
  ultimately show ?thesis by (auto simp: list_all_iff)
qed

lemma digit_not_SPOT: "is_digit (hd s) \<Longrightarrow> s \<noteq> [] \<Longrightarrow> py_upper s \<noteq> SPOT_WINDOW"
  by (cases s) (auto simp: py_upper_def SPOT_WINDOW_def upper_char_def is_digit_def Let_def)

lemma canonical_window_cases:
  assumes "canonical_window w" "w \<noteq> SPOT_WINDOW"
  shows "w \<noteq> [] \<and> is_digit (hd w) \<and> (is_digit (last w) \<or> last w = CHR ''L'')"
  using assms MONTH_WINDOW_RE_Some [of w] QUARTER_WINDOW_RE_Some [of w] CALENDAR_WINDOW_RE_Some [of w]
  by (fastforce simp: canonical_window_def)

lemma normalize_canonical:
  assumes "canonical_window w" shows "normalize_availability_window w = Inr w"
proof (cases "w = SPOT_WINDOW")
  case True
  then show ?thesis by (simp add: SPOT_WINDOW_def) code_simp
next
  case False
  note c = canonical_window_cases [OF assms this]
  have "py_strip w = w"
    using c by (intro py_strip_id) (auto dest: not_space_digit simp: is_space_def)
  moreover have "map_of LEGACY_WINDOW_ALIASES w = None"
    using c aliases_not_digit by (cases "map_of LEGACY_WINDOW_ALIASES w") auto
  ultimately show ?thesis
    using assms False c digit_not_SPOT [of w]
    by (auto simp: normalize_availability_window_def canonical_window_def)
qed

lemma normalize_result_canonical:
  "normalize_availability_window v = Inr w \<Longrightarrow> canonical_window w"
  using aliases_canonical [of "py_strip v" w]
  by (auto simp: normalize_availability_window_def Let_def canonical_window_def split: if_splits option.splits)

lemma month_label_RE:
  assumes "1000 \<le> y" "y \<le> 9999" "1 \<le> m" "m \<le> 12"
  shows "MONTH_WINDOW_RE (month_label y m) = Some (int y, m)"
proof -
  have "m \<in> set [1..<13]" using assms by auto
  moreover have "list_all (\<lambda>m. let f = digit_char (m div 10); g = digit_char (m mod 10) in
      (f = CHR ''0'' \<and> is_digit g \<and> g \<noteq> CHR ''0'' \<or>
          f = CHR ''1'' \<and> (g = CHR ''0'' \<or> g = CHR ''1'' \<or> g = CHR ''2''))) [1..<13]" by code_simp
  ultimately have "(digit_char (m div 10) = CHR ''0'' \<and> is_digit (digit_char (m mod 10)) \<and> digit_char (m mod 10) \<noteq> CHR ''0'' \<or>
          digit_char (m div 10) = CHR ''1'' \<and> (digit_char (m mod 10) = CHR ''0'' \<or> digit_char (m mod 10) = CHR ''1'' \<or> digit_char (m mod 10) = CHR ''2''))"
    by (simp only: list_all_iff Let_def)
  moreover have "n div 1000 < 10" if "n \<le> 9999" for n :: nat using that by linarith
  moreover have "m div 10 < 10" using assms by linarith
  ultimately show ?thesis using assms
    by (simp add: month_label_def show_nat_4 show_02d_2 year_of_4 four_digits)
qed

lemma quarter_label_RE:
  assumes "1000 \<le> y" "y \<le> 9999" "1 \<le> q" "q \<le> 4"
  shows "QUARTER_WINDOW_RE (quarter_label y q) = Some (int y, q)"
proof -
  have "y div 1000 < 10" using assms by linarith
  then show ?thesis using assms
    by (simp add: quarter_label_def show_nat_4 show_nat_1 year_of_4 four_digits)
qed

lemma canonical_SPOT [simp]: "canonical_window SPOT_WINDOW"
  by (simp add: canonical_window_def)

lemma label_not_SPOT:
  "1000 \<le> y \<Longrightarrow> y \<le> 9999 \<Longrightarrow> 1 \<le> m \<Longrightarrow> m \<le> 12 \<Longrightarrow> month_label y m \<noteq> SPOT_WINDOW"
  "1000 \<le> y \<Longrightarrow> y \<le> 9999 \<Longrightarrow> 1 \<le> q \<Longrightarrow> q \<le> 4 \<Longrightarrow> quarter_label y q \<noteq> SPOT_WINDOW"
  using month_label_RE [of y m] quarter_label_RE [of y q] by (auto simp: SPOT_WINDOW_def)

lemma quarter_label_not_month:
  "1000 \<le> y \<Longrightarrow> y \<le> 9999 \<Longrightarrow> 1 \<le> q \<Longrightarrow> q \<le> 4 \<Longrightarrow> MONTH_WINDOW_RE (quarter_label y q) = None"
  by (simp add: quarter_label_def show_nat_4 show_nat_1)

text \<open>A tradable window is \<open>SPOT\<close>, a month of the current quarter, or a later quarter.\<close>

lemma tradable_cases:
  assumes "w \<in> set (tradable_availability_windows year month n)" "1 \<le> month"
  obtains (spot) "w = SPOT_WINDOW"
  | (month) m where "w = month_label year m" "month \<le> m" "m \<le> ((month - 1) div 3 + 1) * 3"
  | (quarter) k where "k < n" "w = quarter_label ((year * 4 + (month - 1) div 3 + 1 + k) div 4)
      ((year * 4 + (month - 1) div 3 + 1 + k) mod 4 + 1)"
  using assms by (auto simp: tradable_availability_windows_def Let_def)

lemma expiry_of_month:
  assumes "1000 \<le> y" "y \<le> 9998" "1 \<le> m" "m \<le> 12"
  shows "availability_window_expiry (month_label y m) t =
    Inr (midnight (date_ordinal (int y, m, month_days (int y) m) + 1))"
    and "1 \<le> q \<Longrightarrow> q \<le> 4 \<Longrightarrow> availability_window_expiry (quarter_label y q) t =
    Inr (midnight (date_ordinal (int y, q * 3, month_days (int y) (q * 3)) + 1))"
proof -
  have pos: "1 \<le> month_days (int y) k" for k by (simp add: month_days_def)
  have max: "date_ordinal (int y, k, month_days (int y) k) + 1 \<le> max_ordinal" if "1 \<le> k" "k \<le> 12" for k
  proof -
    obtain y' k' where nm: "next_month (int y) k = (y', k')" by fastforce
    then have "1 \<le> k'" "k' \<le> 12" "y' \<le> 9999" using assms that by (auto simp: next_month_def split: if_splits)
    then have "date_ordinal (y', k', 1) \<le> date_ordinal (9999, 12, month_days 9999 12)"
      using pos by (intro ordinal_le_month_end) (auto simp: month_days_def)
    moreover have "date_ordinal (9999, 12, month_days 9999 12) = max_ordinal" by code_simp
    ultimately show ?thesis using month_end_ordinal [OF that, of "int y"] nm by simp
  qed
  have canon: "canonical_window (month_label y m)"
    using month_label_RE [of y m] assms by (simp add: canonical_window_def)
  from max [of m] show "availability_window_expiry (month_label y m) t =
    Inr (midnight (date_ordinal (int y, m, month_days (int y) m) + 1))"
    using assms pos [of m] label_not_SPOT(1) [of y m] month_label_RE [of y m]
    by (simp add: availability_window_expiry_def normalize_canonical [OF canon] make_date_def
        valid_date_def day_after_def)
  assume q: "1 \<le> q" "q \<le> 4"
  then have canonq: "canonical_window (quarter_label y q)"
    using quarter_label_RE [of y q] assms by (simp add: canonical_window_def)
  from q max [of "q * 3"] show "availability_window_expiry (quarter_label y q) t =
    Inr (midnight (date_ordinal (int y, q * 3, month_days (int y) (q * 3)) + 1))"
    using assms pos [of "q * 3"] label_not_SPOT(2) [of y q] quarter_label_RE [of y q]
      quarter_label_not_month [of y q]
    by (simp add: availability_window_expiry_def normalize_canonical [OF canonq] make_date_def
        valid_date_def day_after_def)
qed

lemma midnight_mono: "a \<le> b \<Longrightarrow> midnight a \<le> midnight b"
  by (simp add: midnight_def day_us_def)

lemma quarter_numbers:
  fixes y :: nat
  assumes "1 \<le> m" "m \<le> 12" "k < 20"
  shows "y \<le> (y * 4 + (m - 1) div 3 + 1 + k) div 4"
    and "(y * 4 + (m - 1) div 3 + 1 + k) div 4 \<le> y + 5"
    and "(y * 4 + (m - 1) div 3 + 1 + k) div 4 = y \<Longrightarrow> m \<le> ((y * 4 + (m - 1) div 3 + 1 + k) mod 4 + 1) * 3"
proof -
  obtain j where j: "j = (m - 1) div 3" by blast
  then have jb: "j \<le> 3" "m \<le> j * 3 + 3" using assms by linarith+
  have eq: "(y * 4 + j + 1 + k) div 4 = y + (j + 1 + k) div 4" "(y * 4 + j + 1 + k) mod 4 = (j + 1 + k) mod 4"
    by (simp_all add: add.assoc)
  show "y \<le> (y * 4 + (m - 1) div 3 + 1 + k) div 4" unfolding j [symmetric] eq by simp
  show "(y * 4 + (m - 1) div 3 + 1 + k) div 4 \<le> y + 5"
    unfolding j [symmetric] eq using jb assms(3) by linarith
  assume "(y * 4 + (m - 1) div 3 + 1 + k) div 4 = y"
  then have "(j + 1 + k) div 4 = 0" unfolding j [symmetric] eq by simp
  then have "(j + 1 + k) mod 4 = j + 1 + k" by (simp add: div_eq_0_iff)
  then show "m \<le> ((y * 4 + (m - 1) div 3 + 1 + k) mod 4 + 1) * 3"
    unfolding j [symmetric] eq using jb by simp
qed

subsection \<open>Properties\<close>

text \<open>Normalisation is a projection onto the canonical spellings. Normalising twice is
  normalising once (errors included), and the strings it leaves unchanged are exactly \<open>SPOT\<close>
  and the \<open>YYYY-MM\<close>, \<open>YYYY-QN\<close> and \<open>YYYY-CAL\<close> forms, so a stored window never changes again.\<close>

lemma normalize_window_projection:
  "bindR (normalize_availability_window v) normalize_availability_window = normalize_availability_window v
   \<and> (normalize_availability_window v = Inr v \<longleftrightarrow> canonical_window v)"
  using normalize_result_canonical [of v] normalize_canonical
  by (cases "normalize_availability_window v") auto

text \<open>On any day of the years 1000 to 9993, each window open for new orders is spelled
  canonically and has a representable expiry strictly after every instant of that day: the
  market never offers a window that is already over.\<close>

lemma tradable_windows_unexpired:
  assumes "valid_date (int year, month, day)" "1000 \<le> year" "year \<le> 9993"
    and "w \<in> set (tradable_availability_windows year month FORWARD_QUARTER_COUNT)"
    and "observed < midnight (date_ordinal (int year, month, day) + 1)"
  shows "normalize_availability_window w = Inr w \<and>
    (\<exists>e. availability_window_expiry w observed = Inr e \<and> observed < e)"
proof -
  have md: "1 \<le> month" "month \<le> 12" "day \<le> month_days (int year) month"
    using assms(1) by (auto simp: valid_date_def)
  have later: "observed < midnight (date_ordinal (int y, m, month_days (int y) m) + 1)"
    if "1 \<le> m" "m \<le> 12" "year < y \<or> year = y \<and> month \<le> m" for y m
  proof -
    have "date_ordinal (int year, month, day) \<le> date_ordinal (int y, m, month_days (int y) m)"
      using that md by (intro ordinal_le_month_end) auto
    then show ?thesis using assms(5) midnight_mono [OF add_right_mono] order.strict_trans2 by blast
  qed
  from assms(4) md(1) show ?thesis
  proof (cases rule: tradable_cases)
    case spot
    then show ?thesis
      using normalize_canonical [of SPOT_WINDOW] by (simp add: availability_window_expiry_def day_us_def)
  next
    case (month m)
    have "(month - 1) div 3 \<le> 3" using md(2) by (simp add: less_Suc_eq_le [symmetric] less_mult_imp_div_less)
    then have "((month - 1) div 3 + 1) * 3 \<le> 12" by simp
    with month(2,3) md(1) have "1 \<le> m" "m \<le> 12" by (auto intro: order_trans)
    then show ?thesis
      using month assms(2,3) month_label_RE [of year m] later [of m year]
      by (auto simp: expiry_of_month normalize_canonical canonical_window_def)
  next
    case (quarter k)
    have "k < 20" using quarter(1) by (simp add: FORWARD_QUARTER_COUNT_def)
    note q = quarter_numbers [OF md(1,2) this, of year]
    define y where "y = (year * 4 + (month - 1) div 3 + 1 + k) div 4"
    define z where "z = (year * 4 + (month - 1) div 3 + 1 + k) mod 4 + 1"
    have y: "1000 \<le> y" "y \<le> 9998" "year < y \<or> year = y \<and> month \<le> z * 3"
      using q assms(2,3) unfolding y_def z_def by linarith+
    moreover have z: "1 \<le> z" "z \<le> 4" using mod_less_divisor [of 4] unfolding z_def by auto
    ultimately show ?thesis
      using quarter(2) quarter_label_RE [of y z] later [of "z * 3" y] expiry_of_month(2) [of y 1 z]
      unfolding y_def [symmetric] z_def [symmetric]
      by (auto simp: normalize_canonical canonical_window_def)
  qed
qed

lemma label_2026_Q4: "quarter_label 2026 4 = ''2026-Q4''"
proof -
  have "digit_char 0 = CHR ''0''" "digit_char 2 = CHR ''2''" "digit_char 4 = CHR ''4''" "digit_char 6 = CHR ''6''"
    by code_simp+
  then show ?thesis by (simp add: quarter_label_def show_nat.simps)
qed

end
