(* ===== verification/Inventory_Ledger.thy ===== *)
theory Inventory_Ledger
  imports Example_Market
begin

section \<open>The inventory ledger\<close>

text \<open>
  \<^verbatim>\<open>src/app/services/inventory_reservations.py\<close>: the only code that moves stock between
  \<open>current_stock_mt\<close> (free) and \<open>reserved_stock_mt\<close>. Each operation is a function from the
  database to an error or the changed database. The contract that the order lifecycle relies
  on is the locale \<open>stock_ledger\<close> (what each movement does to the two balances), interpreted
  on these operations; its lemmas give conservation, non-negativity and the reserve/release
  round trip.
\<close>

subsection \<open>Operations\<close>

definition lock_inventory_items :: "market_db \<Rightarrow> uuid list \<Rightarrow> (uuid \<rightharpoonup> inventory_item) result" where
  "lock_inventory_items s ids =
     (if ids = [] then Inr Map.empty
      else if list_ex (\<lambda>k. item_of k s = None) ids
      then Inl (HTTPException 409 ''Inventory reservation no longer exists'')
      else Inr (\<lambda>k. if k \<in> set ids then item_of k s else None))"

text \<open>One locked row, \<open>(await lock_inventory_items(db, {item_id}))[item_id]\<close>.\<close>

definition lock_item :: "market_db \<Rightarrow> uuid \<Rightarrow> inventory_item result" where
  "lock_item s k = bindR (lock_inventory_items s [k])
     (\<lambda>rows. case rows k of None \<Rightarrow> Inl KeyError | Some i \<Rightarrow> Inr i)"

definition trade_links :: "trade \<Rightarrow> order \<Rightarrow> bool" where
  "trade_links t ord \<longleftrightarrow> t_bid_order_id t = Some (o_id ord) \<or> t_ask_order_id t = Some (o_id ord)"

definition assert_inventory_mutable :: "market_db \<Rightarrow> inventory_item \<Rightarrow> bool \<Rightarrow> unit result" where
  "assert_inventory_mutable s item deleting =
     bindR (refuse (i_reserved_stock_mt item > 0)
       (HTTPException 409 ''Inventory has an active reservation'')) (\<lambda>_.
     bindR (refuse (list_ex (\<lambda>ord. o_inventory_item_id ord = Some (i_id item)
                              \<and> o_status ord \<in> {OPEN, PARTIALLY_FILLED}) (orders s))
       (HTTPException 409 ''Inventory has a nonterminal listing'')) (\<lambda>_.
     bindR (refuse (list_ex (\<lambda>t. t_status t \<in> {PENDING_CONFIRMATION, CONFIRMED, DELIVERED}
                       \<and> list_ex (\<lambda>ord. o_inventory_item_id ord = Some (i_id item) \<and> trade_links t ord) (orders s))
                     (trades s))
       (HTTPException 409 ''Inventory has a nonterminal trade'')) (\<lambda>_.
     refuse (deleting \<and> list_ex (\<lambda>ord. o_inventory_item_id ord = Some (i_id item)) (orders s))
       (HTTPException 409 ''Inventory has preserved order history''))))"

definition reserve_inventory :: "uuid \<Rightarrow> dec \<Rightarrow> market_db \<Rightarrow> market_db result" where
  "reserve_inventory k quantity s =
     (if quantity \<le> 0 then Inl (ValueError ''reservation quantity must be positive'')
      else bindR (lock_item s k) (\<lambda>item.
        if i_current_stock_mt item < quantity
        then Inl (HTTPException 409 ''Inventory stock is already reserved or unavailable'')
        else Inr (put_item (item\<lparr>i_current_stock_mt := i_current_stock_mt item - quantity,
                              i_reserved_stock_mt := i_reserved_stock_mt item + quantity\<rparr>) s)))"

definition consume_inventory :: "uuid \<Rightarrow> dec \<Rightarrow> market_db \<Rightarrow> market_db result" where
  "consume_inventory k quantity s =
     (if quantity \<le> 0 then bindR (lock_item s k) (\<lambda>_. Inr s)
      else bindR (lock_item s k) (\<lambda>item.
        if i_reserved_stock_mt item < quantity
        then Inl (HTTPException 409 ''Inventory reservation is inconsistent'')
        else Inr (put_item (item\<lparr>i_reserved_stock_mt := i_reserved_stock_mt item - quantity\<rparr>) s)))"

definition release_inventory :: "uuid \<Rightarrow> dec \<Rightarrow> market_db \<Rightarrow> market_db result" where
  "release_inventory k quantity s =
     (if quantity \<le> 0 then bindR (lock_item s k) (\<lambda>_. Inr s)
      else bindR (lock_item s k) (\<lambda>item.
        if i_reserved_stock_mt item < quantity
        then Inl (HTTPException 409 ''Inventory reservation is inconsistent'')
        else Inr (put_item (item\<lparr>i_reserved_stock_mt := i_reserved_stock_mt item - quantity,
                              i_current_stock_mt := i_current_stock_mt item + quantity\<rparr>) s)))"

definition reconcile_inventory_quantity :: "uuid \<Rightarrow> dec \<Rightarrow> dec \<Rightarrow> market_db \<Rightarrow> market_db result" where
  "reconcile_inventory_quantity k old_quantity new_quantity s =
     bindR (lock_item s k) (\<lambda>item.
     let delta = new_quantity - old_quantity; current = i_current_stock_mt item in
     if delta > 0 then Inr (put_item (item\<lparr>i_current_stock_mt := current + delta\<rparr>) s)
     else if delta < 0 then
       (if current < - delta
        then Inl (HTTPException 409 ''Cannot reduce inventory below current stock'')
        else Inr (put_item (item\<lparr>i_current_stock_mt := current - (- delta)\<rparr>) s))
     else Inr s)"

subsection \<open>The contract\<close>

text \<open>
  \<open>free\<close> and \<open>held\<close> are the two balances of an item; a movement is described by what it does
  to them, and it refuses to drive a balance below zero.
\<close>

locale stock_ledger =
  fixes free held :: "'s \<Rightarrow> uuid \<Rightarrow> dec"
    and reserve consume release :: "uuid \<Rightarrow> dec \<Rightarrow> 's \<Rightarrow> 's result"
  assumes reserve_effect: "reserve k q s = Inr s' \<Longrightarrow>
      0 < q \<and> q \<le> free s k \<and> free s' = (free s)(k := free s k - q) \<and> held s' = (held s)(k := held s k + q)"
    and consume_effect: "0 < q \<Longrightarrow> consume k q s = Inr s' \<Longrightarrow>
      q \<le> held s k \<and> free s' = free s \<and> held s' = (held s)(k := held s k - q)"
    and release_effect: "0 < q \<Longrightarrow> release k q s = Inr s' \<Longrightarrow>
      q \<le> held s k \<and> free s' = (free s)(k := free s k + q) \<and> held s' = (held s)(k := held s k - q)"
begin

definition sound :: "'s \<Rightarrow> bool" where
  "sound s \<longleftrightarrow> (\<forall>k. 0 \<le> free s k \<and> 0 \<le> held s k)"

lemma sound_reserve: "reserve k q s = Inr s' \<Longrightarrow> sound s \<Longrightarrow> sound s'"
  using reserve_effect [of k q s s'] by (auto simp: sound_def)

lemma sound_consume: "0 < q \<Longrightarrow> consume k q s = Inr s' \<Longrightarrow> sound s \<Longrightarrow> sound s'"
  using consume_effect [of q k s s'] by (auto simp: sound_def)

lemma sound_release: "0 < q \<Longrightarrow> release k q s = Inr s' \<Longrightarrow> sound s \<Longrightarrow> sound s'"
  using release_effect [of q k s s'] by (auto simp: sound_def)

lemma reserve_conserves: "reserve k q s = Inr s' \<Longrightarrow> free s' j + held s' j = free s j + held s j"
  using reserve_effect [of k q s s'] by auto

lemma release_conserves: "0 < q \<Longrightarrow> release k q s = Inr s' \<Longrightarrow> free s' j + held s' j = free s j + held s j"
  using release_effect [of q k s s'] by auto

lemma consume_removes:
  "0 < q \<Longrightarrow> consume k q s = Inr s' \<Longrightarrow>
     free s' j + held s' j = free s j + held s j - (if j = k then q else 0)"
  using consume_effect [of q k s s'] by auto

text \<open>Reserving and then releasing the same quantity restores both balances.\<close>

lemma reserve_release:
  assumes "reserve k q s = Inr t" and "release k q t = Inr u"
  shows "free u = free s \<and> held u = held s"
proof -
  from reserve_effect [OF assms(1)] have q: "0 < q" and
    t: "free t = (free s)(k := free s k - q)" "held t = (held s)(k := held s k + q)" by auto
  from release_effect [OF q assms(2)] show ?thesis by (simp add: t)
qed

text \<open>
  A reservation that is consumed and released in any two parts leaves the held balance as it
  was and removes exactly the consumed part from the item's total.
\<close>

lemma reserve_split:
  assumes "reserve k (a + b) s = Inr t" "0 < a" "0 < b" "consume k a t = Inr u" "release k b u = Inr v"
  shows "held v = held s \<and> free v k = free s k - a \<and> (\<forall>j. j \<noteq> k \<longrightarrow> free v j = free s j)"
proof -
  from reserve_effect [OF assms(1)] have
    t: "free t = (free s)(k := free s k - (a + b))" "held t = (held s)(k := held s k + (a + b))" by auto
  from consume_effect [OF assms(2,4)] have u: "free u = free t" "held u = (held t)(k := held t k - a)" by auto
  from release_effect [OF assms(3,5)] show ?thesis by (simp add: t u)
qed

end

subsection \<open>The contract holds of the code\<close>

definition current_stock :: "market_db \<Rightarrow> uuid \<Rightarrow> dec" where
  "current_stock s k = (case item_of k s of None \<Rightarrow> 0 | Some i \<Rightarrow> i_current_stock_mt i)"

definition reserved_stock :: "market_db \<Rightarrow> uuid \<Rightarrow> dec" where
  "reserved_stock s k = (case item_of k s of None \<Rightarrow> 0 | Some i \<Rightarrow> i_reserved_stock_mt i)"

lemma lock_item_Inr [simp]: "lock_item s k = Inr i \<longleftrightarrow> item_of k s = Some i"
  by (auto simp: lock_item_def lock_inventory_items_def split: option.splits)

lemma lock_item_Inl: "lock_item s k = Inl e \<longleftrightarrow>
    item_of k s = None \<and> e = HTTPException 409 ''Inventory reservation no longer exists''"
  by (auto simp: lock_item_def lock_inventory_items_def split: option.splits)

lemma item_of_put_item:
  "item_of (i_id i) s = Some old \<Longrightarrow> item_of j (put_item i s) = (if j = i_id i then Some i else item_of j s)"
  using item_tab.get_put_same [of i s old] item_tab.get_put_other [of j i s] by auto

lemma stock_put_item:
  assumes "item_of (i_id i) s = Some old"
  shows "current_stock (put_item i s) = (current_stock s)(i_id i := i_current_stock_mt i)"
    and "reserved_stock (put_item i s) = (reserved_stock s)(i_id i := i_reserved_stock_mt i)"
  by (auto simp: current_stock_def reserved_stock_def item_of_put_item [OF assms])

lemma row_by_item_id [simp]: "item_of k s = Some i \<Longrightarrow> i_id i = k"
  by (auto dest: row_by_SomeD)

text \<open>Moving stock never touches any other table.\<close>

lemma put_item_frame [frame_simps]:
  "orders (put_item i s) = orders s" "trades (put_item i s) = trades s" "users (put_item i s) = users s"
  "organizations (put_item i s) = organizations s" "products (put_item i s) = products s"
  "delivery_points (put_item i s) = delivery_points s" "subscriptions (put_item i s) = subscriptions s"
  "next_id (put_item i s) = next_id s" "next_ordinal (put_item i s) = next_ordinal s"
  by (simp_all add: put_item_def)

interpretation stock: stock_ledger current_stock reserved_stock reserve_inventory consume_inventory release_inventory
proof unfold_locales
  fix k q s s'
  show "reserve_inventory k q s = Inr s' \<Longrightarrow> 0 < q \<and> q \<le> current_stock s k \<and>
      current_stock s' = (current_stock s)(k := current_stock s k - q) \<and>
      reserved_stock s' = (reserved_stock s)(k := reserved_stock s k + q)"
    by (auto simp: reserve_inventory_def stock_put_item current_stock_def [of s k] reserved_stock_def [of s k]
        split: if_splits)
  show "0 < q \<Longrightarrow> consume_inventory k q s = Inr s' \<Longrightarrow> q \<le> reserved_stock s k \<and>
      current_stock s' = current_stock s \<and> reserved_stock s' = (reserved_stock s)(k := reserved_stock s k - q)"
    by (auto simp: consume_inventory_def stock_put_item current_stock_def [of s k] reserved_stock_def [of s k]
        fun_eq_iff split: if_splits)
  show "0 < q \<Longrightarrow> release_inventory k q s = Inr s' \<Longrightarrow> q \<le> reserved_stock s k \<and>
      current_stock s' = (current_stock s)(k := current_stock s k + q) \<and>
      reserved_stock s' = (reserved_stock s)(k := reserved_stock s k - q)"
    by (auto simp: release_inventory_def stock_put_item current_stock_def [of s k] reserved_stock_def [of s k]
        split: if_splits)
qed

end
