(* ===== verification/Locks.thy ===== *)
theory Locks
  imports Windows Inventory_Ledger "HOL-Library.Word"
begin

section \<open>Locks, retries and idempotent commands\<close>

text \<open>
  The transaction plumbing under every market mutation: \<^verbatim>\<open>services/market_locks.py\<close> (the
  advisory lock of a market slice), \<^verbatim>\<open>services/market_transactions.py\<close> (bounded retries),
  \<^verbatim>\<open>services/idempotency.py\<close>, \<^verbatim>\<open>services/command_results.py\<close> (replay of the lifecycle
  commands) and \<^verbatim>\<open>services/db_errors.py\<close>.

  The record \<open>env\<close> holds what a request gets from outside the repository: the first eight
  bytes of the SHA-256 digest of a text, the hexadecimal digest, what the database answers to
  a request for an advisory lock (\<open>None\<close> is success, \<open>Some code\<close> a \<open>DBAPIError\<close> with that
  SQLSTATE), and whether the database is PostgreSQL. Nothing is assumed about them.
\<close>

record env =
  sha256_8 :: "string \<Rightarrow> 64 word"
  sha256_hex :: "string \<Rightarrow> string"
  lock_outcome :: "int \<Rightarrow> string option"
  is_postgresql :: bool

text \<open>An environment in which every lock is granted.\<close>

definition ex_env :: env where
  "ex_env = \<lparr>sha256_8 = (\<lambda>_. 0), sha256_hex = id, lock_outcome = (\<lambda>_. None), is_postgresql = True\<rparr>"

subsection \<open>UUID text\<close>

definition hex_char :: "nat \<Rightarrow> char" where
  "hex_char n = (if n < 10 then char_of (48 + n) else char_of (87 + n))"

fun hex_digits :: "nat \<Rightarrow> nat \<Rightarrow> string" where
  "hex_digits 0 n = []"
| "hex_digits (Suc k) n = hex_digits k (n div 16) @ [hex_char (n mod 16)]"

definition uuid_str :: "uuid \<Rightarrow> string" where
  "uuid_str u = (let h = hex_digits 32 u in
     take 8 h @ ''-'' @ take 4 (drop 8 h) @ ''-'' @ take 4 (drop 12 h) @ ''-''
     @ take 4 (drop 16 h) @ ''-'' @ drop 20 h)"

definition uuid_or_empty :: "uuid option \<Rightarrow> string" where
  "uuid_or_empty v = (case v of None \<Rightarrow> [] | Some u \<Rightarrow> uuid_str u)"

subsection \<open>Database errors\<close>

text \<open>
  Only a \<open>DBAPIError\<close>, its subclass \<open>IntegrityError\<close> and the retryable wrapper carry a SQLSTATE. The
  violations that raise an \<open>IntegrityError\<close> (unique, CHECK, NOT NULL and foreign key) have different codes of
  class 23; the model keeps one of them, since the code only ever compares a SQLSTATE with codes of other classes.
\<close>

definition database_sqlstate :: "failure \<Rightarrow> string option" where
  "database_sqlstate err = (case err of DBAPIError st \<Rightarrow> Some st
     | RetryableMarketTransactionError st \<Rightarrow> Some st | IntegrityError \<Rightarrow> Some ''23505'' | _ \<Rightarrow> None)"

definition MARKET_PATH_ROOTS :: "string list" where
  "MARKET_PATH_ROOTS = [''/api/orderbook'', ''/api/trades'', ''/api/prices'', ''/api/price-discovery'',
     ''/api/matchmaking'', ''/api/curves/forward'']"

definition is_contention_error :: "failure \<Rightarrow> bool" where
  "is_contention_error err \<longleftrightarrow> database_sqlstate err \<in> {Some ''55P03'', Some ''40P01'', Some ''40001''}"

definition is_query_canceled_error :: "failure \<Rightarrow> bool" where
  "is_query_canceled_error err \<longleftrightarrow> database_sqlstate err = Some ''57014''"

definition is_market_path :: "string \<Rightarrow> bool" where
  "is_market_path path \<longleftrightarrow>
     list_ex (\<lambda>root. path = root \<or> take (length root + 1) path = root @ ''/'') MARKET_PATH_ROOTS"

subsection \<open>Market slices\<close>

type_synonym slice_key = "OrderSide \<times> uuid \<times> uuid option \<times> string"

definition lock_failure :: "string \<Rightarrow> failure option" where
  "lock_failure sqlstate =
     (if sqlstate = ''55P03'' then Some (HTTPException 409 ''Market slice is busy; retry the request'')
      else if sqlstate = ''57014'' then Some (HTTPException 503 ''Market slice lock timed out; retry the request'')
      else None)"

definition market_slice_lock_sort_key :: "slice_key \<Rightarrow> (string \<times> string \<times> string) result" where
  "market_slice_lock_sort_key key = (case key of (_, pid, dpid, window) \<Rightarrow>
     bindR (normalize_availability_window window) (\<lambda>w. Inr (uuid_str pid, uuid_or_empty dpid, w)))"

text \<open>The text that is hashed: the three parts joined by bars.\<close>

definition slice_text :: "uuid \<Rightarrow> uuid option \<Rightarrow> string \<Rightarrow> string" where
  "slice_text pid dpid w = uuid_str pid @ ''|'' @ uuid_or_empty dpid @ ''|'' @ w"

text \<open>\<open>int.from_bytes(..., signed=True) or 1\<close>\<close>

definition signed_or_1 :: "64 word \<Rightarrow> int" where
  "signed_or_1 w = (if sint w = 0 then 1 else sint w)"

definition market_slice_lock_key :: "env \<Rightarrow> slice_key \<Rightarrow> int result" where
  "market_slice_lock_key e key = (case key of (_, pid, dpid, window) \<Rightarrow>
     bindR (normalize_availability_window window) (\<lambda>w. Inr (signed_or_1 (sha256_8 e (slice_text pid dpid w)))))"

definition acquire_advisory_lock :: "env \<Rightarrow> int \<Rightarrow> string \<Rightarrow> unit result" where
  "acquire_advisory_lock e key busy_detail =
     (case lock_outcome e key of None \<Rightarrow> Inr ()
      | Some sqlstate \<Rightarrow>
          if sqlstate \<in> {''40001'', ''40P01''} then Inl (RetryableMarketTransactionError sqlstate)
          else case lock_failure sqlstate of
            Some (HTTPException code detail) \<Rightarrow>
              Inl (HTTPException code (if code = 409 then busy_detail else detail))
          | Some other \<Rightarrow> Inl other
          | None \<Rightarrow> Inl (DBAPIError sqlstate))"

definition acquire_market_slice_lock :: "env \<Rightarrow> slice_key \<Rightarrow> unit result" where
  "acquire_market_slice_lock e key =
     (if \<not> is_postgresql e then Inr ()
      else bindR (market_slice_lock_key e key) (\<lambda>k.
        acquire_advisory_lock e k ''Market slice is busy; retry the request''))"

fun normalize_slices :: "slice_key list \<Rightarrow> (uuid \<times> uuid option \<times> string) list result" where
  "normalize_slices [] = Inr []"
| "normalize_slices ((_, pid, dpid, window) # ks) =
     bindR (normalize_availability_window window) (\<lambda>w.
     bindR (normalize_slices ks) (\<lambda>rest. Inr ((pid, dpid, w) # rest)))"

text \<open>The set of slices without their side, in the order in which their locks are taken.\<close>

definition slice_sort_text :: "uuid \<times> uuid option \<times> string \<Rightarrow> string list" where
  "slice_sort_text k = (case k of (pid, dpid, w) \<Rightarrow> [uuid_str pid, uuid_or_empty dpid, w])"

definition slice_lock_order :: "slice_key list \<Rightarrow> (uuid \<times> uuid option \<times> string) list result" where
  "slice_lock_order keys =
     bindR (normalize_slices keys) (\<lambda>ks. Inr (sort_key slice_sort_text (remdups ks)))"

fun acquire_in_order :: "env \<Rightarrow> (uuid \<times> uuid option \<times> string) list \<Rightarrow> unit result" where
  "acquire_in_order e [] = Inr ()"
| "acquire_in_order e ((pid, dpid, w) # ks) =
     bindR (acquire_market_slice_lock e (BID, pid, dpid, w)) (\<lambda>_. acquire_in_order e ks)"

definition acquire_market_slice_locks :: "env \<Rightarrow> slice_key list \<Rightarrow> unit result" where
  "acquire_market_slice_locks e keys = bindR (slice_lock_order keys) (acquire_in_order e)"

text \<open>\<open>nextval\<close> on the acceptance sequence.\<close>

definition next_order_acceptance_ordinal :: "market_db \<Rightarrow> int \<times> market_db" where
  "next_order_acceptance_ordinal s = (next_ordinal s, s\<lparr>next_ordinal := next_ordinal s + 1\<rparr>)"

subsection \<open>Bounded retries\<close>

definition is_retryable_market_transaction_error :: "failure \<Rightarrow> bool" where
  "is_retryable_market_transaction_error err \<longleftrightarrow>
     database_sqlstate err = Some ''40001'' \<or> database_sqlstate err = Some ''40P01''"

text \<open>The exceptions the wrapper catches at all: \<open>IntegrityError\<close> is a \<open>DBAPIError\<close>.\<close>

definition caught_by_retry :: "failure \<Rightarrow> bool" where
  "caught_by_retry err = (case err of RetryableMarketTransactionError _ \<Rightarrow> True | DBAPIError _ \<Rightarrow> True
     | IntegrityError \<Rightarrow> True | _ \<Rightarrow> False)"

text \<open>
  \<open>run i\<close> is the outcome of the \<open>i\<close>-th execution of the wrapped route; a failed attempt is
  rolled back, so every attempt starts from the same stored state. The second component
  counts the executions.
\<close>

function retry_from :: "(nat \<Rightarrow> 'a result) \<Rightarrow> nat \<Rightarrow> nat \<Rightarrow> 'a result \<times> nat" where
  "retry_from run max_attempts attempt =
     (if attempt < max_attempts then
        case run attempt of
          Inr x \<Rightarrow> (Inr x, attempt + 1)
        | Inl err \<Rightarrow>
            if \<not> caught_by_retry err \<or> \<not> is_retryable_market_transaction_error err then (Inl err, attempt + 1)
            else if attempt + 1 \<ge> max_attempts
            then (Inl (HTTPException 503 ''Market transaction serialization failed; retry the request''), attempt + 1)
            else retry_from run max_attempts (attempt + 1)
      else (Inl (RuntimeError ''unreachable market retry state''), attempt))"
  by pat_completeness auto
termination by (relation "measure (\<lambda>(_, m, a). m - a)") auto

declare retry_from.simps [simp del]

definition DEFAULT_MARKET_TRANSACTION_ATTEMPTS :: nat where
  "DEFAULT_MARKET_TRANSACTION_ATTEMPTS = 2"

definition retry_market_transaction :: "nat \<Rightarrow> (nat \<Rightarrow> 'a result) \<Rightarrow> 'a result \<times> nat" where
  "retry_market_transaction max_attempts run =
     (if max_attempts < 1 \<or> max_attempts > 3
      then (Inl (ValueError ''market transaction attempts must be between 1 and 3''), 0)
      else retry_from run max_attempts 0)"

subsection \<open>Idempotency keys and command receipts\<close>

definition normalize_idempotency_key :: "string \<Rightarrow> string result" where
  "normalize_idempotency_key raw = (let key = py_strip raw in
     if key = [] \<or> length key > 255 then Inl (HTTPException 400 ''Idempotency-Key must be 1-255 characters'')
     else Inr key)"

definition idempotency_lock_key :: "env \<Rightarrow> uuid \<Rightarrow> string \<Rightarrow> string \<Rightarrow> int" where
  "idempotency_lock_key e scope operation key =
     signed_or_1 (sha256_8 e (uuid_str scope @ ''|'' @ operation @ ''|'' @ key))"

definition acquire_idempotency_lock :: "env \<Rightarrow> uuid \<Rightarrow> string \<Rightarrow> string \<Rightarrow> unit result" where
  "acquire_idempotency_lock e scope operation key =
     (if \<not> is_postgresql e then Inr ()
      else case lock_outcome e (idempotency_lock_key e scope operation key) of
        None \<Rightarrow> Inr ()
      | Some sqlstate \<Rightarrow>
          if sqlstate \<in> {''40001'', ''40P01''} then Inl (RetryableMarketTransactionError sqlstate)
          else if sqlstate = ''55P03'' then Inl (HTTPException 503 ''Idempotency key is busy; retry the same request'')
          else if sqlstate = ''57014'' then Inl (HTTPException 503 ''Idempotency lock timed out; retry the request'')
          else Inl (DBAPIError sqlstate))"

record CommandAttempt =
  ca_actor_user_id :: uuid
  ca_effective_organization_id :: uuid
  ca_support_context_id :: "uuid option"
  ca_operation :: string
  ca_idempotency_key :: string
  ca_request_hash :: string
  ca_resource_type :: string
  ca_resource_id :: uuid
  ca_replay :: "command_result option"

text \<open>
  The header is \<open>None\<close> when absent; \<open>request_hash\<close> is \<open>command_request_hash(payload)\<close>, the
  hexadecimal digest of the canonical JSON of the request.
\<close>

definition prepare_command_attempt ::
  "env \<Rightarrow> market_db \<Rightarrow> string option \<Rightarrow> uuid \<Rightarrow> uuid option \<Rightarrow> uuid option \<Rightarrow> string \<Rightarrow> string \<Rightarrow> uuid \<Rightarrow> string
     \<Rightarrow> CommandAttempt option result"
where
  "prepare_command_attempt e s header actor organization_id context operation resource_type resource_id request_hash =
     (case header of None \<Rightarrow> Inr None
      | Some raw \<Rightarrow>
          bindR (normalize_idempotency_key raw) (\<lambda>key.
          case organization_id of None \<Rightarrow> Inl (HTTPException 403 ''Market organization is required'')
          | Some g \<Rightarrow>
            bindR (acquire_idempotency_lock e actor operation key) (\<lambda>_.
            let replay = find (\<lambda>r. c_actor_user_id r = actor \<and> c_operation r = operation
                                 \<and> c_idempotency_key r = key) (command_results s) in
            bindR (refuse (case replay of None \<Rightarrow> False | Some r \<Rightarrow>
                     c_request_hash r \<noteq> request_hash \<or> c_effective_organization_id r \<noteq> g
                     \<or> c_support_context_id r \<noteq> context \<or> c_resource_type r \<noteq> resource_type
                     \<or> c_resource_id r \<noteq> resource_id)
                   (HTTPException 409 ''Idempotency-Key was reused with a different request or actor context'')) (\<lambda>_.
            Inr (Some \<lparr>ca_actor_user_id = actor, ca_effective_organization_id = g, ca_support_context_id = context,
                   ca_operation = operation, ca_idempotency_key = key, ca_request_hash = request_hash,
                   ca_resource_type = resource_type, ca_resource_id = resource_id, ca_replay = replay\<rparr>)))))"

definition record_command_success ::
  "CommandAttempt option \<Rightarrow> int \<Rightarrow> string \<Rightarrow> market_db \<Rightarrow> market_db result" where
  "record_command_success attempt code body s =
     (case attempt of None \<Rightarrow> Inr s
      | Some a \<Rightarrow>
          if ca_replay a \<noteq> None then Inl (ValueError ''A replay cannot record a second command result'')
          else Inr (s\<lparr>command_results := command_results s @
            [\<lparr>c_actor_user_id = ca_actor_user_id a, c_effective_organization_id = ca_effective_organization_id a,
              c_support_context_id = ca_support_context_id a, c_operation = ca_operation a,
              c_idempotency_key = ca_idempotency_key a, c_request_hash = ca_request_hash a,
              c_resource_type = ca_resource_type a, c_resource_id = ca_resource_id a,
              c_response_status = code, c_response_body = body\<rparr>]\<rparr>))"

lemma ex_slice_lock: "canonical_window w \<Longrightarrow> acquire_market_slice_lock ex_env (sd, pid, dpid, w) = Inr ()"
  by (simp add: acquire_market_slice_lock_def market_slice_lock_key_def acquire_advisory_lock_def ex_env_def
      normalize_canonical)

lemma ex_idempotency_lock: "acquire_idempotency_lock ex_env scope op k = Inr ()"
  by (simp add: acquire_idempotency_lock_def ex_env_def)

subsection \<open>UUID text is injective\<close>

lemma hex_char_inj: "m < 16 \<Longrightarrow> n < 16 \<Longrightarrow> hex_char m = hex_char n \<Longrightarrow> m = n"
proof -
  assume b: "m < 16" "n < 16" "hex_char m = hex_char n"
  have v: "of_char (hex_char k) = (if k < 10 then 48 + k else 87 + k)" if "k < 16" for k :: nat
    using that by (simp add: hex_char_def of_char_of)
  from b(3) have "(of_char (hex_char m) :: nat) = of_char (hex_char n)" by simp
  then show ?thesis using b(1,2) by (simp add: v split: if_splits)
qed

lemma length_hex_digits [simp]: "length (hex_digits k n) = k"
  by (induction k n rule: hex_digits.induct) simp_all

lemma hex_digits_inj: "m < 16 ^ k \<Longrightarrow> n < 16 ^ k \<Longrightarrow> hex_digits k m = hex_digits k n \<Longrightarrow> m = n"
proof (induction k arbitrary: m n)
  case (Suc k)
  then have "m div 16 = n div 16"
    by (intro Suc.IH) (simp_all add: less_mult_imp_div_less)
  moreover have "m mod 16 = n mod 16"
    using Suc.prems hex_char_inj [of "m mod 16" "n mod 16"] by simp
  ultimately show ?case by (metis div_mult_mod_eq)
qed simp

lemma uuid_str_inj:
  assumes "m < 2 ^ 128" "n < 2 ^ 128" "uuid_str m = uuid_str n"
  shows "m = n"
proof -
  have split: "h = take 8 h @ take 4 (drop 8 h) @ take 4 (drop 12 h) @ take 4 (drop 16 h) @ drop 20 h" for h :: string
    using append_take_drop_id [of 8 h] append_take_drop_id [of 4 "drop 8 h"]
      append_take_drop_id [of 4 "drop 12 h"] append_take_drop_id [of 4 "drop 16 h"] by simp
  define a b where "a = hex_digits 32 m" and "b = hex_digits 32 n"
  have len: "length a = 32" "length b = 32" by (simp_all add: a_def b_def)
  from assms(3) have "take 8 a = take 8 b \<and> take 4 (drop 8 a) = take 4 (drop 8 b) \<and>
      take 4 (drop 12 a) = take 4 (drop 12 b) \<and> take 4 (drop 16 a) = take 4 (drop 16 b) \<and> drop 20 a = drop 20 b"
    using len by (auto simp: uuid_str_def Let_def a_def [symmetric] b_def [symmetric])
  then have "a = b" by (subst split [of a], subst split [of b]) simp
  moreover have "(2::nat) ^ 128 = 16 ^ 32" by simp
  ultimately show ?thesis using hex_digits_inj [of m 32 n] assms(1,2) by (simp add: a_def b_def)
qed

lemma uuid_str_not_Nil [simp]: "uuid_str u \<noteq> []" "[] \<noteq> uuid_str u"
  by (simp_all add: uuid_str_def Let_def)

definition uuid_ok :: "uuid \<times> uuid option \<times> string \<Rightarrow> bool" where
  "uuid_ok k = (case k of (pid, dpid, _) \<Rightarrow> pid < 2 ^ 128 \<and> (case dpid of None \<Rightarrow> True | Some d \<Rightarrow> d < 2 ^ 128))"

lemma slice_sort_text_inj: "uuid_ok a \<Longrightarrow> uuid_ok b \<Longrightarrow> slice_sort_text a = slice_sort_text b \<Longrightarrow> a = b"
  using uuid_str_inj uuid_str_not_Nil
  by (auto simp: slice_sort_text_def uuid_ok_def uuid_or_empty_def split: prod.splits option.splits)

subsection \<open>Properties\<close>

lemma sorted_two:
  assumes "sorted (map f xs)" "xs = us @ a # vs @ b # ws"
  shows "f a \<le> f b"
  using assms by (simp add: sorted_append)

definition slice_granted :: "env \<Rightarrow> uuid \<times> uuid option \<times> string \<Rightarrow> bool" where
  "slice_granted e k \<longleftrightarrow> (case k of (pid, dpid, w) \<Rightarrow> acquire_market_slice_lock e (BID, pid, dpid, w) = Inr ())"

text \<open>A granted lock does not change the outcome of the rest.\<close>

lemma acquire_skips_granted: "acquire_in_order e ks = acquire_in_order e (filter (\<lambda>k. \<not> slice_granted e k) ks)"
  by (induction e ks rule: acquire_in_order.induct) (auto simp: slice_granted_def bindR_def split: sum.splits)

lemma sorted_by_text_unique:
  assumes "sorted (map slice_sort_text xs)" "sorted (map slice_sort_text ys)" "distinct xs" "distinct ys" "set xs = set ys" "list_all uuid_ok xs"
  shows "xs = ys"
proof -
  have inj: "inj_on slice_sort_text (set xs)" using assms(6) slice_sort_text_inj by (auto simp: inj_on_def list_all_iff)
  have "map slice_sort_text xs = map slice_sort_text ys"
    by (rule sorted_distinct_set_unique) (use assms inj in \<open>auto simp: distinct_map\<close>)
  then show ?thesis using inj assms(5) by (metis inj_on_map_eq_map sup.idem)
qed

text \<open>C17: lock ordering. Take two transactions that lock several market slices, in whatever order, side and window spelling the caller
  used, and any state of the locks in which only slices that both of them need are contended. Then both are
  stopped by the same lock, or both get all of theirs: they take the locks they share in one and the same order, so that a
  cycle of slice locks cannot arise.\<close>

theorem slice_locks_one_order:
  assumes "normalize_slices keys1 = Inr ks1" "normalize_slices keys2 = Inr ks2" "list_all uuid_ok (ks1 @ ks2)"
    and "\<forall>(pid, dpid, w)\<in>(set ks1 - set ks2) \<union> (set ks2 - set ks1). acquire_market_slice_lock e (BID, pid, dpid, w) = Inr ()"
  shows "acquire_market_slice_locks e keys1 = acquire_market_slice_locks e keys2"
proof -
  let ?f = "filter (\<lambda>k. \<not> slice_granted e k)"
  let ?l1 = "sort_key slice_sort_text (remdups ks1)" and ?l2 = "sort_key slice_sort_text (remdups ks2)"
  have g: "slice_granted e k" if "k \<in> (set ks1 - set ks2) \<union> (set ks2 - set ks1)" for k
    using assms(4) that by (auto simp: slice_granted_def split: prod.splits)
  have "?f ?l1 = ?f ?l2"
    by (rule sorted_by_text_unique) (use g assms(3) in \<open>auto simp: sorted_filter list_all_iff\<close>)
  then show ?thesis
    using acquire_skips_granted [of e ?l1] acquire_skips_granted [of e ?l2]
    by (simp add: acquire_market_slice_locks_def slice_lock_order_def assms(1,2))
qed

text \<open>Two transactions name the same two slices differently; both locks are taken by others, and both transactions fail on the
  same one.\<close>

theorem slice_locks_one_order_witness:
  "acquire_market_slice_locks (ex_env\<lparr>lock_outcome := \<lambda>_. Some ''55P03''\<rparr>) [(ASK, 9, None, '' spot''), (BID, 4, Some 3, ''2026-Q4'')] =
   acquire_market_slice_locks (ex_env\<lparr>lock_outcome := \<lambda>_. Some ''55P03''\<rparr>) [(ASK, 4, Some 3, ''Q4 2026''), (BID, 9, None, ''SPOT'')]"
proof -
  have 1: "normalize_slices [(ASK, 9, None, '' spot''), (BID, 4, Some 3, ''2026-Q4'')] =
      Inr [(9, None, ''SPOT''), (4, Some 3, ''2026-Q4'')]" by code_simp
  have 2: "normalize_slices [(ASK, 4, Some 3, ''Q4 2026''), (BID, 9, None, ''SPOT'')] =
      Inr [(4, Some 3, ''2026-Q4''), (9, None, ''SPOT'')]" by code_simp
  show ?thesis by (rule slice_locks_one_order [OF 1 2]) (auto simp: uuid_ok_def)
qed

text \<open>The advisory key of a slice is a nonzero signed 64-bit integer that does not depend on the
  side, nor on how the window is spelled: bids and asks of one slice always serialize.\<close>

lemma slice_lock_key_shared:
  "market_slice_lock_key e (BID, pid, dpid, window) = market_slice_lock_key e (ASK, pid, dpid, window) \<and>
   (case normalize_availability_window window of
      Inr w \<Rightarrow> market_slice_lock_key e (ASK, pid, dpid, window) = market_slice_lock_key e (BID, pid, dpid, w)
    | Inl err \<Rightarrow> market_slice_lock_key e (ASK, pid, dpid, window) = Inl err) \<and>
   (case market_slice_lock_key e (side, pid, dpid, window) of
      Inr k \<Rightarrow> k \<noteq> 0 \<and> - (2 ^ 63) \<le> k \<and> k < 2 ^ 63
    | Inl err \<Rightarrow> normalize_availability_window window = Inl err)"
proof -
  have range: "- (2 ^ 63) \<le> sint w \<and> sint w < 2 ^ 63" for w :: "64 word"
    using sint_greater_eq [of w] sint_less [of w] by simp
  have "normalize_availability_window w = Inr w" if "normalize_availability_window window = Inr w" for w
    using normalize_canonical normalize_result_canonical that by blast
  then show ?thesis
    using range by (auto simp: market_slice_lock_key_def signed_or_1_def split: sum.splits)
qed

lemma retry_from_spec:
  assumes "attempt < n" "retry_from run n attempt = (r, k)"
  shows "attempt < k \<and> k \<le> n \<and>
    (\<forall>i. attempt \<le> i \<and> i < k - 1 \<longrightarrow> (\<exists>err. run i = Inl err \<and> is_retryable_market_transaction_error err)) \<and>
    (r = run (k - 1) \<and> (case r of Inr _ \<Rightarrow> True | Inl err \<Rightarrow> \<not> (caught_by_retry err \<and> is_retryable_market_transaction_error err))
     \<or> k = n \<and> (\<exists>err. run (k - 1) = Inl err \<and> is_retryable_market_transaction_error err) \<and>
       r = Inl (HTTPException 503 ''Market transaction serialization failed; retry the request''))"
  using assms
proof (induction run n attempt rule: retry_from.induct)
  case (1 run n attempt)
  show ?case
  proof (cases "run attempt")
    case (Inr x)
    then have "r = Inr x" "k = attempt + 1"
      using "1.prems" by (simp_all add: retry_from.simps [of run n attempt])
    then show ?thesis using "1.prems" Inr by auto
  next
    case (Inl err)
    show ?thesis
    proof (cases "caught_by_retry err \<and> is_retryable_market_transaction_error err \<and> attempt + 1 < n")
      case True
      then have "retry_from run n (attempt + 1) = (r, k)"
        using "1.prems" Inl by (simp add: retry_from.simps [of run n attempt])
      note IH = "1.IH" [OF "1.prems"(1) Inl _ _ _ this]
      have "attempt + 1 < k \<and> k \<le> n" using IH True by auto
      moreover have "\<exists>err. run i = Inl err \<and> is_retryable_market_transaction_error err"
        if "attempt \<le> i" "i < k - 1" for i
        using IH True Inl that by (cases "i = attempt") auto
      ultimately show ?thesis using IH True by auto
    next
      case False
      then have "k = attempt + 1"
        "r = (if \<not> caught_by_retry err \<or> \<not> is_retryable_market_transaction_error err then Inl err
          else Inl (HTTPException 503 ''Market transaction serialization failed; retry the request''))"
        using "1.prems" Inl by (auto simp: retry_from.simps [of run n attempt] split: if_splits)
      then show ?thesis using "1.prems" False Inl by auto
    qed
  qed
qed

text \<open>C16: the retry wrapper runs the route at least once and at most \<open>n\<close> times, reruns it only after
  serialization failures, returns the outcome of its last run unchanged unless that run too
  failed to serialize, and only then answers 503.\<close>

theorem retry_is_bounded:
  assumes "1 \<le> n" "n \<le> 3" "retry_market_transaction n run = (r, k)"
  shows "1 \<le> k \<and> k \<le> n \<and>
    (\<forall>i < k - 1. \<exists>err. run i = Inl err \<and> is_retryable_market_transaction_error err) \<and>
    (r = run (k - 1) \<or>
     k = n \<and> (\<exists>err. run (k - 1) = Inl err \<and> is_retryable_market_transaction_error err) \<and>
     r = Inl (HTTPException 503 ''Market transaction serialization failed; retry the request''))"
  using retry_from_spec [of 0 n run r k] assms by (auto simp: retry_market_transaction_def)

theorem retry_is_bounded_witness:
  "\<exists>(r :: nat result) k. retry_market_transaction 2 (\<lambda>i. if i = 0 then Inl (DBAPIError ''40001'') else Inr 7) = (r, k) \<and>
    1 \<le> k \<and> k \<le> 2 \<and> r = Inr 7"
proof -
  define run :: "nat \<Rightarrow> nat result" where "run = (\<lambda>i. if i = 0 then Inl (DBAPIError ''40001'') else Inr 7)"
  have r: "retry_market_transaction 2 run = (Inr 7, 2)"
    by (simp add: retry_market_transaction_def retry_from.simps run_def caught_by_retry_def
        is_retryable_market_transaction_error_def database_sqlstate_def)
  from retry_is_bounded [OF _ _ this] have "(1::nat) \<le> 2 \<and> (2::nat) \<le> 2" by simp
  with r show ?thesis unfolding run_def by blast
qed

lemma replay_after_record:
  assumes "prepare_command_attempt e s (Some raw) actor g context operation rt rid h = Inr (Some a)"
    and "ca_replay a = None"
    and "record_command_success (Some a) code body s = Inr s'"
    and "command_results s'' = command_results s' @ later"
    and "prepare_command_attempt e' s'' (Some raw) actor g' context' operation rt' rid' h' = Inr (Some a')"
  shows "g' = g \<and> context' = context \<and> rt' = rt \<and> rid' = rid \<and> h' = h \<and>
    (\<exists>r. ca_replay a' = Some r \<and> c_response_status r = code \<and> c_response_body r = body)"
proof -
  obtain key where n: "normalize_idempotency_key raw = Inr key"
    using assms(1) by (auto simp: prepare_command_attempt_def)
  obtain k where g: "g = Some k"
    using assms(1) n by (auto simp: prepare_command_attempt_def split: option.splits)
  note key = n g
  have a: "a = \<lparr>ca_actor_user_id = actor, ca_effective_organization_id = k, ca_support_context_id = context,
      ca_operation = operation, ca_idempotency_key = key, ca_request_hash = h,
      ca_resource_type = rt, ca_resource_id = rid, ca_replay = None\<rparr>"
    and none: "find (\<lambda>r. c_actor_user_id r = actor \<and> c_operation r = operation \<and> c_idempotency_key r = key)
      (command_results s) = None"
    using assms(1,2) key by (auto simp: prepare_command_attempt_def Let_def)
  have app: "find P (xs @ ys) = (case find P xs of None \<Rightarrow> find P ys | Some x \<Rightarrow> Some x)"
    for P :: "command_result \<Rightarrow> bool" and xs ys
    by (induction xs) auto
  from assms(3) have s': "command_results s' = command_results s @
     [\<lparr>c_actor_user_id = actor, c_effective_organization_id = k, c_support_context_id = context,
       c_operation = operation, c_idempotency_key = key, c_request_hash = h, c_resource_type = rt,
       c_resource_id = rid, c_response_status = code, c_response_body = body\<rparr>]"
    by (auto simp: record_command_success_def a)
  show ?thesis
    using assms(5) key none by (auto simp: prepare_command_attempt_def Let_def assms(4) s' app split: option.splits)
qed

text \<open>A recorded command is replayed, never repeated. After a success has been recorded for an
  attempt with no earlier receipt, a request by the same user with the same key for the same
  operation yields that stored receipt if it is the same request in the same context, and 409
  otherwise (a busy lock can only refuse it).\<close>

lemma command_replay_roundtrip:
  assumes "prepare_command_attempt e s (Some raw) actor g context operation rt rid h = Inr (Some a)"
    and "ca_replay a = None"
    and "record_command_success (Some a) code body s = Inr s'"
    and "command_results s'' = command_results s' @ later"
    and "prepare_command_attempt e' s'' (Some raw) actor g' context' operation rt' rid' h' = Inr (Some a')"
  shows "g' = g \<and> context' = context \<and> rt' = rt \<and> rid' = rid \<and> h' = h \<and>
    (\<exists>r. ca_replay a' = Some r \<and> c_response_status r = code \<and> c_response_body r = body)"
  by (rule replay_after_record [OF assms])

end
