(* ===== verification/Constraints.thy ===== *)
theory Constraints
  imports Windows Catalog
begin

section \<open>The database checks\<close>

text \<open>
  \<^verbatim>\<open>src/app/market_constraints.py\<close>: the PostgreSQL \<open>CHECK\<close> expressions on orders, trades and
  inventory items, as predicates on rows. A column that cannot be null in the model (an
  enumeration, a number) satisfies its \<open>IS NOT NULL\<close> conjunct by its type. The operations of
  the later theories are shown to keep the lifecycle checks, so the checks never reject a write.
\<close>

definition required_numeric :: "dec \<Rightarrow> dec \<Rightarrow> dec \<Rightarrow> nat \<Rightarrow> bool" where
  "required_numeric x minimum maximum scale \<longleftrightarrow>
     minimum \<le> x \<and> x \<le> maximum \<and> of_int \<lfloor>x * 10 ^ scale\<rfloor> = x * 10 ^ scale"

definition optional_numeric :: "dec option \<Rightarrow> dec \<Rightarrow> dec \<Rightarrow> nat \<Rightarrow> bool" where
  "optional_numeric v minimum maximum scale =
     (case v of None \<Rightarrow> True | Some x \<Rightarrow> required_numeric x minimum maximum scale)"

definition idempotency_all_or_none :: "idempotency_columns \<Rightarrow> bool" where
  "idempotency_all_or_none c \<longleftrightarrow>
     idempotency_key c = None \<and> idempotency_operation c = None \<and> idempotency_request_hash c = None
     \<or> idempotency_key c \<noteq> None \<and> idempotency_operation c \<noteq> None \<and> idempotency_request_hash c \<noteq> None"

definition ORDER_DOMAIN :: "order \<Rightarrow> bool" where
  "ORDER_DOMAIN ord \<longleftrightarrow>
     (o_provenance ord \<noteq> DEMO \<or> o_status ord \<notin> {OPEN, PARTIALLY_FILLED} \<or> o_expires_at ord \<noteq> None)
     \<and> idempotency_all_or_none (o_idempotency ord)"

definition ORDER_NUMERIC_VALUES :: "order \<Rightarrow> bool" where
  "ORDER_NUMERIC_VALUES ord \<longleftrightarrow>
     required_numeric (o_quantity_mt ord) (1 / 100) 100000 2
     \<and> required_numeric (o_remaining_quantity_mt ord) 0 100000 2
     \<and> required_numeric (o_price_per_mt_usd ord) (1 / 100) 1000000 2
     \<and> optional_numeric (carbon_intensity_gco2_mj (o_metadata ord)) 0 10000 2
     \<and> optional_numeric (energy_density_mj_kg (o_metadata ord)) 0 10000 2"

definition ORDER_LIFECYCLE :: "order \<Rightarrow> bool" where
  "ORDER_LIFECYCLE ord \<longleftrightarrow>
     o_remaining_quantity_mt ord \<le> o_quantity_mt ord \<and>
     (o_status ord = OPEN \<and> o_remaining_quantity_mt ord = o_quantity_mt ord
      \<or> o_status ord = PARTIALLY_FILLED \<and> o_remaining_quantity_mt ord > 0
          \<and> o_remaining_quantity_mt ord < o_quantity_mt ord
      \<or> o_status ord = FILLED \<and> o_remaining_quantity_mt ord = 0
      \<or> o_status ord \<in> {CANCELLED, EXPIRED})"

definition TRADE_DOMAIN :: "trade \<Rightarrow> bool" where
  "TRADE_DOMAIN t \<longleftrightarrow>
     t_buyer_id t \<noteq> t_seller_id t
     \<and> (t_initiated_by t = BY_BUYER \<and> t_initiator_org_id t = t_buyer_id t
        \<or> t_initiated_by t = BY_SELLER \<and> t_initiator_org_id t = t_seller_id t)
     \<and> idempotency_all_or_none (t_idempotency t)
     \<and> (t_market_snapshot_version t = None
        \<or> t_buyer_provenance t = REAL \<and> t_seller_provenance t = REAL
        \<or> t_buyer_provenance t = DEMO \<and> t_seller_provenance t = DEMO
          \<and> t_buyer_id t \<in> set DEMO_MARKET_ORG_IDS \<and> t_seller_id t \<in> set DEMO_MARKET_ORG_IDS)"

definition TRADE_NUMERIC_VALUES :: "trade \<Rightarrow> bool" where
  "TRADE_NUMERIC_VALUES t \<longleftrightarrow>
     required_numeric (t_quantity_mt t) (1 / 100) 100000 2
     \<and> required_numeric (t_price_per_mt_usd t) (1 / 100) 1000000 2
     \<and> optional_numeric (t_final_quantity_mt t) (1 / 100) 100000 2
     \<and> optional_numeric (t_final_price_per_mt t) (1 / 100) 1000000 2
     \<and> optional_numeric (t_final_total_usd t) 0 100000000000 2
     \<and> required_numeric (t_commission_rate_pct t) 0 100 3
     \<and> optional_numeric (t_commission_fee_per_mt_usd t) 0 100000 2
     \<and> optional_numeric (t_commission_amount_usd t) 0 100000000000 2"

definition TRADE_COMMISSION_SNAPSHOT :: "trade \<Rightarrow> bool" where
  "TRADE_COMMISSION_SNAPSHOT t \<longleftrightarrow>
     t_commission_fee_per_mt_usd t = None \<and> t_commission_plan t = None
     \<or> t_commission_fee_per_mt_usd t \<noteq> None \<and> t_commission_rate_pct t = 0
       \<and> t_commission_plan t \<in> {Some ''free'', Some ''standard'', Some ''enterprise''}"

definition no_final :: "trade \<Rightarrow> bool" where
  "no_final t \<longleftrightarrow> t_final_quantity_mt t = None \<and> t_final_price_per_mt t = None \<and> t_final_total_usd t = None"

definition all_final :: "trade \<Rightarrow> bool" where
  "all_final t \<longleftrightarrow> t_final_quantity_mt t \<noteq> None \<and> t_final_price_per_mt t \<noteq> None \<and> t_final_total_usd t \<noteq> None"

definition TRADE_LIFECYCLE :: "trade \<Rightarrow> bool" where
  "TRADE_LIFECYCLE t \<longleftrightarrow>
     (case t_final_quantity_mt t of None \<Rightarrow> True | Some q \<Rightarrow> q \<le> t_quantity_mt t) \<and>
     (t_status t = PENDING_CONFIRMATION \<and> t_confirmed_at t = None \<and> t_delivered_at t = None
        \<and> t_paid_at t = None \<and> no_final t
      \<or> t_status t = CONFIRMED \<and> t_confirmed_at t \<noteq> None \<and> t_delivered_at t = None
        \<and> t_paid_at t = None \<and> no_final t
      \<or> t_status t = DELIVERED \<and> t_confirmed_at t \<noteq> None \<and> t_delivered_at t \<noteq> None
        \<and> t_paid_at t = None \<and> all_final t
      \<or> t_status t = PAID \<and> t_confirmed_at t \<noteq> None \<and> t_delivered_at t \<noteq> None
        \<and> t_paid_at t \<noteq> None \<and> all_final t
      \<or> t_status t \<in> {TRADE_CANCELLED, DECLINED} \<and> t_delivered_at t = None
        \<and> t_paid_at t = None \<and> no_final t)"

definition trimmed_nonempty :: "string option \<Rightarrow> bool" where
  "trimmed_nonempty v = (case v of None \<Rightarrow> False | Some x \<Rightarrow> dropWhile (\<lambda>c. c = CHR '' '') x \<noteq> [])"

definition TRADE_SNAPSHOT :: "trade \<Rightarrow> bool" where
  "TRADE_SNAPSHOT t \<longleftrightarrow>
     t_market_snapshot_version t = None \<or>
     (let m = t_snapshot t in
      t_market_snapshot_version t = Some 1 \<and> product_id m \<noteq> None
      \<and> trimmed_nonempty (product_name m) \<and> trimmed_nonempty (fuel_type m) \<and> trimmed_nonempty (fuel_grade m)
      \<and> (case market_product m of None \<Rightarrow> False
         | Some c \<Rightarrow> c \<in> set (map (\<lambda>sp. market_product_value (ps_market_product sp)) CANONICAL_PRODUCTS))
      \<and> (case availability_window m of None \<Rightarrow> False | Some w \<Rightarrow> canonical_window w)
      \<and> delivery_point_id m \<noteq> None \<and> delivery_point_name m \<noteq> None \<and> delivery_point_region m \<noteq> None)"

definition INVENTORY_NUMERIC_VALUES :: "inventory_item \<Rightarrow> bool" where
  "INVENTORY_NUMERIC_VALUES i \<longleftrightarrow>
     required_numeric (i_current_stock_mt i) 0 100000 2
     \<and> required_numeric (i_incoming_stock_mt i) 0 100000 2
     \<and> required_numeric (i_reserved_stock_mt i) 0 100000 2
     \<and> optional_numeric (i_price_per_mt_usd i) (1 / 100) 1000000 2
     \<and> optional_numeric (energy_density_mj_kg (i_metadata i)) 0 10000 2
     \<and> optional_numeric (carbon_intensity_gco2_mj (i_metadata i)) 0 10000 2"

lemma required_numeric_scale2: "required_numeric x lo hi 2 \<longleftrightarrow> lo \<le> x \<and> x \<le> hi \<and> scale2 x"
  by (simp add: required_numeric_def scale2_def)

end
