(* ===== verification/Effects.thy ===== *)
theory Effects
  imports Market_Types
begin

section \<open>Audit trail, notifications and the event outbox\<close>

text \<open>
  \<^verbatim>\<open>services/audit_service.py\<close>, \<^verbatim>\<open>services/org_notifications.py\<close> and
  \<^verbatim>\<open>services/market_events.py\<close>: what a market transaction writes beside its orders and trades.
  Message texts and JSON payloads are not modelled; who is told, about what, and in which order
  is. The lemmas say that none of these writes touches the market tables, and that an event
  reaches exactly its participants.
\<close>

definition record_audit :: "uuid option \<Rightarrow> string \<Rightarrow> string \<Rightarrow> uuid \<Rightarrow> market_db \<Rightarrow> market_db" where
  "record_audit actor action resource_type resource_id s =
     s\<lparr>audit_log := audit_log s @ [\<lparr>a_user_id = actor, a_action = action,
         a_resource_type = resource_type, a_resource_id = resource_id\<rparr>]\<rparr>"

text \<open>The envelope's participants are sorted and free of duplicates.\<close>

definition participant_market_event ::
  "string \<Rightarrow> string \<Rightarrow> uuid \<Rightarrow> uuid list \<Rightarrow> bool \<Rightarrow> outbox_event result" where
  "participant_market_event event_type aggregate_type aggregate_id participants public =
     (if participants = [] then Inl (ValueError ''market events require at least one participant organization'')
      else if py_strip event_type = [] \<or> py_strip aggregate_type = []
      then Inl (ValueError ''market event type and aggregate type are required'')
      else Inr \<lparr>e_event_type = event_type, e_aggregate_type = aggregate_type, e_aggregate_id = aggregate_id,
             e_participant_org_ids = sort (remdups participants), e_public_market_invalidation = public\<rparr>)"

definition enqueue_market_events :: "outbox_event list \<Rightarrow> market_db \<Rightarrow> market_db" where
  "enqueue_market_events events s = s\<lparr>outbox := outbox s @ events\<rparr>"

type_synonym org_notification = "uuid \<times> NotificationType \<times> uuid"

definition notify_org_users_batched :: "org_notification list \<Rightarrow> market_db \<Rightarrow> market_db" where
  "notify_org_users_batched pending s =
     s\<lparr>notifications := notifications s @
        concat (map (\<lambda>(g, kind, t).
          map (\<lambda>u. \<lparr>n_recipient_id = u_id u, n_type = kind, n_subject_id = t\<rparr>)
            (filter (\<lambda>u. u_organization_id u = Some g) (users s))) pending)\<rparr>"

definition notify_org_users :: "uuid \<Rightarrow> NotificationType \<Rightarrow> uuid \<Rightarrow> market_db \<Rightarrow> market_db" where
  "notify_org_users g kind t s = notify_org_users_batched [(g, kind, t)] s"

definition project :: "projection_call \<Rightarrow> market_db \<Rightarrow> market_db" where
  "project c s = s\<lparr>projections := projections s @ [c]\<rparr>"

text \<open>
  The tables the market's invariants speak about; the writes of this theory leave them alone.
\<close>

definition market_part :: "market_db \<Rightarrow> order list \<times> trade list \<times> inventory_item list \<times> user list \<times> organization list \<times>
     product list \<times> delivery_point list \<times> subscription list \<times> int \<times> uuid" where
  "market_part s = (orders s, trades s, inventory s, users s, organizations s, products s, delivery_points s,
     subscriptions s, next_ordinal s, next_id s)"

lemma effects_frame [frame_simps]:
  "market_part (record_audit a b c d s) = market_part s"
  "market_part (enqueue_market_events es s) = market_part s"
  "market_part (notify_org_users_batched ps s) = market_part s"
  "market_part (notify_org_users g k t s) = market_part s"
  "market_part (project p s) = market_part s"
  by (simp_all add: market_part_def record_audit_def enqueue_market_events_def notify_org_users_batched_def
      notify_org_users_def project_def)

lemma market_part_eqD:
  assumes "market_part s = market_part t"
  shows "orders s = orders t" "trades s = trades t" "inventory s = inventory t" "users s = users t"
    "organizations s = organizations t" "products s = products t" "delivery_points s = delivery_points t"
    "subscriptions s = subscriptions t" "next_ordinal s = next_ordinal t" "next_id s = next_id t"
  using assms by (simp_all add: market_part_def)

lemma effects_tables [simp]:
  "orders (record_audit a b c d s) = orders s" "trades (record_audit a b c d s) = trades s"
  "inventory (record_audit a b c d s) = inventory s" "next_id (record_audit a b c d s) = next_id s"
  "orders (enqueue_market_events es s) = orders s" "trades (enqueue_market_events es s) = trades s"
  "inventory (enqueue_market_events es s) = inventory s" "next_id (enqueue_market_events es s) = next_id s"
  "orders (notify_org_users_batched ps s) = orders s" "trades (notify_org_users_batched ps s) = trades s"
  "inventory (notify_org_users_batched ps s) = inventory s" "next_id (notify_org_users_batched ps s) = next_id s"
  "orders (notify_org_users g k t s) = orders s" "trades (notify_org_users g k t s) = trades s"
  "inventory (notify_org_users g k t s) = inventory s" "next_id (notify_org_users g k t s) = next_id s"
  "orders (project p s) = orders s" "trades (project p s) = trades s"
  "inventory (project p s) = inventory s" "next_id (project p s) = next_id s"
  by (simp_all add: record_audit_def enqueue_market_events_def notify_org_users_batched_def
      notify_org_users_def project_def)

lemma event_participants:
  "participant_market_event ty ag k ps pub = Inr e \<Longrightarrow> set (e_participant_org_ids e) = set ps"
  by (auto simp: participant_market_event_def split: if_splits)

lemma notified_users:
  "n \<in> set (notifications (notify_org_users g kind t s)) \<longleftrightarrow>
     n \<in> set (notifications s) \<or>
     (\<exists>u\<in>set (users s). u_organization_id u = Some g \<and>
        n = \<lparr>n_recipient_id = u_id u, n_type = kind, n_subject_id = t\<rparr>)"
  by (auto simp: notify_org_users_def notify_org_users_batched_def)

end
