(* ===== verification/Market_Ledger.thy ===== *)
theory Market_Ledger
  imports Constraints Inventory_Ledger Effects Example_Market
begin

section \<open>The two ledgers of the market\<close>

text \<open>
  The invariant that ties orders, trades and inventory together:
  \<^item> \<open>fills_ok\<close>: what remains of an order plus what its undeclined trades took is its quantity
    (at most its quantity once it is cancelled or expired);
  \<^item> \<open>reserves_upto\<close>: the reserved stock of an item is what its live orders still offer plus
    what its pending trades have taken, plus what is stranded;
  together with the database's lifecycle checks (\<open>rows_ok\<close>), referential integrity (\<open>refs_ok\<close>)
  and unique identifiers below the supply (\<open>keys_ok\<close>).

  The lemmas compute how each primitive write (one order, one trade, one item) moves the two
  balances; a handler's proof adds up the moves of its writes.
\<close>

definition live_status :: "OrderBookStatus \<Rightarrow> bool" where
  "live_status st \<longleftrightarrow> st = OPEN \<or> st = PARTIALLY_FILLED"

definition withdrawn :: "OrderBookStatus \<Rightarrow> bool" where
  "withdrawn st \<longleftrightarrow> st = CANCELLED \<or> st = EXPIRED"

text \<open>\<open>trade.ask_order_id or trade.bid_order_id\<close>\<close>

definition linked_order_id :: "trade \<Rightarrow> uuid option" where
  "linked_order_id t = (case t_ask_order_id t of Some k \<Rightarrow> Some k | None \<Rightarrow> t_bid_order_id t)"

subsection \<open>Balances\<close>

definition order_commitment :: "uuid \<Rightarrow> order \<Rightarrow> dec" where
  "order_commitment k ord =
     (if o_inventory_item_id ord = Some k \<and> live_status (o_status ord) then o_remaining_quantity_mt ord else 0)"

definition order_item :: "market_db \<Rightarrow> uuid \<Rightarrow> uuid option" where
  "order_item s j = (case order_of j s of None \<Rightarrow> None | Some ord \<Rightarrow> o_inventory_item_id ord)"

definition trade_commitment :: "(uuid \<Rightarrow> uuid option) \<Rightarrow> uuid \<Rightarrow> trade \<Rightarrow> dec" where
  "trade_commitment it k t =
     (if t_status t = PENDING_CONFIRMATION
         \<and> (case linked_order_id t of None \<Rightarrow> False | Some j \<Rightarrow> it j = Some k)
      then t_quantity_mt t else 0)"

definition committed :: "market_db \<Rightarrow> uuid \<Rightarrow> dec" where
  "committed s k = sum_list (map (order_commitment k) (orders s))
     + sum_list (map (trade_commitment (order_item s) k) (trades s))"

definition trade_fill :: "uuid \<Rightarrow> trade \<Rightarrow> dec" where
  "trade_fill j t =
     (if t_status t \<noteq> TRADE_CANCELLED \<and> t_status t \<noteq> DECLINED
         \<and> (t_bid_order_id t = Some j \<or> t_ask_order_id t = Some j)
      then t_quantity_mt t else 0)"

definition filled_quantity :: "market_db \<Rightarrow> uuid \<Rightarrow> dec" where
  "filled_quantity s j = sum_list (map (trade_fill j) (trades s))"

subsection \<open>The invariant\<close>

definition keys_ok :: "market_db \<Rightarrow> bool" where
  "keys_ok s \<longleftrightarrow> distinct (map o_id (orders s)) \<and> distinct (map t_id (trades s)) \<and> distinct (map i_id (inventory s))
     \<and> (\<forall>x\<in>set (orders s). o_id x < next_id s) \<and> (\<forall>x\<in>set (trades s). t_id x < next_id s)
     \<and> (\<forall>x\<in>set (inventory s). i_id x < next_id s)"

definition refs_ok :: "market_db \<Rightarrow> bool" where
  "refs_ok s \<longleftrightarrow>
     (\<forall>x\<in>set (orders s). \<forall>k. o_inventory_item_id x = Some k \<longrightarrow> k \<in> i_id ` set (inventory s)) \<and>
     (\<forall>t\<in>set (trades s). \<forall>j. t_bid_order_id t = Some j \<or> t_ask_order_id t = Some j \<longrightarrow> j \<in> o_id ` set (orders s))"

definition order_row_ok :: "order \<Rightarrow> bool" where
  "order_row_ok ord \<longleftrightarrow> ORDER_LIFECYCLE ord \<and> 0 \<le> o_remaining_quantity_mt ord \<and> 0 < o_quantity_mt ord"

definition trade_row_ok :: "trade \<Rightarrow> bool" where
  "trade_row_ok t \<longleftrightarrow> TRADE_LIFECYCLE t \<and> 0 < t_quantity_mt t
     \<and> (t_status t = PENDING_CONFIRMATION \<longrightarrow> t_bid_order_id t = None \<or> t_ask_order_id t = None)"

definition rows_ok :: "market_db \<Rightarrow> bool" where
  "rows_ok s \<longleftrightarrow> (\<forall>x\<in>set (orders s). order_row_ok x) \<and> (\<forall>t\<in>set (trades s). trade_row_ok t)"

definition order_filled :: "dec \<Rightarrow> order \<Rightarrow> bool" where
  "order_filled f ord \<longleftrightarrow>
     (if withdrawn (o_status ord) then o_remaining_quantity_mt ord + f \<le> o_quantity_mt ord
      else o_remaining_quantity_mt ord + f = o_quantity_mt ord)"

definition fills_ok :: "market_db \<Rightarrow> bool" where
  "fills_ok s \<longleftrightarrow> (\<forall>x\<in>set (orders s). order_filled (filled_quantity s (o_id x)) x)"

text \<open>
  The code has one path that leaves stock reserved for an order that is gone: the engine expires an incoming order that has lapsed without
  releasing its reservation. The invariant is therefore stated up to \<open>\<sigma>\<close>, the stock of each item that is stranded in this
  way; \<open>market_inv\<close> is the invariant of a market in which nothing is.
\<close>

definition reserves_upto :: "(uuid \<Rightarrow> dec) \<Rightarrow> market_db \<Rightarrow> bool" where
  "reserves_upto \<sigma> s \<longleftrightarrow> (\<forall>k. reserved_stock s k = committed s k + \<sigma> k \<and> 0 \<le> \<sigma> k \<and> 0 \<le> current_stock s k)"

definition market_inv_upto :: "(uuid \<Rightarrow> dec) \<Rightarrow> market_db \<Rightarrow> bool" where
  "market_inv_upto \<sigma> s \<longleftrightarrow> keys_ok s \<and> refs_ok s \<and> rows_ok s \<and> fills_ok s \<and> reserves_upto \<sigma> s"

abbreviation reserves_ok :: "market_db \<Rightarrow> bool" where
  "reserves_ok \<equiv> reserves_upto (\<lambda>_. 0)"

abbreviation market_inv :: "market_db \<Rightarrow> bool" where
  "market_inv \<equiv> market_inv_upto (\<lambda>_. 0)"

subsection \<open>The invariant only reads the market tables\<close>

lemma market_inv_cong:
  assumes "orders s' = orders s" "trades s' = trades s" "inventory s' = inventory s" "next_id s' = next_id s"
  shows "market_inv_upto \<sigma> s' = market_inv_upto \<sigma> s"
proof -
  have "reserved_stock s' = reserved_stock s" "current_stock s' = current_stock s"
    by (simp_all add: fun_eq_iff reserved_stock_def current_stock_def assms)
  moreover have "order_item s' = order_item s" by (rule ext) (simp add: order_item_def assms)
  then have "committed s' = committed s" by (intro ext) (simp add: committed_def assms)
  moreover have "filled_quantity s' = filled_quantity s" by (simp add: fun_eq_iff filled_quantity_def assms)
  ultimately show ?thesis
    by (simp add: market_inv_upto_def keys_ok_def refs_ok_def rows_ok_def fills_ok_def reserves_upto_def assms)
qed

lemma market_inv_effects [simp]:
  "market_inv_upto \<sigma> (record_audit a b c d s) = market_inv_upto \<sigma> s"
  "market_inv_upto \<sigma> (enqueue_market_events es s) = market_inv_upto \<sigma> s"
  "market_inv_upto \<sigma> (notify_org_users_batched ps s) = market_inv_upto \<sigma> s"
  "market_inv_upto \<sigma> (notify_org_users g k t s) = market_inv_upto \<sigma> s"
  "market_inv_upto \<sigma> (project p s) = market_inv_upto \<sigma> s"
  by (rule market_inv_cong; simp)+

subsection \<open>How the writes move the balances\<close>

lemma order_item_put_order:
  assumes "order_of (o_id x) s = Some old" "o_inventory_item_id x = o_inventory_item_id old"
  shows "order_item (put_order x s) = order_item s"
proof
  fix j
  show "order_item (put_order x s) j = order_item s j"
    using assms order_tab.get_put_same [OF assms(1)] order_tab.get_put_other [of j x s]
    by (cases "j = o_id x") (auto simp: order_item_def)
qed

lemma tables_frame [simp]:
  "trades (put_order x s) = trades s" "inventory (put_order x s) = inventory s" "next_id (put_order x s) = next_id s"
  "trades (ins_order x s) = trades s" "inventory (ins_order x s) = inventory s" "next_id (ins_order x s) = next_id s"
  "orders (put_trade t s) = orders s" "inventory (put_trade t s) = inventory s" "next_id (put_trade t s) = next_id s"
  "orders (ins_trade t s) = orders s" "inventory (ins_trade t s) = inventory s" "next_id (ins_trade t s) = next_id s"
  "orders (put_item i s) = orders s" "trades (put_item i s) = trades s" "next_id (put_item i s) = next_id s"
  "orders (ins_item i s) = orders s" "trades (ins_item i s) = trades s" "next_id (ins_item i s) = next_id s"
  by (simp_all add: put_order_def ins_order_def put_trade_def ins_trade_def put_item_def ins_item_def)

lemma stock_frame [simp]:
  "reserved_stock (put_order x s) = reserved_stock s" "current_stock (put_order x s) = current_stock s"
  "reserved_stock (ins_order x s) = reserved_stock s" "current_stock (ins_order x s) = current_stock s"
  "reserved_stock (put_trade t s) = reserved_stock s" "current_stock (put_trade t s) = current_stock s"
  "reserved_stock (ins_trade t s) = reserved_stock s" "current_stock (ins_trade t s) = current_stock s"
  by (simp_all add: fun_eq_iff reserved_stock_def current_stock_def)

lemma order_item_frame [simp]:
  "order_item (put_trade t s) = order_item s" "order_item (ins_trade t s) = order_item s"
  "order_item (put_item i s) = order_item s"
  by (simp_all add: fun_eq_iff order_item_def)

lemma committed_put_order:
  assumes "distinct (map o_id (orders s))" "order_of (o_id x) s = Some old"
    and "o_inventory_item_id x = o_inventory_item_id old"
  shows "committed (put_order x s) k = committed s k - order_commitment k old + order_commitment k x"
  using order_tab.total_put [OF assms(1,2), of "order_commitment k"]
  by (simp add: committed_def order_item_put_order [OF assms(2,3)])

lemma committed_put_trade:
  assumes "distinct (map t_id (trades s))" "trade_of (t_id x) s = Some old"
  shows "committed (put_trade x s) k =
    committed s k - trade_commitment (order_item s) k old + trade_commitment (order_item s) k x"
  using trade_tab.total_put [OF assms, of "trade_commitment (order_item s) k"] by (simp add: committed_def)

lemma committed_ins_trade:
  "committed (ins_trade x s) k = committed s k + trade_commitment (order_item s) k x"
  by (simp add: committed_def trade_tab.total_ins)

lemma committed_put_item: "committed (put_item i s) = committed s"
  by (simp add: fun_eq_iff committed_def)

lemma filled_frame [simp]:
  "filled_quantity (put_order x s) = filled_quantity s" "filled_quantity (ins_order x s) = filled_quantity s"
  "filled_quantity (put_item i s) = filled_quantity s"
  by (simp_all add: fun_eq_iff filled_quantity_def)

lemma filled_put_trade:
  assumes "distinct (map t_id (trades s))" "trade_of (t_id x) s = Some old"
  shows "filled_quantity (put_trade x s) j = filled_quantity s j - trade_fill j old + trade_fill j x"
  using trade_tab.total_put [OF assms, of "trade_fill j"] by (simp add: filled_quantity_def)

lemma filled_ins_trade: "filled_quantity (ins_trade x s) j = filled_quantity s j + trade_fill j x"
  by (simp add: filled_quantity_def trade_tab.total_ins)

lemma trade_links_known:
  assumes "refs_ok s" "t \<in> set (trades s)" "linked_order_id t = Some j"
  shows "j \<in> o_id ` set (orders s)"
  using assms by (auto simp: refs_ok_def linked_order_id_def split: option.splits)

lemma committed_ins_order:
  assumes "refs_ok s" "o_id x \<notin> o_id ` set (orders s)"
  shows "committed (ins_order x s) k = committed s k + order_commitment k x"
proof -
  have "trade_commitment (order_item (ins_order x s)) k t = trade_commitment (order_item s) k t"
    if "t \<in> set (trades s)" for t
  proof (cases "linked_order_id t")
    case (Some j)
    from trade_links_known [OF assms(1) that this] assms(2) have "j \<noteq> o_id x" by metis
    then show ?thesis
      using Some by (simp add: trade_commitment_def order_item_def order_tab.get_ins_other)
  qed (simp add: trade_commitment_def)
  then have eq: "sum_list (map (trade_commitment (order_item (ins_order x s)) k) (trades s)) =
      sum_list (map (trade_commitment (order_item s) k) (trades s))" by (metis map_eq_conv)
  show ?thesis by (simp add: committed_def order_tab.total_ins eq)
qed

lemma filled_fresh:
  assumes "refs_ok s" "j \<notin> o_id ` set (orders s)"
  shows "filled_quantity s j = 0"
proof -
  have "trade_fill j t = 0" if "t \<in> set (trades s)" for t
    using assms that by (auto simp: refs_ok_def trade_fill_def)
  then show ?thesis unfolding filled_quantity_def by (metis map_eq_conv sum_list_0)
qed

lemma commitment_nonneg:
  assumes "rows_ok s" shows "0 \<le> committed s k"
  using assms
  by (auto simp: committed_def rows_ok_def order_commitment_def trade_commitment_def order_row_ok_def
      trade_row_ok_def less_imp_le intro!: add_nonneg_nonneg sum_list_nonneg)

lemma member_le_sum_list:
  fixes f :: "'a \<Rightarrow> dec"
  assumes "x \<in> set xs" "\<And>y. y \<in> set xs \<Longrightarrow> 0 \<le> f y"
  shows "f x \<le> sum_list (map f xs)"
  using assms
proof (induction xs)
  case (Cons a xs)
  have nonneg: "0 \<le> sum_list (map f xs)" using Cons.prems(2) by (intro sum_list_nonneg) auto
  show ?case
  proof (cases "x = a")
    case True
    then show ?thesis using nonneg by simp
  next
    case False
    then have "f x \<le> sum_list (map f xs)" using Cons by auto
    then show ?thesis using Cons.prems(2) [of a] by simp
  qed
qed simp

subsection \<open>Preservation, part by part\<close>

lemma orders_put_mem: "x \<in> set (orders (put_order y s)) \<Longrightarrow> x = y \<or> x \<in> set (orders s) \<and> o_id x \<noteq> o_id y"
  unfolding order_tab.rows_put by (rule set_put_row)

lemma trades_put_mem: "x \<in> set (trades (put_trade y s)) \<Longrightarrow> x = y \<or> x \<in> set (trades s) \<and> t_id x \<noteq> t_id y"
  unfolding trade_tab.rows_put by (rule set_put_row)

lemma inventory_put_mem: "x \<in> set (inventory (put_item y s)) \<Longrightarrow> x = y \<or> x \<in> set (inventory s) \<and> i_id x \<noteq> i_id y"
  unfolding item_tab.rows_put by (rule set_put_row)

lemma order_of_mem: "order_of k s = Some x \<Longrightarrow> x \<in> set (orders s) \<and> o_id x = k"
  by (rule row_by_SomeD)

lemma trade_of_mem: "trade_of k s = Some x \<Longrightarrow> x \<in> set (trades s) \<and> t_id x = k"
  by (rule row_by_SomeD)

lemma ids_put [simp]:
  "o_id ` set (orders (put_order x s)) = o_id ` set (orders s)"
  "t_id ` set (trades (put_trade t s)) = t_id ` set (trades s)"
  "i_id ` set (inventory (put_item i s)) = i_id ` set (inventory s)"
  "map o_id (orders (put_order x s)) = map o_id (orders s)"
  "map t_id (trades (put_trade t s)) = map t_id (trades s)"
  "map i_id (inventory (put_item i s)) = map i_id (inventory s)"
  by (simp_all add: order_tab.rows_put trade_tab.rows_put item_tab.rows_put)

lemma keys_ok_alt: "keys_ok s \<longleftrightarrow>
    distinct (map o_id (orders s)) \<and> distinct (map t_id (trades s)) \<and> distinct (map i_id (inventory s)) \<and>
    (\<forall>k\<in>o_id ` set (orders s) \<union> t_id ` set (trades s) \<union> i_id ` set (inventory s). k < next_id s)"
  by (auto simp: keys_ok_def)

lemma keys_ok_put [simp]:
  "keys_ok (put_order x s) = keys_ok s" "keys_ok (put_trade t s) = keys_ok s" "keys_ok (put_item i s) = keys_ok s"
  by (simp_all add: keys_ok_alt)

lemma keys_ok_ins_trade:
  assumes "keys_ok s" "t_id t = next_id s"
  shows "keys_ok (ins_trade t (s\<lparr>next_id := next_id s + 1\<rparr>))"
  using assms by (auto simp: keys_ok_def ins_trade_def less_Suc_eq)

lemma keys_ok_ins_order:
  assumes "keys_ok s" "o_id x = next_id s"
  shows "keys_ok (ins_order x (s\<lparr>next_id := next_id s + 1\<rparr>))"
  using assms by (auto simp: keys_ok_def ins_order_def less_Suc_eq)

lemma refs_ok_put_order:
  assumes "refs_ok s" "order_of (o_id x) s = Some old" "o_inventory_item_id x = o_inventory_item_id old"
  shows "refs_ok (put_order x s)"
proof -
  have "old \<in> set (orders s)" using order_of_mem [OF assms(2)] by simp
  with assms(1,3) show ?thesis
    unfolding refs_ok_def tables_frame ids_put by (metis orders_put_mem)
qed

lemma refs_ok_put_item: "refs_ok (put_item i s) = refs_ok s"
  by (simp add: refs_ok_def)

lemma refs_ok_put_trade:
  assumes "refs_ok s" "trade_of (t_id t) s = Some old" "t_bid_order_id t = t_bid_order_id old"
    and "t_ask_order_id t = t_ask_order_id old"
  shows "refs_ok (put_trade t s)"
proof -
  have "old \<in> set (trades s)" using trade_of_mem [OF assms(2)] by simp
  with assms(1,3,4) show ?thesis
    unfolding refs_ok_def tables_frame by (metis trades_put_mem)
qed

lemma refs_ok_ins_trade:
  assumes "refs_ok s" "\<And>j. t_bid_order_id t = Some j \<or> t_ask_order_id t = Some j \<Longrightarrow> j \<in> o_id ` set (orders s)"
  shows "refs_ok (ins_trade t s)"
  using assms by (auto simp: refs_ok_def trade_tab.rows_ins)

lemma refs_ok_ins_order:
  assumes "refs_ok s" "\<And>k. o_inventory_item_id x = Some k \<Longrightarrow> k \<in> i_id ` set (inventory s)"
  shows "refs_ok (ins_order x s)"
  using assms by (auto simp: refs_ok_def order_tab.rows_ins)

lemma next_id_frame [simp]:
  "refs_ok (s\<lparr>next_id := n\<rparr>) = refs_ok s" "rows_ok (s\<lparr>next_id := n\<rparr>) = rows_ok s"
  "committed (s\<lparr>next_id := n\<rparr>) = committed s" "filled_quantity (s\<lparr>next_id := n\<rparr>) = filled_quantity s"
  "reserved_stock (s\<lparr>next_id := n\<rparr>) = reserved_stock s" "current_stock (s\<lparr>next_id := n\<rparr>) = current_stock s"
  "order_item (s\<lparr>next_id := n\<rparr>) = order_item s"
proof -
  show oi: "order_item (s\<lparr>next_id := n\<rparr>) = order_item s" by (rule ext) (simp add: order_item_def)
  show "committed (s\<lparr>next_id := n\<rparr>) = committed s" by (rule ext) (simp add: committed_def oi)
qed (simp_all add: refs_ok_def rows_ok_def filled_quantity_def fun_eq_iff reserved_stock_def current_stock_def)

lemma rows_ok_put:
  "rows_ok s \<Longrightarrow> order_row_ok x \<Longrightarrow> rows_ok (put_order x s)"
  "rows_ok s \<Longrightarrow> trade_row_ok t \<Longrightarrow> rows_ok (put_trade t s)"
  "rows_ok (put_item i s) = rows_ok s"
  by (auto simp: rows_ok_def dest!: orders_put_mem trades_put_mem)

lemma rows_ok_ins:
  "rows_ok s \<Longrightarrow> trade_row_ok t \<Longrightarrow> rows_ok (ins_trade t s)"
  "rows_ok s \<Longrightarrow> order_row_ok x \<Longrightarrow> rows_ok (ins_order x s)"
  by (auto simp: rows_ok_def trade_tab.rows_ins order_tab.rows_ins)

lemma order_unique:
  "keys_ok s \<Longrightarrow> x \<in> set (orders s) \<Longrightarrow> order_of (o_id x) s = Some x"
  by (rule row_by_distinct) (simp_all add: keys_ok_def)

text \<open>
  A stock movement leaves every table but the inventory alone, and the inventory's keys.
\<close>

definition same_market :: "market_db \<Rightarrow> market_db \<Rightarrow> bool" where
  "same_market s s1 \<longleftrightarrow> orders s1 = orders s \<and> trades s1 = trades s \<and> next_id s1 = next_id s
     \<and> map i_id (inventory s1) = map i_id (inventory s)"

lemma same_market_refl [simp]: "same_market s s"
  by (simp add: same_market_def)

lemma same_market_trans: "same_market s t \<Longrightarrow> same_market t u \<Longrightarrow> same_market s u"
  by (simp add: same_market_def)

lemma same_market_put_item [simp]: "same_market s (put_item i s)"
  by (simp add: same_market_def)

lemma same_market_stock:
  "reserve_inventory k q s = Inr s1 \<Longrightarrow> same_market s s1"
  "consume_inventory k q s = Inr s1 \<Longrightarrow> same_market s s1"
  "release_inventory k q s = Inr s1 \<Longrightarrow> same_market s s1"
  by (auto simp: reserve_inventory_def consume_inventory_def release_inventory_def split: if_splits)

lemma same_market_parts:
  assumes "same_market s s1"
  shows "keys_ok s1 = keys_ok s" "refs_ok s1 = refs_ok s" "rows_ok s1 = rows_ok s"
    "fills_ok s1 = fills_ok s" "committed s1 = committed s" "filled_quantity s1 = filled_quantity s"
    "order_item s1 = order_item s"
proof -
  have e: "orders s1 = orders s" "trades s1 = trades s" "next_id s1 = next_id s"
    "map i_id (inventory s1) = map i_id (inventory s)" using assms by (simp_all add: same_market_def)
  have ids: "i_id ` set (inventory s1) = i_id ` set (inventory s)" by (metis e(4) list.set_map)
  show oi: "order_item s1 = order_item s" by (rule ext) (simp add: order_item_def e)
  show f: "filled_quantity s1 = filled_quantity s" by (rule ext) (simp add: filled_quantity_def e)
  show "committed s1 = committed s" by (rule ext) (simp add: committed_def e oi)
  show "keys_ok s1 = keys_ok s" by (simp add: keys_ok_alt e ids)
  show "refs_ok s1 = refs_ok s" by (simp add: refs_ok_def e ids)
  show "rows_ok s1 = rows_ok s" by (simp add: rows_ok_def e)
  show "fills_ok s1 = fills_ok s" by (simp add: fills_ok_def e f)
qed

text \<open>
  The move behind cancelling, expiring and resizing an order: one order changes, and the stock
  of its item moves by the change of its commitment.
\<close>

lemma order_move:
  assumes inv: "market_inv_upto \<sigma> s" and old: "order_of (o_id x) s = Some old"
    and item: "o_inventory_item_id x = o_inventory_item_id old"
    and row: "order_row_ok x" "order_filled (filled_quantity s (o_id x)) x"
    and frame: "same_market s s1"
    and stock: "\<And>k. reserved_stock s1 k = reserved_stock s k - order_commitment k old + order_commitment k x"
      "\<And>k. 0 \<le> current_stock s1 k"
  shows "market_inv_upto \<sigma> (put_order x s1)"
proof -
  note p = same_market_parts [OF frame]
  have old1: "order_of (o_id x) s1 = Some old" using old frame by (simp add: same_market_def)
  have k: "keys_ok s1" and r: "refs_ok s1" and w: "rows_ok s1" and f: "fills_ok s"
    and res: "reserves_upto \<sigma> s" and d: "distinct (map o_id (orders s1))"
    using inv p(1) keys_ok_def [of s1] by (auto simp: market_inv_upto_def p)
  have "fills_ok (put_order x s1)"
    unfolding fills_ok_def
  proof
    fix y assume "y \<in> set (orders (put_order x s1))"
    from orders_put_mem [OF this] show "order_filled (filled_quantity (put_order x s1) (o_id y)) y"
      using row(2) f frame by (auto simp: p fills_ok_def same_market_def)
  qed
  moreover have "reserves_upto \<sigma> (put_order x s1)"
    using res stock by (simp add: reserves_upto_def committed_put_order [OF d old1 item] p)
  ultimately show ?thesis
    using k refs_ok_put_order [OF r old1 item] rows_ok_put(1) [OF w row(1)] by (simp add: market_inv_upto_def)
qed

text \<open>The example market satisfies the invariant.\<close>

lemma ex_market_inv: "market_inv ex_db"
proof -
  have "keys_ok ex_db" "refs_ok ex_db" by (simp_all add: keys_ok_def refs_ok_def)
  moreover have "rows_ok ex_db" by (simp add: rows_ok_def order_row_ok_def ORDER_LIFECYCLE_def)
  moreover have "fills_ok ex_db"
    by (simp add: fills_ok_def order_filled_def filled_quantity_def withdrawn_def)
  moreover have "reserved_stock ex_db k = committed ex_db k \<and> 0 \<le> current_stock ex_db k" for k
    by (cases "k = 21")
      (simp_all add: committed_def order_commitment_def live_status_def reserved_stock_def current_stock_def)
  then have "reserves_ok ex_db" by (simp add: reserves_upto_def)
  ultimately show ?thesis by (simp add: market_inv_upto_def)
qed

end
