(* ===== verification/Matching_Engine.thy ===== *)
theory Matching_Engine
  imports Policy Locks Market_Ledger "HOL-Library.Product_Lexorder"
begin

section \<open>The matching engine\<close>

text \<open>
  \<^verbatim>\<open>src/app/services/matching_engine.py\<close>: when an order is placed or repriced, cross it with the
  resting orders of the other side of its slice, best price first. The routine is split along
  its phases: the demo allowlist of the incoming order (\<open>demo_counterparty\<close>), the SQL filters and
  their ordering (\<open>match_filters\<close>, \<open>candidate_rows\<close>, \<open>crossing_orders\<close>), the checks of one crossing order
  (\<open>crossing_admitted\<close>), one fill (\<open>fill_crossing\<close>), the loop (\<open>match_loop\<close>) and the whole
  (\<open>match_order\<close>). The clock is a sequence of readings; \<open>clk 0\<close> is the engine's \<open>now\<close>.

  The transaction holds the slice's advisory lock across the two reads of the book, so both see
  the same orders: the model reads one state.
\<close>

definition MAX_CROSSING_ORDERS_PER_MATCH :: nat where
  "MAX_CROSSING_ORDERS_PER_MATCH = 100"

definition order_slice :: "order \<Rightarrow> slice_key" where
  "order_slice ord = (o_side ord, o_product_id ord, o_delivery_point_id ord, o_availability_window ord)"

definition opposite :: "OrderSide \<Rightarrow> OrderSide" where
  "opposite sd = (case sd of BID \<Rightarrow> ASK | ASK \<Rightarrow> BID)"

definition order_expired :: "time \<Rightarrow> order \<Rightarrow> bool" where
  "order_expired now ord = (case o_expires_at ord of None \<Rightarrow> False | Some t \<Rightarrow> t \<le> now)"

subsection \<open>Which incoming orders match at all\<close>

text \<open>
  The demo allowlist: \<open>None\<close> stops the match, \<open>Some None\<close> is a REAL order with no restriction,
  and \<open>Some (Some (order, organization))\<close> restricts a DEMO order to one counterparty.
\<close>

definition demo_counterparty :: "order \<Rightarrow> uuid list option \<Rightarrow> (uuid \<times> uuid) option option" where
  "demo_counterparty new allowed_demo_order_pair =
     (if o_provenance new = REAL then Some None
      else if o_provenance new \<noteq> DEMO then None
      else if o_organization_id new \<noteq>
                (if o_side new = BID then DEMO_ACTIVITY_BUYER_ORG_ID else DEMO_ACTIVITY_SELLER_ORG_ID)
      then None
      else case allowed_demo_order_pair of None \<Rightarrow> None
        | Some pair \<Rightarrow>
            if length (remdups pair) \<noteq> 2 \<or> o_id new \<notin> set pair then None
            else case filter (\<lambda>k. k \<noteq> o_id new) (remdups pair) of
              [counterparty] \<Rightarrow>
                Some (Some (counterparty,
                  if o_side new = BID then DEMO_ACTIVITY_SELLER_ORG_ID else DEMO_ACTIVITY_BUYER_ORG_ID))
            | _ \<Rightarrow> None)"

subsection \<open>The book the order crosses\<close>

definition price_crosses :: "order \<Rightarrow> order \<Rightarrow> bool" where
  "price_crosses new c = (if o_side new = BID then o_price_per_mt_usd c \<le> o_price_per_mt_usd new
                          else o_price_per_mt_usd c \<ge> o_price_per_mt_usd new)"

definition match_filters :: "time \<Rightarrow> order \<Rightarrow> market_db \<Rightarrow> order \<Rightarrow> bool" where
  "match_filters now new s c \<longleftrightarrow>
     o_side c = opposite (o_side new)
     \<and> o_product_id c = o_product_id new
     \<and> o_availability_window c = o_availability_window new
     \<and> live_status (o_status c)
     \<and> o_organization_id c \<noteq> o_organization_id new
     \<and> price_crosses new c
     \<and> (case o_expires_at c of None \<Rightarrow> True | Some t \<Rightarrow> t > now)
     \<and> o_provenance c = o_provenance new
     \<and> (case organization_of (o_organization_id c) s of None \<Rightarrow> False
        | Some g \<Rightarrow> g_verification_status g = ''APPROVED'')
     \<and> o_delivery_point_id c = o_delivery_point_id new"

text \<open>\<open>ORDER BY price (best first), acceptance_ordinal, id\<close>\<close>

definition priority_key :: "order \<Rightarrow> order \<Rightarrow> dec \<times> int \<times> uuid" where
  "priority_key new c = ((if o_side new = BID then o_price_per_mt_usd c else - o_price_per_mt_usd c),
     o_acceptance_ordinal c, o_id c)"

definition candidate_rows :: "time \<Rightarrow> order \<Rightarrow> market_db \<Rightarrow> order list" where
  "candidate_rows now new s =
     take (MAX_CROSSING_ORDERS_PER_MATCH + 1)
       (sort_key (priority_key new) (filter (match_filters now new s) (orders s)))"

definition crossing_orders :: "time \<Rightarrow> order \<Rightarrow> market_db \<Rightarrow> order list" where
  "crossing_orders now new s =
     (let candidate_ids = map o_id (take MAX_CROSSING_ORDERS_PER_MATCH (candidate_rows now new s)) in
      sort_key (priority_key new)
        (filter (\<lambda>c. o_id c \<in> set candidate_ids \<and> match_filters now new s c) (orders s)))"

subsection \<open>One crossing order\<close>

definition owners_admitted :: "order \<Rightarrow> market_db \<Rightarrow> order \<Rightarrow> bool" where
  "owners_admitted new s c =
     (case (o_owner_user_id new, o_owner_user_id c) of
        (Some nu, Some cu) \<Rightarrow>
          order_owner_is_execution_eligible s new (user_of nu s) (organization_of (o_organization_id new) s)
          \<and> order_owner_is_execution_eligible s c (user_of cu s) (organization_of (o_organization_id c) s)
      | _ \<Rightarrow> False)"

definition crossing_admitted :: "order \<Rightarrow> (uuid \<times> uuid) option \<Rightarrow> market_db \<Rightarrow> order \<Rightarrow> bool" where
  "crossing_admitted new counterparty s c \<longleftrightarrow>
     execution_provenance_compatible (o_provenance new) (o_provenance c)
       (Some (o_organization_id new)) (Some (o_organization_id c)) (Some DEMO_ACTIVITY_ORG_IDS)
     \<and> (case counterparty of None \<Rightarrow> True | Some (k, g) \<Rightarrow> o_id c = k \<and> o_organization_id c = g)
     \<and> orders_execution_compatible new c
     \<and> (counterparty = None \<longrightarrow> owners_admitted new s c)"

text \<open>\<open>consumption_by_item\<close>: what a fill takes from each inventory item.\<close>

definition consumption_by_item :: "order \<Rightarrow> order \<Rightarrow> dec \<Rightarrow> (uuid \<times> dec) list" where
  "consumption_by_item new c qty =
     (case (o_inventory_item_id new, o_inventory_item_id c) of
        (None, None) \<Rightarrow> []
      | (Some k, None) \<Rightarrow> [(k, qty)]
      | (None, Some k) \<Rightarrow> [(k, qty)]
      | (Some k, Some l) \<Rightarrow> if k = l then [(k, qty + qty)] else [(k, qty), (l, qty)])"

definition consume_matched :: "uuid \<times> dec \<Rightarrow> market_db \<Rightarrow> market_db result" where
  "consume_matched entry s = (case entry of (k, consumed) \<Rightarrow>
     case item_of k s of None \<Rightarrow> Inl KeyError
     | Some item \<Rightarrow>
         if i_reserved_stock_mt item < consumed
         then Inl (RuntimeError ''inventory reservation is inconsistent; refusing the match'')
         else Inr (put_item (item\<lparr>i_reserved_stock_mt := i_reserved_stock_mt item - consumed\<rparr>) s))"

definition order_snapshot :: "market_db \<Rightarrow> order \<Rightarrow> market_snapshot" where
  "order_snapshot s ord =
     (let pr = product_of (o_product_id ord) s;
          dp = (case o_delivery_point_id ord of None \<Rightarrow> None | Some k \<Rightarrow> delivery_point_of k s) in
      \<lparr>product_id = Some (o_product_id ord),
       product_name = Some (case pr of None \<Rightarrow> [] | Some p \<Rightarrow> p_name p),
       fuel_type = Some (case pr of None \<Rightarrow> [] | Some p \<Rightarrow> p_fuel_type p),
       fuel_grade = Some (case pr of None \<Rightarrow> ''Conventional'' | Some p \<Rightarrow> p_fuel_grade p),
       market_product = (case pr of None \<Rightarrow> None | Some p \<Rightarrow> product_market_product p),
       delivery_point_id = o_delivery_point_id ord,
       delivery_point_name = map_option d_name dp,
       delivery_point_region = Some (case dp of None \<Rightarrow> [] | Some d \<Rightarrow> d_region d),
       availability_window = Some (o_availability_window ord)\<rparr>)"

definition matched_trade ::
  "market_db \<Rightarrow> bool \<Rightarrow> order \<Rightarrow> order \<Rightarrow> dec \<Rightarrow> SubscriptionTier \<times> dec \<Rightarrow> time \<Rightarrow> time \<Rightarrow> trade" where
  "matched_trade s is_anonymous new c qty fee confirmed created =
     (let bid = (if o_side new = BID then new else c); ask = (if o_side new = BID then c else new) in
      \<lparr>t_id = next_id s, t_bid_order_id = Some (o_id bid), t_ask_order_id = Some (o_id ask),
       t_buyer_id = o_organization_id bid, t_seller_id = o_organization_id ask,
       t_buyer_user_id = o_owner_user_id bid, t_seller_user_id = o_owner_user_id ask,
       t_initiator_org_id = o_organization_id new,
       t_buyer_provenance = o_provenance bid, t_seller_provenance = o_provenance ask,
       t_initiated_by = (if o_side new = BID then BY_BUYER else BY_SELLER),
       t_is_anonymous = is_anonymous,
       t_snapshot = order_snapshot s new, t_market_snapshot_version = Some 1,
       t_quantity_mt = qty, t_price_per_mt_usd = o_price_per_mt_usd c,
       t_status = CONFIRMED,
       t_final_quantity_mt = None, t_final_price_per_mt = None, t_final_total_usd = None,
       t_commission_rate_pct = 0, t_commission_fee_per_mt_usd = Some (snd fee),
       t_commission_plan = Some (tier_value (fst fee)), t_commission_amount_usd = None,
       t_confirmed_at = Some confirmed, t_delivered_at = None, t_paid_at = None, t_created_at = created,
       t_idempotency = no_idempotency\<rparr>)"

definition filled_order :: "dec \<Rightarrow> order \<Rightarrow> order" where
  "filled_order qty ord =
     (let remaining = o_remaining_quantity_mt ord - qty in
      bump_version (ord\<lparr>o_remaining_quantity_mt := remaining,
        o_status := (if remaining = 0 then FILLED else PARTIALLY_FILLED)\<rparr>))"

record match_state =
  ms_db :: market_db
  ms_new :: order
  ms_fees :: "(uuid \<times> SubscriptionTier \<times> dec) list"
  ms_trades :: "trade list"
  ms_pending :: "org_notification list"

definition fill_crossing ::
  "Settings \<Rightarrow> (nat \<Rightarrow> time) \<Rightarrow> bool \<Rightarrow> order \<Rightarrow> match_state \<Rightarrow> match_state result" where
  "fill_crossing cfg clk is_anonymous c m =
     (let new = ms_new m; s = ms_db m;
          trade_qty = min (o_remaining_quantity_mt new) (o_remaining_quantity_mt c);
          buyer_org = (if o_side new = BID then o_organization_id new else o_organization_id c);
          seller_org = (if o_side new = BID then o_organization_id c else o_organization_id new);
          n = length (ms_trades m) in
      bindR (case map_of (ms_fees m) seller_org of Some fee \<Rightarrow> Inr fee
             | None \<Rightarrow> resolve_seller_trade_fee cfg s seller_org (clk 0)) (\<lambda>fee.
      let consumption = consumption_by_item new c trade_qty in
      bindR (lock_inventory_items s (map fst consumption)) (\<lambda>_.
      bindR (mapR consume_matched consumption s) (\<lambda>s1.
      let t = matched_trade s1 is_anonymous new c trade_qty fee (clk (2 * n + 1)) (clk (2 * n + 2));
          new' = filled_order trade_qty new; c' = filled_order trade_qty c;
          s2 = put_order c' (put_order new' (ins_trade t (s1\<lparr>next_id := next_id s1 + 1\<rparr>))) in
      Inr (m\<lparr>ms_db := s2, ms_new := new',
             ms_fees := (if map_of (ms_fees m) seller_org = None then (seller_org, fee) # ms_fees m else ms_fees m),
             ms_trades := ms_trades m @ [t],
             ms_pending := ms_pending m @
               [(buyer_org, TRADE_CONFIRMED, t_id t), (seller_org, TRADE_CONFIRMED, t_id t)]\<rparr>)))))"

definition match_step ::
  "Settings \<Rightarrow> (nat \<Rightarrow> time) \<Rightarrow> bool \<Rightarrow> (uuid \<times> uuid) option \<Rightarrow> order \<Rightarrow> match_state \<Rightarrow> match_state result" where
  "match_step cfg clk is_anonymous counterparty c m =
     (if order_expired (clk 0) c
      then Inr (m\<lparr>ms_db := put_order (bump_version (c\<lparr>o_status := EXPIRED\<rparr>)) (ms_db m)\<rparr>)
      else if crossing_admitted (ms_new m) counterparty (ms_db m) c
      then fill_crossing cfg clk is_anonymous c m
      else Inr m)"

text \<open>The loop stops as soon as nothing of the incoming order remains.\<close>

fun match_loop ::
  "Settings \<Rightarrow> (nat \<Rightarrow> time) \<Rightarrow> bool \<Rightarrow> (uuid \<times> uuid) option \<Rightarrow> order list \<Rightarrow> match_state \<Rightarrow> match_state result" where
  "match_loop cfg clk anon counterparty [] m = Inr m"
| "match_loop cfg clk anon counterparty (c # cs) m =
     (if o_remaining_quantity_mt (ms_new m) \<le> 0 then Inr m
      else bindR (match_step cfg clk anon counterparty c m) (match_loop cfg clk anon counterparty cs))"

definition match_order ::
  "env \<Rightarrow> Settings \<Rightarrow> (nat \<Rightarrow> time) \<Rightarrow> order \<Rightarrow> bool \<Rightarrow> uuid list option \<Rightarrow> market_db \<Rightarrow> (market_db \<times> trade list) result"
where
  "match_order e cfg clk new is_anonymous allowed_demo_order_pair s =
     (if o_remaining_quantity_mt new \<le> 0 then Inr (s, [])
      else bindR (acquire_market_slice_lock e (order_slice new)) (\<lambda>_.
      if order_expired (clk 0) new
      then Inr (put_order (bump_version (new\<lparr>o_status := EXPIRED\<rparr>)) s, [])
      else case demo_counterparty new allowed_demo_order_pair of
        None \<Rightarrow> Inr (s, [])
      | Some counterparty \<Rightarrow>
          if \<not> order_is_execution_qualified new then Inr (s, [])
          else let rows = candidate_rows (clk 0) new s;
                   fanout_exceeded = length rows > MAX_CROSSING_ORDERS_PER_MATCH;
                   crossing = crossing_orders (clk 0) new s in
            if rows = [] then Inr (s, [])
            else bindR (lock_and_load_market_organizations s
                          (o_organization_id new # map o_organization_id crossing) [] True []) (\<lambda>_.
            bindR (match_loop cfg clk is_anonymous counterparty crossing
                     \<lparr>ms_db = s, ms_new = new, ms_fees = [], ms_trades = [], ms_pending = []\<rparr>) (\<lambda>m.
            let s' = notify_org_users_batched (ms_pending m) (ms_db m) in
            if fanout_exceeded \<and> o_remaining_quantity_mt (ms_new m) > 0
            then Inl (HTTPException 409 ''Market slice match fan-out exceeds the per-transaction bound; no partial matching result was committed'')
            else Inr (s', ms_trades m)))))"

end
