(* ===== verification/Matching_Ledger.thy ===== *)
theory Matching_Ledger
  imports Matching_Engine
begin

section \<open>Matching keeps the ledgers\<close>

text \<open>
  The matching loop preserves the market invariant: every fill takes the same quantity from both
  orders, from the reserved stock of both orders' items, and adds it to one confirmed trade.
\<close>

subsection \<open>Stock consumption of a fill\<close>

definition taken :: "uuid \<Rightarrow> (uuid \<times> dec) list \<Rightarrow> dec" where
  "taken k entries = sum_list (map (\<lambda>(i, q). if i = k then q else 0) entries)"

lemma consume_matched_effect:
  assumes "consume_matched (i, q) s = Inr s1"
  shows "same_market s s1 \<and> current_stock s1 = current_stock s \<and>
    reserved_stock s1 = (reserved_stock s)(i := reserved_stock s i - q)"
  using assms
  by (auto simp: consume_matched_def stock_put_item current_stock_def [of s i] reserved_stock_def [of s i]
      fun_eq_iff split: option.splits if_splits)

lemma consume_all_effect:
  assumes "mapR consume_matched entries s = Inr s1"
  shows "same_market s s1 \<and> current_stock s1 = current_stock s \<and>
    (\<forall>k. reserved_stock s1 k = reserved_stock s k - taken k entries)"
  using assms
proof (induction entries arbitrary: s)
  case (Cons e es)
  obtain i q where e: "e = (i, q)" by fastforce
  from Cons.prems obtain t where t: "consume_matched (i, q) s = Inr t" "mapR consume_matched es t = Inr s1"
    by (auto simp: e)
  from Cons.IH [OF t(2)] consume_matched_effect [OF t(1)] show ?case
    by (auto simp: e taken_def same_market_def)
qed (simp add: taken_def)

lemma taken_consumption:
  "taken k (consumption_by_item a b q) =
     (if o_inventory_item_id a = Some k then q else 0) + (if o_inventory_item_id b = Some k then q else 0)"
  by (auto simp: taken_def consumption_by_item_def split: option.splits)

subsection \<open>One fill\<close>

lemma filled_order_fields [simp]:
  "o_id (filled_order q x) = o_id x" "o_inventory_item_id (filled_order q x) = o_inventory_item_id x"
  "o_quantity_mt (filled_order q x) = o_quantity_mt x"
  "o_remaining_quantity_mt (filled_order q x) = o_remaining_quantity_mt x - q"
  "o_status (filled_order q x) = (if o_remaining_quantity_mt x - q = 0 then FILLED else PARTIALLY_FILLED)"
  "o_side (filled_order q x) = o_side x" "o_organization_id (filled_order q x) = o_organization_id x"
  "o_price_per_mt_usd (filled_order q x) = o_price_per_mt_usd x" "o_provenance (filled_order q x) = o_provenance x"
  "o_expires_at (filled_order q x) = o_expires_at x" "o_product_id (filled_order q x) = o_product_id x"
  "o_delivery_point_id (filled_order q x) = o_delivery_point_id x"
  "o_availability_window (filled_order q x) = o_availability_window x" "o_metadata (filled_order q x) = o_metadata x"
  "o_certifications (filled_order q x) = o_certifications x" "o_owner_user_id (filled_order q x) = o_owner_user_id x"
  "o_created_by_actor_user_id (filled_order q x) = o_created_by_actor_user_id x"
  "o_creation_method (filled_order q x) = o_creation_method x"
  by (simp_all add: filled_order_def Let_def)

lemma live_row:
  assumes "order_row_ok x" "live_status (o_status x)"
  shows "0 < o_remaining_quantity_mt x \<and> o_remaining_quantity_mt x \<le> o_quantity_mt x \<and> \<not> withdrawn (o_status x)"
  using assms by (auto simp: order_row_ok_def ORDER_LIFECYCLE_def live_status_def withdrawn_def)

lemma filled_order_ok:
  assumes "order_row_ok x" "live_status (o_status x)" "0 < q" "q \<le> o_remaining_quantity_mt x"
  shows "order_row_ok (filled_order q x)"
    and "order_commitment k (filled_order q x) =
      order_commitment k x - (if o_inventory_item_id x = Some k then q else 0)"
    and "order_filled f x \<Longrightarrow> order_filled (f + q) (filled_order q x)"
  using live_row [OF assms(1,2)] assms
  by (auto simp: order_row_ok_def ORDER_LIFECYCLE_def order_commitment_def live_status_def order_filled_def withdrawn_def)

lemma two_order_fill:
  assumes inv: "market_inv_upto \<sigma> s" and a: "order_of (o_id a) s = Some a" and b: "order_of (o_id b) s = Some b"
    and ab: "o_id a \<noteq> o_id b" and live: "live_status (o_status a)" "live_status (o_status b)"
    and q: "0 < q" "q \<le> o_remaining_quantity_mt a" "q \<le> o_remaining_quantity_mt b"
    and t: "t_id t = next_id s" "trade_row_ok t" "t_status t = CONFIRMED" "t_quantity_mt t = q"
      "{t_bid_order_id t, t_ask_order_id t} = {Some (o_id a), Some (o_id b)}"
    and s1: "same_market s s1" "current_stock s1 = current_stock s"
      "\<And>k. reserved_stock s1 k = reserved_stock s k - taken k (consumption_by_item a b q)"
  shows "market_inv_upto \<sigma> (put_order (filled_order q b) (put_order (filled_order q a)
           (ins_trade t (s1\<lparr>next_id := next_id s1 + 1\<rparr>))))"
proof -
  note p = same_market_parts [OF s1(1)]
  have n1: "next_id s1 = next_id s" and o1: "orders s1 = orders s" and t1: "trades s1 = trades s"
    using s1(1) by (simp_all add: same_market_def)
  have parts: "keys_ok s1" "refs_ok s1" "rows_ok s1" "fills_ok s" "reserves_upto \<sigma> s"
    using inv by (simp_all add: market_inv_upto_def p)
  have rows: "order_row_ok a" "order_row_ok b"
    using parts(3) order_of_mem [OF a] order_of_mem [OF b] by (auto simp: rows_ok_def o1)
  define u where "u = ins_trade t (s1\<lparr>next_id := next_id s1 + 1\<rparr>)"
  define v where "v = put_order (filled_order q a) u"
  have uo: "orders u = orders s" by (simp add: u_def o1)
  have ku: "keys_ok u" unfolding u_def using keys_ok_ins_trade [of s1 t] parts(1) t(1) n1 by simp
  have d: "distinct (map o_id (orders u))" using ku by (simp add: keys_ok_def)
  have au: "order_of (o_id (filled_order q a)) u = Some a" using a by (simp add: uo)
  have bv: "order_of (o_id (filled_order q b)) v = Some b"
    using b ab order_tab.get_put_other [of "o_id b" "filled_order q a" u] by (simp add: v_def uo)
  have dv: "distinct (map o_id (orders v))" using d by (simp add: v_def)
  have linked: "o_id a \<in> o_id ` set (orders s)" "o_id b \<in> o_id ` set (orders s)"
    using order_of_mem [OF a] order_of_mem [OF b] by force+
  have ru: "refs_ok u" unfolding u_def
  proof (rule refs_ok_ins_trade)
    fix j assume "t_bid_order_id t = Some j \<or> t_ask_order_id t = Some j"
    then have "j = o_id a \<or> j = o_id b" using t(5) by (auto simp: doubleton_eq_iff)
    then show "j \<in> o_id ` set (orders (s1\<lparr>next_id := next_id s1 + 1\<rparr>))" using linked o1 by fastforce
  qed (simp add: parts(2))
  have "refs_ok (put_order (filled_order q b) v)"
    unfolding v_def using ru au bv by (intro refs_ok_put_order) (simp_all add: v_def)
  moreover have "rows_ok (put_order (filled_order q b) v)"
    unfolding v_def u_def using parts(3) t(2) filled_order_ok(1) rows live q
    by (intro rows_ok_put rows_ok_ins) simp_all
  moreover have fu: "filled_quantity v j = filled_quantity s j + (if j = o_id a \<or> j = o_id b then q else 0)" for j
    using t(3,4,5) ab by (auto simp: v_def u_def filled_ins_trade p trade_fill_def doubleton_eq_iff)
  have "fills_ok (put_order (filled_order q b) v)"
    unfolding fills_ok_def
  proof
    fix y assume "y \<in> set (orders (put_order (filled_order q b) v))"
    then consider "y = filled_order q b" | "y = filled_order q a" | "y \<in> set (orders s)" "o_id y \<noteq> o_id a" "o_id y \<noteq> o_id b"
      using orders_put_mem [of y "filled_order q b" v] orders_put_mem [of y "filled_order q a" u]
      by (auto simp: v_def uo)
    moreover have "order_filled (filled_quantity s (o_id a)) a" "order_filled (filled_quantity s (o_id b)) b"
      using parts(4) order_of_mem [OF a] order_of_mem [OF b] by (auto simp: fills_ok_def)
    ultimately show "order_filled (filled_quantity (put_order (filled_order q b) v) (o_id y)) y"
      using filled_order_ok(3) rows live q parts(4) by cases (auto simp: fu fills_ok_def)
  qed
  moreover have "committed (put_order (filled_order q b) v) k = committed s k - taken k (consumption_by_item a b q)" for k
    using t(3) committed_put_order [OF dv bv] committed_put_order [OF d au]
      filled_order_ok(2) [OF rows(1) live(1) q(1,2)] filled_order_ok(2) [OF rows(2) live(2) q(1,3)]
    by (simp add: v_def [symmetric] taken_consumption) (simp add: u_def committed_ins_trade trade_commitment_def p)
  then have "reserves_upto \<sigma> (put_order (filled_order q b) v)"
    using parts(5) s1(2,3) by (simp add: reserves_upto_def v_def u_def)
  moreover have "keys_ok (put_order (filled_order q b) v)" using ku by (simp add: v_def)
  ultimately show ?thesis by (simp add: market_inv_upto_def v_def u_def)
qed

subsection \<open>The loop\<close>

text \<open>
  What holds before each iteration: the invariant, the incoming order's row is the one being
  matched, and the orders still to be visited are live, unexpired and untouched.
\<close>

definition loop_inv :: "(uuid \<Rightarrow> dec) \<Rightarrow> time \<Rightarrow> order list \<Rightarrow> match_state \<Rightarrow> bool" where
  "loop_inv \<sigma> now cs m \<longleftrightarrow>
     market_inv_upto \<sigma> (ms_db m)
     \<and> order_of (o_id (ms_new m)) (ms_db m) = Some (ms_new m)
     \<and> (0 < o_remaining_quantity_mt (ms_new m) \<longrightarrow> live_status (o_status (ms_new m)))
     \<and> distinct (map o_id cs)
     \<and> (\<forall>c\<in>set cs. order_of (o_id c) (ms_db m) = Some c \<and> live_status (o_status c)
          \<and> \<not> order_expired now c \<and> o_id c \<noteq> o_id (ms_new m))"

lemma matched_trade_fields [simp]:
  "t_id (matched_trade s an new c q fee x y) = next_id s"
  "t_status (matched_trade s an new c q fee x y) = CONFIRMED"
  "t_quantity_mt (matched_trade s an new c q fee x y) = q"
  "t_price_per_mt_usd (matched_trade s an new c q fee x y) = o_price_per_mt_usd c"
  "t_is_anonymous (matched_trade s an new c q fee x y) = an"
  "t_buyer_id (matched_trade s an new c q fee x y) = (if o_side new = BID then o_organization_id new else o_organization_id c)"
  "t_seller_id (matched_trade s an new c q fee x y) = (if o_side new = BID then o_organization_id c else o_organization_id new)"
  "t_bid_order_id (matched_trade s an new c q fee x y) = Some (if o_side new = BID then o_id new else o_id c)"
  "t_ask_order_id (matched_trade s an new c q fee x y) = Some (if o_side new = BID then o_id c else o_id new)"
  by (simp_all add: matched_trade_def Let_def)

lemma matched_trade_row_ok: "0 < q \<Longrightarrow> trade_row_ok (matched_trade s an new c q fee x y)"
  by (simp add: trade_row_ok_def TRADE_LIFECYCLE_def no_final_def) (simp add: matched_trade_def Let_def)

text \<open>A successful fill, unpacked.\<close>

lemma fill_crossing_cases:
  assumes "fill_crossing cfg clk an c m = Inr m'"
  obtains fee s1 where
    "(case map_of (ms_fees m) (if o_side (ms_new m) = BID then o_organization_id c else o_organization_id (ms_new m)) of
        Some fee \<Rightarrow> Inr fee
      | None \<Rightarrow> resolve_seller_trade_fee cfg (ms_db m)
          (if o_side (ms_new m) = BID then o_organization_id c else o_organization_id (ms_new m)) (clk 0)) = Inr fee"
    "mapR consume_matched (consumption_by_item (ms_new m) c
        (min (o_remaining_quantity_mt (ms_new m)) (o_remaining_quantity_mt c))) (ms_db m) = Inr s1"
    "ms_new m' = filled_order (min (o_remaining_quantity_mt (ms_new m)) (o_remaining_quantity_mt c)) (ms_new m)"
    "ms_trades m' = ms_trades m @ [matched_trade s1 an (ms_new m) c
        (min (o_remaining_quantity_mt (ms_new m)) (o_remaining_quantity_mt c)) fee
        (clk (2 * length (ms_trades m) + 1)) (clk (2 * length (ms_trades m) + 2))]"
    "ms_db m' = put_order (filled_order (min (o_remaining_quantity_mt (ms_new m)) (o_remaining_quantity_mt c)) c)
       (put_order (ms_new m') (ins_trade (last (ms_trades m')) (s1\<lparr>next_id := next_id s1 + 1\<rparr>)))"
  using assms by (auto simp: fill_crossing_def Let_def split: if_splits)

lemma fill_crossing_loop_inv:
  assumes inv: "loop_inv \<sigma> now (c # cs) m" and pos: "0 < o_remaining_quantity_mt (ms_new m)"
    and step: "fill_crossing cfg clk an c m = Inr m'"
  shows "loop_inv \<sigma> now cs m'"
proof -
  define q where "q = min (o_remaining_quantity_mt (ms_new m)) (o_remaining_quantity_mt c)"
  from fill_crossing_cases [OF step] obtain fee s1 where
    s1: "mapR consume_matched (consumption_by_item (ms_new m) c q) (ms_db m) = Inr s1"
    and new': "ms_new m' = filled_order q (ms_new m)"
    and tr: "ms_trades m' = ms_trades m @ [matched_trade s1 an (ms_new m) c q fee
        (clk (2 * length (ms_trades m) + 1)) (clk (2 * length (ms_trades m) + 2))]"
    and db': "ms_db m' = put_order (filled_order q c)
       (put_order (ms_new m') (ins_trade (last (ms_trades m')) (s1\<lparr>next_id := next_id s1 + 1\<rparr>)))"
    unfolding q_def by metis
  note e = consume_all_effect [OF s1]
  have new: "order_of (o_id (ms_new m)) (ms_db m) = Some (ms_new m)" and c: "order_of (o_id c) (ms_db m) = Some c"
    and ne: "o_id (ms_new m) \<noteq> o_id c" and live: "live_status (o_status (ms_new m))" "live_status (o_status c)"
    and minv: "market_inv_upto \<sigma> (ms_db m)"
    using inv pos by (auto simp: loop_inv_def)
  have "order_row_ok c" using minv order_of_mem [OF c] by (auto simp: market_inv_upto_def rows_ok_def)
  then have q: "0 < q" "q \<le> o_remaining_quantity_mt (ms_new m)" "q \<le> o_remaining_quantity_mt c"
    using live_row [of c] live(2) pos by (auto simp: q_def)
  have "market_inv_upto \<sigma> (ms_db m')"
    unfolding db' new'
  proof (rule two_order_fill [OF minv new c ne live q])
    show "t_id (last (ms_trades m')) = next_id (ms_db m)" using e by (simp add: tr same_market_def)
    show "{t_bid_order_id (last (ms_trades m')), t_ask_order_id (last (ms_trades m'))} =
        {Some (o_id (ms_new m)), Some (o_id c)}" by (auto simp: tr)
  qed (use e q(1) in \<open>auto simp: tr matched_trade_row_ok\<close>)
  moreover have ord: "orders (ins_trade (last (ms_trades m')) (s1\<lparr>next_id := next_id s1 + 1\<rparr>)) = orders (ms_db m)"
    using e by (simp add: same_market_def)
  have "order_of (o_id (ms_new m')) (ms_db m') = Some (ms_new m')"
    using order_tab.get_put_same [of "ms_new m'" "ins_trade (last (ms_trades m')) (s1\<lparr>next_id := next_id s1 + 1\<rparr>)" "ms_new m"]
      new ne unfolding ord by (simp add: db' new' order_tab.get_put_other del: tables_frame)
  moreover have "order_of (o_id x) (ms_db m') = order_of (o_id x) (ms_db m)" if "x \<in> set cs" for x
  proof -
    have "o_id c \<notin> o_id ` set cs" using inv by (simp add: loop_inv_def)
    then have "o_id x \<noteq> o_id c" using that by (metis imageI)
    moreover have "o_id x \<noteq> o_id (ms_new m)" using inv that by (simp add: loop_inv_def)
    ultimately show ?thesis unfolding ord [symmetric] by (simp add: db' new' order_tab.get_put_other del: tables_frame)
  qed
  ultimately show ?thesis
    using inv by (auto simp: loop_inv_def new' live_status_def)
qed

lemma match_step_loop_inv:
  assumes "loop_inv \<sigma> (clk 0) (c # cs) m" "0 < o_remaining_quantity_mt (ms_new m)"
    and "match_step cfg clk an cp c m = Inr m'"
  shows "loop_inv \<sigma> (clk 0) cs m'"
  using assms fill_crossing_loop_inv [of \<sigma> "clk 0" c cs m cfg clk an m']
  by (auto simp: match_step_def loop_inv_def split: if_splits)

lemma match_loop_inv:
  "loop_inv \<sigma> (clk 0) cs m \<Longrightarrow> match_loop cfg clk an cp cs m = Inr m' \<Longrightarrow>
     market_inv_upto \<sigma> (ms_db m') \<and> order_of (o_id (ms_new m')) (ms_db m') = Some (ms_new m')"
proof (induction cs arbitrary: m)
  case Nil
  then show ?case by (simp add: loop_inv_def)
next
  case (Cons c cs)
  show ?case
  proof (cases "o_remaining_quantity_mt (ms_new m) \<le> 0")
    case True
    then show ?thesis using Cons.prems by (simp add: loop_inv_def)
  next
    case False
    then obtain m1 where "match_step cfg clk an cp c m = Inr m1" "match_loop cfg clk an cp cs m1 = Inr m'"
      using Cons.prems(2) by auto
    with match_step_loop_inv [of \<sigma> clk c cs m cfg an cp m1] Cons.prems(1) False show ?thesis by (intro Cons.IH) auto
  qed
qed

subsection \<open>The book, bounded\<close>

lemma filter_ids_take:
  assumes "distinct (map f xs)"
  shows "filter (\<lambda>x. f x \<in> set (map f (take n xs))) xs = take n xs"
proof -
  have "filter (\<lambda>x. f x \<in> set (map f (take n xs))) (take n xs) = take n xs"
    by (rule filter_True) auto
  moreover have "filter (\<lambda>x. f x \<in> set (map f (take n xs))) (drop n xs) = []"
  proof (rule filter_False, intro ballI notI)
    fix x assume "x \<in> set (drop n xs)" and "f x \<in> set (map f (take n xs))"
    then have "f x \<in> f ` set (take n xs) \<inter> f ` set (drop n xs)" by auto
    moreover have "distinct (map f (take n xs) @ map f (drop n xs))"
      using assms by (simp only: map_append [symmetric] append_take_drop_id)
    ultimately show False by auto
  qed
  ultimately show ?thesis by (metis append_Nil2 append_take_drop_id filter_append)
qed

lemma crossing_orders_take:
  assumes "distinct (map o_id (orders s))"
  shows "crossing_orders now new s = take MAX_CROSSING_ORDERS_PER_MATCH
    (sort_key (priority_key new) (filter (match_filters now new s) (orders s)))"
proof -
  define b where "b = sort_key (priority_key new) (filter (match_filters now new s) (orders s))"
  have "distinct (map o_id (filter (match_filters now new s) (orders s)))"
    using assms by (simp add: distinct_map_filter)
  then have d: "distinct (map o_id b)"
    unfolding b_def by (metis distinct_map distinct_sort set_sort)
  have ids: "take MAX_CROSSING_ORDERS_PER_MATCH (candidate_rows now new s) = take MAX_CROSSING_ORDERS_PER_MATCH b"
    by (simp add: candidate_rows_def b_def min_def)
  have "crossing_orders now new s =
      filter (\<lambda>c. o_id c \<in> set (map o_id (take MAX_CROSSING_ORDERS_PER_MATCH b))) b"
    unfolding crossing_orders_def Let_def ids
    by (simp add: b_def filter_sort conj_commute flip: filter_filter)
  with filter_ids_take [OF d] show ?thesis by (simp add: b_def)
qed

lemma crossing_orders_filters:
  "c \<in> set (crossing_orders now new s) \<Longrightarrow> c \<in> set (orders s) \<and> match_filters now new s c"
  by (simp add: crossing_orders_def Let_def)

lemma crossing_orders_loop_inv:
  assumes "market_inv_upto \<sigma> s" "order_of (o_id new) s = Some new" "live_status (o_status new)"
  shows "loop_inv \<sigma> now (crossing_orders now new s)
    \<lparr>ms_db = s, ms_new = new, ms_fees = fs, ms_trades = ts, ms_pending = ps\<rparr>"
proof -
  have k: "keys_ok s" using assms(1) by (simp add: market_inv_upto_def)
  then have d: "distinct (map o_id (orders s))" by (simp add: keys_ok_def)
  have "distinct (map o_id (sort_key (priority_key new) (filter (match_filters now new s) (orders s))))"
    using d by (metis distinct_map distinct_map_filter distinct_sort set_sort)
  then have "distinct (map o_id (crossing_orders now new s))"
    by (metis crossing_orders_take [OF d] distinct_take take_map)
  moreover have "order_of (o_id c) s = Some c \<and> live_status (o_status c) \<and> \<not> order_expired now c \<and> o_id c \<noteq> o_id new"
    if "c \<in> set (crossing_orders now new s)" for c
  proof -
    have c: "order_of (o_id c) s = Some c" and f: "match_filters now new s c"
      using crossing_orders_filters [OF that] order_unique [OF k, of c] by simp_all
    from f have "c \<noteq> new" by (auto simp: match_filters_def)
    then have "o_id c \<noteq> o_id new" using c assms(2) by auto
    with c f show ?thesis by (cases "o_expires_at c") (simp_all add: match_filters_def order_expired_def)
  qed
  ultimately show ?thesis using assms by (simp add: loop_inv_def)
qed

text \<open>A successful match, unpacked: either the loop ran, or nothing was traded.\<close>

lemma match_order_cases:
  assumes "match_order e cfg clk new an pair s = Inr (s', ts)"
  obtains (idle) "s' = s" "ts = []"
  | (expired) "order_expired (clk 0) new" "s' = put_order (bump_version (new\<lparr>o_status := EXPIRED\<rparr>)) s" "ts = []"
  | (loop) cp m where "0 < o_remaining_quantity_mt new" "\<not> order_expired (clk 0) new"
      "demo_counterparty new pair = Some cp" "order_is_execution_qualified new"
      "match_loop cfg clk an cp (crossing_orders (clk 0) new s)
         \<lparr>ms_db = s, ms_new = new, ms_fees = [], ms_trades = [], ms_pending = []\<rparr> = Inr m"
      "s' = notify_org_users_batched (ms_pending m) (ms_db m)" "ts = ms_trades m"
      "length (candidate_rows (clk 0) new s) > MAX_CROSSING_ORDERS_PER_MATCH \<longrightarrow> o_remaining_quantity_mt (ms_new m) \<le> 0"
proof (cases "o_remaining_quantity_mt new \<le> 0")
  case True
  then show ?thesis using assms idle by (simp add: match_order_def)
next
  case rem: False
  show ?thesis
  proof (cases "order_expired (clk 0) new")
    case True
    then show ?thesis using assms expired rem by (auto simp: match_order_def)
  next
    case notexp: False
    show ?thesis
    proof (cases "demo_counterparty new pair")
      case None
      then show ?thesis using assms idle rem notexp by (auto simp: match_order_def)
    next
      case (Some cp)
      show ?thesis
      proof (cases "order_is_execution_qualified new \<and> candidate_rows (clk 0) new s \<noteq> []")
        case False
        then show ?thesis using assms idle rem notexp Some by (auto simp: match_order_def Let_def split: if_splits)
      next
        case q: True
        obtain m where m: "match_loop cfg clk an cp (crossing_orders (clk 0) new s)
            \<lparr>ms_db = s, ms_new = new, ms_fees = [], ms_trades = [], ms_pending = []\<rparr> = Inr m"
          "(if MAX_CROSSING_ORDERS_PER_MATCH < length (candidate_rows (clk 0) new s) \<and> 0 < o_remaining_quantity_mt (ms_new m)
            then Inl (HTTPException 409 ''Market slice match fan-out exceeds the per-transaction bound; no partial matching result was committed'')
            else Inr (notify_org_users_batched (ms_pending m) (ms_db m), ms_trades m)) = Inr (s', ts)"
          using assms rem notexp Some q unfolding match_order_def Let_def by (simp only: if_False option.case bindR_Inr simp_thms) blast
        show ?thesis
          by (rule loop [OF _ notexp Some _ m(1)]) (use m(2) rem q in \<open>auto split: if_splits\<close>)
      qed
    qed
  qed
qed

text \<open>The stock that the engine strands when it finds the incoming order lapsed.\<close>

definition stranded_by :: "time \<Rightarrow> order \<Rightarrow> uuid \<Rightarrow> dec" where
  "stranded_by now ord k = (if order_expired now ord then order_commitment k ord else 0)"

lemma stranded_by_unless: "order_expired now ord \<longrightarrow> o_inventory_item_id ord = None \<Longrightarrow> stranded_by now ord k = 0"
  by (auto simp: stranded_by_def order_commitment_def)

lemma match_order_strands:
  assumes inv: "market_inv_upto \<sigma> s" and new: "order_of (o_id new) s = Some new" and live: "live_status (o_status new)"
    and res: "match_order e cfg clk new an pair s = Inr (s', ts)"
  shows "market_inv_upto (\<lambda>k. \<sigma> k + stranded_by (clk 0) new k) s'"
proof (cases "order_expired (clk 0) new")
  case True
  let ?x = "bump_version (new\<lparr>o_status := EXPIRED\<rparr>)"
  have row: "order_row_ok new" and fill: "order_filled (filled_quantity s (o_id new)) new"
    using inv order_of_mem [OF new] by (auto simp: market_inv_upto_def rows_ok_def fills_ok_def)
  have "0 < o_remaining_quantity_mt new" using live_row [OF row live] by simp
  then have s': "s' = put_order ?x s" using res True by (auto simp: match_order_def)
  have nn: "0 \<le> order_commitment k new" for k using row by (simp add: order_commitment_def order_row_ok_def)
  have p: "keys_ok s" "refs_ok s" "rows_ok s" "fills_ok s" "reserves_upto \<sigma> s" using inv by (simp_all add: market_inv_upto_def)
  have d: "distinct (map o_id (orders s))" using p(1) by (simp add: keys_ok_def)
  have old: "order_of (o_id ?x) s = Some new" and item: "o_inventory_item_id ?x = o_inventory_item_id new" using new by simp_all
  have "order_row_ok ?x" using row by (auto simp: order_row_ok_def ORDER_LIFECYCLE_def)
  moreover have "order_filled (filled_quantity s (o_id new)) ?x" using fill by (auto simp: order_filled_def withdrawn_def split: if_splits)
  then have "fills_ok (put_order ?x s)"
    unfolding fills_ok_def using p(4) orders_put_mem [of _ ?x s] by (fastforce simp: fills_ok_def)
  moreover have "committed (put_order ?x s) k = committed s k - order_commitment k new" for k
    using committed_put_order [OF d old item, of k] by (simp add: order_commitment_def live_status_def)
  then have "reserves_upto (\<lambda>k. \<sigma> k + stranded_by (clk 0) new k) (put_order ?x s)"
    using p(5) nn True by (simp add: reserves_upto_def stranded_by_def)
  ultimately show ?thesis
    using p(1) refs_ok_put_order [OF p(2) old item] rows_ok_put(1) [OF p(3)] by (simp add: market_inv_upto_def s')
next
  case False
  from res show ?thesis
  proof (cases rule: match_order_cases)
    case (loop cp m)
    from match_loop_inv [OF crossing_orders_loop_inv [OF inv new live] loop(5)] loop(6) False show ?thesis by (simp add: stranded_by_def)
  qed (use inv False in \<open>simp_all add: stranded_by_def\<close>)
qed

lemma match_order_inv:
  assumes "market_inv_upto \<sigma> s" "order_of (o_id new) s = Some new" "live_status (o_status new)"
    and exp: "order_expired (clk 0) new \<Longrightarrow> o_inventory_item_id new = None"
    and "match_order e cfg clk new an pair s = Inr (s', ts)"
  shows "market_inv_upto \<sigma> s'"
  using match_order_strands [OF assms(1-3,5)] stranded_by_unless [of "clk 0" new] exp by simp

end
