(* ===== verification/Matching_Refinement.thy ===== *)
theory Matching_Refinement
  imports Matching_Ledger
begin

section \<open>Matching is greedy allocation in price-time order\<close>

text \<open>
  The abstract specification of matching is \<open>allocate\<close>: walk down the admitted orders and take
  from each the lesser of what is wanted and what is offered. The engine refines it: the trades
  of a match are exactly the allocation over the admitted orders of the book in priority order.
  Price improvement, conservation and price-time priority follow from the specification alone.
\<close>

subsection \<open>The specification\<close>

fun allocate :: "dec \<Rightarrow> order list \<Rightarrow> (uuid \<times> dec \<times> dec) list" where
  "allocate wanted [] = []"
| "allocate wanted (c # cs) =
     (if wanted \<le> 0 then []
      else let q = min wanted (o_remaining_quantity_mt c) in
        (o_id c, q, o_price_per_mt_usd c) # allocate (wanted - q) cs)"

definition allocated :: "(uuid \<times> dec \<times> dec) list \<Rightarrow> dec" where
  "allocated as = sum_list (map (\<lambda>(k, q, p). q) as)"

lemma allocated_bounds:
  assumes "\<forall>c\<in>set cs. 0 < o_remaining_quantity_mt c" "0 \<le> wanted"
  shows "0 \<le> allocated (allocate wanted cs) \<and> allocated (allocate wanted cs) \<le> wanted"
  using assms
proof (induction wanted cs rule: allocate.induct)
  case (2 wanted c cs)
  then show ?case
    by (cases "wanted \<le> 0") (fastforce simp: allocated_def Let_def min_def)+
qed (simp add: allocated_def)

lemma allocate_member:
  "(k, q, p) \<in> set (allocate wanted cs) \<Longrightarrow>
     \<exists>c\<in>set cs. k = o_id c \<and> p = o_price_per_mt_usd c \<and> q \<le> o_remaining_quantity_mt c"
  by (induction wanted cs rule: allocate.induct) (auto simp: Let_def split: if_splits)

text \<open>
  Priority: if an order was allocated anything, every order before it was allocated all it had.
\<close>

lemma allocate_priority:
  assumes "cs = xs @ c # ys @ d # zs" "distinct (map o_id cs)" "\<forall>x\<in>set cs. 0 < o_remaining_quantity_mt x"
    and "(o_id d, q, p) \<in> set (allocate wanted cs)"
  shows "(o_id c, o_remaining_quantity_mt c, o_price_per_mt_usd c) \<in> set (allocate wanted cs)"
  using assms
proof (induction xs arbitrary: cs wanted)
  case Nil
  then have ne: "o_id d \<noteq> o_id c" by auto
  have w: "0 < wanted" using Nil.prems(1,4) by (auto split: if_splits)
  have tail: "(o_id d, q, p) \<in> set (allocate (wanted - min wanted (o_remaining_quantity_mt c)) (ys @ d # zs))"
    using Nil.prems(1,4) ne w by (auto simp: Let_def)
  then have "0 < wanted - min wanted (o_remaining_quantity_mt c)"
    by (cases "wanted - min wanted (o_remaining_quantity_mt c) \<le> 0") (cases ys; simp)+
  then show ?case using Nil.prems(1) w by (simp add: Let_def min_def split: if_splits)
next
  case (Cons x xs)
  then have ne: "o_id d \<noteq> o_id x" by auto
  have w: "0 < wanted" using Cons.prems(1,4) by (auto split: if_splits)
  have "(o_id d, q, p) \<in> set (allocate (wanted - min wanted (o_remaining_quantity_mt x)) (xs @ c # ys @ d # zs))"
    using Cons.prems(1,4) ne w by (auto simp: Let_def)
  from Cons.IH [OF refl _ _ this] Cons.prems(1,2,3) w show ?case by (auto simp: Let_def)
qed

subsection \<open>Nothing the loop reads changes while it runs\<close>

definition same_terms :: "order \<Rightarrow> order \<Rightarrow> bool" where
  "same_terms x y \<longleftrightarrow> (\<exists>r st v. x = y\<lparr>o_remaining_quantity_mt := r, o_status := st, o_version := v\<rparr>)"

lemma same_terms_refl [simp]: "same_terms x x"
  by (auto simp: same_terms_def intro!: exI [of _ "o_remaining_quantity_mt x"] exI [of _ "o_status x"] exI [of _ "o_version x"])

lemma filled_order_update:
  "filled_order q x = x\<lparr>o_remaining_quantity_mt := o_remaining_quantity_mt x - q,
     o_status := (if o_remaining_quantity_mt x - q = 0 then FILLED else PARTIALLY_FILLED),
     o_version := (if o_creation_method x = MARKET_SUPPORT then o_version x + 1 else o_version x)\<rparr>"
  by (cases x) (simp add: filled_order_def bump_version_def Let_def)

lemma same_terms_filled: "same_terms x y \<Longrightarrow> same_terms (filled_order q x) y"
proof -
  assume "same_terms x y"
  then obtain r st v where x: "x = y\<lparr>o_remaining_quantity_mt := r, o_status := st, o_version := v\<rparr>"
    unfolding same_terms_def by blast
  show ?thesis unfolding same_terms_def filled_order_update x by (intro exI) simp
qed

lemma same_terms_fields:
  "same_terms x y \<Longrightarrow> o_side x = o_side y \<and> o_id x = o_id y \<and> o_organization_id x = o_organization_id y"
  by (auto simp: same_terms_def)

lemma crossing_admitted_cong:
  assumes "same_terms x y" "users s = users s'" "organizations s = organizations s'"
  shows "crossing_admitted x cp s c = crossing_admitted y cp s' c"
proof -
  have qual: "order_is_execution_qualified x = order_is_execution_qualified y"
    using assms(1) by (auto simp: same_terms_def order_is_execution_qualified_def Let_def)
  moreover have "orders_execution_compatible x c = orders_execution_compatible y c"
    using assms(1) qual by (auto simp: same_terms_def orders_execution_compatible_def Let_def split: option.split)
  moreover have "owners_admitted x s c = owners_admitted y s' c"
  proof -
    have f: "o_owner_user_id x = o_owner_user_id y" "o_organization_id x = o_organization_id y"
      "o_creation_method x = o_creation_method y" "o_created_by_actor_user_id x = o_created_by_actor_user_id y"
      using assms(1) by (auto simp: same_terms_def)
    have e: "execution_party_is_eligible s = execution_party_is_eligible s'"
      by (intro ext) (unfold execution_party_is_eligible_def assms(3), rule refl)
    have own: "order_owner_is_execution_eligible s z = order_owner_is_execution_eligible s' z"
      and oxy: "order_owner_is_execution_eligible s' x = order_owner_is_execution_eligible s' y" for z
      unfolding order_owner_is_execution_eligible_def e f by (rule refl)+
    show ?thesis unfolding owners_admitted_def own oxy f assms(2,3) by (rule refl)
  qed
  ultimately show ?thesis
    using assms(1) by (auto simp: same_terms_def crossing_admitted_def)
qed

lemma people_frame [simp]:
  "users (put_order x s) = users s" "organizations (put_order x s) = organizations s"
  "users (ins_trade t s) = users s" "organizations (ins_trade t s) = organizations s"
  "users (put_item i s) = users s" "organizations (put_item i s) = organizations s"
  "subscriptions (put_item i s) = subscriptions s" "subscriptions (ins_trade t s) = subscriptions s"
  "subscriptions (put_order x s) = subscriptions s"
  by (simp_all add: put_order_def ins_trade_def put_item_def)

lemma consume_all_people:
  "mapR consume_matched es s = Inr s1 \<Longrightarrow> users s1 = users s \<and> organizations s1 = organizations s \<and> orders s1 = orders s"
proof (induction es arbitrary: s)
  case (Cons e es)
  then obtain t where "consume_matched e s = Inr t" "mapR consume_matched es t = Inr s1" by auto
  moreover from this(1) have "users t = users s \<and> organizations t = organizations s \<and> orders t = orders s"
    by (auto simp: consume_matched_def split: prod.splits option.splits if_splits)
  ultimately show ?case using Cons.IH by metis
qed simp

lemma fill_crossing_people:
  "fill_crossing cfg clk an c m = Inr m' \<Longrightarrow>
     users (ms_db m') = users (ms_db m) \<and> organizations (ms_db m') = organizations (ms_db m)"
  by (erule fill_crossing_cases) (simp add: consume_all_people)

subsection \<open>Refinement\<close>

text \<open>What a trade took from the resting order: its id, the quantity and the price.\<close>

definition allocation_of :: "OrderSide \<Rightarrow> trade \<Rightarrow> uuid option \<times> dec \<times> dec" where
  "allocation_of sd t =
     ((if sd = BID then t_ask_order_id t else t_bid_order_id t), t_quantity_mt t, t_price_per_mt_usd t)"

definition some_id :: "uuid \<times> dec \<times> dec \<Rightarrow> uuid option \<times> dec \<times> dec" where
  "some_id a = (case a of (k, q, p) \<Rightarrow> (Some k, q, p))"

lemma match_loop_refines:
  assumes "loop_inv \<sigma> (clk 0) cs m" "same_terms (ms_new m) new"
    and "users (ms_db m) = users s" "organizations (ms_db m) = organizations s"
    and "match_loop cfg clk an cp cs m = Inr m'"
  shows "map (allocation_of (o_side new)) (ms_trades m') = map (allocation_of (o_side new)) (ms_trades m) @
      map some_id (allocate (o_remaining_quantity_mt (ms_new m)) (filter (crossing_admitted new cp s) cs))
    \<and> o_remaining_quantity_mt (ms_new m') = o_remaining_quantity_mt (ms_new m)
      - allocated (allocate (o_remaining_quantity_mt (ms_new m)) (filter (crossing_admitted new cp s) cs))
    \<and> same_terms (ms_new m') new"
  using assms
proof (induction cs arbitrary: m)
  case Nil
  then show ?case by (simp add: allocated_def)
next
  case (Cons c cs)
  show ?case
  proof (cases "o_remaining_quantity_mt (ms_new m) \<le> 0")
    case True
    then have "allocate (o_remaining_quantity_mt (ms_new m)) xs = []" for xs by (cases xs) auto
    with True Cons.prems show ?thesis by (simp add: allocated_def)
  next
    case False
    then have pos: "0 < o_remaining_quantity_mt (ms_new m)" by simp
    obtain m1 where m1: "match_step cfg clk an cp c m = Inr m1" "match_loop cfg clk an cp cs m1 = Inr m'"
      using Cons.prems(5) False by auto
    note inv1 = match_step_loop_inv [of \<sigma> clk c cs m cfg an cp m1, OF Cons.prems(1) pos m1(1)]
    have "\<not> order_expired (clk 0) c" using Cons.prems(1) by (simp add: loop_inv_def)
    note step = m1(1) [unfolded match_step_def, simplified this if_False]
    have adm: "crossing_admitted (ms_new m) cp (ms_db m) c = crossing_admitted new cp s c"
      by (rule crossing_admitted_cong [OF Cons.prems(2,3,4)])
    show ?thesis
    proof (cases "crossing_admitted new cp s c")
      case False
      then have "m1 = m" using step adm by simp
      then show ?thesis using Cons.IH [OF inv1] Cons.prems(2-4) m1(2) False by simp
    next
      case True
      then have fill: "fill_crossing cfg clk an c m = Inr m1" using step adm by simp
      define q where "q = min (o_remaining_quantity_mt (ms_new m)) (o_remaining_quantity_mt c)"
      from fill_crossing_cases [OF fill] obtain fee s1 x y where
        new1: "ms_new m1 = filled_order q (ms_new m)"
        and tr: "ms_trades m1 = ms_trades m @ [matched_trade s1 an (ms_new m) c q fee x y]"
        unfolding q_def by metis
      have IH: "map (allocation_of (o_side new)) (ms_trades m') = map (allocation_of (o_side new)) (ms_trades m1) @
          map some_id (allocate (o_remaining_quantity_mt (ms_new m1)) (filter (crossing_admitted new cp s) cs))
        \<and> o_remaining_quantity_mt (ms_new m') = o_remaining_quantity_mt (ms_new m1)
          - allocated (allocate (o_remaining_quantity_mt (ms_new m1)) (filter (crossing_admitted new cp s) cs))
        \<and> same_terms (ms_new m') new"
        using fill_crossing_people [OF fill] Cons.prems(2-4) new1 m1(2)
        by (intro Cons.IH [OF inv1]) (simp_all add: same_terms_filled)
      have "allocation_of (o_side new) (matched_trade s1 an (ms_new m) c q fee x y) =
          some_id (o_id c, q, o_price_per_mt_usd c)"
        using same_terms_fields [OF Cons.prems(2)] by (simp add: allocation_of_def some_id_def)
      with IH True pos show ?thesis
        by (simp add: tr new1 Let_def q_def [symmetric] allocated_def)
    qed
  qed
qed

text \<open>Every other order is left with what it had, less what was allocated to it.\<close>

definition allocated_to :: "uuid \<Rightarrow> (uuid \<times> dec \<times> dec) list \<Rightarrow> dec" where
  "allocated_to k as = sum_list (map (\<lambda>(j, q, p). if j = k then q else 0) as)"

lemma fill_crossing_orders:
  assumes "fill_crossing cfg clk an c m = Inr m1" "k \<noteq> o_id (ms_new m)" "order_of (o_id c) (ms_db m) = Some c" "order_of k (ms_db m) = Some y"
  shows "order_of k (ms_db m1) = Some (if k = o_id c then filled_order (min (o_remaining_quantity_mt (ms_new m)) (o_remaining_quantity_mt c)) c else y)"
proof -
  let ?q = "min (o_remaining_quantity_mt (ms_new m)) (o_remaining_quantity_mt c)"
  from fill_crossing_cases [OF assms(1)] obtain s1 where
    s1: "mapR consume_matched (consumption_by_item (ms_new m) c ?q) (ms_db m) = Inr s1" "ms_new m1 = filled_order ?q (ms_new m)"
    "ms_db m1 = put_order (filled_order ?q c) (put_order (ms_new m1) (ins_trade (last (ms_trades m1)) (s1\<lparr>next_id := next_id s1 + 1\<rparr>)))" by metis
  have o1: "orders s1 = orders (ms_db m)" using consume_all_people [OF s1(1)] by simp
  have "order_of (o_id c) (put_order (ms_new m1) (ins_trade (last (ms_trades m1)) (s1\<lparr>next_id := next_id s1 + 1\<rparr>))) \<noteq> None"
    using assms(3) o1 by (auto simp: row_by_None_iff order_tab.rows_put dest: row_by_SomeD)
  then show ?thesis
    using assms(2,4) o1 s1(2,3) order_tab.get_put_same [of "filled_order ?q c"] order_tab.get_put_other [of k]
    by (cases "k = o_id c") auto
qed

lemma match_loop_book:
  assumes "loop_inv \<sigma> (clk 0) cs m" "same_terms (ms_new m) new"
    and "users (ms_db m) = users s" "organizations (ms_db m) = organizations s"
    and "match_loop cfg clk an cp cs m = Inr m'" "k \<noteq> o_id (ms_new m)" "order_of k (ms_db m) = Some y"
  shows "\<exists>x. order_of k (ms_db m') = Some x \<and> o_remaining_quantity_mt x = o_remaining_quantity_mt y
    - allocated_to k (allocate (o_remaining_quantity_mt (ms_new m)) (filter (crossing_admitted new cp s) cs))"
  using assms
proof (induction cs arbitrary: m y)
  case Nil
  then show ?case by (simp add: allocated_to_def)
next
  case (Cons c cs)
  show ?case
  proof (cases "o_remaining_quantity_mt (ms_new m) \<le> 0")
    case True
    then have "allocate (o_remaining_quantity_mt (ms_new m)) xs = []" for xs by (cases xs) auto
    with True Cons.prems show ?thesis by (simp add: allocated_to_def)
  next
    case False
    then have pos: "0 < o_remaining_quantity_mt (ms_new m)" by simp
    obtain m1 where m1: "match_step cfg clk an cp c m = Inr m1" "match_loop cfg clk an cp cs m1 = Inr m'"
      using Cons.prems(5) False by auto
    note inv1 = match_step_loop_inv [of \<sigma> clk c cs m cfg an cp m1, OF Cons.prems(1) pos m1(1)]
    have "\<not> order_expired (clk 0) c" and c: "order_of (o_id c) (ms_db m) = Some c" using Cons.prems(1) by (simp_all add: loop_inv_def)
    note step = m1(1) [unfolded match_step_def, simplified this(1) if_False]
    have adm: "crossing_admitted (ms_new m) cp (ms_db m) c = crossing_admitted new cp s c"
      by (rule crossing_admitted_cong [OF Cons.prems(2,3,4)])
    show ?thesis
    proof (cases "crossing_admitted new cp s c")
      case False
      then have "m1 = m" using step adm by simp
      then show ?thesis using Cons.IH [OF inv1] Cons.prems(2-4,6,7) m1(2) False by simp
    next
      case True
      then have fill: "fill_crossing cfg clk an c m = Inr m1" using step adm by simp
      define q where "q = min (o_remaining_quantity_mt (ms_new m)) (o_remaining_quantity_mt c)"
      have new1: "ms_new m1 = filled_order q (ms_new m)" unfolding q_def by (rule fill_crossing_cases [OF fill]) simp
      define y1 where "y1 = (if k = o_id c then filled_order q c else y)"
      have y1: "order_of k (ms_db m1) = Some y1"
        using fill_crossing_orders [OF fill Cons.prems(6) c Cons.prems(7)] by (simp add: y1_def q_def)
      have rem: "o_remaining_quantity_mt y1 = o_remaining_quantity_mt y - (if o_id c = k then q else 0)"
        using c Cons.prems(7) by (auto simp: y1_def)
      have "\<exists>x. order_of k (ms_db m') = Some x \<and> o_remaining_quantity_mt x = o_remaining_quantity_mt y1
          - allocated_to k (allocate (o_remaining_quantity_mt (ms_new m1)) (filter (crossing_admitted new cp s) cs))"
        using fill_crossing_people [OF fill] Cons.prems(2-4,6) new1 m1(2) y1
        by (intro Cons.IH [OF inv1]) (simp_all add: same_terms_filled)
      then show ?thesis using True pos rem by (cases "o_id c = k") (auto simp: new1 Let_def q_def [symmetric] allocated_to_def)
    qed
  qed
qed

text \<open>Every trade of the loop pairs the incoming order with one admitted order of the book.\<close>

lemma match_loop_trades:
  assumes "loop_inv \<sigma> (clk 0) cs m" "same_terms (ms_new m) new"
    and "users (ms_db m) = users s" "organizations (ms_db m) = organizations s"
    and "match_loop cfg clk an cp cs m = Inr m'" "t \<in> set (ms_trades m')" "t \<notin> set (ms_trades m)"
  shows "\<exists>c\<in>set cs. \<exists>s1 n q fee x y. t = matched_trade s1 an n c q fee x y \<and> same_terms n new \<and> 0 < q \<and> q \<le> o_remaining_quantity_mt c
    \<and> crossing_admitted new cp s c"
  using assms
proof (induction cs arbitrary: m)
  case (Cons c cs)
  show ?case
  proof (cases "o_remaining_quantity_mt (ms_new m) \<le> 0")
    case True
    then show ?thesis using Cons.prems by simp
  next
    case False
    then have pos: "0 < o_remaining_quantity_mt (ms_new m)" by simp
    obtain m1 where m1: "match_step cfg clk an cp c m = Inr m1" "match_loop cfg clk an cp cs m1 = Inr m'"
      using Cons.prems(5) False by auto
    note inv1 = match_step_loop_inv [of \<sigma> clk c cs m cfg an cp m1, OF Cons.prems(1) pos m1(1)]
    have "\<not> order_expired (clk 0) c" and c: "order_of (o_id c) (ms_db m) = Some c" "live_status (o_status c)"
      and minv: "market_inv_upto \<sigma> (ms_db m)"
      using Cons.prems(1) by (simp_all add: loop_inv_def)
    note step = m1(1) [unfolded match_step_def, simplified this(1) if_False]
    show ?thesis
    proof (cases "crossing_admitted (ms_new m) cp (ms_db m) c")
      case False
      then have "m1 = m" using step by simp
      then show ?thesis using Cons.IH [OF inv1] Cons.prems(2-7) m1(2) by auto
    next
      case True
      then have fill: "fill_crossing cfg clk an c m = Inr m1" using step by simp
      have "0 < o_remaining_quantity_mt c"
        using live_row [of c] c(2) order_of_mem [OF c(1)] minv by (auto simp: market_inv_upto_def rows_ok_def)
      with pos have q: "0 < min (o_remaining_quantity_mt (ms_new m)) (o_remaining_quantity_mt c)" by simp
      from fill_crossing_cases [OF fill] obtain fee s1 x y where
        new1: "ms_new m1 = filled_order (min (o_remaining_quantity_mt (ms_new m)) (o_remaining_quantity_mt c)) (ms_new m)"
        and tr: "ms_trades m1 = ms_trades m @ [matched_trade s1 an (ms_new m) c
          (min (o_remaining_quantity_mt (ms_new m)) (o_remaining_quantity_mt c)) fee x y]" by metis
      show ?thesis
      proof (cases "t \<in> set (ms_trades m1)")
        case True
        then have "t = matched_trade s1 an (ms_new m) c
            (min (o_remaining_quantity_mt (ms_new m)) (o_remaining_quantity_mt c)) fee x y"
          using tr Cons.prems(7) by simp
        moreover have "crossing_admitted new cp s c"
          using crossing_admitted_cong [OF Cons.prems(2,3,4), of cp c]
            \<open>crossing_admitted (ms_new m) cp (ms_db m) c\<close> by simp
        ultimately show ?thesis using Cons.prems(2) q by (metis list.set_intros(1) min.cobounded2)
      next
        case False
        then show ?thesis
          using Cons.IH [OF inv1] fill_crossing_people [OF fill] Cons.prems(2-6) m1(2) new1
          by (auto simp: same_terms_filled)
      qed
    qed
  qed
qed simp

lemma match_order_trades:
  assumes "market_inv_upto \<sigma> s" "order_of (o_id new) s = Some new" "live_status (o_status new)"
    and "match_order e cfg clk new an pair s = Inr (s', ts)" "t \<in> set ts"
  obtains cp c s1 n q fee x y where "demo_counterparty new pair = Some cp" "match_filters (clk 0) new s c" "c \<in> set (orders s)"
    "crossing_admitted new cp s c" "t = matched_trade s1 an n c q fee x y" "same_terms n new" "0 < q" "q \<le> o_remaining_quantity_mt c"
  using assms(4)
proof (cases rule: match_order_cases)
  case (loop cp m)
  from match_loop_trades [OF crossing_orders_loop_inv [OF assms(1-3)] _ _ _ loop(5), of new s t] assms(5) loop(7)
  obtain c s1 n q fee x y where "c \<in> set (crossing_orders (clk 0) new s)" "crossing_admitted new cp s c"
    "t = matched_trade s1 an n c q fee x y" "same_terms n new" "0 < q" "q \<le> o_remaining_quantity_mt c" by auto
  with crossing_orders_filters [of c "clk 0" new s] loop(3) that show thesis by blast
qed (use assms(5) in simp_all)

subsection \<open>An example match\<close>

lemma ex_filter: "filter (match_filters 1000 ex_bid ex_db) (orders ex_db) = [ex_ask]"
  by (simp add: match_filters_def opposite_def live_status_def price_crosses_def)

lemma ex_candidates: "candidate_rows 1000 ex_bid ex_db = [ex_ask]"
  by (simp add: candidate_rows_def ex_filter MAX_CROSSING_ORDERS_PER_MATCH_def del: ex_db_simps)

lemma ex_crossing: "crossing_orders 1000 ex_bid ex_db = [ex_ask]"
proof -
  have "distinct (map o_id (orders ex_db))" by simp
  from crossing_orders_take [OF this] show ?thesis
    by (simp add: ex_filter MAX_CROSSING_ORDERS_PER_MATCH_def del: ex_db_simps)
qed

lemma ex_qualified: "order_is_execution_qualified ex_bid" "order_is_execution_qualified ex_ask"
  "order_is_execution_qualified ex_ask2"
  by (simp_all add: order_is_execution_qualified_def ex_metadata_def ex_product_def normalize_certification_scheme_def
      py_strip_def py_upper_def upper_char_def is_space_def BIOFUEL_SPECIFICATION_STANDARDS_def
      B30_PRODUCT_ID_def B100_PRODUCT_ID_def Let_def)

lemma ex_admitted: "crossing_admitted ex_bid None ex_db ex_ask"
proof -
  have "orders_execution_compatible ex_bid ex_ask"
    by (simp add: orders_execution_compatible_def ex_qualified List.map_filter_simps Let_def split: option.splits)
  then show ?thesis
    by (simp add: crossing_admitted_def provenance_compatible_cases owners_admitted_def
        order_owner_is_execution_eligible_def execution_party_is_eligible_def)
qed

lemma ex_match: "\<exists>s' ts. match_order ex_env ex_cfg (\<lambda>_. 1000) ex_bid True None ex_db = Inr (s', ts)"
proof -
  let ?m = "\<lparr>ms_db = ex_db, ms_new = ex_bid, ms_fees = [], ms_trades = [], ms_pending = []\<rparr>"
  have fill: "\<exists>m. fill_crossing ex_cfg (\<lambda>_. 1000) True ex_ask ?m = Inr m"
    by (simp add: fill_crossing_def consumption_by_item_def lock_inventory_items_def consume_matched_def
        resolve_seller_trade_fee_def configured_fee_for_tier_def Let_def)
  have orgs: "\<exists>g. lock_and_load_market_organizations ex_db [42, 41] [] True [] = Inr g"
    by (simp add: lock_and_load_market_organizations_def ownership_by_user_def py_upper_def upper_char_def)
  have "acquire_market_slice_lock ex_env (order_slice ex_bid) = Inr ()"
    using ex_slice_lock [OF canonical_SPOT] by (simp add: order_slice_def SPOT_WINDOW_def)
  moreover have "\<not> order_expired 1000 ex_bid" "\<not> order_expired 1000 ex_ask"
    by (simp_all add: order_expired_def)
  ultimately show ?thesis
    using fill orgs
    by (auto simp: match_order_def ex_candidates ex_crossing ex_qualified demo_counterparty_def match_step_def
        ex_admitted MAX_CROSSING_ORDERS_PER_MATCH_def Let_def)
qed

subsection \<open>Properties\<close>

text \<open>The admitted book of an incoming order: at most a hundred orders, best priority first.\<close>

definition admitted_book :: "time \<Rightarrow> order \<Rightarrow> (uuid \<times> uuid) option \<Rightarrow> market_db \<Rightarrow> order list" where
  "admitted_book now new cp s = filter (crossing_admitted new cp s)
     (take MAX_CROSSING_ORDERS_PER_MATCH
       (sort_key (priority_key new) (filter (match_filters now new s) (orders s))))"

lemma admitted_book_crossing:
  "market_inv_upto \<sigma> s \<Longrightarrow> admitted_book now new cp s = filter (crossing_admitted new cp s) (crossing_orders now new s)"
  by (simp add: admitted_book_def crossing_orders_take market_inv_upto_def keys_ok_def)

lemma admitted_book_mem:
  assumes "c \<in> set (admitted_book now new cp s)"
  shows "c \<in> set (orders s) \<and> match_filters now new s c \<and> crossing_admitted new cp s c"
  using assms by (auto simp: admitted_book_def dest!: in_set_takeD)

lemma match_order_allocates:
  assumes "market_inv_upto \<sigma> s" "order_of (o_id new) s = Some new" "live_status (o_status new)"
    and "match_order e cfg clk new an pair s = Inr (s', ts)"
  shows "ts = [] \<or> (\<exists>cp. demo_counterparty new pair = Some cp \<and>
      map (allocation_of (o_side new)) ts = map some_id (allocate (o_remaining_quantity_mt new) (admitted_book (clk 0) new cp s)))"
  using assms(4)
proof (cases rule: match_order_cases)
  case (loop cp m)
  from match_loop_refines [OF crossing_orders_loop_inv [OF assms(1-3)] _ _ _ loop(5), of new s] loop(3,7)
  show ?thesis by (auto simp: admitted_book_crossing [OF assms(1)])
qed simp_all

lemma book_remaining:
  assumes "market_inv_upto \<sigma> s" "c \<in> set (admitted_book now new cp s)"
  shows "0 < o_remaining_quantity_mt c"
  using admitted_book_mem [OF assms(2)] assms(1) live_row [of c]
  by (auto simp: market_inv_upto_def rows_ok_def match_filters_def)

lemma match_allocation:
  assumes "market_inv_upto \<sigma> s" "order_of (o_id new) s = Some new" "live_status (o_status new)"
    and "\<not> order_expired (clk 0) new" "order_is_execution_qualified new" "demo_counterparty new pair = Some cp"
    and "match_order e cfg clk new an pair s = Inr (s', ts)"
  shows "map (allocation_of (o_side new)) ts =
      map some_id (allocate (o_remaining_quantity_mt new) (admitted_book (clk 0) new cp s)) \<and>
    (\<exists>x. order_of (o_id new) s' = Some x \<and> o_remaining_quantity_mt x = o_remaining_quantity_mt new
        - allocated (allocate (o_remaining_quantity_mt new) (admitted_book (clk 0) new cp s)))"
  using assms(7)
proof (cases rule: match_order_cases)
  case idle
  have "0 < o_remaining_quantity_mt new"
    using live_row [OF _ assms(3)] order_of_mem [OF assms(2)] assms(1) by (auto simp: market_inv_upto_def rows_ok_def)
  show ?thesis
  proof (cases "candidate_rows (clk 0) new s = []")
    case True
    then have "sort_key (priority_key new) (filter (match_filters (clk 0) new s) (orders s)) = []"
      by (simp add: candidate_rows_def MAX_CROSSING_ORDERS_PER_MATCH_def)
    then show ?thesis using idle assms(2) by (simp add: admitted_book_def allocated_def)
  next
    case False
    with assms(4-7) \<open>0 < o_remaining_quantity_mt new\<close> obtain m where
      "match_loop cfg clk an cp (crossing_orders (clk 0) new s)
         \<lparr>ms_db = s, ms_new = new, ms_fees = [], ms_trades = [], ms_pending = []\<rparr> = Inr m"
      "s' = notify_org_users_batched (ms_pending m) (ms_db m)" "ts = ms_trades m"
      by (auto simp: match_order_def Let_def split: if_splits)
    with match_loop_refines [OF crossing_orders_loop_inv [OF assms(1-3)] _ _ _ this(1), of new s]
      match_loop_inv [OF crossing_orders_loop_inv [OF assms(1-3)] this(1)]
    show ?thesis by (auto simp: admitted_book_crossing [OF assms(1)] dest: same_terms_fields)
  qed
next
  case expired
  then show ?thesis using assms(4) by simp
next
  case (loop cp' m)
  with match_loop_refines [OF crossing_orders_loop_inv [OF assms(1-3)] _ _ _ loop(5), of new s]
    match_loop_inv [OF crossing_orders_loop_inv [OF assms(1-3)] loop(5)] assms(6)
  show ?thesis by (auto simp: admitted_book_crossing [OF assms(1)] dest: same_terms_fields)
qed

text \<open>The book an incoming order is matched against: empty for an order that has lapsed, is not execution qualified or may not
  trade with anyone, and the admitted orders in price, acceptance and identity order otherwise.\<close>

definition matchable_book :: "time \<Rightarrow> order \<Rightarrow> uuid list option \<Rightarrow> market_db \<Rightarrow> order list" where
  "matchable_book now new pair s =
     (if order_expired now new \<or> \<not> order_is_execution_qualified new then []
      else case demo_counterparty new pair of None \<Rightarrow> [] | Some cp \<Rightarrow> admitted_book now new cp s)"

lemma match_book:
  assumes "market_inv_upto \<sigma> s" "order_of (o_id new) s = Some new" "live_status (o_status new)"
    and "match_order e cfg clk new an pair s = Inr (s', ts)" "k \<noteq> o_id new" "order_of k s = Some y"
  shows "\<exists>x. order_of k s' = Some x \<and> o_remaining_quantity_mt x = o_remaining_quantity_mt y
    - allocated_to k (allocate (o_remaining_quantity_mt new) (matchable_book (clk 0) new pair s))"
  using assms(4)
proof (cases rule: match_order_cases)
  case idle
  have "map (allocation_of (o_side new)) ts = map some_id (allocate (o_remaining_quantity_mt new) (admitted_book (clk 0) new cp s))"
    if "\<not> order_expired (clk 0) new" "order_is_execution_qualified new" "demo_counterparty new pair = Some cp" for cp
    using match_allocation [OF assms(1-3) that assms(4)] by simp
  then have "allocate (o_remaining_quantity_mt new) (matchable_book (clk 0) new pair s) = []"
    using idle(2) by (auto simp: matchable_book_def split: option.splits)
  then show ?thesis using idle(1) assms(6) by (simp add: allocated_to_def)
next
  case expired
  then show ?thesis using assms(5,6) order_tab.get_put_other [of k _ s] by (simp add: matchable_book_def allocated_to_def)
next
  case (loop cp m)
  from match_loop_book [OF crossing_orders_loop_inv [OF assms(1-3)] _ _ _ loop(5), of new s k y] assms(5,6) loop(2-4,6)
  show ?thesis by (simp add: matchable_book_def admitted_book_crossing [OF assms(1)])
qed

text \<open>C1: the matching engine refines greedy allocation. A successful match of a live order makes exactly the trades of \<open>allocate\<close>
  over its matchable book: the same resting orders, quantities and prices, in the same sequence. The
  incoming order is left with the unallocated rest and every other order of the market with its
  remaining quantity less what was allocated to it. The matchable book of an order that has lapsed, is not execution qualified or
  has no admissible demo pair is empty, so that such an order trades nothing.\<close>

theorem match_refines_allocation:
  assumes "market_inv_upto \<sigma> s" "order_of (o_id new) s = Some new" "live_status (o_status new)"
    and "match_order e cfg clk new an pair s = Inr (s', ts)"
  shows "map (allocation_of (o_side new)) ts =
      map some_id (allocate (o_remaining_quantity_mt new) (matchable_book (clk 0) new pair s)) \<and>
    (\<exists>x. order_of (o_id new) s' = Some x \<and> o_remaining_quantity_mt x = o_remaining_quantity_mt new
        - allocated (allocate (o_remaining_quantity_mt new) (matchable_book (clk 0) new pair s))) \<and>
    (\<forall>y. o_id y \<noteq> o_id new \<and> order_of (o_id y) s = Some y \<longrightarrow>
       (\<exists>x. order_of (o_id y) s' = Some x \<and> o_remaining_quantity_mt x = o_remaining_quantity_mt y
          - allocated_to (o_id y) (allocate (o_remaining_quantity_mt new) (matchable_book (clk 0) new pair s))))"
    (is "?trades \<and> ?new \<and> ?rest")
proof -
  have "?trades \<and> ?new"
  proof (cases "\<not> order_expired (clk 0) new \<and> order_is_execution_qualified new \<and> demo_counterparty new pair \<noteq> None")
    case True
    then obtain cp where cp: "demo_counterparty new pair = Some cp" by blast
    then show ?thesis using match_allocation [OF assms(1-3) _ _ cp assms(4)] True by (simp add: matchable_book_def)
  next
    case False
    then have "matchable_book (clk 0) new pair s = []" by (auto simp: matchable_book_def)
    moreover have "ts = [] \<and> (\<exists>x. order_of (o_id new) s' = Some x \<and> o_remaining_quantity_mt x = o_remaining_quantity_mt new)"
      using assms(4)
    proof (cases rule: match_order_cases)
      case expired
      then show ?thesis using order_tab.get_put_same [of "bump_version (new\<lparr>o_status := EXPIRED\<rparr>)" s new] assms(2) by simp
    qed (use assms(2) False in auto)
    ultimately show ?thesis by (simp add: allocated_def)
  qed
  moreover have ?rest using match_book [OF assms] by blast
  ultimately show ?thesis by blast
qed

theorem match_refines_allocation_witness:
  "\<exists>s' ts x. match_order ex_env ex_cfg (\<lambda>_. 1000) ex_bid True None ex_db = Inr (s', ts) \<and>
    map (allocation_of BID) ts = [(Some 31, 300, 900)] \<and> order_of 31 s' = Some x \<and> o_remaining_quantity_mt x = 200"
proof -
  obtain s' ts where m: "match_order ex_env ex_cfg (\<lambda>_. 1000) ex_bid True None ex_db = Inr (s', ts)"
    using ex_match by blast
  have book: "matchable_book 1000 ex_bid None ex_db = [ex_ask]"
    using ex_qualified(1)
    by (simp add: matchable_book_def admitted_book_crossing [OF ex_market_inv] ex_crossing ex_admitted order_expired_def demo_counterparty_def)
  note r = match_refines_allocation [of _ ex_db ex_bid _ _ "\<lambda>_. 1000", OF ex_market_inv _ _ m, unfolded book]
  have a: "map (allocation_of BID) ts = [(Some 31, 300, 900)]" using r by (simp add: live_status_def some_id_def)
  obtain x where "order_of 31 s' = Some x" "o_remaining_quantity_mt x = 200"
    using r by (auto simp: live_status_def allocated_to_def dest: spec [of _ ex_ask])
  with m a show ?thesis by (intro exI conjI)
qed

text \<open>C7: price-time priority. If a match traded with an order of the admitted book, it took
  everything every better-placed order of that book still offered, at that order's own price.\<close>

theorem match_price_time_priority:
  assumes "market_inv s" "order_of (o_id new) s = Some new" "live_status (o_status new)"
    and "match_order e cfg clk new an pair s = Inr (s', ts)"
    and "demo_counterparty new pair = Some cp"
    and "admitted_book (clk 0) new cp s = xs @ better # ys @ worse # zs"
    and "\<exists>t\<in>set ts. fst (allocation_of (o_side new) t) = Some (o_id worse)"
  shows "\<exists>t\<in>set ts. allocation_of (o_side new) t =
    (Some (o_id better), o_remaining_quantity_mt better, o_price_per_mt_usd better)"
proof -
  let ?as = "allocate (o_remaining_quantity_mt new) (admitted_book (clk 0) new cp s)"
  have eq: "map (allocation_of (o_side new)) ts = map some_id ?as"
    using match_order_allocates [OF assms(1-4)] assms(5,7) by auto
  have img: "allocation_of (o_side new) ` set ts = some_id ` set ?as"
    using arg_cong [OF eq, of set] by simp
  obtain t where t: "t \<in> set ts" "fst (allocation_of (o_side new) t) = Some (o_id worse)"
    using assms(7) by blast
  then have "allocation_of (o_side new) t \<in> some_id ` set ?as" using img by blast
  then obtain k q p where "allocation_of (o_side new) t = some_id (k, q, p)" "(k, q, p) \<in> set ?as" by auto
  then have w: "(o_id worse, q, p) \<in> set ?as" using t(2) by (simp add: some_id_def)
  have d: "distinct (map o_id (admitted_book (clk 0) new cp s))"
    using crossing_orders_loop_inv [OF assms(1-3)]
    by (auto simp: admitted_book_crossing [OF assms(1)] loop_inv_def distinct_map_filter)
  have "(o_id better, o_remaining_quantity_mt better, o_price_per_mt_usd better) \<in> set ?as"
    using allocate_priority [OF assms(6) d _ w] book_remaining [OF assms(1)] by blast
  then have "some_id (o_id better, o_remaining_quantity_mt better, o_price_per_mt_usd better)
      \<in> allocation_of (o_side new) ` set ts" unfolding img by (rule imageI)
  then show ?thesis by (auto simp: some_id_def)
qed

lemma ex2_market_inv: "market_inv ex_db2"
proof -
  have "keys_ok ex_db2" "refs_ok ex_db2" by (simp_all add: keys_ok_def refs_ok_def)
  moreover have "rows_ok ex_db2" by (simp add: rows_ok_def order_row_ok_def ORDER_LIFECYCLE_def)
  moreover have "fills_ok ex_db2"
    by (simp add: fills_ok_def order_filled_def filled_quantity_def withdrawn_def)
  moreover have "reserved_stock ex_db2 k = committed ex_db2 k \<and> 0 \<le> current_stock ex_db2 k" for k
    by (cases "k = 21")
      (simp_all add: committed_def order_commitment_def live_status_def reserved_stock_def current_stock_def)
  then have "reserves_ok ex_db2" by (simp add: reserves_upto_def)
  ultimately show ?thesis by (simp add: market_inv_upto_def)
qed

lemma ex2_book: "crossing_orders 1000 ex_bid ex_db2 = [ex_ask2, ex_ask]" "candidate_rows 1000 ex_bid ex_db2 = [ex_ask2, ex_ask]"
proof -
  have f: "filter (match_filters 1000 ex_bid ex_db2) (orders ex_db2) = [ex_ask, ex_ask2]"
    by (simp add: match_filters_def opposite_def live_status_def price_crosses_def)
  have d: "distinct (map o_id (orders ex_db2))" by simp
  show "crossing_orders 1000 ex_bid ex_db2 = [ex_ask2, ex_ask]"
    unfolding crossing_orders_take [OF d] f by (simp add: priority_key_def MAX_CROSSING_ORDERS_PER_MATCH_def less_eq_prod_simp)
  show "candidate_rows 1000 ex_bid ex_db2 = [ex_ask2, ex_ask]"
    unfolding candidate_rows_def f by (simp add: priority_key_def MAX_CROSSING_ORDERS_PER_MATCH_def less_eq_prod_simp)
qed

lemma ex2_admitted: "crossing_admitted ex_bid None ex_db2 ex_ask" "crossing_admitted ex_bid None ex_db2 ex_ask2"
proof -
  show "crossing_admitted ex_bid None ex_db2 ex_ask"
    using ex_admitted crossing_admitted_cong [of ex_bid ex_bid ex_db ex_db2 None ex_ask] by simp
  have "orders_execution_compatible ex_bid ex_ask2"
    by (simp add: orders_execution_compatible_def ex_qualified List.map_filter_simps Let_def split: option.splits)
  then show "crossing_admitted ex_bid None ex_db2 ex_ask2"
    by (simp add: crossing_admitted_def provenance_compatible_cases owners_admitted_def
        order_owner_is_execution_eligible_def execution_party_is_eligible_def)
qed

lemma ex2_match: "\<exists>s' ts. match_order ex_env ex_cfg (\<lambda>_. 1000) ex_bid True None ex_db2 = Inr (s', ts)"
proof -
  let ?m = "\<lparr>ms_db = ex_db2, ms_new = ex_bid, ms_fees = [], ms_trades = [], ms_pending = []\<rparr>"
  obtain m1 where m1: "fill_crossing ex_cfg (\<lambda>_. 1000) True ex_ask2 ?m = Inr m1"
    "inventory (ms_db m1) = [ex_item]" "ms_new m1 = filled_order 100 ex_bid" "ms_fees m1 = [(41, FREE, 2)]"
    by (simp add: fill_crossing_def consumption_by_item_def lock_inventory_items_def ex_cfg_def
        resolve_seller_trade_fee_def configured_fee_for_tier_def Let_def)
  have p1: "users (ms_db m1) = users ex_db2" "organizations (ms_db m1) = organizations ex_db2"
    using fill_crossing_people [OF m1(1)] by simp_all
  have adm1: "crossing_admitted (ms_new m1) None (ms_db m1) ex_ask"
    using crossing_admitted_cong [of "ms_new m1" ex_bid "ms_db m1" ex_db2 None ex_ask] ex2_admitted(1)
      same_terms_filled [of ex_bid ex_bid 100] p1 by (simp add: m1(3))
  have "\<exists>m2. fill_crossing ex_cfg (\<lambda>_. 1000) True ex_ask m1 = Inr m2"
    by (simp add: fill_crossing_def m1 consumption_by_item_def lock_inventory_items_def consume_matched_def Let_def)
  then have loop: "\<exists>m. match_loop ex_cfg (\<lambda>_. 1000) True None [ex_ask2, ex_ask] ?m = Inr m"
    using m1(1) adm1 ex2_admitted(2)
    by (auto simp: match_step_def order_expired_def m1(3))
  have orgs: "\<exists>g. lock_and_load_market_organizations ex_db2 [42, 41, 41] [] True [] = Inr g"
    by (simp add: lock_and_load_market_organizations_def ownership_by_user_def py_upper_def upper_char_def)
  have "acquire_market_slice_lock ex_env (order_slice ex_bid) = Inr ()"
    using ex_slice_lock [OF canonical_SPOT] by (simp add: order_slice_def SPOT_WINDOW_def)
  moreover have "\<not> order_expired 1000 ex_bid" by (simp add: order_expired_def)
  ultimately show ?thesis
    using loop orgs
    by (auto simp: match_order_def ex2_book ex_qualified demo_counterparty_def
        MAX_CROSSING_ORDERS_PER_MATCH_def Let_def simp del: match_loop.simps)
qed

theorem match_price_time_priority_witness:
  "\<exists>s' ts. match_order ex_env ex_cfg (\<lambda>_. 1000) ex_bid True None ex_db2 = Inr (s', ts) \<and>
    (\<exists>t\<in>set ts. allocation_of BID t = (Some 33, 100, 890))"
proof -
  obtain s' ts where m: "match_order ex_env ex_cfg (\<lambda>_. 1000) ex_bid True None ex_db2 = Inr (s', ts)"
    using ex2_match by blast
  have new: "order_of (o_id ex_bid) ex_db2 = Some ex_bid" "live_status (o_status ex_bid)"
    "demo_counterparty ex_bid None = Some None"
    by (simp_all add: live_status_def demo_counterparty_def)
  have book: "admitted_book 1000 ex_bid None ex_db2 = [] @ ex_ask2 # [] @ ex_ask # []"
    by (simp add: admitted_book_crossing [OF ex2_market_inv] ex2_book ex2_admitted)
  have "map (allocation_of BID) ts = [(Some 33, 100, 890), (Some 31, 200, 900)]"
    using match_allocation [OF ex2_market_inv new(1,2) _ ex_qualified(1) new(3) m]
    by (simp add: order_expired_def book some_id_def)
  then have "\<exists>t\<in>set ts. fst (allocation_of (o_side ex_bid) t) = Some (o_id ex_ask)"
    by (auto simp: map_eq_Cons_conv)
  from match_price_time_priority [OF ex2_market_inv new(1,2) m new(3) book this] m show ?thesis by auto
qed

text \<open>C8: every automatic trade is fair to both sides. It names the incoming order and one resting order of the market, has a
  positive quantity within what the resting order offered, is executed at exactly the resting order's price, which is never
  worse than the incoming order's limit, joins the two different organizations of these orders, of equal
  provenance (both REAL, or the one demo activity pair), and is confirmed at once.\<close>

theorem match_trades_fair:
  assumes "market_inv_upto \<sigma> s" "order_of (o_id new) s = Some new" "live_status (o_status new)"
    and "match_order e cfg clk new an pair s = Inr (s', ts)" "t \<in> set ts"
  shows "\<exists>c\<in>set (orders s). o_side c \<noteq> o_side new \<and>
    (if o_side new = BID then t_bid_order_id t = Some (o_id new) \<and> t_ask_order_id t = Some (o_id c)
     else t_bid_order_id t = Some (o_id c) \<and> t_ask_order_id t = Some (o_id new)) \<and>
    t_price_per_mt_usd t = o_price_per_mt_usd c \<and>
    (if o_side new = BID then o_price_per_mt_usd c \<le> o_price_per_mt_usd new else o_price_per_mt_usd new \<le> o_price_per_mt_usd c) \<and>
    0 < t_quantity_mt t \<and> t_quantity_mt t \<le> o_remaining_quantity_mt c \<and>
    t_buyer_id t = (if o_side new = BID then o_organization_id new else o_organization_id c) \<and>
    t_seller_id t = (if o_side new = BID then o_organization_id c else o_organization_id new) \<and> t_buyer_id t \<noteq> t_seller_id t \<and>
    (t_buyer_provenance t = REAL \<and> t_seller_provenance t = REAL \<or>
     t_buyer_provenance t = DEMO \<and> t_seller_provenance t = DEMO \<and> {t_buyer_id t, t_seller_id t} = DEMO_ACTIVITY_ORG_IDS) \<and>
    t_status t = CONFIRMED \<and> t_confirmed_at t \<noteq> None"
proof -
  obtain cp c s1 n q fee x y where mf: "match_filters (clk 0) new s c" and adm: "crossing_admitted new cp s c" and c: "c \<in> set (orders s)"
    and t: "t = matched_trade s1 an n c q fee x y" and n: "same_terms n new" and q: "0 < q" "q \<le> o_remaining_quantity_mt c"
    using match_order_trades [OF assms] by metis
  then have f: "o_organization_id c \<noteq> o_organization_id new" "price_crosses new c" "o_side c \<noteq> o_side new"
    by (auto simp: match_filters_def opposite_def split: OrderSide.splits if_splits)
  have nf: "o_side n = o_side new" "o_organization_id n = o_organization_id new" "o_provenance n = o_provenance new" "o_id n = o_id new"
    using n by (auto simp: same_terms_def)
  have prov: "o_provenance new = REAL \<and> o_provenance c = REAL \<or> o_provenance new = DEMO \<and> o_provenance c = DEMO \<and>
      {o_organization_id new, o_organization_id c} = DEMO_ACTIVITY_ORG_IDS"
    using adm by (simp add: crossing_admitted_def provenance_compatible_cases)
  have tp: "t_buyer_provenance t = (if o_side new = BID then o_provenance new else o_provenance c)"
    "t_seller_provenance t = (if o_side new = BID then o_provenance c else o_provenance new)" "t_confirmed_at t \<noteq> None"
    by (simp_all add: t matched_trade_def Let_def nf)
  show ?thesis
    using c f prov q tp by (intro bexI [of _ c]) (auto simp: t nf price_crosses_def insert_commute)
qed

theorem match_trades_fair_witness:
  "\<exists>s' ts. match_order ex_env ex_cfg (\<lambda>_. 1000) ex_bid True None ex_db = Inr (s', ts) \<and>
    (\<forall>t\<in>set ts. t_price_per_mt_usd t \<le> 950 \<and> t_buyer_id t \<noteq> t_seller_id t)"
proof -
  obtain s' ts where m: "match_order ex_env ex_cfg (\<lambda>_. 1000) ex_bid True None ex_db = Inr (s', ts)"
    using ex_match by blast
  have "t_price_per_mt_usd t \<le> 950 \<and> t_buyer_id t \<noteq> t_seller_id t" if "t \<in> set ts" for t
    using match_trades_fair [OF ex_market_inv _ _ m that] by (auto simp: live_status_def)
  with m show ?thesis by blast
qed

text \<open>C3: what a match does to the ledgers, exactly. Started in a market that satisfies the invariant with the stock \<open>\<sigma>\<close> stranded, a
  successful match of a live order ends in one that satisfies it again: fills and remaining quantities add up for every order, and
  the reserved stock of every item is what its live orders and pending trades commit plus what is stranded. The stranded
  stock is unchanged, except that an incoming order which the engine finds lapsed adds the stock reserved for it.\<close>

theorem match_keeps_ledgers:
  assumes "market_inv_upto \<sigma> s" "order_of (o_id new) s = Some new" "live_status (o_status new)"
    and "match_order e cfg clk new an pair s = Inr (s', ts)"
  shows "market_inv_upto (\<lambda>k. \<sigma> k + (if order_expired (clk 0) new \<and> o_inventory_item_id new = Some k then o_remaining_quantity_mt new else 0)) s'"
proof -
  have "stranded_by (clk 0) new k = (if order_expired (clk 0) new \<and> o_inventory_item_id new = Some k then o_remaining_quantity_mt new else 0)" for k
    using assms(3) by (simp add: stranded_by_def order_commitment_def)
  then show ?thesis using match_order_strands [OF assms] by simp
qed

theorem match_keeps_ledgers_witness:
  "\<exists>s' ts. match_order ex_env ex_cfg (\<lambda>_. 1000) ex_bid True None ex_db = Inr (s', ts) \<and> market_inv s'"
proof -
  obtain s' ts where m: "match_order ex_env ex_cfg (\<lambda>_. 1000) ex_bid True None ex_db = Inr (s', ts)"
    using ex_match by blast
  have "market_inv_upto (\<lambda>k. 0 + (if order_expired 1000 ex_bid \<and> o_inventory_item_id ex_bid = Some k then o_remaining_quantity_mt ex_bid else 0)) s'"
    using match_keeps_ledgers [OF ex_market_inv _ _ m] by (simp add: live_status_def)
  then show ?thesis using m by (auto simp: order_expired_def)
qed

lemma allocate_length: "length (allocate w cs) \<le> length cs"
  by (induction w cs rule: allocate.induct) (auto simp: Let_def)

text \<open>The fan-out bound is all or nothing. When more than a hundred orders cross an executable
  incoming order, a match that succeeds has filled it completely, with at most a hundred trades;
  otherwise the whole transaction fails.\<close>

lemma match_fanout_bound:
  assumes "market_inv_upto \<sigma> s" "order_of (o_id new) s = Some new" "live_status (o_status new)"
    and "match_order e cfg clk new an pair s = Inr (s', ts)"
  shows "length ts \<le> 100 \<and>
    (\<not> order_expired (clk 0) new \<and> demo_counterparty new pair \<noteq> None \<and> order_is_execution_qualified new \<and>
     100 < length (filter (match_filters (clk 0) new s) (orders s)) \<longrightarrow>
       (\<exists>x. order_of (o_id new) s' = Some x \<and> o_remaining_quantity_mt x \<le> 0))"
  using assms(4)
proof (cases rule: match_order_cases)
  case idle
  have "0 < o_remaining_quantity_mt new"
    using live_row [OF _ assms(3)] order_of_mem [OF assms(2)] assms(1) by (auto simp: market_inv_upto_def rows_ok_def)
  show ?thesis
  proof (intro conjI impI)
    assume a: "\<not> order_expired (clk 0) new \<and> demo_counterparty new pair \<noteq> None \<and> order_is_execution_qualified new \<and>
     100 < length (filter (match_filters (clk 0) new s) (orders s))"
    then have long: "100 < length (candidate_rows (clk 0) new s)"
      by (simp add: candidate_rows_def MAX_CROSSING_ORDERS_PER_MATCH_def)
    then have "candidate_rows (clk 0) new s \<noteq> []" by auto
    with a long assms(4) \<open>0 < o_remaining_quantity_mt new\<close> obtain cp m where
      "match_loop cfg clk an cp (crossing_orders (clk 0) new s)
         \<lparr>ms_db = s, ms_new = new, ms_fees = [], ms_trades = [], ms_pending = []\<rparr> = Inr m"
      "s' = notify_org_users_batched (ms_pending m) (ms_db m)" "o_remaining_quantity_mt (ms_new m) \<le> 0"
      by (auto simp: match_order_def Let_def MAX_CROSSING_ORDERS_PER_MATCH_def split: if_splits)
    with match_loop_refines [OF crossing_orders_loop_inv [OF assms(1-3)] _ _ _ this(1), of new s]
      match_loop_inv [OF crossing_orders_loop_inv [OF assms(1-3)] this(1)]
    show "\<exists>x. order_of (o_id new) s' = Some x \<and> o_remaining_quantity_mt x \<le> 0"
      by (auto dest: same_terms_fields)
  qed (simp add: idle)
next
  case expired
  then show ?thesis by simp
next
  case (loop cp m)
  note r = match_loop_refines [OF crossing_orders_loop_inv [OF assms(1-3)] _ _ _ loop(5), of new s]
  have "length ts = length (allocate (o_remaining_quantity_mt new) (admitted_book (clk 0) new cp s))"
    using arg_cong [OF conjunct1 [OF r], of length] loop(7) by (simp add: admitted_book_crossing [OF assms(1)])
  also have "\<dots> \<le> length (admitted_book (clk 0) new cp s)" by (rule allocate_length)
  also have "\<dots> \<le> 100"
    unfolding admitted_book_def MAX_CROSSING_ORDERS_PER_MATCH_def by (rule order_trans [OF length_filter_le]) simp
  finally have "length ts \<le> 100" .
  moreover have "\<exists>x. order_of (o_id new) s' = Some x \<and> o_remaining_quantity_mt x \<le> 0"
    if "100 < length (filter (match_filters (clk 0) new s) (orders s))"
    using that loop(6,8) r match_loop_inv [OF crossing_orders_loop_inv [OF assms(1-3)] loop(5)]
    by (auto simp: candidate_rows_def MAX_CROSSING_ORDERS_PER_MATCH_def dest: same_terms_fields)
  ultimately show ?thesis by blast
qed

end
