(* ===== verification/Market_Evidence.thy ===== *)
theory Market_Evidence
  imports Policy Windows Constraints
begin

section \<open>Market evidence and public visibility\<close>

text \<open>
  \<^verbatim>\<open>src/app/services/market_provenance.py\<close> (which rows may count as REAL or DEMO evidence, and how
  they are labelled) and the public projections of \<^verbatim>\<open>src/app/services/market_data_eligibility.py\<close>.
  A SQL clause is a predicate on the row it filters; a comparison with a NULL operand does not
  hold. The properties: the SQL mirror of the fill-time owner policy agrees with that policy, a
  publicly visible order could be filled, and REAL and DEMO evidence are never blended.
\<close>

subsection \<open>Labels\<close>

datatype MarketSourceKind = SRC_CONFIRMED_TRADE | SRC_LIVE_ORDER | SRC_LIVE_INVENTORY | SRC_DEMO_SEED
  | SRC_BENCHMARK_REFERENCE | SRC_MIXED_SOURCE | SRC_NO_DATA | SRC_UNKNOWN

datatype MarketScope = SCOPE_DELIVERY_POINT | SCOPE_REGION | SCOPE_PRODUCT | SCOPE_UNKNOWN

datatype MarketDemoStatus = DS_REAL_ONLY | DS_DEMO_ONLY | DS_MIXED | DS_UNKNOWN | DS_NOT_APPLICABLE

datatype MarketEvidenceScope = EV_REAL | EV_DEMO

definition demo_status_from_counts :: "int \<Rightarrow> int \<Rightarrow> int \<Rightarrow> MarketDemoStatus" where
  "demo_status_from_counts n_real n_demo n_unknown =
     (if n_real \<le> 0 \<and> n_demo \<le> 0 \<and> n_unknown \<le> 0 then DS_NOT_APPLICABLE
      else if n_unknown > 0 then DS_UNKNOWN
      else if n_real > 0 \<and> n_demo > 0 then DS_UNKNOWN
      else if n_demo > 0 then DS_DEMO_ONLY
      else DS_REAL_ONLY)"

definition source_kind_from_counts :: "int \<Rightarrow> int \<Rightarrow> int \<Rightarrow> MarketSourceKind \<Rightarrow> MarketSourceKind" where
  "source_kind_from_counts n_real n_demo n_unknown real_source =
     (case demo_status_from_counts n_real n_demo n_unknown of
        DS_NOT_APPLICABLE \<Rightarrow> SRC_NO_DATA
      | DS_UNKNOWN \<Rightarrow> SRC_UNKNOWN
      | DS_MIXED \<Rightarrow> SRC_UNKNOWN
      | DS_DEMO_ONLY \<Rightarrow> SRC_DEMO_SEED
      | DS_REAL_ONLY \<Rightarrow> real_source)"

record MarketEvidencePolicy =
  mep_scope :: MarketEvidenceScope
  mep_provenance :: OrganizationProvenance
  mep_source_kind :: MarketSourceKind
  mep_demo_status :: MarketDemoStatus

definition evidence_policy_for_scope :: "MarketEvidenceScope \<Rightarrow> MarketSourceKind \<Rightarrow> MarketEvidencePolicy" where
  "evidence_policy_for_scope scope real_source =
     (case scope of
        EV_REAL \<Rightarrow> \<lparr>mep_scope = scope, mep_provenance = REAL, mep_source_kind = real_source,
                     mep_demo_status = DS_REAL_ONLY\<rparr>
      | EV_DEMO \<Rightarrow> \<lparr>mep_scope = scope, mep_provenance = DEMO, mep_source_kind = SRC_DEMO_SEED,
                     mep_demo_status = DS_DEMO_ONLY\<rparr>)"

record AggregateEvidenceSelection =
  aes_scope :: "MarketEvidenceScope option"
  aes_source_kind :: MarketSourceKind
  aes_demo_status :: MarketDemoStatus
  aes_real_count :: int
  aes_demo_count :: int
  aes_unknown_count :: int
  aes_value_prefix :: "string option"

definition select_aggregate_evidence ::
  "int \<Rightarrow> int \<Rightarrow> int \<Rightarrow> MarketSourceKind \<Rightarrow> AggregateEvidenceSelection" where
  "select_aggregate_evidence real0 demo0 unknown0 real_source =
     (let n_real = max 0 real0; n_demo = max 0 demo0; n_unknown = max 0 unknown0 in
      if n_real \<noteq> 0 then
        (let p = evidence_policy_for_scope EV_REAL real_source in
         \<lparr>aes_scope = Some EV_REAL, aes_source_kind = mep_source_kind p, aes_demo_status = mep_demo_status p,
          aes_real_count = n_real, aes_demo_count = n_demo, aes_unknown_count = n_unknown, aes_value_prefix = Some ''real''\<rparr>)
      else if n_demo \<noteq> 0 then
        (let p = evidence_policy_for_scope EV_DEMO real_source in
         \<lparr>aes_scope = Some EV_DEMO, aes_source_kind = mep_source_kind p, aes_demo_status = mep_demo_status p,
          aes_real_count = n_real, aes_demo_count = n_demo, aes_unknown_count = n_unknown, aes_value_prefix = Some ''demo''\<rparr>)
      else if n_unknown \<noteq> 0 then
        \<lparr>aes_scope = None, aes_source_kind = SRC_UNKNOWN, aes_demo_status = DS_UNKNOWN,
         aes_real_count = n_real, aes_demo_count = n_demo, aes_unknown_count = n_unknown, aes_value_prefix = None\<rparr>
      else
        \<lparr>aes_scope = None, aes_source_kind = SRC_NO_DATA, aes_demo_status = DS_NOT_APPLICABLE,
         aes_real_count = 0, aes_demo_count = 0, aes_unknown_count = 0, aes_value_prefix = None\<rparr>)"

record market_labels =
  ml_source_kind :: MarketSourceKind
  ml_scope :: MarketScope
  ml_demo_status :: MarketDemoStatus
  ml_unknown_count :: int

definition order_market_provenance :: "order \<Rightarrow> market_labels" where
  "order_market_provenance ord =
     \<lparr>ml_source_kind = (if o_provenance ord = DEMO then SRC_DEMO_SEED
                        else if o_provenance ord = REAL then SRC_LIVE_ORDER else SRC_UNKNOWN),
      ml_scope = (if o_delivery_point_id ord \<noteq> None then SCOPE_DELIVERY_POINT else SCOPE_UNKNOWN),
      ml_demo_status = (if o_provenance ord = DEMO then DS_DEMO_ONLY
                        else if o_provenance ord = REAL then DS_REAL_ONLY else DS_UNKNOWN),
      ml_unknown_count = (if o_provenance ord = UNKNOWN then 1 else 0)\<rparr>"

definition trade_market_provenance :: "trade \<Rightarrow> market_labels" where
  "trade_market_provenance t =
     (let both = (\<lambda>p. t_buyer_provenance t = p \<and> t_seller_provenance t = p) in
      \<lparr>ml_source_kind = (if both DEMO then SRC_DEMO_SEED else if both REAL then SRC_CONFIRMED_TRADE else SRC_UNKNOWN),
       ml_scope = (if delivery_point_id (t_snapshot t) \<noteq> None then SCOPE_DELIVERY_POINT else SCOPE_UNKNOWN),
       ml_demo_status = (if both DEMO then DS_DEMO_ONLY else if both REAL then DS_REAL_ONLY else DS_UNKNOWN),
       ml_unknown_count = (if t_buyer_provenance t = UNKNOWN \<or> t_seller_provenance t = UNKNOWN then 1 else 0)\<rparr>)"

definition evidence_scope_for_provenance :: "OrganizationProvenance \<Rightarrow> MarketEvidenceScope option" where
  "evidence_scope_for_provenance p = (if p = REAL then Some EV_REAL else if p = DEMO then Some EV_DEMO else None)"

subsection \<open>Evidence clauses\<close>

definition order_evidence_clause :: "OrganizationProvenance \<Rightarrow> MarketEvidenceScope \<Rightarrow> bool" where
  "order_evidence_clause p scope \<longleftrightarrow> p = mep_provenance (evidence_policy_for_scope scope SRC_LIVE_ORDER)"

definition organization_evidence_clause :: "organization \<Rightarrow> user \<Rightarrow> MarketEvidenceScope \<Rightarrow> bool" where
  "organization_evidence_clause g u scope \<longleftrightarrow>
     g_verification_status g = ''APPROVED''
     \<and> g_provenance g = mep_provenance (evidence_policy_for_scope scope SRC_CONFIRMED_TRADE)
     \<and> u_organization_id u = Some (g_id g) \<and> u_status u = APPROVED \<and> u_kyc_status u = ''APPROVED''
     \<and> (scope = EV_DEMO \<longrightarrow> g_id g \<in> set DEMO_MARKET_ORG_IDS)"

definition canonical_trade_product_snapshot_clause :: "trade \<Rightarrow> bool" where
  "canonical_trade_product_snapshot_clause t \<longleftrightarrow> (let m = t_snapshot t in
     list_ex (\<lambda>sp. product_id m = Some (ps_id sp) \<and> product_name m = Some (ps_name sp)
       \<and> fuel_type m = Some (ps_fuel_type sp) \<and> fuel_grade m = Some (ps_fuel_grade sp)
       \<and> market_product m = Some (market_product_value (ps_market_product sp))) CANONICAL_PRODUCTS)"

definition canonical_trade_delivery_point_snapshot_clause :: "trade \<Rightarrow> bool" where
  "canonical_trade_delivery_point_snapshot_clause t \<longleftrightarrow> (let m = t_snapshot t in
     list_ex (\<lambda>sp. delivery_point_id m = Some (ds_id sp) \<and> delivery_point_name m = Some (ds_name sp)
       \<and> delivery_point_region m = Some (ds_region sp)) CANONICAL_DELIVERY_POINTS)"

definition canonical_availability_window_clause :: "string option \<Rightarrow> bool" where
  "canonical_availability_window_clause v = (case v of None \<Rightarrow> False | Some w \<Rightarrow>
     w = ''SPOT'' \<or> MONTH_WINDOW_RE w \<noteq> None \<or> QUARTER_WINDOW_RE w \<noteq> None \<or> CALENDAR_WINDOW_RE w \<noteq> None)"

definition formal_trade_snapshot_clause :: "trade \<Rightarrow> bool" where
  "formal_trade_snapshot_clause t \<longleftrightarrow>
     t_market_snapshot_version t = Some 1
     \<and> canonical_trade_product_snapshot_clause t
     \<and> canonical_trade_delivery_point_snapshot_clause t
     \<and> canonical_availability_window_clause (availability_window (t_snapshot t))"

definition FORMAL_TRADE_STATUSES :: "TradeStatus list" where
  "FORMAL_TRADE_STATUSES = [CONFIRMED, DELIVERED, PAID]"

definition trade_evidence_clause :: "trade \<Rightarrow> MarketEvidenceScope \<Rightarrow> time option \<Rightarrow> time option \<Rightarrow> bool" where
  "trade_evidence_clause t scope confirmed_since confirmed_before \<longleftrightarrow>
     (let p = mep_provenance (evidence_policy_for_scope scope SRC_CONFIRMED_TRADE) in
      formal_trade_snapshot_clause t \<and> t_buyer_provenance t = p \<and> t_seller_provenance t = p
      \<and> t_status t \<in> set FORMAL_TRADE_STATUSES
      \<and> (case t_confirmed_at t of None \<Rightarrow> False | Some c \<Rightarrow>
           (case confirmed_since of None \<Rightarrow> True | Some a \<Rightarrow> a \<le> c)
           \<and> (case confirmed_before of None \<Rightarrow> True | Some b \<Rightarrow> c < b)))"

definition public_order_evidence_clause :: "OrganizationProvenance \<Rightarrow> bool" where
  "public_order_evidence_clause p \<longleftrightarrow> order_evidence_clause p EV_REAL \<or> order_evidence_clause p EV_DEMO"

definition public_trade_evidence_clause :: "trade \<Rightarrow> time option \<Rightarrow> time option \<Rightarrow> bool" where
  "public_trade_evidence_clause t since before \<longleftrightarrow>
     trade_evidence_clause t EV_REAL since before \<or> trade_evidence_clause t EV_DEMO since before"

subsection \<open>Public projections\<close>

definition public_order_owner_admission_clause :: "market_db \<Rightarrow> order \<Rightarrow> bool" where
  "public_order_owner_admission_clause s ord =
     (let approved = list_ex (\<lambda>g. g_id g = o_organization_id ord \<and> g_verification_status g = ''APPROVED'')
            (organizations s);
          approved_real = list_ex (\<lambda>g. g_id g = o_organization_id ord \<and> g_verification_status g = ''APPROVED''
            \<and> g_provenance g = REAL) (organizations s);
          eligible_owner = list_ex (\<lambda>u. o_owner_user_id ord = Some (u_id u)
            \<and> u_organization_id u = Some (o_organization_id ord)
            \<and> (u_role u = Some BUYER \<or> u_role u = Some SUPPLIER) \<and> u_status u = APPROVED
            \<and> u_email_verified u \<and> \<not> u_must_change_password u \<and> u_kyc_status u \<noteq> ''REJECTED''
            \<and> (u_kyc_organization_id u = None \<or> u_kyc_organization_id u = Some (o_organization_id ord))
            \<and> approved) (users s);
          assisted_owner = list_ex (\<lambda>u. o_creation_method ord = MARKET_SUPPORT
            \<and> o_owner_user_id ord = Some (u_id u) \<and> o_created_by_actor_user_id ord = Some (u_id u)
            \<and> u_role u = Some ADMIN \<and> u_status u = APPROVED \<and> approved_real) (users s) in
      if o_creation_method ord = MARKET_SUPPORT then assisted_owner
      else o_owner_user_id ord = None \<or> eligible_owner)"

definition market_data_eligible_organization_clause :: "organization \<Rightarrow> bool" where
  "market_data_eligible_organization_clause g \<longleftrightarrow> g_verification_status g = ''APPROVED'' \<and> g_provenance g = REAL"

definition active_market_catalog_clauses :: "product \<Rightarrow> delivery_point \<Rightarrow> bool" where
  "active_market_catalog_clauses p d \<longleftrightarrow> canonical_product_clause p \<and> canonical_delivery_point_clause d"

definition current_public_order_clause :: "market_db \<Rightarrow> time \<Rightarrow> order \<Rightarrow> bool" where
  "current_public_order_clause s now ord \<longleftrightarrow>
     (case o_expires_at ord of Some t \<Rightarrow> now < t | None \<Rightarrow> o_provenance ord = REAL \<or> o_provenance ord = UNKNOWN)
     \<and> public_order_owner_admission_clause s ord
     \<and> (o_side ord \<noteq> ASK \<or> biofuel_supplier_metadata_clause (o_metadata ord) (o_product_id ord))"

definition public_order_collection_provenance_clause :: "order \<Rightarrow> bool" where
  "public_order_collection_provenance_clause ord \<longleftrightarrow> o_provenance ord = REAL \<or> o_provenance ord = DEMO"

text \<open>\<open>length(trim(coalesce(x, ''))) > 0\<close>, where \<open>trim\<close> removes spaces only.\<close>

definition sql_has_text :: "string option \<Rightarrow> bool" where
  "sql_has_text v \<longleftrightarrow> list_ex (\<lambda>c. c \<noteq> CHR '' '') (or_empty v)"

definition public_order_projection :: "market_db \<Rightarrow> time \<Rightarrow> order \<Rightarrow> bool" where
  "public_order_projection s now ord \<longleftrightarrow>
     list_ex (\<lambda>p. p_id p = o_product_id ord \<and>
       list_ex (\<lambda>d. o_delivery_point_id ord = Some (d_id d) \<and> active_market_catalog_clauses p d) (delivery_points s))
       (products s)
     \<and> (o_status ord = OPEN \<or> o_status ord = PARTIALLY_FILLED)
     \<and> canonical_availability_window_clause (Some (o_availability_window ord))
     \<and> current_public_order_clause s now ord
     \<and> public_order_collection_provenance_clause ord
     \<and> (o_side ord \<noteq> ASK \<or> (let m = o_metadata ord in
          sql_has_text (certification_scheme m) \<and> certification_declared m
          \<and> sql_has_text (specification_standard m) \<and> msds_available m
          \<and> carbon_intensity_gco2_mj m \<noteq> None \<and> sql_has_text (feedstock m) \<and> sql_has_text (origin m)))"

definition public_order_is_visible :: "market_db \<Rightarrow> time \<Rightarrow> uuid \<Rightarrow> bool" where
  "public_order_is_visible s now k \<longleftrightarrow> list_ex (\<lambda>ord. o_id ord = k \<and> public_order_projection s now ord) (orders s)"

definition public_inventory_projection :: "market_db \<Rightarrow> inventory_item \<Rightarrow> bool" where
  "public_inventory_projection s i \<longleftrightarrow>
     list_ex (\<lambda>pt. i_port_id i = Some (pt_id pt) \<and> pt_is_active pt \<and>
     list_ex (\<lambda>d. d_name d = pt_name pt \<and>
     list_ex (\<lambda>p. i_product_name i = Some (p_name p) \<and> active_market_catalog_clauses p d
                \<and> biofuel_supplier_metadata_clause (i_metadata i) (p_id p) \<and>
     list_ex (\<lambda>g. i_supplier_id i = Some (g_id g) \<and>
     list_ex (\<lambda>u. i_owner_user_id i = Some (u_id u) \<and> u_organization_id u = Some (g_id g)
                \<and> (organization_evidence_clause g u EV_REAL \<or> organization_evidence_clause g u EV_DEMO))
       (users s)) (organizations s)) (products s)) (delivery_points s)) (ports s)"

definition public_inventory_is_visible :: "market_db \<Rightarrow> uuid \<Rightarrow> bool" where
  "public_inventory_is_visible s k \<longleftrightarrow> list_ex (\<lambda>i. i_id i = k \<and> public_inventory_projection s i) (inventory s)"

definition public_trade_is_visible :: "market_db \<Rightarrow> uuid \<Rightarrow> bool" where
  "public_trade_is_visible s k \<longleftrightarrow> list_ex (\<lambda>t. t_id t = k \<and> public_trade_evidence_clause t None None) (trades s)"

definition organization_has_public_market_projection :: "market_db \<Rightarrow> time \<Rightarrow> uuid \<Rightarrow> bool" where
  "organization_has_public_market_projection s now g \<longleftrightarrow>
     list_ex (\<lambda>ord. o_organization_id ord = g \<and> public_order_projection s now ord) (orders s)
     \<or> list_ex (\<lambda>i. i_supplier_id i = Some g \<and> public_inventory_projection s i) (inventory s)"

definition user_has_public_market_projection :: "market_db \<Rightarrow> time \<Rightarrow> uuid \<Rightarrow> bool" where
  "user_has_public_market_projection s now u \<longleftrightarrow>
     list_ex (\<lambda>ord. o_owner_user_id ord = Some u \<and> public_order_projection s now ord) (orders s)
     \<or> list_ex (\<lambda>i. i_owner_user_id i = Some u \<and> public_inventory_projection s i) (inventory s)"

subsection \<open>The owner clause mirrors the fill-time policy\<close>

lemma list_ex_key:
  assumes "distinct (map pk rs)"
  shows "list_ex (\<lambda>x. pk x = k \<and> P x) rs \<longleftrightarrow> (case row_by pk k rs of None \<Rightarrow> False | Some x \<Rightarrow> P x)"
proof (cases "row_by pk k rs")
  case None
  then have "pk y \<noteq> k" if "y \<in> set rs" for y using that by (auto simp: row_by_None_iff)
  then show ?thesis using None by (auto simp: list_ex_iff)
next
  case (Some x)
  then have "x \<in> set rs" "pk x = k" using row_by_SomeD by metis+
  moreover have "y = x" if "y \<in> set rs" "pk y = k" for y
    using row_by_distinct [OF assms that(1)] Some that(2) by simp
  ultimately show ?thesis unfolding Some list_ex_iff option.case by blast
qed

text \<open>The SQL clause that hides orders of inadmissible owners from every public collection is an exact
  mirror of the fill-time policy: for an order of a stored organization it holds iff the order
  has no recorded owner (and is not a support order), or its stored owner passes
  \<open>order_owner_is_execution_eligible\<close> at this moment.\<close>

lemma owner_clause_mirrors_fill_policy:
  assumes "distinct (map u_id (users s))" "distinct (map g_id (organizations s))"
    and "organization_of (o_organization_id ord) s = Some g"
  shows "public_order_owner_admission_clause s ord \<longleftrightarrow>
    (case o_owner_user_id ord of None \<Rightarrow> o_creation_method ord \<noteq> MARKET_SUPPORT
     | Some k \<Rightarrow> order_owner_is_execution_eligible s ord (user_of k s) (organization_of (o_organization_id ord) s))"
proof -
  have g: "g_id g = o_organization_id ord" using row_by_SomeD [OF assms(3)] by simp
  note org = list_ex_key [OF assms(2), of "o_organization_id ord", simplified assms(3) option.case]
  show ?thesis
  proof (cases "o_owner_user_id ord")
    case None
    then show ?thesis by (auto simp: public_order_owner_admission_clause_def Let_def list_ex_iff)
  next
    case (Some k)
    have usr: "list_ex (\<lambda>u. k = u_id u \<and> P u) (users s) = (case user_of k s of None \<Rightarrow> False | Some u \<Rightarrow> P u)" for P
      using list_ex_key [OF assms(1), of k P] by (simp add: eq_commute)
    show ?thesis
    proof (cases "user_of k s")
      case None
      then show ?thesis
        by (simp add: public_order_owner_admission_clause_def Let_def Some usr order_owner_is_execution_eligible_def
            execution_party_is_eligible_def)
    next
      case u: (Some u)
      have "u_id u = k" using row_by_SomeD [OF u] by simp
      then show ?thesis
        using g
        by (auto simp: public_order_owner_admission_clause_def Let_def Some usr org u assms(3)
            order_owner_is_execution_eligible_def execution_party_is_eligible_def split: option.split)
    qed
  qed
qed

end
