(* ===== verification/Request_Party.thy ===== *)
theory Request_Party
  imports Locks Policy
begin

section \<open>The effective party of a request\<close>

text \<open>
  \<^verbatim>\<open>src/app/services/request_party.py\<close>: for whom an authenticated user acts. An ordinary request
  acts for the user's own organization; an administrator may act for another organization inside
  a live Market Support context. The support tables are a state of their own, because an expired
  context is closed and committed even though the request then fails. An error body with a code
  and a message is written \<open>CODE: message\<close>. \<open>uuid_parse\<close> stands for the constructor \<open>UUID(text)\<close>.

  The property: a support party is only ever granted to the approved administrator who opened
  the context, with both capabilities unexpired, inside the context's lifetime, and for an
  approved REAL organization.
\<close>

subsection \<open>Support tables\<close>

datatype MarketSupportCapability = MARKET_SUPPORT_LISTINGS | MARKET_SUPPORT_AUTHORIZATIONS

datatype MarketSupportContextScope = ASSISTED_ORDER_ENTRY

datatype MarketSupportContextStatus = CTX_ACTIVE | CTX_EXITED | CTX_EXPIRED | CTX_REVOKED

record StaffCapabilityAssignment =
  sa_id :: uuid
  sa_user_id :: uuid
  sa_capability :: MarketSupportCapability
  sa_expires_at :: "time option"
  sa_revoked_at :: "time option"
  sa_reason :: string
  sa_granted_by_user_id :: uuid
  sa_granted_at :: time
  sa_revoked_by_user_id :: "uuid option"
  sa_revocation_reason :: "string option"

record MarketSupportContext =
  x_id :: uuid
  x_actor_user_id :: uuid
  x_organization_id :: uuid
  x_accountable_user_id :: uuid
  x_support_reference :: string
  x_scope :: MarketSupportContextScope
  x_started_at :: time
  x_expires_at :: time
  x_ended_at :: "time option"
  x_status :: MarketSupportContextStatus
  x_version :: int

datatype MarketSupportAuthorizationStatus = AUTH_ACTIVE | AUTH_CONSUMED | AUTH_REVOKED

record MarketSupportAuthorization =
  az_id :: uuid
  az_organization_id :: uuid
  az_accountable_user_id :: uuid
  az_market_support_context_id :: "uuid option"
  az_status :: MarketSupportAuthorizationStatus
  az_product_id :: uuid
  az_delivery_point_id :: uuid
  az_availability_window :: string
  az_quantity_mt :: dec
  az_price_per_mt_usd :: dec
  az_order_side :: OrderSide
  az_authorization_expires_at :: time
  az_order_expires_at :: "time option"
  az_is_anonymous :: bool
  az_certifications :: "string list"
  az_metadata :: supplier_metadata
  az_terms_digest :: string
  az_evidence_reference :: string
  az_evidence_sha256 :: "string option"
  az_commercial_consent_version :: string
  az_commercial_consent_reference :: string
  az_support_case_reference :: "string option"
  az_instruction_at :: "time option"
  az_acknowledge_exact_terms :: "bool option"
  az_acknowledge_executable_standing_order :: "bool option"
  az_idempotency_key :: string
  az_idempotency_request_hash :: string
  az_created_by_actor_user_id :: uuid
  az_consumed_at :: "time option"

record support_db =
  assignments :: "StaffCapabilityAssignment list"
  contexts :: "MarketSupportContext list"
  authorizations :: "MarketSupportAuthorization list"

abbreviation context_of :: "uuid \<Rightarrow> support_db \<Rightarrow> MarketSupportContext option" where
  "context_of k sd \<equiv> row_by x_id k (contexts sd)"

definition put_context :: "MarketSupportContext \<Rightarrow> support_db \<Rightarrow> support_db" where
  "put_context x sd = sd\<lparr>contexts := put_row x_id x (contexts sd)\<rparr>"

definition ins_context :: "MarketSupportContext \<Rightarrow> support_db \<Rightarrow> support_db" where
  "ins_context x sd = sd\<lparr>contexts := contexts sd @ [x]\<rparr>"

interpretation context_tab: row_store x_id contexts put_context ins_context
  by unfold_locales (simp_all add: put_context_def ins_context_def)

subsection \<open>Parties\<close>

datatype RequestPartyMode = MODE_SELF_SERVICE | MODE_MARKET_SUPPORT

record RequestParty =
  rp_actor :: user
  rp_effective_organization :: "organization option"
  rp_accountable_principal :: user
  rp_effective_role :: "UserRole option"
  rp_mode :: RequestPartyMode
  rp_support_context_id :: "uuid option"
  rp_support_reference :: "string option"
  rp_creation_method :: OrderCreationMethod

definition context_error :: "string \<Rightarrow> failure" where
  "context_error message = HTTPException 409 (''MARKET_SUPPORT_CONTEXT_INVALID: '' @ message)"

definition KNOWN_STATE_CHANGING_GET_PATHS :: "string list" where
  "KNOWN_STATE_CHANGING_GET_PATHS = [''/api/auth/verify-email'', ''/api/referrals/my-code'', ''/api/verify-email'',
     ''/api/watchlists/me'']"

definition rstrip_slash :: "string \<Rightarrow> string" where
  "rstrip_slash path = rev (dropWhile (\<lambda>c. c = CHR ''/'') (rev path))"

definition is_known_state_changing_get :: "string \<Rightarrow> string \<Rightarrow> bool" where
  "is_known_state_changing_get method_name path \<longleftrightarrow>
     py_upper method_name = ''GET'' \<and> rstrip_slash path \<in> set KNOWN_STATE_CHANGING_GET_PATHS"

definition context_locator :: "(string \<Rightarrow> uuid option) \<Rightarrow> string option \<Rightarrow> uuid option result" where
  "context_locator uuid_parse header =
     (case header of None \<Rightarrow> Inr None
      | Some raw \<Rightarrow>
          if py_strip raw = [] then Inr None
          else case uuid_parse (py_strip raw) of
            Some u \<Rightarrow> Inr (Some u)
          | None \<Rightarrow> Inl (HTTPException 400 ''MARKET_SUPPORT_CONTEXT_INVALID: Invalid support context''))"

definition capability_expired :: "time \<Rightarrow> StaffCapabilityAssignment \<Rightarrow> bool" where
  "capability_expired now x = (case sa_expires_at x of None \<Rightarrow> False | Some t \<Rightarrow> t \<le> now)"

text \<open>\<open>{row.capability: row for row in assignments}\<close>: the last unrevoked row of a capability wins.\<close>

definition require_context_capabilities :: "support_db \<Rightarrow> time \<Rightarrow> uuid \<Rightarrow> unit result" where
  "require_context_capabilities sd now actor =
     (let rows = filter (\<lambda>x. sa_user_id x = actor \<and> sa_revoked_at x = None) (assignments sd);
          ok = (\<lambda>c. case find (\<lambda>x. sa_capability x = c) (rev rows) of None \<Rightarrow> False | Some x \<Rightarrow> \<not> capability_expired now x) in
      if ok MARKET_SUPPORT_LISTINGS \<and> ok MARKET_SUPPORT_AUTHORIZATIONS then Inr ()
      else Inl (HTTPException 404 ''Not found''))"

text \<open>The pair of user and capability is unique in the table, so at most one row is selected.\<close>

definition lock_request_party_capabilities :: "support_db \<Rightarrow> time \<Rightarrow> uuid \<Rightarrow> unit result" where
  "lock_request_party_capabilities sd now actor =
     (let ok = (\<lambda>c. case find (\<lambda>x. sa_user_id x = actor \<and> sa_capability x = c) (assignments sd) of
            None \<Rightarrow> False | Some x \<Rightarrow> sa_revoked_at x = None \<and> \<not> capability_expired now x) in
      if ok MARKET_SUPPORT_AUTHORIZATIONS \<and> ok MARKET_SUPPORT_LISTINGS then Inr ()
      else Inl (context_error ''Market Support capability is no longer active''))"

definition expire_context :: "time \<Rightarrow> MarketSupportContext \<Rightarrow> support_db \<Rightarrow> support_db" where
  "expire_context now x sd =
     put_context (x\<lparr>x_status := CTX_EXPIRED, x_ended_at := Some now, x_version := x_version x + 1\<rparr>) sd"

text \<open>
  The second component is the state of the support tables afterwards. \<open>clk 0\<close> is read by the
  capability check, \<open>clk 1\<close> by the expiry check.
\<close>

definition resolve_request_party ::
  "(string \<Rightarrow> uuid option) \<Rightarrow> bool \<Rightarrow> (nat \<Rightarrow> time) \<Rightarrow> string option \<Rightarrow> market_db \<Rightarrow> support_db \<Rightarrow> user
     \<Rightarrow> RequestParty result \<times> support_db"
where
  "resolve_request_party uuid_parse support_enabled clk header s sd cur =
     (case context_locator uuid_parse header of
        Inl err \<Rightarrow> (Inl err, sd)
      | Inr None \<Rightarrow>
          (Inr \<lparr>rp_actor = cur,
             rp_effective_organization =
               (case u_organization_id cur of None \<Rightarrow> None | Some k \<Rightarrow> organization_of k s),
             rp_accountable_principal = cur, rp_effective_role = u_role cur, rp_mode = MODE_SELF_SERVICE,
             rp_support_context_id = None, rp_support_reference = None, rp_creation_method = SELF_SERVICE\<rparr>, sd)
      | Inr (Some k) \<Rightarrow>
          if \<not> support_enabled \<or> u_role cur \<noteq> Some ADMIN \<or> u_status cur \<noteq> APPROVED
          then (Inl (HTTPException 404 ''MARKET_SUPPORT_CONTEXT_INVALID: Not found''), sd)
          else case require_context_capabilities sd (clk 0) (u_id cur) of
            Inl err \<Rightarrow> (Inl err, sd)
          | Inr _ \<Rightarrow>
            case context_of k sd of
              None \<Rightarrow> (Inl (HTTPException 404 ''MARKET_SUPPORT_CONTEXT_INVALID: Not found''), sd)
            | Some x \<Rightarrow>
              if x_actor_user_id x \<noteq> u_id cur
              then (Inl (HTTPException 404 ''MARKET_SUPPORT_CONTEXT_INVALID: Not found''), sd)
              else if x_status x \<noteq> CTX_ACTIVE
              then (Inl (context_error ''Support context is no longer active''), sd)
              else if x_expires_at x \<le> clk 1
              then (Inl (context_error ''Support context has expired''), expire_context (clk 1) x sd)
              else if x_scope x \<noteq> ASSISTED_ORDER_ENTRY
              then (Inl (context_error ''Support scope is not permitted''), sd)
              else case organization_of (x_organization_id x) s of
                None \<Rightarrow> (Inl (context_error ''Support context target is no longer valid''), sd)
              | Some g \<Rightarrow>
                  if g_verification_status g \<noteq> ''APPROVED'' \<or> g_provenance g \<noteq> REAL
                  then (Inl (context_error ''Support context target is no longer valid''), sd)
                  else (Inr \<lparr>rp_actor = cur, rp_effective_organization = Some g, rp_accountable_principal = cur,
                          rp_effective_role = Some ADMIN, rp_mode = MODE_MARKET_SUPPORT,
                          rp_support_context_id = Some (x_id x), rp_support_reference = Some (x_support_reference x),
                          rp_creation_method = MARKET_SUPPORT\<rparr>, sd))"

definition lock_request_party_context ::
  "(nat \<Rightarrow> time) \<Rightarrow> support_db \<Rightarrow> RequestParty \<Rightarrow> unit result \<times> support_db" where
  "lock_request_party_context clk sd party =
     (case rp_support_context_id party of
        None \<Rightarrow> (Inr (), sd)
      | Some k \<Rightarrow>
          if rp_mode party \<noteq> MODE_MARKET_SUPPORT then (Inr (), sd)
          else case lock_request_party_capabilities sd (clk 0) (u_id (rp_actor party)) of
            Inl err \<Rightarrow> (Inl err, sd)
          | Inr _ \<Rightarrow>
            case find (\<lambda>x. x_id x = k \<and> x_actor_user_id x = u_id (rp_actor party)) (contexts sd) of
              None \<Rightarrow> (Inl (HTTPException 404 ''Not found''), sd)
            | Some x \<Rightarrow>
                if x_status x \<noteq> CTX_ACTIVE
                then (Inl (context_error ''Support context is no longer active''), sd)
                else if x_expires_at x \<le> clk 1
                then (Inl (context_error ''Support context has expired''), expire_context (clk 2) x sd)
                else (Inr (), sd))"

subsection \<open>Which routes a support context may call\<close>

definition is_id_char :: "char \<Rightarrow> bool" where
  "is_id_char c \<longleftrightarrow> (let n = of_char c :: nat in 48 \<le> n \<and> n \<le> 57 \<or> 97 \<le> n \<and> n \<le> 102 \<or> 65 \<le> n \<and> n \<le> 70 \<or> n = 45)"

text \<open>\<open>^prefix[0-9a-fA-F-]{36}suffix/?$\<close> as a full match.\<close>

definition id_path :: "string \<Rightarrow> string \<Rightarrow> string \<Rightarrow> bool" where
  "id_path prefix suffix path \<longleftrightarrow>
     (let n = length prefix; rest = drop (n + 36) path in
      take n path = prefix \<and> length path \<ge> n + 36 \<and> list_all is_id_char (take 36 (drop n path))
      \<and> (rest = suffix \<or> rest = suffix @ ''/''))"

definition is_market_support_mutation_allowed :: "string \<Rightarrow> string \<Rightarrow> uuid option \<Rightarrow> bool" where
  "is_market_support_mutation_allowed method_name path context_id =
     (if is_known_state_changing_get method_name path then False
      else if context_id = None \<or> py_upper method_name \<in> {''GET'', ''HEAD'', ''OPTIONS''} then True
      else
        let normalized = (if take 5 path = ''/api/'' then path
                          else ''/api/'' @ dropWhile (\<lambda>c. c = CHR ''/'') path) in
        py_upper method_name = ''POST'' \<and>
        (rstrip_slash normalized = ''/api/orderbook''
         \<or> id_path ''/api/orderbook/'' ''/cancel'' normalized
         \<or> id_path ''/api/admin/market-support/contexts/'' ''/exit'' normalized))"

subsection \<open>Properties\<close>

definition capability_live :: "support_db \<Rightarrow> time \<Rightarrow> uuid \<Rightarrow> MarketSupportCapability \<Rightarrow> bool" where
  "capability_live sd now actor c \<longleftrightarrow> (\<exists>x\<in>set (assignments sd). sa_user_id x = actor \<and> sa_capability x = c \<and>
     sa_revoked_at x = None \<and> \<not> capability_expired now x)"

lemma find_mem: "find P xs = Some x \<Longrightarrow> x \<in> set xs \<and> P x"
  by (induction xs) (auto split: if_splits)

lemma require_context_capabilities_live:
  assumes "require_context_capabilities sd now actor = Inr u"
  shows "capability_live sd now actor c"
proof -
  have "find (\<lambda>x. sa_capability x = d) (rev (filter (\<lambda>x. sa_user_id x = actor \<and> sa_revoked_at x = None) (assignments sd))) = Some x
      \<Longrightarrow> x \<in> set (assignments sd) \<and> sa_user_id x = actor \<and> sa_revoked_at x = None \<and> sa_capability x = d" for d x
    by (drule find_mem) simp
  moreover have "\<exists>x. find (\<lambda>x. sa_capability x = c)
      (rev (filter (\<lambda>x. sa_user_id x = actor \<and> sa_revoked_at x = None) (assignments sd))) = Some x \<and> \<not> capability_expired now x"
    using assms by (cases c) (auto simp: require_context_capabilities_def Let_def split: if_splits option.splits)
  ultimately show ?thesis unfolding capability_live_def by blast
qed

lemma support_party_cases:
  assumes "resolve_request_party up en clk h s sd cur = (Inr party, sd')" "rp_mode party = MODE_MARKET_SUPPORT"
  obtains x g where "context_of (x_id x) sd = Some x" "x_actor_user_id x = u_id cur" "x_status x = CTX_ACTIVE"
    "clk 1 < x_expires_at x" "organization_of (x_organization_id x) s = Some g"
    "g_verification_status g = ''APPROVED''" "g_provenance g = REAL"
    "en" "u_role cur = Some ADMIN" "u_status cur = APPROVED" "require_context_capabilities sd (clk 0) (u_id cur) = Inr ()"
    "rp_effective_organization party = Some g" "rp_support_context_id party = Some (x_id x)"
    "rp_creation_method party = MARKET_SUPPORT" "sd' = sd"
proof -
  from assms obtain k where loc: "context_locator up h = Inr (Some k)"
    by (auto simp: resolve_request_party_def split: sum.splits option.splits)
  note r = assms(1) [unfolded resolve_request_party_def loc sum.case option.case]
  from r have adm: "en" "u_role cur = Some ADMIN" "u_status cur = APPROVED" by (simp_all split: if_splits)
  with r obtain v where cap: "require_context_capabilities sd (clk 0) (u_id cur) = Inr v" by (simp split: sum.splits)
  with r adm obtain x where x: "context_of k sd = Some x" by (simp split: option.splits)
  with r adm cap have st: "x_actor_user_id x = u_id cur" "x_status x = CTX_ACTIVE" "clk 1 < x_expires_at x"
    by (simp_all add: not_le split: if_splits)
  with r adm cap x obtain g where g: "organization_of (x_organization_id x) s = Some g"
    by (simp add: not_le split: option.splits if_splits)
  have "x_id x = k" using row_by_SomeD [OF x] by simp
  with r adm cap x st g that [of x g] show thesis by (auto simp: not_le split: if_splits)
qed

text \<open>C23: Market Support authority is never implied by a header. A request is given a support party only when
  support is enabled, the caller is an approved administrator with both live capabilities, and
  the named context was opened by this caller, is active and unexpired, and targets an approved
  REAL organization, which becomes the effective organization; the support tables are unchanged.\<close>

theorem support_party_is_live:
  assumes "resolve_request_party up en clk h s sd cur = (Inr party, sd')" "rp_mode party = MODE_MARKET_SUPPORT"
  shows "en \<and> u_role cur = Some ADMIN \<and> u_status cur = APPROVED \<and> sd' = sd \<and>
    (\<forall>c. capability_live sd (clk 0) (u_id cur) c) \<and>
    (\<exists>x g. rp_support_context_id party = Some (x_id x) \<and> context_of (x_id x) sd = Some x \<and>
       x_actor_user_id x = u_id cur \<and> x_status x = CTX_ACTIVE \<and> clk 1 < x_expires_at x \<and>
       rp_effective_organization party = Some g \<and> organization_of (x_organization_id x) s = Some g \<and>
       g_verification_status g = ''APPROVED'' \<and> g_provenance g = REAL)"
  using support_party_cases [OF assms] require_context_capabilities_live by metis

definition ex_admin :: user where
  "ex_admin = (ex_user 13 ADMIN 41)\<lparr>u_organization_id := None\<rparr>"

definition ex_support :: support_db where
  "ex_support = \<lparr>assignments =
      [\<lparr>sa_id = 51, sa_user_id = 13, sa_capability = MARKET_SUPPORT_LISTINGS, sa_expires_at = None, sa_revoked_at = None,
         sa_reason = ''pilot'', sa_granted_by_user_id = 14, sa_granted_at = 100, sa_revoked_by_user_id = None, sa_revocation_reason = None\<rparr>,
       \<lparr>sa_id = 52, sa_user_id = 13, sa_capability = MARKET_SUPPORT_AUTHORIZATIONS, sa_expires_at = Some 5000,
         sa_revoked_at = None, sa_reason = ''pilot'', sa_granted_by_user_id = 14, sa_granted_at = 100, sa_revoked_by_user_id = None,
         sa_revocation_reason = None\<rparr>],
     contexts = [\<lparr>x_id = 61, x_actor_user_id = 13, x_organization_id = 41, x_accountable_user_id = 13,
       x_support_reference = ''CASE-1'', x_scope = ASSISTED_ORDER_ENTRY, x_started_at = 500, x_expires_at = 3000,
       x_ended_at = None, x_status = CTX_ACTIVE, x_version = 1\<rparr>],
     authorizations = []\<rparr>"

theorem support_party_is_live_witness:
  "\<exists>party. resolve_request_party (\<lambda>_. Some 61) True (\<lambda>_. 1000) (Some ''ctx'') ex_db ex_support ex_admin = (Inr party, ex_support)
     \<and> rp_mode party = MODE_MARKET_SUPPORT \<and> capability_live ex_support 1000 13 MARKET_SUPPORT_LISTINGS"
proof -
  let ?r = "resolve_request_party (\<lambda>_. Some 61) True (\<lambda>_. 1000) (Some ''ctx'') ex_db ex_support ex_admin"
  have "\<exists>party. ?r = (Inr party, ex_support) \<and> rp_mode party = MODE_MARKET_SUPPORT"
    by (simp add: resolve_request_party_def context_locator_def py_strip_def is_space_def ex_admin_def
        require_context_capabilities_def capability_expired_def ex_support_def Let_def)
  then obtain party where r: "?r = (Inr party, ex_support)" "rp_mode party = MODE_MARKET_SUPPORT" by blast
  from support_party_is_live [OF r] r show ?thesis by (auto simp: ex_admin_def)
qed

lemma rstrip_slash_prefix: "\<exists>t. path = rstrip_slash path @ t"
  unfolding rstrip_slash_def by (metis rev_append rev_rev_ident takeWhile_dropWhile_id)

lemma id_path_prefix: "id_path p x path \<Longrightarrow> \<exists>t. path = p @ t"
  unfolding id_path_def Let_def by (metis append_take_drop_id)

text \<open>A support context can never act on trades: whatever the method spelling, a request that carries a
  context and is not a read is refused on every path below \<open>/api/trades\<close>.\<close>

lemma support_context_never_trades:
  assumes "py_upper m \<notin> {''GET'', ''HEAD'', ''OPTIONS''}" "take 11 path = ''/api/trades''"
  shows "\<not> is_market_support_mutation_allowed m path (Some k)"
proof -
  have t5: "take 5 path = ''/api/''" using arg_cong [OF assms(2), of "take 5"] by simp
  have "rstrip_slash path \<noteq> ''/api/orderbook''"
  proof
    assume "rstrip_slash path = ''/api/orderbook''"
    then obtain t where "path = ''/api/orderbook'' @ t" using rstrip_slash_prefix [of path] by metis
    then show False using assms(2) by simp
  qed
  moreover have "\<not> id_path ''/api/orderbook/'' x path" for x
    using assms(2) id_path_prefix [of "''/api/orderbook/''" x path] by auto
  moreover have "\<not> id_path ''/api/admin/market-support/contexts/'' x path" for x
    using assms(2) id_path_prefix [of "''/api/admin/market-support/contexts/''" x path] by auto
  ultimately show ?thesis using assms(1) t5 by (simp add: is_market_support_mutation_allowed_def Let_def)
qed

end
