(* ===== verification/Canonical_Json.thy ===== *)
theory Canonical_Json
  imports Locks
begin

section \<open>Canonical JSON texts\<close>

text \<open>
  What \<open>json.dumps(..., sort_keys=True, separators=(",", ":"))\<close> prints for the values the market
  services hash: request payloads (\<^verbatim>\<open>services/idempotency.py\<close>, \<^verbatim>\<open>services/command_results.py\<close>)
  and reviewed order terms (\<^verbatim>\<open>services/order_terms.py\<close>), with the canonical texts of decimals,
  dates and timestamps. The lemmas show that the text determines the value: leaf texts form a
  prefix code, and an object text determines the values of its keys.
\<close>

datatype json = JNull | JBool bool | JStr string | JArr "json list" | JObj "(string \<times> json) list"

subsection \<open>Printing\<close>

text \<open>String escapes; \<open>ascii\<close> is the flag \<open>ensure_ascii\<close>, under which every character outside the range from blank to tilde is
  escaped, DEL included.\<close>

definition json_escape :: "bool \<Rightarrow> char \<Rightarrow> string" where
  "json_escape ascii c =
     (let n = of_char c :: nat in
      if n = 34 then [CHR 0x5C, CHR 0x22]
      else if n = 92 then [CHR 0x5C, CHR 0x5C]
      else if n = 10 then [CHR 0x5C, CHR ''n'']
      else if n = 13 then [CHR 0x5C, CHR ''r'']
      else if n = 9 then [CHR 0x5C, CHR ''t'']
      else if n = 8 then [CHR 0x5C, CHR ''b'']
      else if n = 12 then [CHR 0x5C, CHR ''f'']
      else if n < 32 \<or> ascii \<and> 127 \<le> n then [CHR 0x5C, CHR ''u''] @ hex_digits 4 n
      else [c])"

definition json_quote :: "bool \<Rightarrow> string \<Rightarrow> string" where
  "json_quote ascii x = CHR 0x22 # concat (map (json_escape ascii) x) @ [CHR 0x22]"

fun join_comma :: "string list \<Rightarrow> string" where
  "join_comma [] = []"
| "join_comma [x] = x"
| "join_comma (x # y # ys) = x @ '','' @ join_comma (y # ys)"

fun json_dumps :: "bool \<Rightarrow> json \<Rightarrow> string" where
  "json_dumps a JNull = ''null''"
| "json_dumps a (JBool b) = (if b then ''true'' else ''false'')"
| "json_dumps a (JStr x) = json_quote a x"
| "json_dumps a (JArr xs) = ''['' @ join_comma (map (json_dumps a) xs) @ '']''"
| "json_dumps a (JObj kvs) = ''{'' @ join_comma
     (map snd (sort_key fst (map (\<lambda>(k, v). (k, json_quote a k @ '':'' @ json_dumps a v)) kvs))) @ ''}''"

text \<open>\<open>format(value.normalize(), "f")\<close> of a value with at most two decimal places.\<close>

definition decimal_text :: "dec \<Rightarrow> string" where
  "decimal_text x =
     (let n = \<lfloor>x * 100\<rfloor>; q = nat \<bar>n\<bar> div 100; f = nat \<bar>n\<bar> mod 100 in
      (if n < 0 then ''-'' else []) @ show_nat q
      @ (if f = 0 then [] else if f mod 10 = 0 then ''.'' @ show_nat (f div 10) else ''.'' @ show_02d f))"

text \<open>The date with a given proleptic ordinal, and ISO texts.\<close>

function year_from :: "int \<Rightarrow> int \<Rightarrow> int" where
  "year_from y n = (if days_before_year (y + 1) < n then year_from (y + 1) n else y)"
  by pat_completeness auto
termination
proof (relation "measure (\<lambda>(y, n). nat (n - days_before_year y))")
  fix y n :: int
  assume "days_before_year (y + 1) < n"
  moreover have "days_before_year y < days_before_year (y + 1)" by (simp add: days_before_year_Suc)
  ultimately show "((y + 1, n), y, n) \<in> measure (\<lambda>(y, n). nat (n - days_before_year y))" by simp
qed simp

declare year_from.simps [simp del]

function month_from :: "int \<Rightarrow> int \<Rightarrow> nat \<Rightarrow> nat" where
  "month_from y r m = (if m < 12 \<and> days_before_month y (Suc m) < r then month_from y r (Suc m) else m)"
  by pat_completeness auto
termination by (relation "measure (\<lambda>(_, _, m). 12 - m)") auto

declare month_from.simps [simp del]

definition ordinal_date :: "int \<Rightarrow> date" where
  "ordinal_date n =
     (let y = year_from 1 n; r = n - days_before_year y; m = month_from y r 1 in
      (y, m, nat (r - days_before_month y m)))"

definition show_04d :: "nat \<Rightarrow> string" where
  "show_04d n = show_02d (n div 100) @ show_02d (n mod 100)"

definition date_isoformat :: "int \<Rightarrow> string" where
  "date_isoformat n = (case ordinal_date n of (y, m, d) \<Rightarrow>
     show_04d (nat y) @ ''-'' @ show_02d m @ ''-'' @ show_02d d)"

definition show_06d :: "nat \<Rightarrow> string" where
  "show_06d n = show_02d (n div 10000) @ show_02d (n div 100 mod 100) @ show_02d (n mod 100)"

text \<open>\<open>isoformat(timespec="microseconds")\<close> in UTC, with \<open>Z\<close> for the offset.\<close>

definition utc_text :: "time \<Rightarrow> string" where
  "utc_text t =
     (let d = t div day_us; us = nat (t mod day_us); sec = us div 1000000 in
      date_isoformat (d + 719163) @ ''T'' @ show_02d (sec div 3600) @ '':'' @ show_02d (sec div 60 mod 60)
      @ '':'' @ show_02d (sec mod 60) @ ''.'' @ show_06d (us mod 1000000) @ ''Z'')"

text \<open>\<open>str(Decimal)\<close> of a non-negative finite decimal.\<close>

definition pydecimal_str :: "pydecimal \<Rightarrow> string" where
  "pydecimal_str x = (case x of
      Finite c e \<Rightarrow>
        let ds = show_nat (nat \<bar>c\<bar>); sg = (if c < 0 then ''-'' else []);
            adj = int (length ds) - 1 + e in
        if e \<le> 0 \<and> - 6 \<le> adj then
          (if e = 0 then sg @ ds
           else let k = nat (- e); pad = replicate (Suc k - length ds) (CHR ''0'') @ ds in
             sg @ take (length pad - k) pad @ ''.'' @ drop (length pad - k) pad)
        else sg @ take 1 ds @ (if length ds = 1 then [] else ''.'' @ drop 1 ds)
             @ ''E'' @ (if adj < 0 then ''-'' else ''+'') @ show_nat (nat \<bar>adj\<bar>)
    | Infinite neg \<Rightarrow> if neg then ''-Infinity'' else ''Infinity''
    | NaN \<Rightarrow> ''NaN'')"

definition opt_json :: "('a \<Rightarrow> json) \<Rightarrow> 'a option \<Rightarrow> json" where
  "opt_json f v = (case v of None \<Rightarrow> JNull | Some x \<Rightarrow> f x)"

subsection \<open>Request hashes\<close>

definition idempotency_payload_hash :: "env \<Rightarrow> json \<Rightarrow> string" where
  "idempotency_payload_hash e payload = sha256_hex e (json_dumps True payload)"

text \<open>\<open>command_request_hash\<close>; the payload is built from canonical leaf texts.\<close>

definition command_request_hash :: "env \<Rightarrow> json \<Rightarrow> string" where
  "command_request_hash e payload = sha256_hex e (json_dumps True payload)"

subsection \<open>Texts determine values\<close>

lemma char_code_inj: "(of_char c :: nat) = of_char d \<Longrightarrow> c = d"
  by (metis char_of_char)

lemma char_code_bound: "(of_char c :: nat) < 16 ^ 4"
  by (rule less_trans [OF nat_of_char_less_256]) simp

lemma hex4_prefix: "hex_digits 4 m @ r = hex_digits 4 n @ s \<Longrightarrow> m < 16 ^ 4 \<Longrightarrow> n < 16 ^ 4 \<Longrightarrow> m = n \<and> r = s"
  using hex_digits_inj [of m 4 n] by (simp add: append_eq_append_conv del: power_numeral)

text \<open>The second character tells the escapes apart.\<close>

lemma json_escape_escaped:
  assumes "json_escape a c \<noteq> [c]"
  shows "json_escape a c = CHR 0x5C # (if c \<in> {CHR 0x22, CHR 0x5C} then [c]
    else if c = CHR 0x0A then ''n'' else if c = CHR 0x0D then ''r'' else if c = CHR 0x09 then ''t''
    else if c = CHR 0x08 then ''b'' else if c = CHR 0x0C then ''f'' else CHR ''u'' # hex_digits 4 (of_char c))"
proof -
  have code: "(of_char c = (34::nat)) = (c = CHR 0x22)" "(of_char c = (92::nat)) = (c = CHR 0x5C)"
    "(of_char c = (10::nat)) = (c = CHR 0x0A)" "(of_char c = (13::nat)) = (c = CHR 0x0D)"
    "(of_char c = (9::nat)) = (c = CHR 0x09)" "(of_char c = (8::nat)) = (c = CHR 0x08)"
    "(of_char c = (12::nat)) = (c = CHR 0x0C)"
    using char_code_inj [of c "CHR 0x22"] char_code_inj [of c "CHR 0x5C"] char_code_inj [of c "CHR 0x0A"]
      char_code_inj [of c "CHR 0x0D"] char_code_inj [of c "CHR 0x09"] char_code_inj [of c "CHR 0x08"]
      char_code_inj [of c "CHR 0x0C"] by auto
  show ?thesis using assms unfolding json_escape_def Let_def code by (simp split: if_splits)
qed

text \<open>An escape starts with a backslash or is the plain character itself.\<close>

lemma json_escape_head:
  obtains (escaped) t where "json_escape a c = CHR 0x5C # t" "json_escape a c \<noteq> [c]"
  | (plain) "json_escape a c = [c]" "c \<noteq> CHR 0x22" "c \<noteq> CHR 0x5C"
proof (cases "json_escape a c = [c]")
  case True
  moreover have "json_escape a (CHR 0x22) \<noteq> [CHR 0x22]" "json_escape a (CHR 0x5C) \<noteq> [CHR 0x5C]"
    by (simp_all add: json_escape_def)
  ultimately show thesis using plain by metis
qed (use json_escape_escaped escaped in blast)

lemma json_escape_not_quote: "json_escape a c @ r \<noteq> CHR 0x22 # s"
  by (rule json_escape_head [of a c]) auto

lemma json_escape_prefix:
  assumes "json_escape a c @ r = json_escape a d @ s" shows "c = d \<and> r = s"
proof (cases "json_escape a c = [c] \<or> json_escape a d = [d]")
  case True
  then show ?thesis using assms
    by (cases a c rule: json_escape_head; cases a d rule: json_escape_head) auto
next
  case False
  have "hex_digits 4 (of_char c) @ r = hex_digits 4 (of_char d) @ s \<Longrightarrow> c = d \<and> r = s"
    using hex4_prefix [OF _ char_code_bound char_code_bound] char_code_inj by blast
  with False assms show ?thesis
    using json_escape_escaped [of a c] json_escape_escaped [of a d]
    by (auto split: if_splits)
qed

lemma json_quote_prefix:
  "json_quote a x @ r = json_quote a y @ s \<Longrightarrow> x = y \<and> r = s"
proof (induction x arbitrary: y)
  case Nil
  then show ?case
    by (cases y) (auto simp: json_quote_def json_escape_not_quote [symmetric])
next
  case (Cons c x)
  show ?case
  proof (cases y)
    case Nil
    then show ?thesis using Cons.prems by (auto simp: json_quote_def json_escape_not_quote)
  next
    case (Cons d ys)
    then have "json_escape a c @ (concat (map (json_escape a) x) @ CHR 0x22 # r) =
        json_escape a d @ (concat (map (json_escape a) ys) @ CHR 0x22 # s)"
      using Cons.prems by (simp add: json_quote_def)
    from json_escape_prefix [OF this] have "c = d" "json_quote a x @ r = json_quote a ys @ s"
      by (simp_all add: json_quote_def)
    then show ?thesis using Cons.IH Cons by blast
  qed
qed

subsection \<open>Leaves, lists of strings and objects\<close>

fun is_leaf :: "json \<Rightarrow> bool" where
  "is_leaf (JArr xs) = list_all (\<lambda>x. case x of JStr _ \<Rightarrow> True | _ \<Rightarrow> False) xs"
| "is_leaf (JObj _) = False"
| "is_leaf _ = True"

lemma join_comma_Cons: "join_comma (x # xs) = x @ (if xs = [] then [] else '','' @ join_comma xs)"
  by (cases xs) simp_all

lemma quotes_prefix:
  "join_comma (map (json_quote a) xs) @ CHR '']'' # r = join_comma (map (json_quote a) ys) @ CHR '']'' # s
     \<Longrightarrow> xs = ys \<and> r = s"
proof (induction xs arbitrary: ys)
  case Nil
  then show ?case by (cases ys) (auto simp: join_comma_Cons json_quote_def)
next
  case (Cons x xs)
  then obtain y ys' where ys: "ys = y # ys'" by (cases ys) (auto simp: join_comma_Cons json_quote_def)
  from Cons.prems have
    "json_quote a x @ ((if xs = [] then [] else '','' @ join_comma (map (json_quote a) xs)) @ CHR '']'' # r) =
     json_quote a y @ ((if ys' = [] then [] else '','' @ join_comma (map (json_quote a) ys')) @ CHR '']'' # s)"
    by (simp add: ys join_comma_Cons)
  from json_quote_prefix [OF this] Cons.IH [of ys'] show ?case
    by (auto simp: ys split: if_splits)
qed

lemma is_leaf_strings: "is_leaf (JArr xs) \<Longrightarrow> \<exists>ys. xs = map JStr ys"
proof (induction xs)
  case (Cons x xs)
  then obtain y ys where "x = JStr y" "xs = map JStr ys" by (cases x) auto
  then have "x # xs = map JStr (y # ys)" by simp
  then show ?case by (rule exI)
qed simp

lemma strings_text: "json_dumps a (JArr (map JStr xs)) = CHR ''['' # join_comma (map (json_quote a) xs) @ '']''"
  by (simp add: comp_def)

lemma quote_text: "json_quote a x = CHR 0x22 # tl (json_quote a x)"
  by (simp add: json_quote_def)

lemma is_leaf_cases:
  assumes "is_leaf v"
  obtains "v = JNull" | b where "v = JBool b" | x where "v = JStr x" | xs where "v = JArr (map JStr xs)"
  using assms is_leaf_strings by (cases v) auto

lemma leaf_head:
  "hd (json_dumps a v @ r) = (case v of JNull \<Rightarrow> CHR ''n'' | JBool b \<Rightarrow> if b then CHR ''t'' else CHR ''f''
     | JStr _ \<Rightarrow> CHR 0x22 | JArr _ \<Rightarrow> CHR ''['' | JObj _ \<Rightarrow> CHR ''{'')"
  by (cases v) (simp_all add: json_quote_def)

lemma leaf_prefix:
  assumes "is_leaf v" "is_leaf w" and eq: "json_dumps a v @ r = json_dumps a w @ s"
  shows "v = w \<and> r = s"
proof -
  note hd = arg_cong [OF eq, of hd, unfolded leaf_head]
  from assms(1) show ?thesis
  proof (cases rule: is_leaf_cases)
    case 1
    with hd have "w = JNull" by (cases w) (auto split: if_splits)
    with 1 eq show ?thesis by simp
  next
    case (2 b)
    with hd have "w = JBool b" by (cases w) (auto split: if_splits)
    with 2 eq show ?thesis by (auto split: if_splits)
  next
    case (3 x)
    with hd obtain y where "w = JStr y" by (cases w) (auto split: if_splits)
    with 3 eq json_quote_prefix [of a x r y s] show ?thesis by simp
  next
    case (4 xs)
    with hd obtain zs where "w = JArr zs" by (cases w) (auto split: if_splits)
    with assms(2) is_leaf_strings obtain ys where w: "w = JArr (map JStr ys)" by metis
    from eq have "join_comma (map (json_quote a) xs) @ CHR '']'' # r = join_comma (map (json_quote a) ys) @ CHR '']'' # s"
      unfolding 4 w strings_text by simp
    from quotes_prefix [OF this] show ?thesis by (simp add: 4 w)
  qed
qed

definition field_text :: "bool \<Rightarrow> string \<times> json \<Rightarrow> string" where
  "field_text a p = json_quote a (fst p) @ '':'' @ json_dumps a (snd p)"

lemma fields_prefix:
  "map fst ps = map fst qs \<Longrightarrow> list_all (is_leaf \<circ> snd) ps \<Longrightarrow> list_all (is_leaf \<circ> snd) qs \<Longrightarrow>
   join_comma (map (field_text a) ps) @ r = join_comma (map (field_text a) qs) @ s \<Longrightarrow> ps = qs"
proof (induction ps arbitrary: qs)
  case (Cons p ps)
  from Cons.prems(1) obtain q qs' where qs: "qs = q # qs'" "map fst ps = map fst qs'" "fst p = fst q"
    by (cases qs) auto
  from Cons.prems(4) have
    "json_dumps a (snd p) @ ((if ps = [] then [] else '','' @ join_comma (map (field_text a) ps)) @ r) =
     json_dumps a (snd q) @ ((if qs' = [] then [] else '','' @ join_comma (map (field_text a) qs')) @ s)"
    by (simp add: qs join_comma_Cons field_text_def [of a p] field_text_def [of a q])
  note step = leaf_prefix [OF _ _ this]
  have "is_leaf (snd p)" "is_leaf (snd q)" using Cons.prems(2,3) qs(1) by simp_all
  from step [OF this] have "snd p = snd q" and
    "(if ps = [] then [] else '','' @ join_comma (map (field_text a) ps)) @ r =
     (if qs' = [] then [] else '','' @ join_comma (map (field_text a) qs')) @ s" by blast+
  moreover have "ps = [] \<longleftrightarrow> qs' = []" using qs(2) by (metis map_is_Nil_conv)
  ultimately have "ps = qs'" using Cons.IH [OF qs(2)] Cons.prems(2,3) qs(1) by (cases "ps = []") simp_all
  with qs \<open>snd p = snd q\<close> show ?case by (simp add: prod_eq_iff)
qed simp

lemma sort_key_map: "sort_key f (map g xs) = map g (sort_key (\<lambda>x. f (g x)) xs)"
proof (induction xs)
  case (Cons x xs)
  have "insort_key f (g x) (map g ys) = map g (insort_key (\<lambda>x. f (g x)) x ys)" for ys
    by (induction ys) auto
  with Cons show ?case by simp
qed simp

lemma map_sort_key: "map f (sort_key f xs) = sort (map f xs)"
proof (induction xs)
  case (Cons x xs)
  have "map f (insort_key f x ys) = insort (f x) (map f ys)" for ys
    by (induction ys) auto
  with Cons show ?case by simp
qed simp

lemma object_text: "json_dumps a (JObj kvs) = ''{'' @ join_comma (map (field_text a) (sort_key fst kvs)) @ ''}''"
proof -
  have "sort_key fst (map (\<lambda>(k, v). (k, json_quote a k @ '':'' @ json_dumps a v)) kvs) =
      map (\<lambda>(k, v). (k, json_quote a k @ '':'' @ json_dumps a v)) (sort_key fst kvs)"
    by (simp add: sort_key_map case_prod_unfold)
  then show ?thesis by (simp add: comp_def case_prod_unfold field_text_def [abs_def])
qed

text \<open>Two objects with the same distinct keys that print alike are the same object.\<close>

lemma object_text_inj:
  assumes "json_dumps a (JObj ps) = json_dumps a (JObj qs)" "map fst ps = map fst qs" "distinct (map fst ps)"
    and "list_all (is_leaf \<circ> snd) ps" "list_all (is_leaf \<circ> snd) qs"
  shows "ps = qs"
proof -
  have "sort_key fst ps = sort_key fst qs"
    using assms(1,2,4,5) by (intro fields_prefix [of _ _ a "''}''" "''}''"])
      (simp_all add: object_text map_sort_key list_all_iff del: json_dumps.simps(5))
  then have "set ps = set qs" by (metis set_sort)
  then have "map_of ps = map_of qs" using assms(2,3) by (metis map_of_eqI map_of_inject_set)
  moreover have "ps = map (\<lambda>k. (k, the (map_of ps k))) (map fst ps)" if "distinct (map fst ps)" for ps :: "(string \<times> json) list"
    using that by (simp add: comp_def) (rule map_idI [symmetric], auto)
  ultimately show ?thesis using assms(2,3) by metis
qed

subsection \<open>Digits, dates and decimals\<close>

definition digits_val :: "string \<Rightarrow> nat" where
  "digits_val ds = foldl (\<lambda>n c. 10 * n + digit_val c) 0 ds"

lemma digits_val_Nil: "digits_val [] = 0" and
  digits_val_snoc: "digits_val (ds @ [c]) = 10 * digits_val ds + digit_val c"
  by (simp_all add: digits_val_def)

lemma foldl_digits: "foldl (\<lambda>n c. 10 * n + digit_val c) k ds = k * 10 ^ length ds + digits_val ds"
  by (induction ds arbitrary: k rule: rev_induct) (simp_all add: digits_val_Nil digits_val_snoc)

lemma digits_val_append: "digits_val (us @ vs) = digits_val us * 10 ^ length vs + digits_val vs"
  using foldl_digits [of "digits_val us" vs] by (simp add: digits_val_def)

lemma digits_val_show [simp]: "digits_val (show_nat n) = n"
proof (induction n rule: show_nat.induct)
  case (1 n)
  then show ?case
    by (cases "n < 10") (simp_all add: show_nat.simps [of n] digits_val_append, simp_all add: digits_val_def)
qed

lemma show_nat_digits: "list_all is_digit (show_nat n)"
  by (induction n rule: show_nat.induct) (subst show_nat.simps, simp)

lemma show_02d_digits: "list_all is_digit (show_02d n)"
  by (simp add: show_02d_def show_nat_digits is_digit_def)

lemma digits_val_02d [simp]: "digits_val (show_02d n) = n"
proof -
  have "digits_val (CHR ''0'' # ds) = digits_val ds" for ds
    by (simp add: digits_val_def digit_val_def)
  then show ?thesis by (simp add: show_02d_def)
qed

lemma length_02d: "n < 100 \<Longrightarrow> length (show_02d n) = 2"
  by (simp add: show_02d_2)

lemma digits_val_04d [simp]: "digits_val (show_04d n) = n"
  by (simp add: show_04d_def digits_val_append length_02d)

lemma digits_val_06d [simp]: "digits_val (show_06d n) = n"
proof -
  define q where "q = n div 100"
  have "n div 10000 = q div 100" by (simp add: q_def flip: div_mult2_eq)
  moreover have "q div 100 * 100 + q mod 100 = q" "q * 100 + n mod 100 = n" by (simp_all add: q_def)
  ultimately have "q div 100 * 10000 + (q mod 100 * 100 + n mod 100) = n" by linarith
  then show ?thesis
    by (simp add: show_06d_def digits_val_append length_02d \<open>n div 10000 = q div 100\<close> q_def [symmetric])
qed

lemma show_04d_digits: "list_all is_digit (show_04d n)" and show_06d_digits: "list_all is_digit (show_06d n)"
  by (simp_all add: show_04d_def show_06d_def show_02d_digits)

text \<open>A run of digits ends at the first other character.\<close>

lemma digits_split:
  assumes "list_all is_digit us" "list_all is_digit vs" "\<not> is_digit c" "us @ c # r = vs @ c # s"
  shows "us = vs \<and> r = s"
proof -
  have "takeWhile is_digit (us @ c # r) = us" "takeWhile is_digit (vs @ c # s) = vs"
    using assms(1-3) by (auto simp: list_all_iff)
  with assms(4) have "us = vs" by simp
  with assms(4) show ?thesis by simp
qed

lemma not_digits: "\<not> is_digit CHR ''-''" "\<not> is_digit CHR ''.''" "\<not> is_digit CHR '':''" "\<not> is_digit CHR ''T''"
  "\<not> is_digit CHR ''Z''"
  by (simp_all add: is_digit_def)

lemma year_from_ge: "y \<le> year_from y n"
  by (induction y n rule: year_from.induct) (subst year_from.simps, auto)

lemma year_from_less: "days_before_year y < n \<Longrightarrow> days_before_year (year_from y n) < n"
  by (induction y n rule: year_from.induct) (subst year_from.simps, auto)

lemma month_from_less: "days_before_month y m < r \<Longrightarrow> days_before_month y (month_from y r m) < r"
  by (induction y r m rule: month_from.induct) (subst month_from.simps, auto)

lemma ordinal_date_inverse:
  assumes "1 \<le> n" shows "date_ordinal (ordinal_date n) = n" "0 \<le> fst (ordinal_date n)"
proof -
  define y where "y = year_from 1 n"
  define m where "m = month_from y (n - days_before_year y) 1"
  have "days_before_year y < n"
    unfolding y_def using assms by (intro year_from_less) (simp add: days_before_year_def)
  then have "days_before_month y m < n - days_before_year y"
    unfolding m_def by (intro month_from_less) simp
  then show "date_ordinal (ordinal_date n) = n"
    by (simp add: ordinal_date_def date_ordinal_def Let_def y_def [symmetric] m_def [unfolded One_nat_def, symmetric])
  show "0 \<le> fst (ordinal_date n)"
    using year_from_ge [of 1 n] by (simp add: ordinal_date_def Let_def)
qed

lemma date_isoformat_prefix:
  assumes "1 \<le> m" "1 \<le> n" "\<not> is_digit c" "date_isoformat m @ c # r = date_isoformat n @ c # s"
  shows "m = n \<and> r = s"
proof -
  obtain y1 m1 d1 y2 m2 d2 where o: "ordinal_date m = (y1, m1, d1)" "ordinal_date n = (y2, m2, d2)"
    by (metis prod_cases3)
  have eq: "show_04d (nat y1) @ CHR ''-'' # (show_02d m1 @ CHR ''-'' # (show_02d d1 @ c # r)) =
      show_04d (nat y2) @ CHR ''-'' # (show_02d m2 @ CHR ''-'' # (show_02d d2 @ c # s))"
    using assms(4) by (simp add: date_isoformat_def o)
  from digits_split [OF show_04d_digits show_04d_digits not_digits(1) eq]
  have y: "show_04d (nat y1) = show_04d (nat y2)"
    and eq: "show_02d m1 @ CHR ''-'' # (show_02d d1 @ c # r) = show_02d m2 @ CHR ''-'' # (show_02d d2 @ c # s)" by auto
  from digits_split [OF show_02d_digits show_02d_digits not_digits(1) eq]
  have m: "show_02d m1 = show_02d m2" and eq: "show_02d d1 @ c # r = show_02d d2 @ c # s" by auto
  from digits_split [OF show_02d_digits show_02d_digits assms(3) eq]
  have d: "show_02d d1 = show_02d d2" "r = s" by auto
  have "nat y1 = nat y2" "m1 = m2" "d1 = d2"
    using arg_cong [OF y, of digits_val] arg_cong [OF m, of digits_val] arg_cong [OF d(1), of digits_val] by simp_all
  moreover have "0 \<le> y1" "0 \<le> y2" using ordinal_date_inverse(2) assms(1,2) o by (metis fst_conv)+
  ultimately have "ordinal_date m = ordinal_date n" by (simp add: o)
  then have "m = n" using ordinal_date_inverse(1) assms(1,2) by metis
  with d show ?thesis by simp
qed

lemma date_isoformat_inj: "1 \<le> m \<Longrightarrow> 1 \<le> n \<Longrightarrow> date_isoformat m = date_isoformat n \<Longrightarrow> m = n"
  using date_isoformat_prefix [of m n "CHR ''T''" "[]" "[]"] not_digits by simp

lemma clock_parts: "(sec div 3600) * 3600 + (sec div 60 mod 60) * 60 + sec mod 60 = (sec :: nat)"
proof -
  define q where "q = sec div 60"
  have "sec div 3600 = q div 60" by (simp add: q_def flip: div_mult2_eq)
  moreover have "q div 60 * 60 + q mod 60 = q" "q * 60 + sec mod 60 = sec" by (simp_all add: q_def)
  ultimately have "sec div 3600 * 3600 + q mod 60 * 60 + sec mod 60 = sec" by linarith
  then show ?thesis by (simp add: q_def)
qed

lemma utc_text_inj:
  assumes "midnight 1 \<le> t" "midnight 1 \<le> u" "utc_text t = utc_text u"
  shows "t = u"
proof -
  define d1 us1 d2 us2 where "d1 = t div day_us + 719163" and "us1 = nat (t mod day_us)"
    and "d2 = u div day_us + 719163" and "us2 = nat (u mod day_us)"
  have pos: "1 \<le> d1" "1 \<le> d2"
    using assms(1,2) zdiv_mono1 [of "midnight 1" t day_us] zdiv_mono1 [of "midnight 1" u day_us]
    by (simp_all add: d1_def d2_def midnight_def day_us_def)
  define clock where "clock us = show_02d (us div 1000000 div 3600) @ CHR '':'' #
      (show_02d (us div 1000000 div 60 mod 60) @ CHR '':'' # (show_02d (us div 1000000 mod 60) @ CHR ''.'' #
      (show_06d (us mod 1000000) @ CHR ''Z'' # [])))" for us
  have "date_isoformat d1 @ CHR ''T'' # clock us1 = date_isoformat d2 @ CHR ''T'' # clock us2"
    using assms(3) by (simp add: utc_text_def Let_def d1_def d2_def us1_def us2_def clock_def)
  from date_isoformat_prefix [OF pos not_digits(4) this] have d: "d1 = d2" and eq: "clock us1 = clock us2" by auto
  from digits_split [OF show_02d_digits show_02d_digits not_digits(3) eq [unfolded clock_def]]
  have h: "us1 div 1000000 div 3600 = us2 div 1000000 div 3600" and
    eq: "show_02d (us1 div 1000000 div 60 mod 60) @ CHR '':'' # (show_02d (us1 div 1000000 mod 60) @ CHR ''.'' #
        (show_06d (us1 mod 1000000) @ CHR ''Z'' # [])) =
      show_02d (us2 div 1000000 div 60 mod 60) @ CHR '':'' # (show_02d (us2 div 1000000 mod 60) @ CHR ''.'' #
        (show_06d (us2 mod 1000000) @ CHR ''Z'' # []))"
    by (auto dest: arg_cong [of _ _ digits_val])
  from digits_split [OF show_02d_digits show_02d_digits not_digits(3) eq]
  have m: "us1 div 1000000 div 60 mod 60 = us2 div 1000000 div 60 mod 60" and
    eq: "show_02d (us1 div 1000000 mod 60) @ CHR ''.'' # (show_06d (us1 mod 1000000) @ CHR ''Z'' # []) =
      show_02d (us2 div 1000000 mod 60) @ CHR ''.'' # (show_06d (us2 mod 1000000) @ CHR ''Z'' # [])"
    by (auto dest: arg_cong [of _ _ digits_val])
  from digits_split [OF show_02d_digits show_02d_digits not_digits(2) eq]
  have s: "us1 div 1000000 mod 60 = us2 div 1000000 mod 60" "us1 mod 1000000 = us2 mod 1000000"
    by (auto dest: arg_cong [of _ _ digits_val])
  have "us1 div 1000000 = us2 div 1000000"
    using clock_parts [of "us1 div 1000000"] clock_parts [of "us2 div 1000000"] unfolding h m s(1) by (rule trans [OF sym])
  with s(2) have "us1 = us2" by (metis div_mult_mod_eq)
  moreover have "0 \<le> t mod day_us" "0 \<le> u mod day_us" by (simp_all add: day_us_def)
  ultimately have "t mod day_us = u mod day_us" by (simp add: us1_def us2_def eq_nat_nat_iff)
  moreover have "t div day_us = u div day_us" using d by (simp add: d1_def d2_def)
  ultimately show ?thesis by (metis div_mult_mod_eq)
qed

definition cents_tail :: "nat \<Rightarrow> string" where
  "cents_tail f = (if f = 0 then [] else if f mod 10 = 0 then ''.'' @ show_nat (f div 10) else ''.'' @ show_02d f)"

lemma cents_tail_inj:
  assumes "f < 100" "g < 100" "cents_tail f = cents_tail g" shows "f = g"
proof -
  have len: "length (cents_tail k) = (if k = 0 then 0 else if k mod 10 = 0 then 2 else 3)" if "k < 100" for k
    using that show_nat_1 [of "k div 10"] length_02d [of k] by (simp add: cents_tail_def)
  have val: "digits_val (tl (cents_tail k)) = (if k = 0 then 0 else if k mod 10 = 0 then k div 10 else k)" for k
    by (simp add: cents_tail_def digits_val_Nil)
  have "k = k div 10 * 10" if "k mod 10 = 0" for k :: nat using that by presburger
  then show ?thesis
    using arg_cong [OF assms(3), of length] arg_cong [OF assms(3), of "\<lambda>t. digits_val (tl t)"]
    unfolding val len [OF assms(1)] len [OF assms(2)]
    by (cases "f = 0"; cases "g = 0"; cases "f mod 10 = 0"; cases "g mod 10 = 0") auto
qed

lemma decimal_text_inj:
  assumes "scale2 x" "scale2 y" "decimal_text x = decimal_text y" shows "x = y"
proof -
  define m n where "m = \<lfloor>x * 100\<rfloor>" and "n = \<lfloor>y * 100\<rfloor>"
  have split: "decimal_text z = (if \<lfloor>z * 100\<rfloor> < 0 then ''-'' else []) @ show_nat (nat \<bar>\<lfloor>z * 100\<rfloor>\<bar> div 100)
      @ cents_tail (nat \<bar>\<lfloor>z * 100\<rfloor>\<bar> mod 100)" for z
    by (simp add: decimal_text_def cents_tail_def Let_def)
  have hd: "hd (show_nat k) \<noteq> CHR ''-''" "show_nat k \<noteq> []" for k
  proof -
    show ne: "show_nat k \<noteq> []" by (subst show_nat.simps) simp
    show "hd (show_nat k) \<noteq> CHR ''-''"
      using show_nat_digits [of k] not_digits(1) ne by (cases "show_nat k") auto
  qed
  have stop: "takeWhile is_digit (show_nat k @ cents_tail f) = show_nat k" for k f
    using show_nat_digits [of k] not_digits(2) by (auto simp: list_all_iff cents_tail_def)
  have sgn: "(m < 0) = (n < 0)" and eq: "show_nat (nat \<bar>m\<bar> div 100) @ cents_tail (nat \<bar>m\<bar> mod 100) =
      show_nat (nat \<bar>n\<bar> div 100) @ cents_tail (nat \<bar>n\<bar> mod 100)"
    using assms(3) hd [of "nat \<bar>m\<bar> div 100"] hd [of "nat \<bar>n\<bar> div 100"]
    unfolding split m_def [symmetric] n_def [symmetric]
    by (cases "show_nat (nat \<bar>m\<bar> div 100)"; cases "show_nat (nat \<bar>n\<bar> div 100)"; auto split: if_splits)+
  from arg_cong [OF eq, of "takeWhile is_digit", unfolded stop] have q: "show_nat (nat \<bar>m\<bar> div 100) = show_nat (nat \<bar>n\<bar> div 100)" .
  with eq have "cents_tail (nat \<bar>m\<bar> mod 100) = cents_tail (nat \<bar>n\<bar> mod 100)" by simp
  then have "nat \<bar>m\<bar> mod 100 = nat \<bar>n\<bar> mod 100" by (intro cents_tail_inj) simp_all
  moreover have "nat \<bar>m\<bar> div 100 = nat \<bar>n\<bar> div 100" using arg_cong [OF q, of digits_val] by simp
  ultimately have "nat \<bar>m\<bar> = nat \<bar>n\<bar>" by (metis div_mult_mod_eq)
  with sgn have "m = n" by linarith
  moreover have "x * 100 = of_int m" using assms(1) unfolding scale2_def m_def by (rule sym)
  moreover have "y * 100 = of_int n" using assms(2) unfolding scale2_def n_def by (rule sym)
  ultimately show ?thesis by simp
qed

end
