(* ===== verification/Order_Terms.thy ===== *)
theory Order_Terms
  imports Canonical_Json Policy
begin

section \<open>Reviewed order terms\<close>

text \<open>
  \<^verbatim>\<open>src/app/services/order_terms.py\<close>: the payload a direct hit must have reviewed, and its
  digest. The property is that the digest binds every field of the order but its queue
  position, version, status, idempotency columns and creation time, as long as the hash does not
  collide on the two texts.
\<close>

definition side_value :: "OrderSide \<Rightarrow> string" where
  "side_value sd = (case sd of BID \<Rightarrow> ''BID'' | ASK \<Rightarrow> ''ASK'')"

definition creation_method_value :: "OrderCreationMethod \<Rightarrow> string" where
  "creation_method_value c = (case c of SELF_SERVICE \<Rightarrow> ''SELF_SERVICE'' | MARKET_SUPPORT \<Rightarrow> ''MARKET_SUPPORT''
     | SYSTEM \<Rightarrow> ''SYSTEM'' | LEGACY_UNKNOWN \<Rightarrow> ''LEGACY_UNKNOWN'')"

definition uuid_json :: "uuid option \<Rightarrow> json" where
  "uuid_json = opt_json (\<lambda>u. JStr (uuid_str u))"

definition decimal_json :: "dec option \<Rightarrow> json" where
  "decimal_json = opt_json (\<lambda>x. JStr (decimal_text x))"

definition text_json :: "string option \<Rightarrow> json" where
  "text_json = opt_json JStr"

text \<open>The mapped order class has no attribute \<open>fame_terms\<close>, so \<open>getattr\<close> gives \<open>None\<close>.\<close>

definition executable_order_terms :: "order \<Rightarrow> (string \<times> json) list" where
  "executable_order_terms ord = (let md = o_metadata ord in
    [(''order_id'', JStr (uuid_str (o_id ord))),
     (''side'', JStr (side_value (o_side ord))),
     (''organization_id'', JStr (uuid_str (o_organization_id ord))),
     (''owner_user_id'', uuid_json (o_owner_user_id ord)),
     (''created_by_actor_user_id'', uuid_json (o_created_by_actor_user_id ord)),
     (''creation_method'', JStr (creation_method_value (o_creation_method ord))),
     (''support_authorization_id'', uuid_json (o_support_authorization_id ord)),
     (''provenance'', JStr (provenance_value (o_provenance ord))),
     (''product_id'', JStr (uuid_str (o_product_id ord))),
     (''delivery_point_id'', uuid_json (o_delivery_point_id ord)),
     (''port_id'', text_json (o_port_id ord)),
     (''vessel_id'', uuid_json (o_vessel_id ord)),
     (''inventory_item_id'', uuid_json (o_inventory_item_id ord)),
     (''quantity_mt'', JStr (decimal_text (o_quantity_mt ord))),
     (''remaining_quantity_mt'', JStr (decimal_text (o_remaining_quantity_mt ord))),
     (''price_per_mt_usd'', JStr (decimal_text (o_price_per_mt_usd ord))),
     (''availability_window'', JStr (o_availability_window ord)),
     (''delivery_window_start'', opt_json (\<lambda>d. JStr (date_isoformat d)) (o_delivery_window_start ord)),
     (''delivery_window_end'', opt_json (\<lambda>d. JStr (date_isoformat d)) (o_delivery_window_end ord)),
     (''expires_at'', opt_json (\<lambda>t. JStr (utc_text t)) (o_expires_at ord)),
     (''certifications'', JArr (map JStr (o_certifications ord))),
     (''certification_declared'', JBool (certification_declared md)),
     (''certification_scheme'', text_json (certification_scheme md)),
     (''specification_standard'', text_json (specification_standard md)),
     (''msds_available'', JBool (msds_available md)),
     (''carbon_intensity_gco2_mj'', decimal_json (carbon_intensity_gco2_mj md)),
     (''carbon_intensity_method'', text_json (carbon_intensity_method md)),
     (''energy_density_mj_kg'', decimal_json (energy_density_mj_kg md)),
     (''feedstock'', text_json (feedstock md)),
     (''origin'', text_json (origin md)),
     (''off_spec'', JBool (off_spec md)),
     (''off_spec_notes'', text_json (off_spec_notes md)),
     (''is_verdaxis_verified'', JBool (o_is_verdaxis_verified ord)),
     (''fame_terms'', JNull)])"

definition order_terms_text :: "order \<Rightarrow> string" where
  "order_terms_text ord = json_dumps False (JObj (executable_order_terms ord))"

definition order_terms_digest :: "env \<Rightarrow> order \<Rightarrow> string" where
  "order_terms_digest e ord = sha256_hex e (order_terms_text ord)"

subsection \<open>The terms determine the order\<close>

text \<open>What the stored columns guarantee: 128-bit identifiers, two decimal places, dates from year 1 on.\<close>

definition opt_all :: "('a \<Rightarrow> bool) \<Rightarrow> 'a option \<Rightarrow> bool" where
  "opt_all P v = (case v of None \<Rightarrow> True | Some x \<Rightarrow> P x)"

definition uuid_range :: "uuid \<Rightarrow> bool" where
  "uuid_range u \<longleftrightarrow> u < 2 ^ 128"

definition terms_wf :: "order \<Rightarrow> bool" where
  "terms_wf ord \<longleftrightarrow>
     uuid_range (o_id ord) \<and> uuid_range (o_organization_id ord) \<and> opt_all uuid_range (o_owner_user_id ord)
     \<and> opt_all uuid_range (o_created_by_actor_user_id ord) \<and> opt_all uuid_range (o_support_authorization_id ord)
     \<and> uuid_range (o_product_id ord) \<and> opt_all uuid_range (o_delivery_point_id ord)
     \<and> opt_all uuid_range (o_vessel_id ord) \<and> opt_all uuid_range (o_inventory_item_id ord)
     \<and> scale2 (o_quantity_mt ord) \<and> scale2 (o_remaining_quantity_mt ord) \<and> scale2 (o_price_per_mt_usd ord)
     \<and> opt_all (\<lambda>d. 1 \<le> d) (o_delivery_window_start ord) \<and> opt_all (\<lambda>d. 1 \<le> d) (o_delivery_window_end ord)
     \<and> opt_all (\<lambda>t. midnight 1 \<le> t) (o_expires_at ord)
     \<and> opt_all scale2 (carbon_intensity_gco2_mj (o_metadata ord))
     \<and> opt_all scale2 (energy_density_mj_kg (o_metadata ord))"

lemma opt_json_inj:
  assumes "opt_json (\<lambda>x. JStr (f x)) v = opt_json (\<lambda>x. JStr (f x)) w" "opt_all P v" "opt_all P w"
    and "\<And>x y. P x \<Longrightarrow> P y \<Longrightarrow> f x = f y \<Longrightarrow> x = y"
  shows "v = w"
  using assms by (auto simp: opt_json_def opt_all_def split: option.splits)

lemma uuid_range_inj: "uuid_range m \<Longrightarrow> uuid_range n \<Longrightarrow> uuid_str m = uuid_str n \<Longrightarrow> m = n"
  unfolding uuid_range_def by (rule uuid_str_inj)

lemma uuid_json_inj: "uuid_json v = uuid_json w \<Longrightarrow> opt_all uuid_range v \<Longrightarrow> opt_all uuid_range w \<Longrightarrow> v = w"
  unfolding uuid_json_def by (rule opt_json_inj [where P = uuid_range]) (auto intro: uuid_range_inj)

lemma decimal_json_inj: "decimal_json v = decimal_json w \<Longrightarrow> opt_all scale2 v \<Longrightarrow> opt_all scale2 w \<Longrightarrow> v = w"
  unfolding decimal_json_def by (rule opt_json_inj [where P = scale2]) (auto intro: decimal_text_inj)

lemma text_json_inj: "text_json v = text_json w \<Longrightarrow> v = w"
  by (auto simp: text_json_def opt_json_def split: option.splits)

lemma side_value_inj: "side_value a = side_value b \<Longrightarrow> a = b"
  by (cases a; cases b; simp add: side_value_def)

lemma creation_method_value_inj: "creation_method_value a = creation_method_value b \<Longrightarrow> a = b"
  by (cases a; cases b; simp add: creation_method_value_def)

lemma provenance_value_inj: "provenance_value a = provenance_value b \<Longrightarrow> a = b"
  by (cases a; cases b; simp add: provenance_value_def)

lemma strings_json_inj: "map JStr xs = map JStr ys \<Longrightarrow> xs = ys"
  by (metis inj_onI json.inject(2) list.inj_map_strong)

lemma opt_json_leaf: "is_leaf (opt_json (\<lambda>x. JStr (f x)) v)"
  by (simp add: opt_json_def split: option.split)

lemma terms_leaves: "list_all (is_leaf \<circ> snd) (executable_order_terms ord)"
  by (simp add: executable_order_terms_def Let_def uuid_json_def decimal_json_def text_json_def
      opt_json_leaf opt_json_leaf [where f = id, simplified] list_all_iff)

lemma terms_keys: "map fst (executable_order_terms a) = map fst (executable_order_terms b)"
  by (simp add: executable_order_terms_def Let_def)

lemma terms_keys_distinct: "distinct (map fst (executable_order_terms ord))"
  by (simp add: executable_order_terms_def Let_def)

lemma order_terms_text_inj:
  "order_terms_text a = order_terms_text b \<Longrightarrow> executable_order_terms a = executable_order_terms b"
  unfolding order_terms_text_def
  by (rule object_text_inj [OF _ terms_keys terms_keys_distinct terms_leaves terms_leaves])

text \<open>The five columns that a review does not bind, taken from another order.\<close>

definition lifecycle_of :: "order \<Rightarrow> order \<Rightarrow> order" where
  "lifecycle_of b a = a\<lparr>o_acceptance_ordinal := o_acceptance_ordinal b, o_version := o_version b,
     o_status := o_status b, o_idempotency := o_idempotency b, o_created_at := o_created_at b\<rparr>"

lemma lifecycle_of_terms:
  "o_price_per_mt_usd (lifecycle_of b a) = o_price_per_mt_usd a"
  "o_remaining_quantity_mt (lifecycle_of b a) = o_remaining_quantity_mt a"
  "o_expires_at (lifecycle_of b a) = o_expires_at a"
  by (simp_all add: lifecycle_of_def)

lemma executable_terms_bind:
  assumes wf: "terms_wf a" "terms_wf b" and eq: "executable_order_terms a = executable_order_terms b"
  shows "b = lifecycle_of b a"
proof -
  note f = eq [unfolded executable_order_terms_def Let_def list.inject prod.inject json.inject]
  have ids: "o_id a = o_id b" "o_organization_id a = o_organization_id b" "o_product_id a = o_product_id b"
    using f wf by (auto simp: terms_wf_def intro: uuid_range_inj)
  have oids: "o_owner_user_id a = o_owner_user_id b" "o_created_by_actor_user_id a = o_created_by_actor_user_id b"
    "o_support_authorization_id a = o_support_authorization_id b" "o_delivery_point_id a = o_delivery_point_id b"
    "o_vessel_id a = o_vessel_id b" "o_inventory_item_id a = o_inventory_item_id b"
    using f wf by (auto simp: terms_wf_def intro: uuid_json_inj)
  have enums: "o_side a = o_side b" "o_creation_method a = o_creation_method b" "o_provenance a = o_provenance b"
    using f by (auto intro: side_value_inj creation_method_value_inj provenance_value_inj)
  have money: "o_quantity_mt a = o_quantity_mt b" "o_remaining_quantity_mt a = o_remaining_quantity_mt b"
    "o_price_per_mt_usd a = o_price_per_mt_usd b"
    using f wf by (auto simp: terms_wf_def intro: decimal_text_inj)
  have dates: "o_delivery_window_start a = o_delivery_window_start b"
    "o_delivery_window_end a = o_delivery_window_end b" "o_expires_at a = o_expires_at b"
    using f wf by (auto simp: terms_wf_def intro: opt_json_inj [OF _ _ _ date_isoformat_inj]
        opt_json_inj [OF _ _ _ utc_text_inj])
  have texts: "o_port_id a = o_port_id b" "o_availability_window a = o_availability_window b"
    "o_certifications a = o_certifications b" "o_is_verdaxis_verified a = o_is_verdaxis_verified b"
    using f by (auto intro: text_json_inj strings_json_inj)
  have "o_metadata a = o_metadata b"
    using f wf by (intro supplier_metadata.equality) (auto simp: terms_wf_def intro: text_json_inj decimal_json_inj)
  with ids oids enums money dates texts show ?thesis
    by (intro order.equality) (simp_all add: lifecycle_of_def)
qed

text \<open>C19: a reviewed digest binds the order. If two stored orders have the same terms digest and the hash
  does not collide on their canonical texts, they agree on every column except the queue
  position, the version, the status, the idempotency columns and the creation time; in
  particular on identity, side, price, total and remaining quantity, window, expiry and supplier
  metadata.\<close>

theorem terms_digest_binds:
  assumes "terms_wf a" "terms_wf b" "order_terms_digest e a = order_terms_digest e b"
    and "sha256_hex e (order_terms_text a) = sha256_hex e (order_terms_text b) \<Longrightarrow>
      order_terms_text a = order_terms_text b"
  shows "b = lifecycle_of b a \<and> o_price_per_mt_usd a = o_price_per_mt_usd b \<and>
    o_remaining_quantity_mt a = o_remaining_quantity_mt b \<and> o_expires_at a = o_expires_at b"
proof -
  have "order_terms_text a = order_terms_text b" using assms(3,4) by (simp add: order_terms_digest_def)
  from executable_terms_bind [OF assms(1,2) order_terms_text_inj [OF this]]
  have b: "b = lifecycle_of b a" .
  have "o_price_per_mt_usd b = o_price_per_mt_usd (lifecycle_of b a)"
    "o_remaining_quantity_mt b = o_remaining_quantity_mt (lifecycle_of b a)"
    "o_expires_at b = o_expires_at (lifecycle_of b a)" by (rule arg_cong [OF b])+
  then show ?thesis using b unfolding lifecycle_of_terms by (intro conjI) (rule b, simp_all)
qed

lemma ex_ask_terms_wf: "terms_wf ex_ask"
  by (simp add: terms_wf_def opt_all_def uuid_range_def scale2_def midnight_def day_us_def
      ex_metadata_def ex_product_def ex_point_def)

lemma executable_terms_version: "executable_order_terms (x\<lparr>o_version := v\<rparr>) = executable_order_terms x"
  by (simp add: executable_order_terms_def)

theorem terms_digest_binds_witness:
  "terms_wf ex_ask \<and> terms_wf (ex_ask\<lparr>o_version := 7\<rparr>) \<and>
   order_terms_digest ex_env ex_ask = order_terms_digest ex_env (ex_ask\<lparr>o_version := 7\<rparr>) \<and>
   o_price_per_mt_usd ex_ask = o_price_per_mt_usd (ex_ask\<lparr>o_version := 7\<rparr>)"
proof -
  have wf: "terms_wf (ex_ask\<lparr>o_version := 7\<rparr>)" using ex_ask_terms_wf by (simp add: terms_wf_def)
  have "order_terms_text ex_ask = order_terms_text (ex_ask\<lparr>o_version := 7\<rparr>)"
    unfolding order_terms_text_def by (simp only: executable_terms_version)
  then have "order_terms_digest ex_env ex_ask = order_terms_digest ex_env (ex_ask\<lparr>o_version := 7\<rparr>)"
    by (simp add: order_terms_digest_def)
  with ex_ask_terms_wf wf terms_digest_binds [OF ex_ask_terms_wf wf this] \<open>order_terms_text ex_ask = _\<close>
  show ?thesis by blast
qed

end
