(* ===== verification/Trade_Views.thy ===== *)
theory Trade_Views
  imports Market_Evidence Request_Party Order_Terms Market_Ledger
begin

section \<open>What a trade looks like to its viewer\<close>

text \<open>
  The read side of \<^verbatim>\<open>src/app/routers/trades.py\<close>: the viewer-dependent response
  (\<open>build_trade_response\<close>), the filters of the dashboard and its counters, and the paginated
  list. The properties: an anonymous trade does not reveal the counterparty before the
  confirmation hand-off, the seller's fee is shown to the seller and to administrators only, and
  the counters are the sizes of the lists the filters select.
\<close>

subsection \<open>Responses\<close>

record TradeResponse =
  tr_id :: uuid
  tr_bid_order_id :: "uuid option"
  tr_ask_order_id :: "uuid option"
  tr_buyer_id :: "uuid option"
  tr_seller_id :: "uuid option"
  tr_buyer_name :: string
  tr_seller_name :: string
  tr_initiated_by :: Initiator
  tr_is_anonymous :: bool
  tr_quantity_mt :: dec
  tr_price_per_mt_usd :: dec
  tr_status :: TradeStatus
  tr_final_quantity_mt :: "dec option"
  tr_final_price_per_mt :: "dec option"
  tr_final_total_usd :: "dec option"
  tr_commission_rate_pct :: dec
  tr_commission_fee_per_mt_usd :: "dec option"
  tr_commission_plan :: "string option"
  tr_commission_payer :: "string option"
  tr_commission_amount_usd :: "dec option"
  tr_confirmed_at :: "time option"
  tr_delivered_at :: "time option"
  tr_paid_at :: "time option"
  tr_created_at :: time
  tr_product_id :: "uuid option"
  tr_product_name :: string
  tr_market_product :: "string option"
  tr_fuel_type :: string
  tr_fuel_grade :: string
  tr_delivery_point_id :: "uuid option"
  tr_delivery_point_name :: "string option"
  tr_region :: string
  tr_availability_window :: "string option"
  tr_labels :: market_labels

definition ANONYMOUS_TRADE_HANDOFF_STATUSES :: "TradeStatus list" where
  "ANONYMOUS_TRADE_HANDOFF_STATUSES = [CONFIRMED, DELIVERED, PAID]"

text \<open>The party identities shown to a viewer: the buyer's and the seller's id and name.\<close>

definition shown_parties ::
  "trade \<Rightarrow> string \<Rightarrow> string \<Rightarrow> uuid option \<Rightarrow> (uuid option \<times> string) \<times> (uuid option \<times> string)" where
  "shown_parties t buyer_name seller_name viewer_org =
     (let viewer_is_buyer = (viewer_org = Some (t_buyer_id t));
          viewer_is_seller = (viewer_org = Some (t_seller_id t));
          buyer = (Some (t_buyer_id t), buyer_name); seller = (Some (t_seller_id t), seller_name);
          hidden = (None, ''Anonymous'') in
      if \<not> t_is_anonymous t then (buyer, seller)
      else if \<not> (viewer_is_buyer \<or> viewer_is_seller) then (hidden, hidden)
      else if t_status t \<notin> set ANONYMOUS_TRADE_HANDOFF_STATUSES then
        (if viewer_is_buyer then (buyer, hidden) else (hidden, seller))
      else (buyer, seller))"

text \<open>The names come from the eagerly loaded organizations of \<open>s\<close>.\<close>

definition build_trade_response :: "market_db \<Rightarrow> trade \<Rightarrow> uuid option \<Rightarrow> bool \<Rightarrow> TradeResponse" where
  "build_trade_response s t viewer_org viewer_is_admin =
     (let name_of = (\<lambda>k. case organization_of k s of None \<Rightarrow> '''' | Some g \<Rightarrow> g_name g);
          parties = shown_parties t (name_of (t_buyer_id t)) (name_of (t_seller_id t)) viewer_org;
          has_fee = (t_commission_fee_per_mt_usd t \<noteq> None);
          can_view = (viewer_is_admin \<or> viewer_org = Some (t_seller_id t));
          m = t_snapshot t in
      \<lparr>tr_id = t_id t, tr_bid_order_id = t_bid_order_id t, tr_ask_order_id = t_ask_order_id t,
       tr_buyer_id = fst (fst parties), tr_seller_id = fst (snd parties),
       tr_buyer_name = snd (fst parties), tr_seller_name = snd (snd parties),
       tr_initiated_by = t_initiated_by t, tr_is_anonymous = t_is_anonymous t,
       tr_quantity_mt = t_quantity_mt t, tr_price_per_mt_usd = t_price_per_mt_usd t, tr_status = t_status t,
       tr_final_quantity_mt = t_final_quantity_mt t, tr_final_price_per_mt = t_final_price_per_mt t,
       tr_final_total_usd = t_final_total_usd t, tr_commission_rate_pct = t_commission_rate_pct t,
       tr_commission_fee_per_mt_usd = (if can_view then t_commission_fee_per_mt_usd t else None),
       tr_commission_plan = (if can_view then t_commission_plan t else None),
       tr_commission_payer = (if has_fee then Some ''SELLER'' else None),
       tr_commission_amount_usd = (if can_view \<or> \<not> has_fee then t_commission_amount_usd t else None),
       tr_confirmed_at = t_confirmed_at t, tr_delivered_at = t_delivered_at t, tr_paid_at = t_paid_at t,
       tr_created_at = t_created_at t,
       tr_product_id = product_id m, tr_product_name = or_empty (product_name m),
       tr_market_product = market_product m, tr_fuel_type = or_empty (fuel_type m),
       tr_fuel_grade = or_empty (fuel_grade m), tr_delivery_point_id = delivery_point_id m,
       tr_delivery_point_name = delivery_point_name m, tr_region = or_empty (delivery_point_region m),
       tr_availability_window = availability_window m, tr_labels = trade_market_provenance t\<rparr>)"

subsection \<open>Filters\<close>

text \<open>The initiator column is not nullable in the model, so the legacy fallback never applies.\<close>

definition trade_initiator_org :: "trade \<Rightarrow> uuid" where
  "trade_initiator_org t = t_initiator_org_id t"

definition can_manage_assisted_trade :: "user \<Rightarrow> uuid \<Rightarrow> bool" where
  "can_manage_assisted_trade cur g \<longleftrightarrow>
     u_organization_id cur = Some g
     \<and> (u_role cur = Some BUYER \<or> u_role cur = Some SUPPLIER)
     \<and> u_status cur = APPROVED \<and> u_email_verified cur \<and> \<not> u_must_change_password cur
     \<and> u_kyc_status cur \<noteq> ''REJECTED''
     \<and> (u_kyc_organization_id cur = None \<or> u_kyc_organization_id cur = u_organization_id cur)"

definition current_user_admitted :: "market_db \<Rightarrow> uuid \<Rightarrow> uuid \<Rightarrow> bool" where
  "current_user_admitted s k g \<longleftrightarrow>
     list_ex (\<lambda>u. u_id u = k \<and> u_organization_id u = Some g
       \<and> (u_role u = Some BUYER \<or> u_role u = Some SUPPLIER) \<and> u_status u = APPROVED
       \<and> u_email_verified u \<and> \<not> u_must_change_password u \<and> u_kyc_status u \<noteq> ''REJECTED''
       \<and> (u_kyc_organization_id u = None \<or> u_kyc_organization_id u = Some g)
       \<and> list_ex (\<lambda>x. g_id x = g \<and> g_verification_status x = ''APPROVED'') (organizations s)) (users s)"

definition support_linked :: "market_db \<Rightarrow> uuid option \<Rightarrow> bool" where
  "support_linked s k \<longleftrightarrow> list_ex (\<lambda>x. k = Some (o_id x) \<and> o_creation_method x = MARKET_SUPPORT) (orders s)"

definition support_order_exists ::
  "market_db \<Rightarrow> OrderSide \<Rightarrow> uuid option \<Rightarrow> uuid \<Rightarrow> uuid option \<Rightarrow> bool" where
  "support_order_exists s side k party_org party_user \<longleftrightarrow>
     list_ex (\<lambda>x. k = Some (o_id x) \<and> o_side x = side \<and> o_creation_method x = MARKET_SUPPORT
       \<and> public_order_owner_admission_clause s x \<and> o_organization_id x = party_org
       \<and> o_owner_user_id x \<noteq> None \<and> o_owner_user_id x = party_user
       \<and> o_created_by_actor_user_id x = o_owner_user_id x) (orders s)"

definition trade_action_required_filter :: "market_db \<Rightarrow> user \<Rightarrow> uuid \<Rightarrow> trade \<Rightarrow> bool" where
  "trade_action_required_filter s cur g t \<longleftrightarrow>
     t_status t = PENDING_CONFIRMATION \<and> can_manage_assisted_trade cur g \<and> current_user_admitted s (u_id cur) g \<and>
     (let seller_turn = (t_seller_id t = g \<and> trade_initiator_org t = t_buyer_id t \<and> u_role cur = Some SUPPLIER);
          buyer_turn = (t_buyer_id t = g \<and> trade_initiator_org t = t_seller_id t \<and> u_role cur = Some BUYER);
          normal = (seller_turn \<and> t_seller_user_id t = Some (u_id cur) \<and> \<not> support_linked s (t_ask_order_id t)
                    \<or> buyer_turn \<and> t_buyer_user_id t = Some (u_id cur) \<and> \<not> support_linked s (t_bid_order_id t));
          assisted = (seller_turn \<and> support_order_exists s ASK (t_ask_order_id t) (t_seller_id t) (t_seller_user_id t)
                      \<or> buyer_turn \<and> support_order_exists s BID (t_bid_order_id t) (t_buyer_id t) (t_buyer_user_id t)) in
      normal \<or> assisted)"

datatype TradeStatusGroup = GROUP_ALL | GROUP_ACTIVE | GROUP_COMPLETED

definition org_filter :: "uuid \<Rightarrow> trade \<Rightarrow> bool" where
  "org_filter g t \<longleftrightarrow> t_buyer_id t = g \<or> t_seller_id t = g"

definition CONFIRMED_TRADE_STATUSES :: "TradeStatus list" where
  "CONFIRMED_TRADE_STATUSES = [CONFIRMED, DELIVERED, PAID]"

definition trade_list_filter :: "market_db \<Rightarrow> user \<Rightarrow> uuid \<Rightarrow> bool \<Rightarrow> TradeStatusGroup \<Rightarrow> trade \<Rightarrow> bool" where
  "trade_list_filter s cur g action_required status_group t \<longleftrightarrow>
     org_filter g t
     \<and> (case status_group of GROUP_ALL \<Rightarrow> True
        | GROUP_ACTIVE \<Rightarrow> t_status t = PENDING_CONFIRMATION
        | GROUP_COMPLETED \<Rightarrow> t_status t \<in> {CONFIRMED, DELIVERED, PAID})
     \<and> (action_required \<longrightarrow> trade_action_required_filter s cur g t)"

subsection \<open>Summary and list\<close>

record TradeSummaryResponse =
  ts_total_count :: nat
  ts_action_required_count :: nat
  ts_awaiting_counterparty_count :: nat
  ts_confirmed_count :: nat

text \<open>The organization of the request, after \<open>resolve_request_party\<close>.\<close>

definition request_org :: "RequestParty \<Rightarrow> user \<Rightarrow> uuid result" where
  "request_org party cur =
     (case (case rp_effective_organization party of Some g \<Rightarrow> Some (g_id g) | None \<Rightarrow> u_organization_id cur) of
        None \<Rightarrow> Inl (HTTPException 400 ''User must belong to an organization'')
      | Some g \<Rightarrow> Inr g)"

definition trade_summary :: "market_db \<Rightarrow> RequestParty \<Rightarrow> user \<Rightarrow> TradeSummaryResponse result" where
  "trade_summary s party cur = bindR (request_org party cur) (\<lambda>g.
     let rows = filter (org_filter g) (trades s);
         count = (\<lambda>P. length (filter P rows)) in
     Inr \<lparr>ts_total_count = length rows,
        ts_action_required_count = count (\<lambda>t. org_filter g t \<and> trade_action_required_filter s cur g t),
        ts_awaiting_counterparty_count =
          count (\<lambda>t. org_filter g t \<and> t_status t = PENDING_CONFIRMATION \<and> trade_initiator_org t = g),
        ts_confirmed_count = count (\<lambda>t. org_filter g t \<and> t_status t \<in> set CONFIRMED_TRADE_STATUSES)\<rparr>)"

text \<open>\<open>ORDER BY created_at DESC OFFSET skip LIMIT limit\<close>; the query parameters are \<open>0 \<le> skip\<close>, \<open>1 \<le> limit \<le> 100\<close>.\<close>

definition list_my_trades ::
  "market_db \<Rightarrow> RequestParty \<Rightarrow> user \<Rightarrow> nat \<Rightarrow> nat \<Rightarrow> bool \<Rightarrow> TradeStatusGroup \<Rightarrow> (TradeResponse list \<times> nat) result"
where
  "list_my_trades s party cur skip limit action_required status_group =
     (if limit < 1 \<or> 100 < limit then Inl (HTTPException 422 ''limit'')
      else bindR (request_org party cur) (\<lambda>g.
      let rows = filter (trade_list_filter s cur g action_required status_group) (trades s);
          page = take limit (drop skip (sort_key (\<lambda>t. - t_created_at t) rows)) in
      Inr (map (\<lambda>t. build_trade_response s t (Some g) (u_role cur = Some ADMIN)) page, length rows)))"

subsection \<open>Properties\<close>

definition ex_trade :: trade where
  "ex_trade = \<lparr>t_id = 71, t_bid_order_id = None, t_ask_order_id = Some 31, t_buyer_id = 42, t_seller_id = 41,
     t_buyer_user_id = Some 12, t_seller_user_id = Some 11, t_initiator_org_id = 42,
     t_buyer_provenance = REAL, t_seller_provenance = REAL, t_initiated_by = BY_BUYER, t_is_anonymous = True,
     t_snapshot = \<lparr>product_id = Some (p_id ex_product), product_name = Some ''Bio Methanol'',
       fuel_type = Some ''Methanol'', fuel_grade = Some ''Bio'', market_product = Some ''BIO_METHANOL'',
       delivery_point_id = Some (d_id ex_point), delivery_point_name = Some ''Rotterdam'',
       delivery_point_region = Some ''Europe'', availability_window = Some ''SPOT''\<rparr>,
     t_market_snapshot_version = Some 1, t_quantity_mt = 200, t_price_per_mt_usd = 900,
     t_status = PENDING_CONFIRMATION, t_final_quantity_mt = None, t_final_price_per_mt = None,
     t_final_total_usd = None, t_commission_rate_pct = 0, t_commission_fee_per_mt_usd = Some 2,
     t_commission_plan = Some ''free'', t_commission_amount_usd = None, t_confirmed_at = None,
     t_delivered_at = None, t_paid_at = None, t_created_at = 900, t_idempotency = no_idempotency\<rparr>"

text \<open>Anonymity before the hand-off. While an anonymous trade is not yet confirmed, a viewer outside the
  seller's organization learns neither the seller's id nor its name, and the response the viewer
  receives would be the same whichever other organization the seller were.\<close>

lemma anonymous_trade_hides_seller:
  assumes "t_is_anonymous t" "t_status t \<notin> {CONFIRMED, DELIVERED, PAID}"
    and "viewer \<noteq> Some (t_seller_id t)" "viewer \<noteq> Some other"
  shows "tr_seller_id (build_trade_response s t viewer admin) = None \<and>
    tr_seller_name (build_trade_response s t viewer admin) = ''Anonymous'' \<and>
    build_trade_response s (t\<lparr>t_seller_id := other\<rparr>) viewer admin = build_trade_response s t viewer admin"
  using assms
  by (simp add: build_trade_response_def shown_parties_def ANONYMOUS_TRADE_HANDOFF_STATUSES_def Let_def
      trade_market_provenance_def)

text \<open>The same for the buyer: before the hand-off a viewer outside the buyer's organization cannot tell
  which organization the buyer is.\<close>

lemma anonymous_trade_hides_buyer:
  assumes "t_is_anonymous t" "t_status t \<notin> {CONFIRMED, DELIVERED, PAID}"
    and "viewer \<noteq> Some (t_buyer_id t)" "viewer \<noteq> Some other"
  shows "tr_buyer_id (build_trade_response s t viewer admin) = None \<and>
    tr_buyer_name (build_trade_response s t viewer admin) = ''Anonymous'' \<and>
    build_trade_response s (t\<lparr>t_buyer_id := other\<rparr>) viewer admin = build_trade_response s t viewer admin"
  using assms
  by (simp add: build_trade_response_def shown_parties_def ANONYMOUS_TRADE_HANDOFF_STATUSES_def Let_def
      trade_market_provenance_def)

text \<open>C24: anonymity before the hand-off. While an anonymous trade is not yet confirmed, a viewer outside a party's
  organization learns neither that party's id nor its name, and the response the viewer receives would be the same whichever
  other organization the party were; this holds for the seller and for the buyer.\<close>

theorem anonymous_trade_hides_parties:
  assumes "t_is_anonymous t" "t_status t \<notin> {CONFIRMED, DELIVERED, PAID}" "viewer \<noteq> Some other"
  shows "(viewer \<noteq> Some (t_seller_id t) \<longrightarrow> tr_seller_id (build_trade_response s t viewer admin) = None \<and>
      tr_seller_name (build_trade_response s t viewer admin) = ''Anonymous'' \<and>
      build_trade_response s (t\<lparr>t_seller_id := other\<rparr>) viewer admin = build_trade_response s t viewer admin) \<and>
    (viewer \<noteq> Some (t_buyer_id t) \<longrightarrow> tr_buyer_id (build_trade_response s t viewer admin) = None \<and>
      tr_buyer_name (build_trade_response s t viewer admin) = ''Anonymous'' \<and>
      build_trade_response s (t\<lparr>t_buyer_id := other\<rparr>) viewer admin = build_trade_response s t viewer admin)"
  using anonymous_trade_hides_seller [OF assms(1,2)] anonymous_trade_hides_buyer [OF assms(1,2)] assms(3) by simp

theorem anonymous_trade_hides_parties_witness:
  "tr_seller_id (build_trade_response ex_db ex_trade (Some 42) False) = None \<and>
   tr_buyer_id (build_trade_response ex_db ex_trade (Some 41) False) = None"
  using anonymous_trade_hides_parties [of ex_trade "Some 42" 43 ex_db False] anonymous_trade_hides_parties [of ex_trade "Some 41" 43 ex_db False]
  by (simp add: ex_trade_def)

text \<open>The seller's fee is the seller's business. For anyone but the seller and an administrator, a trade
  with a fee snapshot shows no fee, plan or commission amount, and its response does not depend
  on their values.\<close>

lemma seller_fee_is_private:
  assumes "viewer \<noteq> Some (t_seller_id t)" "t_commission_fee_per_mt_usd t = Some fee"
  shows "tr_commission_fee_per_mt_usd (build_trade_response s t viewer False) = None \<and>
    tr_commission_amount_usd (build_trade_response s t viewer False) = None \<and>
    build_trade_response s (t\<lparr>t_commission_fee_per_mt_usd := Some fee', t_commission_plan := plan',
      t_commission_amount_usd := amount'\<rparr>) viewer False = build_trade_response s t viewer False"
  using assms by (simp add: build_trade_response_def shown_parties_def Let_def trade_market_provenance_def)

text \<open>The dashboard counters agree with the lists. Whenever the summary is served, its counters are the
  totals that the list endpoint reports for the unfiltered, the action-required and the
  completed list, and every listed trade has the caller's organization as a party.\<close>

lemma summary_counts_match_lists:
  assumes "trade_summary s party cur = Inr r" "1 \<le> limit" "limit \<le> 100"
  shows "\<exists>g all act done. request_org party cur = Inr g \<and>
    list_my_trades s party cur skip limit False GROUP_ALL = Inr (all, ts_total_count r) \<and>
    list_my_trades s party cur skip limit True GROUP_ALL = Inr (act, ts_action_required_count r) \<and>
    list_my_trades s party cur skip limit False GROUP_COMPLETED = Inr (done, ts_confirmed_count r) \<and>
    (\<forall>x\<in>set (all @ act @ done). \<exists>t\<in>set (trades s). tr_id x = t_id t \<and> (t_buyer_id t = g \<or> t_seller_id t = g))"
proof -
  obtain g where g: "request_org party cur = Inr g" using assms(1) by (auto simp: trade_summary_def)
  have same: "filter (trade_list_filter s cur g False GROUP_ALL) (trades s) = filter (org_filter g) (trades s)"
    "filter (trade_list_filter s cur g True GROUP_ALL) (trades s) =
       filter (\<lambda>t. org_filter g t \<and> trade_action_required_filter s cur g t) (filter (org_filter g) (trades s))"
    "filter (trade_list_filter s cur g False GROUP_COMPLETED) (trades s) =
       filter (\<lambda>t. org_filter g t \<and> t_status t \<in> set CONFIRMED_TRADE_STATUSES) (filter (org_filter g) (trades s))"
    by (auto simp: trade_list_filter_def CONFIRMED_TRADE_STATUSES_def filter_filter intro!: filter_cong)
  define page where "page b sg = map (\<lambda>t. build_trade_response s t (Some g) (u_role cur = Some ADMIN))
    (take limit (drop skip (sort_key (\<lambda>t. - t_created_at t) (filter (trade_list_filter s cur g b sg) (trades s)))))" for b sg
  have mem: "\<exists>t\<in>set (trades s). tr_id x = t_id t \<and> (t_buyer_id t = g \<or> t_seller_id t = g)"
    if "x \<in> set (page b sg)" for x b sg
    using that by (auto dest!: in_set_takeD in_set_dropD simp: page_def trade_list_filter_def org_filter_def
        build_trade_response_def Let_def)
  have listed: "list_my_trades s party cur skip limit b sg =
      Inr (page b sg, length (filter (trade_list_filter s cur g b sg) (trades s)))" for b sg
    using assms(2,3) g by (simp add: list_my_trades_def page_def Let_def)
  have "length (filter (trade_list_filter s cur g False GROUP_ALL) (trades s)) = ts_total_count r"
    "length (filter (trade_list_filter s cur g True GROUP_ALL) (trades s)) = ts_action_required_count r"
    "length (filter (trade_list_filter s cur g False GROUP_COMPLETED) (trades s)) = ts_confirmed_count r"
    using assms(1) unfolding same by (auto simp: trade_summary_def g Let_def simp del: filter_filter)
  with listed [of False GROUP_ALL] listed [of True GROUP_ALL] listed [of False GROUP_COMPLETED] mem g
  show ?thesis
    by (intro exI [of _ g] exI [of _ "page False GROUP_ALL"] exI [of _ "page True GROUP_ALL"]
        exI [of _ "page False GROUP_COMPLETED"]) auto
qed

end
