(* ===== verification/Trade_Lifecycle.thy ===== *)
theory Trade_Lifecycle
  imports Trade_Views Matching_Engine
begin

section \<open>The trade lifecycle\<close>

text \<open>
  The mutating endpoints of \<^verbatim>\<open>src/app/routers/trades.py\<close>: hit an order (\<open>create_trade\<close>), then
  confirm, decline, deliver and pay. A handler is a function of the request, of the state its
  unlocked preview reads (\<open>pv\<close>) and of the state under its locks (\<open>s\<close>); it returns an error, which
  rolls the transaction back, or the committed state with the response. \<open>clk 0\<close> is the transaction's
  \<open>now()\<close>, \<open>clk 1, clk 2, ...\<close> are the successive readings of the clock, and \<open>enc\<close> is pydantic's
  JSON serialization of a response, which is stored for replays.

  The actor row is refreshed when the admission check locks it, so later reads of the current
  user see the locked row (\<open>refreshed\<close>).
\<close>

datatype 'a reply = Fresh 'a | Replayed int string

subsection \<open>Shared steps\<close>

definition load_trade :: "market_db \<Rightarrow> uuid \<Rightarrow> trade result" where
  "load_trade s k = (case trade_of k s of None \<Rightarrow> Inl (HTTPException 404 ''Trade not found'') | Some t \<Rightarrow> Inr t)"

definition loaded_order :: "market_db \<Rightarrow> uuid option \<Rightarrow> order option" where
  "loaded_order s k = (case k of None \<Rightarrow> None | Some j \<Rightarrow> order_of j s)"

definition revalidate_trade_parties :: "market_db \<Rightarrow> trade \<Rightarrow> unit result" where
  "revalidate_trade_parties s t =
     (case (t_buyer_user_id t, t_seller_user_id t) of
        (Some bu, Some su) \<Rightarrow>
          let eligible = (\<lambda>ord u g. case ord of
                Some x \<Rightarrow> order_owner_is_execution_eligible s x (user_of u s) (organization_of g s)
              | None \<Rightarrow> execution_party_is_eligible s (user_of u s) (organization_of g s)) in
          if \<not> eligible (loaded_order s (t_bid_order_id t)) bu (t_buyer_id t)
             \<or> \<not> eligible (loaded_order s (t_ask_order_id t)) su (t_seller_id t)
          then Inl (HTTPException 409 ''Trade parties are no longer execution-qualified'') else Inr ()
      | _ \<Rightarrow> Inl (HTTPException 409 ''Trade parties require fresh admission review''))"

definition assisted_trade_side :: "trade \<Rightarrow> order \<Rightarrow> (OrderSide \<times> uuid \<times> UserRole \<times> uuid) option result" where
  "assisted_trade_side t ord =
     (if o_creation_method ord \<noteq> MARKET_SUPPORT then Inr None
      else let invalid = Inl (HTTPException 403 ''Trade support ownership is not valid'') in
        case o_owner_user_id ord of None \<Rightarrow> invalid
        | Some owner \<Rightarrow>
            if o_side ord = ASK \<and> t_ask_order_id t = Some (o_id ord) \<and> t_seller_id t = o_organization_id ord
               \<and> t_seller_user_id t = Some owner \<and> o_created_by_actor_user_id ord = Some owner
            then Inr (Some (ASK, t_seller_id t, SUPPLIER, owner))
            else if o_side ord = BID \<and> t_bid_order_id t = Some (o_id ord) \<and> t_buyer_id t = o_organization_id ord
               \<and> t_buyer_user_id t = Some owner \<and> o_created_by_actor_user_id ord = Some owner
            then Inr (Some (BID, t_buyer_id t, BUYER, owner))
            else invalid)"

definition authorize_assisted_trade_actor ::
  "market_db \<Rightarrow> trade \<Rightarrow> order option \<Rightarrow> user \<Rightarrow> OrderSide option \<Rightarrow> bool result" where
  "authorize_assisted_trade_actor s t linked cur expected_side =
     (case linked of None \<Rightarrow> Inr False
      | Some ord \<Rightarrow>
          bindR (assisted_trade_side t ord) (\<lambda>side. case side of None \<Rightarrow> Inr False
          | Some (support_side, g, role, owner) \<Rightarrow>
              (case (user_of (u_id cur) s, organization_of g s) of
                 (Some actor, Some org) \<Rightarrow>
                   if u_id cur = owner
                   then Inl (HTTPException 403 ''Support administrators cannot change trade lifecycle'')
                   else if \<not> (u_organization_id actor = Some g \<and> u_role actor = Some role) then Inr False
                   else if (case expected_side of None \<Rightarrow> False | Some x \<Rightarrow> support_side \<noteq> x)
                   then Inl (HTTPException 403 ''Trade side is not authorized for this action'')
                   else if \<not> execution_party_is_eligible s (Some actor) (Some org)
                   then Inl (HTTPException 409 ''Trade parties are no longer execution-qualified'')
                   else Inr True
               | _ \<Rightarrow> Inl (HTTPException 409 ''Trade support ownership is no longer valid''))))"

definition delivery_amounts :: "dec \<Rightarrow> dec \<Rightarrow> dec \<Rightarrow> dec option \<Rightarrow> dec \<times> dec" where
  "delivery_amounts quantity price rate_pct fee_per_mt =
     (let total = quantize_money (quantity * price) in
      (total, case fee_per_mt of Some fee \<Rightarrow> quantize_money (quantity * fee)
              | None \<Rightarrow> quantize_money (total * rate_pct / 100)))"

definition trade_market_slice :: "market_db \<Rightarrow> trade \<Rightarrow> slice_key option" where
  "trade_market_slice s t =
     (case (product_id (t_snapshot t), availability_window (t_snapshot t)) of
        (Some p, Some (c # cs)) \<Rightarrow> Some (BID, p, delivery_point_id (t_snapshot t), c # cs)
      | _ \<Rightarrow>
          case (case loaded_order s (t_ask_order_id t) of Some x \<Rightarrow> Some x | None \<Rightarrow> loaded_order s (t_bid_order_id t)) of
            None \<Rightarrow> None
          | Some x \<Rightarrow> Some (o_side x, o_product_id x, o_delivery_point_id x, o_availability_window x))"

definition slice_identity :: "slice_key option \<Rightarrow> (uuid \<times> uuid option \<times> string) option" where
  "slice_identity k = map_option snd k"

definition order_identity :: "order \<Rightarrow> (uuid \<times> uuid option \<times> string) option" where
  "order_identity x = Some (o_product_id x, o_delivery_point_id x, o_availability_window x)"

definition lock_trade_market_rows ::
  "env \<Rightarrow> market_db \<Rightarrow> market_db \<Rightarrow> uuid \<Rightarrow> (trade \<times> order option) result" where
  "lock_trade_market_rows e pv s k =
     bindR (load_trade pv k) (\<lambda>preview.
     let locked_slice = trade_market_slice pv preview in
     bindR (case locked_slice of None \<Rightarrow> Inr () | Some key \<Rightarrow> acquire_market_slice_lock e key) (\<lambda>_.
     bindR (load_trade s k) (\<lambda>t.
     bindR (refuse (slice_identity (trade_market_slice s t) \<noteq> slice_identity locked_slice)
              (HTTPException 409 ''Trade slice changed; retry the request'')) (\<lambda>_.
     case linked_order_id t of None \<Rightarrow> Inr (t, None)
     | Some j \<Rightarrow>
         (case order_of j s of None \<Rightarrow> Inl (HTTPException 409 ''Trade order no longer exists'')
          | Some x \<Rightarrow>
              if slice_identity locked_slice \<noteq> order_identity x
              then Inl (HTTPException 409 ''Trade order slice changed; retry the request'')
              else Inr (t, Some x))))))"

definition refreshed :: "market_db \<Rightarrow> user \<Rightarrow> user" where
  "refreshed s cur = (case user_of (u_id cur) s of None \<Rightarrow> cur | Some u \<Rightarrow> u)"

text \<open>The command receipt of a trade transition: the payload names the operation and the trade.\<close>

definition trade_command ::
  "env \<Rightarrow> market_db \<Rightarrow> string option \<Rightarrow> user \<Rightarrow> string \<Rightarrow> uuid \<Rightarrow> (string \<times> json) list \<Rightarrow> CommandAttempt option result"
where
  "trade_command e pv header cur operation k extra =
     prepare_command_attempt e pv header (u_id cur) (u_organization_id cur) None operation ''trade'' k
       (command_request_hash e (JObj ([(''operation'', JStr operation), (''trade_id'', JStr (uuid_str k))] @ extra)))"

definition lock_trade_parties :: "market_db \<Rightarrow> user \<Rightarrow> trade \<Rightarrow> unit result" where
  "lock_trade_parties s cur t =
     (case u_organization_id cur of
        None \<Rightarrow> Inl (HTTPException 409 ''Market organization no longer exists'')
      | Some g \<Rightarrow>
          bindR (lock_and_load_market_organizations s
             ([t_buyer_id t, t_seller_id t] @ (if g = t_buyer_id t \<or> g = t_seller_id t then [] else [g]))
             [\<lparr>mo_user_id = u_id cur, mo_organization_id = g\<rparr>] True []) (\<lambda>_. Inr ()))"

text \<open>The common tail of a transition: tell the other side, audit, enqueue the event, record the receipt.\<close>

definition conclude_trade ::
  "(TradeResponse \<Rightarrow> string) \<Rightarrow> CommandAttempt option \<Rightarrow> user \<Rightarrow> user \<Rightarrow> trade \<Rightarrow> uuid \<Rightarrow> string \<Rightarrow> string
     \<Rightarrow> (market_db \<Rightarrow> bool) \<Rightarrow> market_db \<Rightarrow> (market_db \<times> TradeResponse reply) result"
where
  "conclude_trade enc cmd cur viewer t recipient action event public s =
     (let s1 = record_audit (Some (u_id cur)) action ''trade'' (t_id t)
                 (notify_org_users recipient ORDER_UPDATE (t_id t) s) in
      bindR (participant_market_event event ''trade'' (t_id t) [t_buyer_id t, t_seller_id t] (public s1)) (\<lambda>ev.
      let s2 = enqueue_market_events [ev] s1;
          response = build_trade_response s2 t (u_organization_id cur) (u_role viewer = Some ADMIN) in
      bindR (record_command_success cmd 200 (enc response) s2) (\<lambda>s3.
      Inr (s3, Fresh response))))"

text \<open>A prepared command with a stored result is answered from it, before any other check.\<close>

definition with_replay ::
  "CommandAttempt option \<Rightarrow> market_db \<Rightarrow> (market_db \<times> TradeResponse reply) result
     \<Rightarrow> (market_db \<times> TradeResponse reply) result" where
  "with_replay cmd s run =
     (case cmd of None \<Rightarrow> run
      | Some a \<Rightarrow> (case ca_replay a of None \<Rightarrow> run
                   | Some r \<Rightarrow> Inr (s, Replayed (c_response_status r) (c_response_body r))))"

subsection \<open>Hitting an order\<close>

record TradeCreate =
  tc_order_id :: uuid
  tc_expected_terms_digest :: "string option"
  tc_quantity_mt :: pydecimal

definition trade_create_schema :: "TradeCreate \<Rightarrow> dec result" where
  "trade_create_schema p =
     (let bad = Inl (HTTPException 422 ''TradeCreate'') in
      if (case tc_expected_terms_digest p of None \<Rightarrow> False
          | Some d \<Rightarrow> length d \<noteq> 64 \<or> \<not> list_all (\<lambda>c. is_digit c \<or> c \<in> set ''abcdef'') d) then bad
      else case finite_decimal (tc_quantity_mt p) 2 of
        Inl _ \<Rightarrow> bad
      | Inr v \<Rightarrow> if pydec_val v \<le> 0 \<or> 100000 < pydec_val v then bad else Inr (pydec_val v))"

definition trade_create_idempotency_payload :: "TradeCreate \<Rightarrow> json" where
  "trade_create_idempotency_payload p =
     JObj ([(''order_id'', JStr (uuid_str (tc_order_id p)))]
       @ (case tc_expected_terms_digest p of None \<Rightarrow> [] | Some d \<Rightarrow> [(''expected_terms_digest'', JStr d)])
       @ [(''quantity_mt'', JStr (pydecimal_str (tc_quantity_mt p)))])"

text \<open>The trade already made under an idempotency key, when the caller may see it again.\<close>

definition created_under_key :: "market_db \<Rightarrow> uuid \<Rightarrow> string \<Rightarrow> trade option" where
  "created_under_key s g key =
     find (\<lambda>t. t_initiator_org_id t = g \<and> idempotency_operation (t_idempotency t) = Some ''trade.create''
             \<and> idempotency_key (t_idempotency t) = Some key) (trades s)"

definition replay_created :: "market_db \<Rightarrow> user \<Rightarrow> uuid \<Rightarrow> string \<Rightarrow> trade \<Rightarrow> TradeResponse result" where
  "replay_created s cur g request_hash t =
     (if idempotency_request_hash (t_idempotency t) \<noteq> Some request_hash
      then Inl (HTTPException 409 ''Idempotency-Key was reused with a different request'')
      else if (if t_initiated_by t = BY_BUYER then t_buyer_user_id t else t_seller_user_id t) \<noteq> Some (u_id cur)
      then Inl (HTTPException 409 ''Idempotency-Key is bound to another request principal'')
      else Inr (build_trade_response s t (Some g) (u_role cur = Some ADMIN)))"

definition prepare_create ::
  "env \<Rightarrow> market_db \<Rightarrow> string option \<Rightarrow> user \<Rightarrow> uuid \<Rightarrow> TradeCreate \<Rightarrow> ((string \<times> string) option \<times> TradeResponse option) result"
where
  "prepare_create e pv header cur g p =
     (case header of
        None \<Rightarrow> Inr (None, None)
      | Some [] \<Rightarrow> Inr (None, None)
      | Some raw \<Rightarrow>
          bindR (normalize_idempotency_key raw) (\<lambda>key.
          let request_hash = idempotency_payload_hash e (trade_create_idempotency_payload p) in
          bindR (acquire_idempotency_lock e g ''trade.create'' key) (\<lambda>_.
          case created_under_key pv g key of
            None \<Rightarrow> Inr (Some (key, request_hash), None)
          | Some t \<Rightarrow> bindR (replay_created pv cur g request_hash t) (\<lambda>r. Inr (Some (key, request_hash), Some r)))))"

definition lock_target_order :: "env \<Rightarrow> market_db \<Rightarrow> market_db \<Rightarrow> TradeCreate \<Rightarrow> order result" where
  "lock_target_order e pv s p =
     (let target = order_of (tc_order_id p) pv in
      bindR (case target of None \<Rightarrow> Inr ()
             | Some x \<Rightarrow> acquire_market_slice_lock e (BID, o_product_id x, o_delivery_point_id x, o_availability_window x)) (\<lambda>_.
      case order_of (tc_order_id p) s of None \<Rightarrow> Inl (HTTPException 404 ''Order not found'')
      | Some ord \<Rightarrow>
          bindR (refuse (case target of None \<Rightarrow> False | Some x \<Rightarrow> order_identity ord \<noteq> order_identity x)
                   (HTTPException 409 ''Order slice changed; retry the trade'')) (\<lambda>_.
          bindR (refuse (tc_expected_terms_digest p \<noteq> Some (order_terms_digest e ord))
                   (HTTPException 409 ''ORDER_TERMS_REVIEW_REQUIRED'')) (\<lambda>_.
          Inr ord))))"

definition catalog_listed :: "market_db \<Rightarrow> order \<Rightarrow> bool" where
  "catalog_listed s ord \<longleftrightarrow>
     list_ex (\<lambda>pr. p_id pr = o_product_id ord \<and>
       list_ex (\<lambda>d. o_delivery_point_id ord = Some (d_id d) \<and> active_market_catalog_clauses pr d) (delivery_points s))
       (products s)"

definition admit_target :: "market_db \<Rightarrow> (nat \<Rightarrow> time) \<Rightarrow> uuid \<Rightarrow> user \<Rightarrow> order \<Rightarrow> unit result" where
  "admit_target s clk g cur ord =
     bindR (refuse (\<not> catalog_listed s ord) (HTTPException 400 ''Order is not available for trading'')) (\<lambda>_.
     bindR (lock_and_load_market_organizations s [g, o_organization_id ord]
              [\<lparr>mo_user_id = u_id cur, mo_organization_id = g\<rparr>] True []) (\<lambda>_.
     bindR (refuse (\<not> live_status (o_status ord)) (HTTPException 400 ''Order is not available for trading'')) (\<lambda>_.
     bindR (refuse (order_expired (clk 1) ord) (HTTPException 400 ''Order has expired'')) (\<lambda>_.
     bindR (refuse (\<not> order_is_execution_qualified ord) (HTTPException 400 ''Order is not execution-qualified'')) (\<lambda>_.
     bindR (refuse (is_demo_market_organization (Some (o_organization_id ord)))
              (HTTPException 400 ''Demo listings are preview liquidity and cannot be traded.'')) (\<lambda>_.
     bindR (refuse (o_owner_user_id ord = None)
              (HTTPException 409 ''Order owner requires explicit provenance review'')) (\<lambda>_.
     bindR (refuse (o_provenance ord \<in> {DEMO, TEST, CANARY})
              (HTTPException 400 ''Synthetic listings cannot be traded'')) (\<lambda>_.
     bindR (if o_side ord = ASK
            then refuse (u_role (refreshed s cur) \<noteq> Some BUYER) (HTTPException 403 ''Only buyers can hit an ASK order'')
            else bindR (refuse (u_role (refreshed s cur) \<noteq> Some SUPPLIER)
                          (HTTPException 403 ''Only suppliers can hit a BID order'')) (\<lambda>_.
              refuse (BIOFUEL_SPECIFICATION_STANDARDS (o_product_id ord) \<noteq> None)
                (HTTPException 400 ''Place a qualified ASK order with the required fuel specification and supplier details to fill this biofuel BID.''))) (\<lambda>_.
     bindR (refuse (o_organization_id ord = g) (HTTPException 400 ''Cannot trade with your own order'')) (\<lambda>_.
     bindR (refuse (\<not> execution_provenance_compatible (snapshot_organization_provenance (organization_of g s))
                      (o_provenance ord) (Some g) (Some (o_organization_id ord)) None)
              (HTTPException 400 ''Synthetic and live trades cannot be mixed'')) (\<lambda>_.
     refuse (\<not> execution_party_is_eligible s (user_of (u_id cur) s) (organization_of g s)
             \<or> (case o_owner_user_id ord of None \<Rightarrow> True | Some u \<Rightarrow>
                  \<not> order_owner_is_execution_eligible s ord (user_of u s) (organization_of (o_organization_id ord) s)))
       (HTTPException 400 ''Order is not available for trading''))))))))))))"

definition hit_trade ::
  "market_db \<Rightarrow> user \<Rightarrow> uuid \<Rightarrow> order \<Rightarrow> dec \<Rightarrow> SubscriptionTier \<times> dec \<Rightarrow> (string \<times> string) option \<Rightarrow> time \<Rightarrow> trade" where
  "hit_trade s cur g ord qty fee idem created =
     (let ask = (o_side ord = ASK); mine = snapshot_organization_provenance (organization_of g s) in
      \<lparr>t_id = next_id s,
       t_bid_order_id = (if ask then None else Some (o_id ord)),
       t_ask_order_id = (if ask then Some (o_id ord) else None),
       t_buyer_id = (if ask then g else o_organization_id ord),
       t_seller_id = (if ask then o_organization_id ord else g),
       t_buyer_user_id = (if ask then Some (u_id cur) else o_owner_user_id ord),
       t_seller_user_id = (if ask then o_owner_user_id ord else Some (u_id cur)),
       t_initiator_org_id = g,
       t_buyer_provenance = (if ask then mine else o_provenance ord),
       t_seller_provenance = (if ask then o_provenance ord else mine),
       t_initiated_by = (if ask then BY_BUYER else BY_SELLER),
       t_is_anonymous = True,
       t_snapshot = order_snapshot s ord, t_market_snapshot_version = Some 1,
       t_quantity_mt = qty, t_price_per_mt_usd = o_price_per_mt_usd ord,
       t_status = PENDING_CONFIRMATION,
       t_final_quantity_mt = None, t_final_price_per_mt = None, t_final_total_usd = None,
       t_commission_rate_pct = 0, t_commission_fee_per_mt_usd = Some (snd fee),
       t_commission_plan = Some (tier_value (fst fee)), t_commission_amount_usd = None,
       t_confirmed_at = None, t_delivered_at = None, t_paid_at = None, t_created_at = created,
       t_idempotency = (case idem of None \<Rightarrow> no_idempotency
         | Some (key, h) \<Rightarrow> \<lparr>idempotency_key = Some key, idempotency_operation = Some ''trade.create'',
             idempotency_request_hash = Some h\<rparr>)\<rparr>)"

definition hit_order :: "dec \<Rightarrow> order \<Rightarrow> order" where
  "hit_order qty ord =
     (let remaining = o_remaining_quantity_mt ord - qty in
      bump_version (ord\<lparr>o_remaining_quantity_mt := remaining,
        o_status := (if remaining = 0 then FILLED else if o_status ord = OPEN then PARTIALLY_FILLED else o_status ord)\<rparr>))"

text \<open>
  The insert is where a concurrent request with the same key loses: the unique index on the
  initiator, operation and key rejects the row, and the winner's trade is returned.
\<close>

definition place_hit ::
  "(nat \<Rightarrow> time) \<Rightarrow> user \<Rightarrow> uuid \<Rightarrow> order \<Rightarrow> dec \<Rightarrow> SubscriptionTier \<times> dec \<Rightarrow> (string \<times> string) option \<Rightarrow> market_db
     \<Rightarrow> (market_db \<times> TradeResponse) result"
where
  "place_hit clk cur g ord qty fee idem s =
     (case (case idem of None \<Rightarrow> None | Some (key, h) \<Rightarrow> created_under_key s g key) of
        Some winner \<Rightarrow> bindR (replay_created s (refreshed s cur) g (snd (the idem)) winner) (\<lambda>r. Inr (s, r))
      | None \<Rightarrow>
        let t = hit_trade s cur g ord qty fee idem (clk 3);
            s1 = put_order (hit_order qty ord) (ins_trade t (s\<lparr>next_id := next_id s + 1\<rparr>));
            s2 = project (EmitOrderUpdated (o_id ord)) (project (RebuildBenchmarks (o_id ord)) s1);
            s3 = record_audit (Some (u_id cur)) ''trade.created'' ''trade'' (t_id t)
                   (notify_org_users (o_organization_id ord) ORDER_UPDATE (t_id t) s2) in
        bindR (participant_market_event ''trade_created'' ''trade'' (t_id t) [t_buyer_id t, t_seller_id t]
                 (public_order_is_visible s (clk 0) (o_id ord) \<or> public_order_is_visible s3 (clk 0) (o_id ord))) (\<lambda>ev.
        let s4 = enqueue_market_events [ev] s3 in
        Inr (s4, build_trade_response s4 t (Some g) (u_role (refreshed s cur) = Some ADMIN))))"

definition create_trade ::
  "env \<Rightarrow> Settings \<Rightarrow> (nat \<Rightarrow> time) \<Rightarrow> string option \<Rightarrow> user \<Rightarrow> TradeCreate \<Rightarrow> market_db \<Rightarrow> market_db
     \<Rightarrow> (market_db \<times> TradeResponse) result"
where
  "create_trade e cfg clk header cur p pv s =
     bindR (trade_create_schema p) (\<lambda>qty.
     bindR (require_execution_eligible_user pv cur) (\<lambda>_.
     case u_organization_id cur of
       None \<Rightarrow> Inl (HTTPException 400 ''User must belong to an organization to trade'')
     | Some g \<Rightarrow>
       bindR (prepare_create e pv header cur g p) (\<lambda>(idem, replay).
       case replay of Some r \<Rightarrow> Inr (s, r) | None \<Rightarrow>
       bindR (lock_target_order e pv s p) (\<lambda>ord.
       bindR (admit_target s clk g cur ord) (\<lambda>_.
       bindR (refuse (o_remaining_quantity_mt ord < qty)
                (HTTPException 400 ''Requested quantity exceeds remaining'')) (\<lambda>_.
       bindR (resolve_seller_trade_fee cfg s (if o_side ord = ASK then o_organization_id ord else g) (clk 2)) (\<lambda>fee.
       place_hit clk cur g ord qty fee idem s)))))))"

subsection \<open>Confirming\<close>

definition expected_side :: "trade \<Rightarrow> OrderSide" where
  "expected_side t = (if t_initiated_by t = BY_BUYER then ASK else BID)"

definition initiator_party :: "trade \<Rightarrow> uuid" where
  "initiator_party t = (if t_initiated_by t = BY_BUYER then t_buyer_id t else t_seller_id t)"

definition confirm_guard :: "trade \<Rightarrow> user \<Rightarrow> bool \<Rightarrow> unit result" where
  "confirm_guard t cur assisted =
     (if t_initiated_by t = BY_BUYER
      then refuse (\<not> assisted \<and> (Some (t_seller_id t) \<noteq> u_organization_id cur \<or> t_seller_user_id t \<noteq> Some (u_id cur)))
             (HTTPException 403 ''Only the seller can confirm this trade'')
      else refuse (\<not> assisted \<and> (Some (t_buyer_id t) \<noteq> u_organization_id cur \<or> t_buyer_user_id t \<noteq> Some (u_id cur)))
             (HTTPException 403 ''Only the buyer can confirm this trade''))"

text \<open>Verified referrals of users of the two organizations become active.\<close>

definition activate_referrals :: "time \<Rightarrow> trade \<Rightarrow> market_db \<Rightarrow> market_db" where
  "activate_referrals now t s =
     s\<lparr>referrals := map (\<lambda>r.
        if r_status r = VERIFIED
           \<and> list_ex (\<lambda>u. u_id u = r_referred_user_id r
               \<and> (u_organization_id u = Some (t_buyer_id t) \<or> u_organization_id u = Some (t_seller_id t))) (users s)
        then r\<lparr>r_status := ACTIVE, r_activated_at := Some now\<rparr> else r) (referrals s)\<rparr>"

definition confirmed_trade :: "time \<Rightarrow> trade \<Rightarrow> trade" where
  "confirmed_trade now t = t\<lparr>t_status := CONFIRMED, t_confirmed_at := Some now\<rparr>"

definition order_stock :: "order option \<Rightarrow> uuid option" where
  "order_stock ord = (case ord of None \<Rightarrow> None | Some x \<Rightarrow> o_inventory_item_id x)"

definition run_confirm ::
  "env \<Rightarrow> (TradeResponse \<Rightarrow> string) \<Rightarrow> (nat \<Rightarrow> time) \<Rightarrow> CommandAttempt option \<Rightarrow> user \<Rightarrow> uuid \<Rightarrow> market_db \<Rightarrow> market_db
     \<Rightarrow> (market_db \<times> TradeResponse reply) result"
where
  "run_confirm e enc clk cmd cur k pv s =
     bindR (require_execution_eligible_user pv cur) (\<lambda>_.
     bindR (lock_trade_market_rows e pv s k) (\<lambda>(t, ord).
     bindR (lock_trade_parties s cur t) (\<lambda>_.
     bindR (refuse (t_status t \<noteq> PENDING_CONFIRMATION) (HTTPException 400 ''Trade is not pending confirmation'')) (\<lambda>_.
     bindR (refuse (\<not> execution_provenance_compatible (t_buyer_provenance t) (t_seller_provenance t)
                      (Some (t_buyer_id t)) (Some (t_seller_id t)) None)
              (HTTPException 409 ''Trade provenance is not eligible for execution'')) (\<lambda>_.
     bindR (authorize_assisted_trade_actor s t ord cur (Some (expected_side t))) (\<lambda>assisted.
     bindR (confirm_guard t cur assisted) (\<lambda>_.
     bindR (revalidate_trade_parties s t) (\<lambda>_.
     let t1 = confirmed_trade (clk 1) t; s1 = put_trade t1 s in
     bindR (case order_stock ord of None \<Rightarrow> Inr s1 | Some i \<Rightarrow> consume_inventory i (t_quantity_mt t) s1) (\<lambda>s2.
     conclude_trade enc cmd cur (refreshed s cur) t1 (initiator_party t) ''trade.confirmed'' ''trade_confirmed''
       (\<lambda>x. public_trade_is_visible x (t_id t) \<or>
             (case order_stock ord of None \<Rightarrow> False | Some i \<Rightarrow> public_inventory_is_visible x i))
       (activate_referrals (clk 2) t s2))))))))))"

definition confirm_trade ::
  "env \<Rightarrow> (TradeResponse \<Rightarrow> string) \<Rightarrow> (nat \<Rightarrow> time) \<Rightarrow> string option \<Rightarrow> user \<Rightarrow> uuid \<Rightarrow> market_db \<Rightarrow> market_db
     \<Rightarrow> (market_db \<times> TradeResponse reply) result"
where
  "confirm_trade e enc clk header cur k pv s =
     bindR (trade_command e pv header cur ''trade.confirm'' k []) (\<lambda>cmd. with_replay cmd s (run_confirm e enc clk cmd cur k pv s))"

subsection \<open>Declining\<close>

definition decline_guard :: "trade \<Rightarrow> user \<Rightarrow> bool \<Rightarrow> unit result" where
  "decline_guard t cur assisted =
     (if t_initiated_by t = BY_BUYER
      then refuse (\<not> (assisted \<or> (case t_seller_user_id t of Some u \<Rightarrow> u = u_id cur
                                 | None \<Rightarrow> Some (t_seller_id t) = u_organization_id cur)))
             (HTTPException 403 ''Only the seller can decline this trade'')
      else refuse (\<not> (assisted \<or> (case t_buyer_user_id t of Some u \<Rightarrow> u = u_id cur
                                 | None \<Rightarrow> Some (t_buyer_id t) = u_organization_id cur)))
             (HTTPException 403 ''Only the buyer can decline this trade''))"

definition expired_order :: "dec \<Rightarrow> order \<Rightarrow> order" where
  "expired_order qty ord =
     bump_version (ord\<lparr>o_remaining_quantity_mt := o_remaining_quantity_mt ord + qty, o_status := EXPIRED\<rparr>)"

definition restored_order :: "dec \<Rightarrow> order \<Rightarrow> order" where
  "restored_order qty ord =
     (let remaining = o_remaining_quantity_mt ord + qty in
      bump_version (ord\<lparr>o_remaining_quantity_mt := remaining,
        o_status := (if remaining = o_quantity_mt ord then OPEN else PARTIALLY_FILLED)\<rparr>))"

definition order_changed :: "order \<Rightarrow> market_db \<Rightarrow> market_db" where
  "order_changed ord s = project (EmitOrderUpdated (o_id ord)) (project (RebuildBenchmarks (o_id ord)) s)"

text \<open>What a declined quantity becomes: it is not revived on a withdrawn or expired order.\<close>

definition give_back :: "time \<Rightarrow> user \<Rightarrow> dec \<Rightarrow> order \<Rightarrow> market_db \<Rightarrow> market_db result" where
  "give_back now cur qty ord s =
     (if withdrawn (o_status ord) then
        (case o_inventory_item_id ord of None \<Rightarrow> Inr s | Some i \<Rightarrow> release_inventory i qty s)
      else if order_expired now ord then
        (let x = expired_order qty ord in
         bindR (case o_inventory_item_id ord of None \<Rightarrow> Inr s
                | Some i \<Rightarrow> if o_remaining_quantity_mt x > 0 then release_inventory i (o_remaining_quantity_mt x) s
                            else Inr s) (\<lambda>s1.
         Inr (record_audit (Some (u_id cur)) ''order.expired'' ''order'' (o_id ord) (order_changed ord (put_order x s1)))))
      else Inr (order_changed ord (put_order (restored_order qty ord) s)))"

definition declined_trade :: "trade \<Rightarrow> trade" where
  "declined_trade t = t\<lparr>t_status := DECLINED\<rparr>"

definition decline_actor_ownership :: "trade \<Rightarrow> order option \<Rightarrow> user \<Rightarrow> MarketActorOwnership list result" where
  "decline_actor_ownership t ord cur =
     bindR (case ord of None \<Rightarrow> Inr None | Some x \<Rightarrow> assisted_trade_side t x) (\<lambda>side.
     Inr (case side of None \<Rightarrow> []
          | Some (_, g, role, _) \<Rightarrow>
              if u_organization_id cur = Some g \<and> u_role cur = Some role
              then [\<lparr>mo_user_id = u_id cur, mo_organization_id = g\<rparr>] else []))"

definition run_decline ::
  "env \<Rightarrow> (TradeResponse \<Rightarrow> string) \<Rightarrow> (nat \<Rightarrow> time) \<Rightarrow> CommandAttempt option \<Rightarrow> user \<Rightarrow> uuid \<Rightarrow> market_db \<Rightarrow> market_db
     \<Rightarrow> (market_db \<times> TradeResponse reply) result"
where
  "run_decline e enc clk cmd cur k pv s =
     bindR (lock_trade_market_rows e pv s k) (\<lambda>(t, ord).
     bindR (refuse (t_status t \<noteq> PENDING_CONFIRMATION) (HTTPException 400 ''Trade is not pending confirmation'')) (\<lambda>_.
     bindR (decline_actor_ownership t ord cur) (\<lambda>owns.
     bindR (lock_and_load_market_organizations s [t_buyer_id t, t_seller_id t] owns False []) (\<lambda>_.
     bindR (authorize_assisted_trade_actor s t ord cur (Some (expected_side t))) (\<lambda>assisted.
     bindR (decline_guard t cur assisted) (\<lambda>_.
     bindR (refuse (case ord of None \<Rightarrow> False | Some x \<Rightarrow>
                      slice_identity (trade_market_slice s t) \<noteq> order_identity x)
              (HTTPException 409 ''Order slice changed; retry the decline'')) (\<lambda>_.
     let public = (\<lambda>x. case ord of None \<Rightarrow> False | Some y \<Rightarrow> public_order_is_visible x (clk 0) (o_id y));
         t1 = declined_trade t; s1 = put_trade t1 s in
     bindR (case ord of None \<Rightarrow> Inr s1 | Some x \<Rightarrow> give_back (clk 1) cur (t_quantity_mt t) x s1) (\<lambda>s2.
     conclude_trade enc cmd cur
       (case ord of Some x \<Rightarrow> if o_creation_method x = MARKET_SUPPORT then refreshed s cur else cur | None \<Rightarrow> cur)
       t1 (initiator_party t) ''trade.declined'' ''trade_declined'' (\<lambda>x. public s \<or> public x) s2))))))))"

definition decline_trade ::
  "env \<Rightarrow> (TradeResponse \<Rightarrow> string) \<Rightarrow> (nat \<Rightarrow> time) \<Rightarrow> string option \<Rightarrow> user \<Rightarrow> uuid \<Rightarrow> market_db \<Rightarrow> market_db
     \<Rightarrow> (market_db \<times> TradeResponse reply) result"
where
  "decline_trade e enc clk header cur k pv s =
     bindR (trade_command e pv header cur ''trade.decline'' k []) (\<lambda>cmd. with_replay cmd s (run_decline e enc clk cmd cur k pv s))"

subsection \<open>Delivering and paying\<close>

record TradeDeliverPayload =
  td_final_quantity_mt :: pydecimal
  td_final_price_per_mt :: pydecimal

definition bounded_decimal :: "pydecimal \<Rightarrow> dec \<Rightarrow> dec result" where
  "bounded_decimal v maximum =
     (case finite_decimal v 2 of
        Inl _ \<Rightarrow> Inl (HTTPException 422 ''TradeDeliverPayload'')
      | Inr x \<Rightarrow> if pydec_val x \<le> 0 \<or> maximum < pydec_val x then Inl (HTTPException 422 ''TradeDeliverPayload'')
                 else Inr (pydec_val x))"

definition MAX_FINAL_PRICE_DEVIATION_PCT :: dec where
  "MAX_FINAL_PRICE_DEVIATION_PCT = 10"

definition deliver_guard :: "trade \<Rightarrow> dec \<Rightarrow> dec \<Rightarrow> unit result" where
  "deliver_guard t fq fp =
     bindR (refuse (t_quantity_mt t < fq)
              (HTTPException 400 ''final_quantity_mt cannot exceed originally traded quantity'')) (\<lambda>_.
     bindR (refuse (t_price_per_mt_usd t = 0) (RuntimeError ''decimal.DivisionByZero'')) (\<lambda>_.
     refuse (\<bar>fp - t_price_per_mt_usd t\<bar> / t_price_per_mt_usd t * 100 > MAX_FINAL_PRICE_DEVIATION_PCT)
       (HTTPException 400 ''final_price_per_mt deviates more than 10% from the confirmed trade price'')))"

definition delivered_trade :: "time \<Rightarrow> dec \<Rightarrow> dec \<Rightarrow> trade \<Rightarrow> trade" where
  "delivered_trade now fq fp t =
     (let amounts = delivery_amounts fq fp (t_commission_rate_pct t) (t_commission_fee_per_mt_usd t) in
      t\<lparr>t_final_quantity_mt := Some fq, t_final_price_per_mt := Some fp, t_final_total_usd := Some (fst amounts),
        t_commission_amount_usd := Some (snd amounts), t_delivered_at := Some now, t_status := DELIVERED\<rparr>)"

definition run_deliver ::
  "env \<Rightarrow> (TradeResponse \<Rightarrow> string) \<Rightarrow> (nat \<Rightarrow> time) \<Rightarrow> CommandAttempt option \<Rightarrow> user \<Rightarrow> uuid \<Rightarrow> dec \<Rightarrow> dec \<Rightarrow> market_db \<Rightarrow> market_db
     \<Rightarrow> (market_db \<times> TradeResponse reply) result"
where
  "run_deliver e enc clk cmd cur k fq fp pv s =
     bindR (require_execution_eligible_user pv cur) (\<lambda>_.
     bindR (lock_trade_market_rows e pv s k) (\<lambda>(t, ord).
     bindR (lock_trade_parties s cur t) (\<lambda>_.
     bindR (refuse (t_status t \<noteq> CONFIRMED) (HTTPException 400 ''Trade must be confirmed before delivery'')) (\<lambda>_.
     bindR (authorize_assisted_trade_actor s t ord cur None) (\<lambda>assisted.
     bindR (refuse (\<not> assisted \<and> \<not> (u_organization_id cur = Some (t_buyer_id t) \<and> t_buyer_user_id t = Some (u_id cur)
                                   \<or> u_organization_id cur = Some (t_seller_id t) \<and> t_seller_user_id t = Some (u_id cur)))
              (HTTPException 403 ''Not authorized for this trade'')) (\<lambda>_.
     bindR (revalidate_trade_parties s t) (\<lambda>_.
     bindR (deliver_guard t fq fp) (\<lambda>_.
     let t1 = delivered_trade (clk 1) fq fp t in
     conclude_trade enc cmd cur (refreshed s cur) t1
       (if u_organization_id cur = Some (t_buyer_id t) then t_seller_id t else t_buyer_id t)
       ''trade.delivered'' ''trade_delivered'' (\<lambda>_. False) (put_trade t1 s)))))))))"

definition deliver_trade ::
  "env \<Rightarrow> (TradeResponse \<Rightarrow> string) \<Rightarrow> (nat \<Rightarrow> time) \<Rightarrow> string option \<Rightarrow> user \<Rightarrow> uuid \<Rightarrow> TradeDeliverPayload
     \<Rightarrow> market_db \<Rightarrow> market_db \<Rightarrow> (market_db \<times> TradeResponse reply) result"
where
  "deliver_trade e enc clk header cur k p pv s =
     bindR (bounded_decimal (td_final_quantity_mt p) 100000) (\<lambda>fq.
     bindR (bounded_decimal (td_final_price_per_mt p) 1000000) (\<lambda>fp.
     bindR (trade_command e pv header cur ''trade.deliver'' k
              [(''final_quantity_mt'', JStr (decimal_text fq)), (''final_price_per_mt'', JStr (decimal_text fp))]) (\<lambda>cmd.
     with_replay cmd s (run_deliver e enc clk cmd cur k fq fp pv s))))"

definition paid_trade :: "time \<Rightarrow> trade \<Rightarrow> trade" where
  "paid_trade now t = t\<lparr>t_status := PAID, t_paid_at := Some now\<rparr>"

definition run_pay ::
  "env \<Rightarrow> (TradeResponse \<Rightarrow> string) \<Rightarrow> (nat \<Rightarrow> time) \<Rightarrow> CommandAttempt option \<Rightarrow> user \<Rightarrow> uuid \<Rightarrow> market_db \<Rightarrow> market_db
     \<Rightarrow> (market_db \<times> TradeResponse reply) result"
where
  "run_pay e enc clk cmd cur k pv s =
     bindR (require_execution_eligible_user pv cur) (\<lambda>_.
     bindR (lock_trade_market_rows e pv s k) (\<lambda>(t, ord).
     bindR (lock_trade_parties s cur t) (\<lambda>_.
     bindR (refuse (t_status t \<noteq> DELIVERED) (HTTPException 400 ''Trade must be delivered before payment'')) (\<lambda>_.
     bindR (authorize_assisted_trade_actor s t ord cur (Some ASK)) (\<lambda>assisted.
     bindR (refuse (\<not> assisted \<and> (Some (t_seller_id t) \<noteq> u_organization_id cur \<or> t_seller_user_id t \<noteq> Some (u_id cur)))
              (HTTPException 403 ''Only the seller can mark a trade as paid'')) (\<lambda>_.
     bindR (refuse (u_role (refreshed s cur) \<noteq> Some SUPPLIER)
              (HTTPException 403 ''Only suppliers can mark trades as paid'')) (\<lambda>_.
     bindR (revalidate_trade_parties s t) (\<lambda>_.
     let t1 = paid_trade (clk 1) t in
     conclude_trade enc cmd cur (refreshed s cur) t1 (t_buyer_id t) ''trade.paid'' ''trade_paid'' (\<lambda>_. False)
       (put_trade t1 s)))))))))"

definition pay_trade ::
  "env \<Rightarrow> (TradeResponse \<Rightarrow> string) \<Rightarrow> (nat \<Rightarrow> time) \<Rightarrow> string option \<Rightarrow> user \<Rightarrow> uuid \<Rightarrow> market_db \<Rightarrow> market_db
     \<Rightarrow> (market_db \<times> TradeResponse reply) result"
where
  "pay_trade e enc clk header cur k pv s =
     bindR (trade_command e pv header cur ''trade.pay'' k []) (\<lambda>cmd. with_replay cmd s (run_pay e enc clk cmd cur k pv s))"

end
