(* ===== verification/Trade_Ledger.thy ===== *)
theory Trade_Ledger
  imports Trade_Lifecycle Matching_Ledger
begin

section \<open>Trade transitions keep the ledgers\<close>

text \<open>
  Each transition of a trade preserves the market invariant. Two kinds of move carry the proofs:
  one trade changes its state while its item's stock follows (\<open>trade_move\<close>), and a quantity passes
  between an order and one of its pending trades (\<open>hit_move\<close>, \<open>decline_move\<close>).
\<close>

subsection \<open>Moves\<close>

lemma put_order_same:
  assumes "keys_ok s" "order_of (o_id x) s = Some x"
  shows "put_order x s = s"
proof -
  have "y = x" if "y \<in> set (orders s)" "o_id y = o_id x" for y
    using order_unique [OF assms(1) that(1)] that(2) assms(2) by simp
  then have "put_row o_id x (orders s) = orders s"
    unfolding put_row_def by (intro map_idI) auto
  then show ?thesis by (simp add: put_order_def)
qed

lemma put_trade_parts:
  assumes inv: "market_inv_upto \<sigma> s" and old: "trade_of (t_id t1) s = Some t"
    and links: "t_bid_order_id t1 = t_bid_order_id t" "t_ask_order_id t1 = t_ask_order_id t" and row: "trade_row_ok t1"
  shows "keys_ok (put_trade t1 s)" "refs_ok (put_trade t1 s)" "rows_ok (put_trade t1 s)"
    "committed (put_trade t1 s) k =
      committed s k - trade_commitment (order_item s) k t + trade_commitment (order_item s) k t1"
    "filled_quantity (put_trade t1 s) j = filled_quantity s j - trade_fill j t + trade_fill j t1"
proof -
  have p: "keys_ok s" "refs_ok s" "rows_ok s" and d: "distinct (map t_id (trades s))"
    using inv by (simp_all add: market_inv_upto_def keys_ok_def)
  show "keys_ok (put_trade t1 s)" using p(1) by simp
  show "refs_ok (put_trade t1 s)" by (rule refs_ok_put_trade [OF p(2) old links])
  show "rows_ok (put_trade t1 s)" by (rule rows_ok_put(2) [OF p(3) row])
  show "committed (put_trade t1 s) k =
      committed s k - trade_commitment (order_item s) k t + trade_commitment (order_item s) k t1"
    by (rule committed_put_trade [OF d old])
  show "filled_quantity (put_trade t1 s) j = filled_quantity s j - trade_fill j t + trade_fill j t1"
    by (rule filled_put_trade [OF d old])
qed

lemma trade_move:
  assumes inv: "market_inv_upto \<sigma> s" and old: "trade_of (t_id t1) s = Some t"
    and links: "t_bid_order_id t1 = t_bid_order_id t" "t_ask_order_id t1 = t_ask_order_id t" and row: "trade_row_ok t1"
    and fill: "\<And>j. trade_fill j t1 = trade_fill j t" and frame: "same_market (put_trade t1 s) s2"
    and stock: "\<And>k. reserved_stock s2 k =
        reserved_stock s k - trade_commitment (order_item s) k t + trade_commitment (order_item s) k t1"
      "\<And>k. 0 \<le> current_stock s2 k"
  shows "market_inv_upto \<sigma> s2"
proof -
  note p = put_trade_parts [OF inv old links row] and m = same_market_parts [OF frame]
  have "fills_ok (put_trade t1 s)"
    using inv by (simp add: fills_ok_def market_inv_upto_def p(5) fill)
  moreover have "reserves_upto \<sigma> s2"
    using inv stock by (simp add: reserves_upto_def market_inv_upto_def m(5) p(4))
  ultimately show ?thesis using p(1-3) m by (simp add: market_inv_upto_def)
qed

text \<open>A pending trade has one linked order, and only that order's ledgers see it.\<close>

lemma pending_trade_link:
  assumes "trade_row_ok t" "t_status t = PENDING_CONFIRMATION"
  shows "trade_fill j t = (if linked_order_id t = Some j then t_quantity_mt t else 0)"
  using assms by (auto simp: trade_row_ok_def trade_fill_def linked_order_id_def split: option.splits)

lemma decline_move:
  assumes inv: "market_inv_upto \<sigma> s" and old: "trade_of (t_id t) s = Some t" and pend: "t_status t = PENDING_CONFIRMATION"
    and link: "linked_order_id t = Some (o_id x)" "order_of (o_id x) s = Some x0"
    and item: "o_inventory_item_id x = o_inventory_item_id x0"
    and row: "order_row_ok x" "order_filled (filled_quantity s (o_id x) - t_quantity_mt t) x"
    and frame: "same_market (put_trade (declined_trade t) s) s2"
    and stock: "\<And>k. reserved_stock s2 k = reserved_stock s k - (if o_inventory_item_id x0 = Some k then t_quantity_mt t else 0)
        - order_commitment k x0 + order_commitment k x" "\<And>k. 0 \<le> current_stock s2 k"
  shows "market_inv_upto \<sigma> (put_order x s2)"
proof -
  let ?t = "declined_trade t" and ?s = "put_trade (declined_trade t) s"
  have trow: "trade_row_ok t" using inv trade_of_mem [OF old] by (auto simp: market_inv_upto_def rows_ok_def)
  have f: "t_id ?t = t_id t" "t_bid_order_id ?t = t_bid_order_id t" "t_ask_order_id ?t = t_ask_order_id t"
    "t_status ?t = DECLINED" by (simp_all add: declined_trade_def)
  have "trade_row_ok ?t"
    using trow pend by (auto simp: trade_row_ok_def declined_trade_def TRADE_LIFECYCLE_def no_final_def)
  note p = put_trade_parts [OF inv, of ?t t, unfolded f, OF old refl refl this] and m = same_market_parts [OF frame]
  have os: "orders s2 = orders s" using frame by (simp add: same_market_def)
  have x2: "order_of (o_id x) s2 = Some x0" using link(2) by (simp add: os)
  have d: "distinct (map o_id (orders s2))" using p(1) m(1) by (simp add: keys_ok_def)
  have fq: "filled_quantity s2 j = filled_quantity s j - (if o_id x = j then t_quantity_mt t else 0)" for j
    using p(5) [of j] pending_trade_link [OF trow pend, of j] link(1) by (auto simp: m trade_fill_def f)
  have cq: "committed s2 k = committed s k - (if o_inventory_item_id x0 = Some k then t_quantity_mt t else 0)" for k
    using p(4) [of k] pend link by (auto simp: m trade_commitment_def f order_item_def)
  have "fills_ok (put_order x s2)"
    unfolding fills_ok_def
  proof
    fix y assume "y \<in> set (orders (put_order x s2))"
    from orders_put_mem [OF this] show "order_filled (filled_quantity (put_order x s2) (o_id y)) y"
      using row(2) inv by (auto simp: fq os fills_ok_def market_inv_upto_def)
  qed
  moreover have "reserves_upto \<sigma> (put_order x s2)"
    using inv stock by (simp add: reserves_upto_def market_inv_upto_def committed_put_order [OF d x2 item] cq)
  ultimately show ?thesis
    using p(1-3) refs_ok_put_order [OF _ x2 item] rows_ok_put(1) [OF _ row(1)]
    by (simp add: market_inv_upto_def m)
qed

lemma hit_move:
  assumes inv: "market_inv_upto \<sigma> s" and old: "order_of (o_id x) s = Some x" and live: "live_status (o_status x)"
    and q: "0 < q" "q \<le> o_remaining_quantity_mt x"
    and t: "t_id t = next_id s" "trade_row_ok t" "t_status t = PENDING_CONFIRMATION" "t_quantity_mt t = q"
      "linked_order_id t = Some (o_id x)"
    and y: "o_id y = o_id x" "o_inventory_item_id y = o_inventory_item_id x" "order_row_ok y"
      "\<And>f. order_filled f x \<Longrightarrow> order_filled (f + q) y"
      "\<And>k. order_commitment k y = order_commitment k x - (if o_inventory_item_id x = Some k then q else 0)"
  shows "market_inv_upto \<sigma> (put_order y (ins_trade t (s\<lparr>next_id := next_id s + 1\<rparr>)))"
proof -
  define u where "u = ins_trade t (s\<lparr>next_id := next_id s + 1\<rparr>)"
  have p: "keys_ok s" "refs_ok s" "rows_ok s" "fills_ok s" "reserves_upto \<sigma> s" using inv by (simp_all add: market_inv_upto_def)
  have uo: "orders u = orders s" by (simp add: u_def)
  have ku: "keys_ok u" unfolding u_def by (rule keys_ok_ins_trade [OF p(1) t(1)])
  have links: "t_bid_order_id t = Some j \<or> t_ask_order_id t = Some j \<longleftrightarrow> j = o_id x" for j
    using t(2,3,5) by (auto simp: trade_row_ok_def linked_order_id_def split: option.splits)
  have ru: "refs_ok u" unfolding u_def
    using p(2) links order_of_mem [OF old] by (intro refs_ok_ins_trade) auto
  have yo: "order_of (o_id y) u = Some x" using old by (simp add: uo y(1))
  have d: "distinct (map o_id (orders u))" using ku by (simp add: keys_ok_def)
  have fq: "filled_quantity u j = filled_quantity s j + (if j = o_id x then q else 0)" for j
    using pending_trade_link [OF t(2,3), of j] t(4,5) by (simp add: u_def filled_ins_trade)
  have "fills_ok (put_order y u)"
    unfolding fills_ok_def
  proof
    fix z assume "z \<in> set (orders (put_order y u))"
    from orders_put_mem [OF this] show "order_filled (filled_quantity (put_order y u) (o_id z)) z"
      using y(1,4) p(4) order_of_mem [OF old] by (auto simp: fq uo fills_ok_def)
  qed
  moreover have "committed (put_order y u) k = committed s k" for k
    using committed_put_order [OF d yo y(2), of k] y(5) [of k] t(3,4,5) old
    by (simp add: u_def committed_ins_trade trade_commitment_def order_item_def)
  then have "reserves_upto \<sigma> (put_order y u)" using p(5) by (simp add: reserves_upto_def u_def)
  moreover have "refs_ok (put_order y u)" by (rule refs_ok_put_order [OF ru yo y(2)])
  moreover have "rows_ok (put_order y u)"
    unfolding u_def using p(3) t(2) y(3) by (intro rows_ok_put rows_ok_ins) simp_all
  ultimately show ?thesis using ku by (simp add: market_inv_upto_def u_def)
qed

subsection \<open>What the shared steps establish\<close>

lemma load_trade_Inr [simp]: "load_trade s k = Inr t \<longleftrightarrow> trade_of k s = Some t"
  by (auto simp: load_trade_def split: option.splits)

lemma record_command_tables:
  "record_command_success a c b s = Inr s' \<Longrightarrow>
     orders s' = orders s \<and> trades s' = trades s \<and> inventory s' = inventory s \<and> next_id s' = next_id s"
  by (auto simp: record_command_success_def split: option.splits if_splits)

lemma conclude_trade_tables:
  "conclude_trade enc cmd cur v t rc ac ev pub s = Inr (s', r) \<Longrightarrow>
     orders s' = orders s \<and> trades s' = trades s \<and> inventory s' = inventory s \<and> next_id s' = next_id s"
  by (auto simp: conclude_trade_def Let_def dest!: record_command_tables)

lemma conclude_trade_inv:
  "conclude_trade enc cmd cur v t rc ac ev pub s = Inr (s', r) \<Longrightarrow> market_inv_upto \<sigma> s' = market_inv_upto \<sigma> s"
  by (rule market_inv_cong) (auto dest: conclude_trade_tables)

lemma with_replayD:
  "with_replay cmd s run = Inr (s', r) \<Longrightarrow> s' = s \<and> (\<exists>c b. r = Replayed c b) \<or> run = Inr (s', r)"
  by (auto simp: with_replay_def split: option.splits)

text \<open>The rows a transition works on: the trade as it stands under the locks, and its linked order.\<close>

definition links_to :: "market_db \<Rightarrow> trade \<Rightarrow> order option \<Rightarrow> bool" where
  "links_to s t ord \<longleftrightarrow>
     (case ord of None \<Rightarrow> linked_order_id t = None
      | Some x \<Rightarrow> linked_order_id t = Some (o_id x) \<and> order_of (o_id x) s = Some x)"

lemma locked_rows:
  assumes "lock_trade_market_rows e pv s k = Inr (t, ord)"
  shows "trade_of (t_id t) s = Some t" "t_id t = k" "links_to s t ord"
proof -
  from assms obtain x u where u: "trade_of k s = Some u"
    and rest: "(case linked_order_id u of None \<Rightarrow> Inr (u, None)
     | Some j \<Rightarrow>
         (case order_of j s of None \<Rightarrow> Inl (HTTPException 409 ''Trade order no longer exists'')
          | Some y \<Rightarrow>
              if slice_identity (trade_market_slice pv x) \<noteq> order_identity y
              then Inl (HTTPException 409 ''Trade order slice changed; retry the request'')
              else Inr (u, Some y))) = Inr (t, ord)"
    unfolding lock_trade_market_rows_def Let_def by clarsimp
  have "t = u \<and> links_to s u ord"
  proof (cases "linked_order_id u")
    case (Some j)
    with rest obtain y where y: "order_of j s = Some y" by (cases "order_of j s") simp_all
    with rest Some have "t = u" "ord = Some y" by (simp_all split: if_splits)
    with Some y order_of_mem [OF y] show ?thesis by (simp add: links_to_def)
  qed (use rest in \<open>auto simp: links_to_def\<close>)
  with u trade_of_mem [OF u]
  show "trade_of (t_id t) s = Some t" "t_id t = k" "links_to s t ord" by auto
qed

lemma activate_referrals_tables [simp]:
  "orders (activate_referrals n t s) = orders s" "trades (activate_referrals n t s) = trades s"
  "inventory (activate_referrals n t s) = inventory s" "next_id (activate_referrals n t s) = next_id s"
  by (simp_all add: activate_referrals_def)

lemma activate_referrals_inv [simp]: "market_inv_upto \<sigma> (activate_referrals n t s) = market_inv_upto \<sigma> s"
  by (rule market_inv_cong) simp_all

subsection \<open>Confirm, deliver, pay\<close>

lemma confirm_trade_cases:
  assumes "confirm_trade e enc clk h cur k pv s = Inr (s', r)"
  obtains (replayed) "s' = s" "\<exists>c b. r = Replayed c b"
  | (ran) t ord s2 cmd pub a where "trade_of (t_id t) s = Some t" "t_id t = k" "links_to s t ord"
      "t_status t = PENDING_CONFIRMATION"
      "execution_provenance_compatible (t_buyer_provenance t) (t_seller_provenance t)
         (Some (t_buyer_id t)) (Some (t_seller_id t)) None"
      "authorize_assisted_trade_actor s t ord cur (Some (expected_side t)) = Inr a" "confirm_guard t cur a = Inr ()"
      "revalidate_trade_parties s t = Inr ()"
      "(case order_stock ord of None \<Rightarrow> Inr (put_trade (confirmed_trade (clk 1) t) s)
        | Some i \<Rightarrow> consume_inventory i (t_quantity_mt t) (put_trade (confirmed_trade (clk 1) t) s)) = Inr s2"
      "conclude_trade enc cmd cur (refreshed s cur) (confirmed_trade (clk 1) t) (initiator_party t)
        ''trade.confirmed'' ''trade_confirmed'' pub (activate_referrals (clk 2) t s2) = Inr (s', r)"
      "lock_trade_parties s cur t = Inr ()"
  using assms unfolding confirm_trade_def run_confirm_def
  by (clarsimp simp: Let_def simp del: One_nat_def dest!: with_replayD)
    (elim disjE; clarsimp simp del: One_nat_def; blast dest: locked_rows)

lemma decline_trade_cases:
  assumes "decline_trade e enc clk h cur k pv s = Inr (s', r)"
  obtains (replayed) "s' = s" "\<exists>c b. r = Replayed c b"
  | (ran) t ord s2 cmd pub v a where "trade_of (t_id t) s = Some t" "t_id t = k" "links_to s t ord"
      "t_status t = PENDING_CONFIRMATION"
      "authorize_assisted_trade_actor s t ord cur (Some (expected_side t)) = Inr a" "decline_guard t cur a = Inr ()"
      "(case ord of None \<Rightarrow> Inr (put_trade (declined_trade t) s)
        | Some x \<Rightarrow> give_back (clk 1) cur (t_quantity_mt t) x (put_trade (declined_trade t) s)) = Inr s2"
      "conclude_trade enc cmd cur v (declined_trade t) (initiator_party t)
        ''trade.declined'' ''trade_declined'' pub s2 = Inr (s', r)"
  using assms unfolding decline_trade_def run_decline_def
  by (clarsimp simp: Let_def simp del: One_nat_def dest!: with_replayD)
    (elim disjE; clarsimp simp del: One_nat_def; blast dest: locked_rows)

lemma deliver_trade_cases:
  assumes "deliver_trade e enc clk h cur k p pv s = Inr (s', r)"
  obtains (replayed) "s' = s" "\<exists>c b. r = Replayed c b"
  | (ran) t ord cmd pub rc a fq fp where "trade_of (t_id t) s = Some t" "t_id t = k" "links_to s t ord"
      "t_status t = CONFIRMED"
      "bounded_decimal (td_final_quantity_mt p) 100000 = Inr fq"
      "bounded_decimal (td_final_price_per_mt p) 1000000 = Inr fp"
      "authorize_assisted_trade_actor s t ord cur None = Inr a"
      "a \<or> u_organization_id cur = Some (t_buyer_id t) \<and> t_buyer_user_id t = Some (u_id cur)
         \<or> u_organization_id cur = Some (t_seller_id t) \<and> t_seller_user_id t = Some (u_id cur)"
      "revalidate_trade_parties s t = Inr ()" "deliver_guard t fq fp = Inr ()"
      "conclude_trade enc cmd cur (refreshed s cur) (delivered_trade (clk 1) fq fp t) rc
        ''trade.delivered'' ''trade_delivered'' pub (put_trade (delivered_trade (clk 1) fq fp t) s) = Inr (s', r)"
      "lock_trade_parties s cur t = Inr ()"
  using assms unfolding deliver_trade_def run_deliver_def
  by (clarsimp simp: Let_def simp del: One_nat_def dest!: with_replayD)
    (elim disjE; clarsimp simp del: One_nat_def; blast dest: locked_rows)

lemma pay_trade_cases:
  assumes "pay_trade e enc clk h cur k pv s = Inr (s', r)"
  obtains (replayed) "s' = s" "\<exists>c b. r = Replayed c b"
  | (ran) t ord cmd pub a where "trade_of (t_id t) s = Some t" "t_id t = k" "links_to s t ord"
      "t_status t = DELIVERED" "authorize_assisted_trade_actor s t ord cur (Some ASK) = Inr a"
      "a \<or> u_organization_id cur = Some (t_seller_id t) \<and> t_seller_user_id t = Some (u_id cur)"
      "revalidate_trade_parties s t = Inr ()"
      "conclude_trade enc cmd cur (refreshed s cur) (paid_trade (clk 1) t) (t_buyer_id t)
        ''trade.paid'' ''trade_paid'' pub (put_trade (paid_trade (clk 1) t) s) = Inr (s', r)"
      "lock_trade_parties s cur t = Inr ()"
  using assms unfolding pay_trade_def run_pay_def
  by (clarsimp simp: Let_def simp del: One_nat_def dest!: with_replayD)
    (elim disjE; clarsimp simp del: One_nat_def; metis locked_rows)

subsection \<open>The transitions keep the invariant\<close>

lemma pending_commitment:
  assumes "links_to s t ord" "t_status t = PENDING_CONFIRMATION"
  shows "trade_commitment (order_item s) k t = (if order_stock ord = Some k then t_quantity_mt t else 0)"
  using assms by (auto simp: links_to_def trade_commitment_def order_item_def order_stock_def split: option.splits)

lemma settled_commitment: "t_status t \<noteq> PENDING_CONFIRMATION \<Longrightarrow> trade_commitment it k t = 0"
  by (simp add: trade_commitment_def)

lemma inv_trade_row: "market_inv_upto \<sigma> s \<Longrightarrow> trade_of k s = Some t \<Longrightarrow> trade_row_ok t"
  using trade_of_mem by (auto simp: market_inv_upto_def rows_ok_def)

lemma inv_stock_nonneg: "market_inv_upto \<sigma> s \<Longrightarrow> 0 \<le> current_stock s k"
  by (simp add: market_inv_upto_def reserves_upto_def)

lemmas trade_row_simps = trade_row_ok_def TRADE_LIFECYCLE_def no_final_def all_final_def

lemma confirm_trade_inv:
  assumes "market_inv_upto \<sigma> s" "confirm_trade e enc clk h cur k pv s = Inr (s', r)"
  shows "market_inv_upto \<sigma> s'"
  using assms(2)
proof (cases rule: confirm_trade_cases)
  case (ran t ord s2 cmd pub a)
  let ?t = "confirmed_trade (clk 1) t"
  have row: "trade_row_ok t" and f: "t_id ?t = t_id t" "t_bid_order_id ?t = t_bid_order_id t"
    "t_ask_order_id ?t = t_ask_order_id t" "t_quantity_mt ?t = t_quantity_mt t" "t_status ?t = CONFIRMED"
    using inv_trade_row [OF assms(1) ran(1)] by (simp_all add: confirmed_trade_def)
  have q: "0 < t_quantity_mt t" and row1: "trade_row_ok ?t"
    using row ran(4) by (auto simp: trade_row_simps confirmed_trade_def)
  have st: "same_market (put_trade ?t s) s2 \<and> current_stock s2 = current_stock s \<and>
      (\<forall>k. reserved_stock s2 k = reserved_stock s k - (if order_stock ord = Some k then t_quantity_mt t else 0))"
    using ran(9) same_market_stock(2) stock.consume_effect [OF q] by (cases "order_stock ord") fastforce+
  have "market_inv_upto \<sigma> s2"
  proof (rule trade_move [OF assms(1)])
    show "trade_of (t_id ?t) s = Some t" using ran(1) f by simp
    show "trade_fill j ?t = trade_fill j t" for j using f ran(4) by (simp add: trade_fill_def)
    show "reserved_stock s2 k = reserved_stock s k - trade_commitment (order_item s) k t + trade_commitment (order_item s) k ?t" for k
      using st f by (simp add: pending_commitment [OF ran(3,4)] settled_commitment)
  qed (use st f row1 inv_stock_nonneg [OF assms(1)] in auto)
  then show ?thesis using conclude_trade_inv [OF ran(10)] by simp
qed (use assms(1) in simp)

text \<open>Delivery and payment move no stock and no quantity.\<close>

lemma settled_move:
  assumes inv: "market_inv_upto \<sigma> s" and old: "trade_of (t_id t) s = Some t"
    and st: "t_status t \<in> {CONFIRMED, DELIVERED}" "t_status t1 \<in> {DELIVERED, PAID}"
    and same: "t_id t1 = t_id t" "t_bid_order_id t1 = t_bid_order_id t" "t_ask_order_id t1 = t_ask_order_id t"
      "t_quantity_mt t1 = t_quantity_mt t" and row: "trade_row_ok t1"
  shows "market_inv_upto \<sigma> (put_trade t1 s)"
proof (rule trade_move [OF inv])
  show "trade_of (t_id t1) s = Some t" using old same by simp
  show "trade_fill j t1 = trade_fill j t" for j using st same by (auto simp: trade_fill_def)
  have "t_status t \<noteq> PENDING_CONFIRMATION" "t_status t1 \<noteq> PENDING_CONFIRMATION" using st by auto
  then show "reserved_stock (put_trade t1 s) k =
      reserved_stock s k - trade_commitment (order_item s) k t + trade_commitment (order_item s) k t1" for k
    by (simp add: settled_commitment)
qed (use same row inv_stock_nonneg [OF inv] in auto)

lemma deliver_guard_Inr: "deliver_guard t fq fp = Inr () \<Longrightarrow> fq \<le> t_quantity_mt t"
  by (simp add: deliver_guard_def)

lemma deliver_trade_inv:
  assumes "market_inv_upto \<sigma> s" "deliver_trade e enc clk h cur k p pv s = Inr (s', r)"
  shows "market_inv_upto \<sigma> s'"
  using assms(2)
proof (cases rule: deliver_trade_cases)
  case (ran t ord cmd pub rc a fq fp)
  have "trade_row_ok (delivered_trade (clk 1) fq fp t)"
    using inv_trade_row [OF assms(1) ran(1)] ran(4) deliver_guard_Inr [OF ran(10)]
    by (simp add: trade_row_simps delivered_trade_def Let_def)
  then have "market_inv_upto \<sigma> (put_trade (delivered_trade (clk 1) fq fp t) s)"
    by (intro settled_move [OF assms(1) ran(1)]) (simp_all add: ran(4) delivered_trade_def Let_def)
  then show ?thesis using conclude_trade_inv [OF ran(11)] by simp
qed (use assms(1) in simp)

lemma pay_trade_inv:
  assumes "market_inv_upto \<sigma> s" "pay_trade e enc clk h cur k pv s = Inr (s', r)"
  shows "market_inv_upto \<sigma> s'"
  using assms(2)
proof (cases rule: pay_trade_cases)
  case (ran t ord cmd pub a)
  have "trade_row_ok (paid_trade (clk 1) t)"
    using inv_trade_row [OF assms(1) ran(1)] ran(4) by (auto simp: trade_row_simps paid_trade_def split: option.splits)
  then have "market_inv_upto \<sigma> (put_trade (paid_trade (clk 1) t) s)"
    by (intro settled_move [OF assms(1) ran(1)]) (simp_all add: ran(4) paid_trade_def)
  then show ?thesis using conclude_trade_inv [OF ran(8)] by simp
qed (use assms(1) in simp)

text \<open>A declined quantity: the linked order's remaining quantity and its item's stock take it back.\<close>

lemma fill_le_filled:
  assumes "rows_ok s" "t \<in> set (trades s)"
  shows "trade_fill j t \<le> filled_quantity s j"
  unfolding filled_quantity_def using assms
  by (intro member_le_sum_list) (auto simp: rows_ok_def trade_fill_def trade_row_ok_def less_imp_le)

lemma order_changed_inv [simp]: "market_inv_upto \<sigma> (order_changed x s) = market_inv_upto \<sigma> s"
  by (simp add: order_changed_def)

lemma given_back_orders:
  assumes "order_row_ok x" "order_filled f x" "0 < q" "q \<le> f" "\<not> withdrawn (o_status x)"
  shows "order_row_ok (expired_order q x) \<and> order_filled (f - q) (expired_order q x)"
    and "order_row_ok (restored_order q x) \<and> order_filled (f - q) (restored_order q x)"
    and "order_commitment k (expired_order q x) = 0"
    and "order_commitment k (restored_order q x) = (if o_inventory_item_id x = Some k then o_remaining_quantity_mt x + q else 0)"
    and "order_commitment k x = (if o_inventory_item_id x = Some k then o_remaining_quantity_mt x else 0)"
  using assms
  by (auto simp: order_row_ok_def order_filled_def expired_order_def restored_order_def bump_version_def withdrawn_def
      ORDER_LIFECYCLE_def order_commitment_def live_status_def Let_def)

lemma give_back_inv:
  assumes inv: "market_inv_upto \<sigma> s" and old: "trade_of (t_id t) s = Some t" and pend: "t_status t = PENDING_CONFIRMATION"
    and link: "links_to s t (Some x)"
    and run: "give_back now cur (t_quantity_mt t) x (put_trade (declined_trade t) s) = Inr s2"
  shows "market_inv_upto \<sigma> s2"
proof -
  let ?s = "put_trade (declined_trade t) s" and ?q = "t_quantity_mt t" and ?f = "filled_quantity s (o_id x)"
  have lk: "linked_order_id t = Some (o_id x)" and xo: "order_of (o_id x) s = Some x"
    using link by (simp_all add: links_to_def)
  have row: "trade_row_ok t" and r: "rows_ok s" and t: "t \<in> set (trades s)" and x: "x \<in> set (orders s)"
    and kk: "keys_ok s"
    using inv_trade_row [OF inv old] inv trade_of_mem [OF old] order_of_mem [OF xo] by (auto simp: market_inv_upto_def)
  have q: "0 < ?q" using row by (simp add: trade_row_ok_def)
  have qf: "?q \<le> ?f" using fill_le_filled [OF r t, of "o_id x"] pending_trade_link [OF row pend] lk by simp
  have xr: "order_row_ok x" and xf: "order_filled ?f x" using inv x by (auto simp: market_inv_upto_def rows_ok_def fills_ok_def)
  note move = decline_move [OF inv old pend] and nonneg = inv_stock_nonneg [OF inv]
  note rel = stock.release_effect [of _ _ ?s, unfolded stock_frame]
  show ?thesis
  proof (cases "withdrawn (o_status x)")
    case True
    then have run': "(case o_inventory_item_id x of None \<Rightarrow> Inr ?s | Some i \<Rightarrow> release_inventory i ?q ?s) = Inr s2"
      using run by (simp add: give_back_def)
    have f: "same_market ?s s2" and st: "reserved_stock s2 k = reserved_stock s k - (if o_inventory_item_id x = Some k then ?q else 0)"
      "0 \<le> current_stock s2 k" for k
      using run' same_market_stock(3) rel [OF q] nonneg [of k] q by (cases "o_inventory_item_id x"; fastforce)+
    have "market_inv_upto \<sigma> (put_order x s2)"
      using True xf q st by (intro move [OF lk xo refl xr _ f]) (auto simp: order_filled_def)
    moreover have "keys_ok s2" "order_of (o_id x) s2 = Some x"
      using same_market_parts(1) [OF f] kk f xo by (simp_all add: same_market_def)
    ultimately show ?thesis by (simp add: put_order_same)
  next
    case live: False
    note g = given_back_orders [OF xr xf q qf live]
    show ?thesis
    proof (cases "order_expired now x")
      case True
      let ?x = "expired_order ?q x"
      have ids: "o_id ?x = o_id x" "o_inventory_item_id ?x = o_inventory_item_id x"
        "o_remaining_quantity_mt ?x = o_remaining_quantity_mt x + ?q" by (simp_all add: expired_order_def)
      have pos: "0 < o_remaining_quantity_mt x + ?q" using xr q by (simp add: order_row_ok_def)
      from run True live pos obtain s1 where
        s1: "(case o_inventory_item_id x of None \<Rightarrow> Inr ?s
              | Some i \<Rightarrow> release_inventory i (o_remaining_quantity_mt x + ?q) ?s) = Inr s1"
        and s2: "s2 = record_audit (Some (u_id cur)) ''order.expired'' ''order'' (o_id x) (order_changed x (put_order ?x s1))"
        by (auto simp: give_back_def Let_def ids split: option.splits)
      have f: "same_market ?s s1" and st: "reserved_stock s1 k =
          reserved_stock s k - (if o_inventory_item_id x = Some k then o_remaining_quantity_mt x + ?q else 0)"
        "0 \<le> current_stock s1 k" for k
        using s1 same_market_stock(3) rel [OF pos] nonneg [of k] pos by (cases "o_inventory_item_id x"; fastforce)+
      have "market_inv_upto \<sigma> (put_order ?x s1)"
        using lk xo g(1) f st g(3,5)
        by (intro move [of ?x x]) (simp_all add: ids)
      then show ?thesis by (simp add: s2)
    next
      case False
      let ?x = "restored_order ?q x"
      have ids: "o_id ?x = o_id x" "o_inventory_item_id ?x = o_inventory_item_id x"
        by (simp_all add: restored_order_def Let_def)
      have s2: "s2 = order_changed x (put_order ?x ?s)" using run False live by (simp add: give_back_def)
      have "market_inv_upto \<sigma> (put_order ?x ?s)"
        using lk xo g(2,4,5) nonneg by (intro move [of ?x x]) (simp_all add: ids)
      then show ?thesis by (simp add: s2)
    qed
  qed
qed

lemma decline_trade_inv:
  assumes "market_inv_upto \<sigma> s" "decline_trade e enc clk h cur k pv s = Inr (s', r)"
  shows "market_inv_upto \<sigma> s'"
  using assms(2)
proof (cases rule: decline_trade_cases)
  case (ran t ord s2 cmd pub v a)
  have "market_inv_upto \<sigma> s2"
  proof (cases ord)
    case None
    have row: "trade_row_ok t" by (rule inv_trade_row [OF assms(1) ran(1)])
    have "linked_order_id t = None" using ran(3) None by (simp add: links_to_def)
    then have "trade_fill j t = 0" for j using pending_trade_link [OF row ran(4)] by simp
    moreover have "trade_row_ok (declined_trade t)" using row ran(4) by (auto simp: trade_row_simps declined_trade_def)
    moreover have "s2 = put_trade (declined_trade t) s" using ran(7) None by simp
    moreover have "trade_commitment (order_item s) k t = 0" for k
      by (simp add: pending_commitment [OF ran(3,4)] None order_stock_def)
    ultimately show ?thesis
      using ran(1) inv_stock_nonneg [OF assms(1)]
      by (intro trade_move [OF assms(1), of "declined_trade t" t])
        (simp_all add: declined_trade_def settled_commitment trade_fill_def)
  next
    case (Some x)
    then show ?thesis using give_back_inv [OF assms(1) ran(1,4), of x] ran(3,7) by simp
  qed
  then show ?thesis using conclude_trade_inv [OF ran(8)] by simp
qed (use assms(1) in simp)

end
