(* ===== verification/Trade_Creation.thy ===== *)
theory Trade_Creation
  imports Trade_Ledger
begin

section \<open>Hitting an order\<close>

text \<open>
  What a successful \<open>create_trade\<close> establishes: which order it hits and under which conditions, the
  trade it inserts, and that it keeps the market invariant. The analysis of a run is one case rule
  (\<open>create_trade_cases\<close>): the answer of an earlier request under the same key, or a new trade.
\<close>

lemma trade_create_schema_Inr:
  assumes "trade_create_schema p = Inr q"
  shows "0 < q" "q \<le> 100000" "q = pydec_val (tc_quantity_mt p)" "scale2 q"
proof -
  from assms obtain v where "finite_decimal (tc_quantity_mt p) 2 = Inr v" "q = pydec_val v" "0 < q" "q \<le> 100000"
    unfolding trade_create_schema_def Let_def
    by (cases "finite_decimal (tc_quantity_mt p) 2") (simp_all add: not_le not_less split: if_splits)
  then show "0 < q" "q \<le> 100000" "q = pydec_val (tc_quantity_mt p)" "scale2 q"
    using finite_decimal_Inr [of "tc_quantity_mt p" v] by auto
qed

lemma lock_target_order_Inr:
  assumes "lock_target_order e pv s p = Inr x"
  shows "order_of (o_id x) s = Some x" "o_id x = tc_order_id p" "tc_expected_terms_digest p = Some (order_terms_digest e x)"
proof -
  from assms have x: "order_of (tc_order_id p) s = Some x"
    and d: "tc_expected_terms_digest p = Some (order_terms_digest e x)"
    unfolding lock_target_order_def Let_def by (cases "order_of (tc_order_id p) s"; force)+
  show "o_id x = tc_order_id p" using order_of_mem [OF x] by simp
  then show "order_of (o_id x) s = Some x" using x by simp
  show "tc_expected_terms_digest p = Some (order_terms_digest e x)" by (rule d)
qed

lemma admit_target_Inr:
  assumes "admit_target s clk g cur x = Inr ()"
  shows "live_status (o_status x)" "\<not> order_expired (clk 1) x" "order_is_execution_qualified x"
    "o_provenance x \<notin> {DEMO, TEST, CANARY}" "o_organization_id x \<noteq> g" "catalog_listed s x"
    "\<not> is_demo_market_organization (Some (o_organization_id x))"
    "u_role (refreshed s cur) = Some (if o_side x = ASK then BUYER else SUPPLIER)"
    "execution_provenance_compatible (snapshot_organization_provenance (organization_of g s)) (o_provenance x)
       (Some g) (Some (o_organization_id x)) None"
    "execution_party_is_eligible s (user_of (u_id cur) s) (organization_of g s)"
    "\<exists>u. o_owner_user_id x = Some u \<and>
       order_owner_is_execution_eligible s x (user_of u s) (organization_of (o_organization_id x) s)"
  using assms unfolding admit_target_def
  by (simp_all del: One_nat_def split: if_splits option.splits)

lemma place_hit_cases:
  assumes "place_hit clk cur g x qty fee idem s = Inr (s', r)"
  obtains (replayed) "s' = s"
  | (placed) "orders s' = orders (put_order (hit_order qty x) s)"
      "trades s' = trades s @ [hit_trade s cur g x qty fee idem (clk 3)]"
      "inventory s' = inventory s" "next_id s' = next_id s + 1"
proof (cases "case idem of None \<Rightarrow> None | Some (key, h) \<Rightarrow> created_under_key s g key")
  case None
  with assms show ?thesis
    unfolding place_hit_def None option.case Let_def
    by (intro placed) (auto simp: put_order_def ins_trade_def)
next
  case (Some w)
  with assms show ?thesis unfolding place_hit_def Some option.case by (intro replayed) auto
qed

lemma create_trade_cases:
  assumes "create_trade e cfg clk h cur p pv s = Inr (s', r)"
  obtains (replayed) "s' = s"
  | (ran) qty g idem x fee where "trade_create_schema p = Inr qty" "u_organization_id cur = Some g"
      "lock_target_order e pv s p = Inr x" "admit_target s clk g cur x = Inr ()" "qty \<le> o_remaining_quantity_mt x"
      "resolve_seller_trade_fee cfg s (if o_side x = ASK then o_organization_id x else g) (clk 2) = Inr fee"
      "orders s' = orders (put_order (hit_order qty x) s)"
      "trades s' = trades s @ [hit_trade s cur g x qty fee idem (clk 3)]"
      "inventory s' = inventory s" "next_id s' = next_id s + 1"
proof -
  from assms obtain g qty where g: "u_organization_id cur = Some g" and q: "trade_create_schema p = Inr qty"
    unfolding create_trade_def by (cases "u_organization_id cur") auto
  from assms obtain idem replay where run: "(case replay of Some r \<Rightarrow> Inr (s, r) | None \<Rightarrow>
       bindR (lock_target_order e pv s p) (\<lambda>ord.
       bindR (admit_target s clk g cur ord) (\<lambda>_.
       bindR (refuse (o_remaining_quantity_mt ord < qty)
                (HTTPException 400 ''Requested quantity exceeds remaining'')) (\<lambda>_.
       bindR (resolve_seller_trade_fee cfg s (if o_side ord = ASK then o_organization_id ord else g) (clk 2)) (\<lambda>fee.
       place_hit clk cur g ord qty fee idem s))))) = Inr (s', r)"
    unfolding create_trade_def g q option.case by auto
  show thesis
  proof (cases replay)
    case (Some r)
    with run replayed show ?thesis by simp
  next
    case None
    with run obtain x fee where x: "lock_target_order e pv s p = Inr x" "admit_target s clk g cur x = Inr ()"
      "qty \<le> o_remaining_quantity_mt x"
      "resolve_seller_trade_fee cfg s (if o_side x = ASK then o_organization_id x else g) (clk 2) = Inr fee"
      and hit: "place_hit clk cur g x qty fee idem s = Inr (s', r)"
      by (auto simp: not_less)
    from hit show ?thesis
    proof (cases rule: place_hit_cases)
      case placed
      from ran [OF q g x this] show ?thesis .
    qed (rule replayed)
  qed
qed

subsection \<open>The invariant\<close>

lemma hit_order_row:
  assumes "order_row_ok x" "live_status (o_status x)" "0 < q" "q \<le> o_remaining_quantity_mt x"
  shows "order_row_ok (hit_order q x)" "order_filled f x \<Longrightarrow> order_filled (f + q) (hit_order q x)"
    "order_commitment k (hit_order q x) = order_commitment k x - (if o_inventory_item_id x = Some k then q else 0)"
  using assms by (auto simp: order_row_ok_def hit_order_def Let_def ORDER_LIFECYCLE_def live_status_def
      order_filled_def withdrawn_def order_commitment_def)

lemma hit_trade_fields:
  "t_id (hit_trade s cur g x q fee idem c) = next_id s" "t_status (hit_trade s cur g x q fee idem c) = PENDING_CONFIRMATION"
  "t_quantity_mt (hit_trade s cur g x q fee idem c) = q" "linked_order_id (hit_trade s cur g x q fee idem c) = Some (o_id x)"
  "0 < q \<Longrightarrow> trade_row_ok (hit_trade s cur g x q fee idem c)"
  by (simp_all add: hit_trade_def Let_def linked_order_id_def trade_row_simps)

lemma create_trade_inv:
  assumes "market_inv_upto \<sigma> s" "create_trade e cfg clk h cur p pv s = Inr (s', r)"
  shows "market_inv_upto \<sigma> s'"
  using assms(2)
proof (cases rule: create_trade_cases)
  case (ran qty g idem x fee)
  let ?t = "hit_trade s cur g x qty fee idem (clk 3)"
  have q: "0 < qty" and x: "order_of (o_id x) s = Some x" and live: "live_status (o_status x)"
    using trade_create_schema_Inr(1) [OF ran(1)] lock_target_order_Inr(1) [OF ran(3)] admit_target_Inr(1) [OF ran(4)] .
  have row: "order_row_ok x" using assms(1) order_of_mem [OF x] by (auto simp: market_inv_upto_def rows_ok_def)
  note h = hit_order_row [OF row live q ran(5)] and t = hit_trade_fields [where s = s and cur = cur and g = g and x = x and q = qty and fee = fee and idem = idem and c = "clk 3"]
  have "market_inv_upto \<sigma> (put_order (hit_order qty x) (ins_trade ?t (s\<lparr>next_id := next_id s + 1\<rparr>)))"
    by (rule hit_move [OF assms(1) x live q ran(5)]) (use h t q in \<open>simp_all add: hit_order_def Let_def\<close>)
  moreover have "market_inv_upto \<sigma> s' = market_inv_upto \<sigma> (put_order (hit_order qty x) (ins_trade ?t (s\<lparr>next_id := next_id s + 1\<rparr>)))"
    by (rule market_inv_cong) (simp_all add: ran put_order_def ins_trade_def)
  ultimately show ?thesis by simp
qed (use assms(1) in simp)

end
