(* ===== verification/Trade_Commands.thy ===== *)
theory Trade_Commands
  imports Trade_Creation Matching_Refinement
begin

section \<open>The life of a trade\<close>

text \<open>
  The four commands on an existing trade as one dispatcher (\<open>run_trade_command\<close>, the routes
  \<^verbatim>\<open>/{trade_id}/confirm\<close>, \<^verbatim>\<open>/decline\<close>, \<^verbatim>\<open>/deliver\<close> and \<^verbatim>\<open>/pay\<close>), and the properties of the whole
  lifecycle: the state machine of a trade, who may drive it, that the ledgers stay balanced, and
  that a pending trade can always be confirmed by its counterparty.
\<close>

datatype TradeCommand = Confirm | Decline | Deliver TradeDeliverPayload | Pay

definition run_trade_command ::
  "env \<Rightarrow> (TradeResponse \<Rightarrow> string) \<Rightarrow> (nat \<Rightarrow> time) \<Rightarrow> string option \<Rightarrow> user \<Rightarrow> uuid \<Rightarrow> TradeCommand \<Rightarrow> market_db
     \<Rightarrow> market_db \<Rightarrow> (market_db \<times> TradeResponse reply) result"
where
  "run_trade_command e enc clk h cur k c pv s =
     (case c of Confirm \<Rightarrow> confirm_trade e enc clk h cur k pv s
      | Decline \<Rightarrow> decline_trade e enc clk h cur k pv s
      | Deliver p \<Rightarrow> deliver_trade e enc clk h cur k p pv s
      | Pay \<Rightarrow> pay_trade e enc clk h cur k pv s)"

text \<open>The specification of the state machine: where a command starts and where it leads.\<close>

fun command_edge :: "TradeCommand \<Rightarrow> TradeStatus \<times> TradeStatus" where
  "command_edge Confirm = (PENDING_CONFIRMATION, CONFIRMED)"
| "command_edge Decline = (PENDING_CONFIRMATION, DECLINED)"
| "command_edge (Deliver _) = (CONFIRMED, DELIVERED)"
| "command_edge Pay = (DELIVERED, PAID)"

definition other_org :: "trade \<Rightarrow> uuid" where
  "other_org t = (if t_initiated_by t = BY_BUYER then t_seller_id t else t_buyer_id t)"

definition other_user :: "trade \<Rightarrow> uuid option" where
  "other_user t = (if t_initiated_by t = BY_BUYER then t_seller_user_id t else t_buyer_user_id t)"

lemma run_trade_command_inv:
  assumes "market_inv_upto \<sigma> s" "run_trade_command e enc clk h cur k c pv s = Inr (s', r)"
  shows "market_inv_upto \<sigma> s'"
  using assms(2) confirm_trade_inv [OF assms(1), of e enc clk h cur k pv s' r]
    decline_trade_inv [OF assms(1), of e enc clk h cur k pv s' r]
    deliver_trade_inv [OF assms(1), of e enc clk h cur k _ pv s' r] pay_trade_inv [OF assms(1), of e enc clk h cur k pv s' r]
  by (cases c) (simp_all only: run_trade_command_def TradeCommand.case)

subsection \<open>The counterparty can confirm\<close>

lemma eligible_organization:
  "execution_party_is_eligible s (Some u) (Some g) \<Longrightarrow>
     u_organization_id u = Some (g_id g) \<and> g_verification_status g = ''APPROVED'' \<and> u_role u \<noteq> Some ADMIN"
  by (auto simp: execution_party_is_eligible_def split: option.splits)

lemma execution_party_row:
  "execution_party_is_eligible s (Some u) (Some g) \<Longrightarrow> organization_of (g_id g) s = Some g \<Longrightarrow>
     execution_party_is_eligible s (Some u) (organization_of (g_id g) s)"
  by simp

lemma confirm_guard_other:
  assumes "u_organization_id cur = Some (other_org t)" "other_user t = Some (u_id cur)"
  shows "confirm_guard t cur a = Inr ()"
  using assms by (auto simp: confirm_guard_def other_org_def other_user_def)

lemma lock_trade_parties_ok:
  assumes "user_of (u_id cur) s = Some cur" "u_organization_id cur = Some g" "g \<in> {t_buyer_id t, t_seller_id t}"
    and "organization_of (t_buyer_id t) s = Some b" "g_verification_status b = ''APPROVED''"
    and "organization_of (t_seller_id t) s = Some c" "g_verification_status c = ''APPROVED''"
    and "execution_party_is_eligible s (Some cur) (organization_of g s)"
  shows "lock_trade_parties s cur t = Inr ()"
proof -
  have "py_upper ''APPROVED'' = ''APPROVED''" by code_simp
  then show ?thesis
    using assms by (auto simp: lock_trade_parties_def lock_and_load_market_organizations_def ownership_by_user_def Let_def)
qed

text \<open>
  A trade that stands as its order left it: it is pending or settled on a self-service order of the
  same slice, both parties are as they were when it was made, and \<open>cur\<close> is the row of one of them.
\<close>

definition ready_trade :: "env \<Rightarrow> market_db \<Rightarrow> user \<Rightarrow> trade \<Rightarrow> order \<Rightarrow> bool" where
  "ready_trade e s cur t x \<longleftrightarrow>
     trade_of (t_id t) s = Some t \<and> links_to s t (Some x) \<and> o_creation_method x \<noteq> MARKET_SUPPORT
     \<and> slice_identity (trade_market_slice s t) = order_identity x
     \<and> (case trade_market_slice s t of None \<Rightarrow> True | Some key \<Rightarrow> acquire_market_slice_lock e key = Inr ())
     \<and> user_of (u_id cur) s = Some cur
     \<and> (case (t_buyer_user_id t, t_seller_user_id t) of
          (Some bu, Some su) \<Rightarrow>
            (case (user_of bu s, organization_of (t_buyer_id t) s, user_of su s, organization_of (t_seller_id t) s) of
               (Some b, Some bg, Some c, Some cg) \<Rightarrow>
                 execution_party_is_eligible s (Some b) (Some bg) \<and> execution_party_is_eligible s (Some c) (Some cg)
                 \<and> (cur = b \<or> cur = c)
             | _ \<Rightarrow> False)
        | _ \<Rightarrow> False)"

lemma ready_parties:
  assumes "ready_trade e s cur t x"
  obtains b bg c cg where "t_buyer_user_id t = Some (u_id b)" "t_seller_user_id t = Some (u_id c)"
    "user_of (u_id b) s = Some b" "user_of (u_id c) s = Some c"
    "organization_of (t_buyer_id t) s = Some bg" "organization_of (t_seller_id t) s = Some cg"
    "g_id bg = t_buyer_id t" "g_id cg = t_seller_id t"
    "execution_party_is_eligible s (Some b) (Some bg)" "execution_party_is_eligible s (Some c) (Some cg)"
    "cur = b \<or> cur = c"
proof -
  from assms obtain bu su b bg c cg where
    r: "t_buyer_user_id t = Some bu" "t_seller_user_id t = Some su" "user_of bu s = Some b" "user_of su s = Some c"
    "organization_of (t_buyer_id t) s = Some bg" "organization_of (t_seller_id t) s = Some cg"
    and el: "execution_party_is_eligible s (Some b) (Some bg)" "execution_party_is_eligible s (Some c) (Some cg)"
    "cur = b \<or> cur = c"
    by (auto simp: ready_trade_def split: option.splits)
  note m = row_by_SomeD [OF r(3)] row_by_SomeD [OF r(4)] row_by_SomeD [OF r(5)] row_by_SomeD [OF r(6)]
  from that [of b c bg cg] r el m show thesis by simp
qed

lemma ready_locks:
  assumes "ready_trade e s cur t x"
  shows "lock_trade_market_rows e s s (t_id t) = Inr (t, Some x)" "lock_trade_parties s cur t = Inr ()"
    "require_execution_eligible_user s cur = Inr cur" "refreshed s cur = cur"
    "authorize_assisted_trade_actor s t (Some x) cur side = Inr False"
    "u_organization_id cur = Some (t_buyer_id t) \<and> t_buyer_user_id t = Some (u_id cur)
     \<or> u_organization_id cur = Some (t_seller_id t) \<and> t_seller_user_id t = Some (u_id cur)"
proof -
  from assms have r: "trade_of (t_id t) s = Some t" "linked_order_id t = Some (o_id x)" "order_of (o_id x) s = Some x"
    "o_creation_method x \<noteq> MARKET_SUPPORT" "slice_identity (trade_market_slice s t) = order_identity x"
    "(case trade_market_slice s t of None \<Rightarrow> Inr () | Some key \<Rightarrow> acquire_market_slice_lock e key) = Inr ()"
    "user_of (u_id cur) s = Some cur"
    by (auto simp: ready_trade_def links_to_def split: option.splits)
  show "lock_trade_market_rows e s s (t_id t) = Inr (t, Some x)"
    using r by (simp add: lock_trade_market_rows_def load_trade_def Let_def)
  show "authorize_assisted_trade_actor s t (Some x) cur side = Inr False"
    using r(4) by (simp add: authorize_assisted_trade_actor_def assisted_trade_side_def)
  show "refreshed s cur = cur" using r(7) by (simp add: refreshed_def)
  from assms obtain b bg c cg where p: "t_buyer_user_id t = Some (u_id b)" "t_seller_user_id t = Some (u_id c)"
    "user_of (u_id b) s = Some b" "user_of (u_id c) s = Some c"
    "organization_of (t_buyer_id t) s = Some bg" "organization_of (t_seller_id t) s = Some cg"
    "g_id bg = t_buyer_id t" "g_id cg = t_seller_id t"
    "execution_party_is_eligible s (Some b) (Some bg)" "execution_party_is_eligible s (Some c) (Some cg)"
    "cur = b \<or> cur = c" by (rule ready_parties)
  note el = eligible_organization [OF p(9)] eligible_organization [OF p(10)]
  show "u_organization_id cur = Some (t_buyer_id t) \<and> t_buyer_user_id t = Some (u_id cur)
     \<or> u_organization_id cur = Some (t_seller_id t) \<and> t_seller_user_id t = Some (u_id cur)"
    using p el by auto
  show "lock_trade_parties s cur t = Inr ()"
    using p el r(7) by (intro lock_trade_parties_ok [where b = bg and c = cg and g = "the (u_organization_id cur)"]) auto
  show "require_execution_eligible_user s cur = Inr cur"
    using p el by (auto simp: require_execution_eligible_user_def Let_def)
qed

lemma ready_revalidate:
  assumes "ready_trade e s cur t x" "t_bid_order_id t = None \<or> t_ask_order_id t = None"
  shows "revalidate_trade_parties s t = Inr ()"
proof -
  from assms(1) obtain b bg c cg where p: "t_buyer_user_id t = Some (u_id b)" "t_seller_user_id t = Some (u_id c)"
    "user_of (u_id b) s = Some b" "user_of (u_id c) s = Some c"
    "organization_of (t_buyer_id t) s = Some bg" "organization_of (t_seller_id t) s = Some cg"
    "execution_party_is_eligible s (Some b) (Some bg)" "execution_party_is_eligible s (Some c) (Some cg)"
    by (rule ready_parties) blast
  have x: "o_creation_method x \<noteq> MARKET_SUPPORT" "linked_order_id t = Some (o_id x)" "order_of (o_id x) s = Some x"
    using assms(1) by (auto simp: ready_trade_def links_to_def)
  have "loaded_order s (t_bid_order_id t) \<in> {None, Some x}" "loaded_order s (t_ask_order_id t) \<in> {None, Some x}"
    using x assms(2) by (auto simp: loaded_order_def linked_order_id_def split: option.splits)
  then show ?thesis
    using p x(1) by (auto simp: revalidate_trade_parties_def Let_def order_owner_is_execution_eligible_def)
qed

lemma conclude_trade_None:
  assumes "py_strip event \<noteq> []"
  shows "\<exists>s' r. conclude_trade enc None cur v t rc action event pub s = Inr (s', Fresh r)"
proof -
  have "py_strip ''trade'' \<noteq> []" by code_simp
  with assms show ?thesis
    by (simp add: conclude_trade_def participant_market_event_def record_command_success_def Let_def)
qed

text \<open>The reserved stock of an item always covers each pending trade drawn from it.\<close>

lemma reservation_covers:
  assumes inv: "market_inv_upto \<sigma> s" and t: "trade_of (t_id t) s = Some t" "links_to s t ord" "t_status t = PENDING_CONFIRMATION"
    and i: "order_stock ord = Some i"
  shows "\<exists>it. item_of i s = Some it \<and> t_quantity_mt t \<le> i_reserved_stock_mt it"
proof -
  have p: "refs_ok s" "rows_ok s" "reserves_upto \<sigma> s" using inv by (simp_all add: market_inv_upto_def)
  from t(2) i obtain x where x: "ord = Some x" "o_inventory_item_id x = Some i" "order_of (o_id x) s = Some x"
    by (auto simp: order_stock_def links_to_def split: option.splits)
  from p(1) order_of_mem [OF x(3)] x(2) have "i \<in> i_id ` set (inventory s)" by (auto simp: refs_ok_def)
  then obtain it where it: "item_of i s = Some it" by (metis row_by_None_iff option.exhaust)
  have nonneg: "0 \<le> order_commitment i y" "0 \<le> trade_commitment (order_item s) i u"
    if "y \<in> set (orders s)" "u \<in> set (trades s)" for y u
    using p(2) that by (auto simp: rows_ok_def order_commitment_def trade_commitment_def order_row_ok_def
        trade_row_ok_def less_imp_le)
  have t_mem: "t \<in> set (trades s)" using trade_of_mem [OF t(1)] by simp
  then have "trade_commitment (order_item s) i t \<le> sum_list (map (trade_commitment (order_item s) i) (trades s))"
    using nonneg(2) order_of_mem [OF x(3)] by (intro member_le_sum_list) auto
  moreover have "0 \<le> sum_list (map (order_commitment i) (orders s))"
    using nonneg(1) t_mem by (intro sum_list_nonneg) auto
  ultimately have "t_quantity_mt t \<le> committed s i"
    by (simp add: committed_def pending_commitment [OF t(2,3)] i)
  moreover have "reserved_stock s i = committed s i + \<sigma> i" "0 \<le> \<sigma> i" using p(3) unfolding reserves_upto_def by blast+
  ultimately show ?thesis using it by (simp add: reserved_stock_def)
qed

lemma consume_covered:
  "item_of i s = Some it \<Longrightarrow> q \<le> i_reserved_stock_mt it \<Longrightarrow> \<exists>s'. consume_inventory i q s = Inr s'"
  by (auto simp: consume_inventory_def)

lemma confirm_succeeds:
  assumes inv: "market_inv_upto \<sigma> s" and ready: "ready_trade e s cur t x" and pend: "t_status t = PENDING_CONFIRMATION"
    and prov: "execution_provenance_compatible (t_buyer_provenance t) (t_seller_provenance t)
      (Some (t_buyer_id t)) (Some (t_seller_id t)) None"
    and cur: "u_organization_id cur = Some (other_org t)" "other_user t = Some (u_id cur)"
  shows "\<exists>s' r. confirm_trade e enc clk None cur (t_id t) s s = Inr (s', Fresh r)"
proof -
  let ?s = "put_trade (confirmed_trade (clk 1) t) s"
  have t: "trade_of (t_id t) s = Some t" "links_to s t (Some x)" using ready by (auto simp: ready_trade_def)
  have "t_bid_order_id t = None \<or> t_ask_order_id t = None"
    using inv_trade_row [OF inv t(1)] pend by (simp add: trade_row_ok_def)
  note l = ready_locks [OF ready] and rv = ready_revalidate [OF ready this]
  have "\<exists>s2. (case order_stock (Some x) of None \<Rightarrow> Inr ?s | Some i \<Rightarrow> consume_inventory i (t_quantity_mt t) ?s) = Inr s2"
    using reservation_covers [OF inv t pend] consume_covered by (cases "order_stock (Some x)") force+
  then obtain s2 where s2: "(case order_stock (Some x) of None \<Rightarrow> Inr ?s
      | Some i \<Rightarrow> consume_inventory i (t_quantity_mt t) ?s) = Inr s2" ..
  have "py_strip ''trade_confirmed'' \<noteq> []" by code_simp
  from conclude_trade_None [OF this] show ?thesis
    by (simp add: confirm_trade_def run_confirm_def trade_command_def prepare_command_attempt_def with_replay_def l rv pend prov
        confirm_guard_other [OF cur] s2 Let_def del: One_nat_def)
qed

subsection \<open>What a command changes\<close>

lemma conclude_trade_response:
  "conclude_trade enc cmd cur v t rc action event pub s = Inr (s', r) \<Longrightarrow>
     \<exists>s2. r = Fresh (build_trade_response s2 t (u_organization_id cur) (u_role v = Some ADMIN))"
  by (auto simp: conclude_trade_def Let_def)

lemma order_changed_tables [simp]:
  "trades (order_changed x s) = trades s" "orders (order_changed x s) = orders s"
  "inventory (order_changed x s) = inventory s" "next_id (order_changed x s) = next_id s"
  by (simp_all add: order_changed_def)

lemma release_trades: "release_inventory i q s = Inr s' \<Longrightarrow> trades s' = trades s"
  using same_market_stock(3) by (auto simp: same_market_def)

lemma give_back_trades:
  assumes "give_back now cur q x s = Inr s'"
  shows "trades s' = trades s"
proof (cases "o_inventory_item_id x")
  case None
  with assms show ?thesis by (auto simp: give_back_def Let_def split: if_splits)
next
  case (Some i)
  with assms show ?thesis
    unfolding give_back_def Let_def Some option.case by (auto split: if_splits dest: release_trades)
qed

definition command_row :: "TradeCommand \<Rightarrow> (nat \<Rightarrow> time) \<Rightarrow> trade \<Rightarrow> trade" where
  "command_row c clk t = (case c of Confirm \<Rightarrow> confirmed_trade (clk 1) t | Decline \<Rightarrow> declined_trade t
     | Deliver p \<Rightarrow> delivered_trade (clk 1) (pydec_val (td_final_quantity_mt p)) (pydec_val (td_final_price_per_mt p)) t
     | Pay \<Rightarrow> paid_trade (clk 1) t)"

lemma bounded_decimal_Inr:
  assumes "bounded_decimal v m = Inr q"
  shows "q = pydec_val v" "0 < q" "q \<le> m" "scale2 q"
proof -
  from assms obtain w where "finite_decimal v 2 = Inr w" "q = pydec_val w" "0 < q" "q \<le> m"
    by (auto simp: bounded_decimal_def split: sum.splits if_splits)
  with finite_decimal_Inr [of v w] show "q = pydec_val v" "0 < q" "q \<le> m" "scale2 q" by auto
qed

lemma run_trade_command_row:
  assumes "run_trade_command e enc clk h cur k c pv s = Inr (s', Fresh r)"
  obtains t s2 adm where "trade_of (t_id t) s = Some t" "t_id t = k" "t_status t = fst (command_edge c)"
    "trades s' = trades (put_trade (command_row c clk t) s)"
    "r = build_trade_response s2 (command_row c clk t) (u_organization_id cur) adm"
proof (cases c)
  case Confirm
  with assms have "confirm_trade e enc clk h cur k pv s = Inr (s', Fresh r)" by (simp add: run_trade_command_def)
  then show ?thesis
  proof (cases rule: confirm_trade_cases)
    case (ran t ord s2 cmd pub a)
    have "trades s2 = trades (put_trade (confirmed_trade (clk 1) t) s)"
      using ran(9) same_market_stock(2) by (cases "order_stock ord") (auto simp: same_market_def simp del: One_nat_def)
    then have "trades s' = trades (put_trade (command_row c clk t) s)"
      using conclude_trade_tables [OF ran(10)] Confirm by (simp add: command_row_def)
    with that [of t] ran(1,2,4) conclude_trade_response [OF ran(10)] Confirm show ?thesis
      by (auto simp: command_row_def)
  qed auto
next
  case Decline
  with assms have "decline_trade e enc clk h cur k pv s = Inr (s', Fresh r)" by (simp add: run_trade_command_def)
  then show ?thesis
  proof (cases rule: decline_trade_cases)
    case (ran t ord s2 cmd pub v a)
    have "trades s2 = trades (put_trade (declined_trade t) s)"
      using ran(7) give_back_trades by (cases ord) auto
    then have "trades s' = trades (put_trade (command_row c clk t) s)"
      using conclude_trade_tables [OF ran(8)] Decline by (simp add: command_row_def)
    with that [of t] ran(1,2,4) conclude_trade_response [OF ran(8)] Decline show ?thesis
      by (auto simp: command_row_def)
  qed auto
next
  case (Deliver p)
  with assms have "deliver_trade e enc clk h cur k p pv s = Inr (s', Fresh r)" by (simp add: run_trade_command_def)
  then show ?thesis
  proof (cases rule: deliver_trade_cases)
    case (ran t ord cmd pub rc a fq fp)
    have row: "command_row c clk t = delivered_trade (clk 1) fq fp t"
      using bounded_decimal_Inr(1) [OF ran(5)] bounded_decimal_Inr(1) [OF ran(6)] Deliver by (simp add: command_row_def)
    then have "trades s' = trades (put_trade (command_row c clk t) s)"
      using conclude_trade_tables [OF ran(11)] by simp
    with that [of t] ran(1,2,4) conclude_trade_response [OF ran(11)] Deliver row show ?thesis by auto
  qed auto
next
  case Pay
  with assms have "pay_trade e enc clk h cur k pv s = Inr (s', Fresh r)" by (simp add: run_trade_command_def)
  then show ?thesis
  proof (cases rule: pay_trade_cases)
    case (ran t ord cmd pub a)
    have "trades s' = trades (put_trade (command_row c clk t) s)"
      using conclude_trade_tables [OF ran(8)] Pay by (simp add: command_row_def)
    with that [of t] ran(1,2,4) conclude_trade_response [OF ran(8)] Pay show ?thesis by (auto simp: command_row_def)
  qed auto
qed

lemma command_row_fields:
  "t_id (command_row c clk t) = t_id t" "t_status (command_row c clk t) = snd (command_edge c)"
  "t_quantity_mt (command_row c clk t) = t_quantity_mt t" "t_price_per_mt_usd (command_row c clk t) = t_price_per_mt_usd t"
  "t_buyer_id (command_row c clk t) = t_buyer_id t" "t_seller_id (command_row c clk t) = t_seller_id t"
  "t_snapshot (command_row c clk t) = t_snapshot t"
  by (cases c; simp add: command_row_def confirmed_trade_def declined_trade_def delivered_trade_def paid_trade_def Let_def)+

subsection \<open>Who may act\<close>

lemma locked_actor:
  assumes "lock_trade_parties s cur t = Inr ()"
  shows "u_organization_id (refreshed s cur) = u_organization_id cur"
proof -
  obtain g where g: "u_organization_id cur = Some g"
    using assms by (cases "u_organization_id cur") (auto simp: lock_trade_parties_def)
  with assms obtain x where "user_of (u_id cur) s = Some x" "u_organization_id x = Some g"
    by (auto simp: lock_trade_parties_def lock_and_load_market_organizations_def ownership_by_user_def Let_def
        split: option.splits)
  then show ?thesis by (simp add: refreshed_def g)
qed

lemma assisted_actor:
  assumes "authorize_assisted_trade_actor s t ord cur want = Inr True"
  shows "\<exists>sd. u_organization_id (refreshed s cur) = Some (if sd = ASK then t_seller_id t else t_buyer_id t)
    \<and> (\<forall>x. want = Some x \<longrightarrow> sd = x)"
proof -
  from assms obtain x where x: "ord = Some x" by (auto simp: authorize_assisted_trade_actor_def split: option.splits)
  from assms obtain sd g role owner where side: "assisted_trade_side t x = Inr (Some (sd, g, role, owner))"
    by (auto simp: authorize_assisted_trade_actor_def x split: option.splits)
  then have g: "g = (if sd = ASK then t_seller_id t else t_buyer_id t)"
    by (auto simp: assisted_trade_side_def Let_def split: if_splits option.splits)
  from assms side obtain actor where "user_of (u_id cur) s = Some actor" "u_organization_id actor = Some g"
    "case want of None \<Rightarrow> True | Some y \<Rightarrow> sd = y"
    by (auto simp: authorize_assisted_trade_actor_def x split: option.splits if_splits)
  then show ?thesis using g by (auto simp: refreshed_def intro!: exI [of _ sd] split: option.splits)
qed

definition acting_orgs :: "TradeCommand \<Rightarrow> trade \<Rightarrow> uuid set" where
  "acting_orgs c t = (case c of Confirm \<Rightarrow> {other_org t} | Pay \<Rightarrow> {t_seller_id t} | _ \<Rightarrow> {t_buyer_id t, t_seller_id t})"

lemma run_trade_command_actor:
  assumes "run_trade_command e enc clk h cur k c pv s = Inr (s', Fresh r)" "c \<noteq> Decline" "trade_of k s = Some t"
  shows "\<exists>g\<in>acting_orgs c t. u_organization_id (refreshed s cur) = Some g"
proof (cases c)
  case Confirm
  with assms have "confirm_trade e enc clk h cur k pv s = Inr (s', Fresh r)" by (simp add: run_trade_command_def)
  then show ?thesis
  proof (cases rule: confirm_trade_cases)
    case (ran u ord s2 cmd pub a)
    from ran(1,2) assms(3) have u: "u = t" by simp
    show ?thesis
    proof (cases a)
      case True
      with assisted_actor [of s u ord cur "Some (expected_side u)"] ran(6) Confirm u show ?thesis
        by (auto simp: acting_orgs_def other_org_def expected_side_def split: if_splits)
    next
      case False
      with ran(7) locked_actor [OF ran(11)] Confirm u show ?thesis
        by (auto simp: confirm_guard_def acting_orgs_def other_org_def split: if_splits)
    qed
  qed simp
next
  case (Deliver p)
  with assms have "deliver_trade e enc clk h cur k p pv s = Inr (s', Fresh r)" by (simp add: run_trade_command_def)
  then show ?thesis
  proof (cases rule: deliver_trade_cases)
    case (ran u ord cmd pub rc a fq fp)
    from ran(1,2) assms(3) have u: "u = t" by simp
    then show ?thesis
      using ran(8) assisted_actor [of s u ord cur None] ran(7) locked_actor [OF ran(12)] Deliver
      by (cases a) (auto simp: acting_orgs_def split: if_splits)
  qed simp
next
  case Pay
  with assms have "pay_trade e enc clk h cur k pv s = Inr (s', Fresh r)" by (simp add: run_trade_command_def)
  then show ?thesis
  proof (cases rule: pay_trade_cases)
    case (ran u ord cmd pub a)
    from ran(1,2) assms(3) have u: "u = t" by simp
    then show ?thesis
      using ran(6) assisted_actor [of s u ord cur "Some ASK"] ran(5) locked_actor [OF ran(9)] Pay
      by (cases a) (auto simp: acting_orgs_def split: if_splits)
  qed simp
qed (use assms(2) in simp)

end
