(* ===== verification/Trade_Properties.thy ===== *)
theory Trade_Properties
  imports Trade_Commands
begin

section \<open>Properties of the trade lifecycle\<close>

text \<open>
  The properties of \<^verbatim>\<open>src/app/routers/trades.py\<close> as a whole, each with an instance on the example
  market: the buyer has hit 200 of the supplier's ask of 500.
\<close>

definition ex_traded :: "trade \<Rightarrow> market_db" where
  "ex_traded t = ex_db\<lparr>orders := [hit_order 200 ex_ask, ex_bid], trades := [t]\<rparr>"

definition ex_seller :: user where
  "ex_seller = ex_user 11 SUPPLIER 41"

lemma hit_order_fields [simp]:
  "o_id (hit_order q x) = o_id x" "o_inventory_item_id (hit_order q x) = o_inventory_item_id x"
  "o_quantity_mt (hit_order q x) = o_quantity_mt x" "o_product_id (hit_order q x) = o_product_id x"
  "o_delivery_point_id (hit_order q x) = o_delivery_point_id x" "o_creation_method (hit_order q x) = o_creation_method x"
  "o_availability_window (hit_order q x) = o_availability_window x" "o_organization_id (hit_order q x) = o_organization_id x"
  "o_remaining_quantity_mt (hit_order q x) = o_remaining_quantity_mt x - q" "o_owner_user_id (hit_order q x) = o_owner_user_id x"
  "o_expires_at (hit_order q x) = o_expires_at x" "o_side (hit_order q x) = o_side x"
  by (simp_all add: hit_order_def bump_version_def Let_def)

lemma ex_hit_status [simp]: "o_status (hit_order 200 ex_ask) = PARTIALLY_FILLED"
  by (simp add: hit_order_def)

lemma ex_traded_simps [simp]:
  "orders (ex_traded t) = [hit_order 200 ex_ask, ex_bid]" "trades (ex_traded t) = [t]" "inventory (ex_traded t) = [ex_item]"
  "users (ex_traded t) = [ex_user 11 SUPPLIER 41, ex_user 12 BUYER 42]"
  "organizations (ex_traded t) = [ex_org 41 ''Supplier'', ex_org 42 ''Buyer'']" "next_id (ex_traded t) = 1000"
  "command_results (ex_traded t) = []"
  by (simp_all add: ex_traded_def)

lemma ex_traded_inv: "market_inv (ex_traded ex_trade)"
proof -
  let ?s = "ex_traded ex_trade"
  have "keys_ok ?s" "refs_ok ?s" by (simp_all add: keys_ok_def refs_ok_def ex_trade_def)
  moreover have "rows_ok ?s"
    by (simp add: rows_ok_def order_row_ok_def ORDER_LIFECYCLE_def trade_row_simps ex_trade_def)
  moreover have "fills_ok ?s"
    by (simp add: fills_ok_def order_filled_def filled_quantity_def withdrawn_def trade_fill_def ex_trade_def)
  moreover have "reserved_stock ?s k = committed ?s k \<and> 0 \<le> current_stock ?s k" for k
    by (cases "k = 21")
      (simp_all add: committed_def order_commitment_def trade_commitment_def linked_order_id_def order_item_def
        live_status_def reserved_stock_def current_stock_def ex_trade_def)
  then have "reserves_ok ?s" by (simp add: reserves_upto_def)
  ultimately show ?thesis by (simp add: market_inv_upto_def)
qed

lemma ex_ready:
  assumes "t_id t = t_id ex_trade" "t_bid_order_id t = t_bid_order_id ex_trade" "t_ask_order_id t = t_ask_order_id ex_trade"
    "t_buyer_id t = t_buyer_id ex_trade" "t_seller_id t = t_seller_id ex_trade"
    "t_buyer_user_id t = t_buyer_user_id ex_trade" "t_seller_user_id t = t_seller_user_id ex_trade"
    "t_snapshot t = t_snapshot ex_trade"
  shows "ready_trade ex_env (ex_traded t) ex_seller t (hit_order 200 ex_ask)"
  using assms ex_slice_lock [OF canonical_SPOT]
  by (simp add: ready_trade_def links_to_def linked_order_id_def trade_market_slice_def slice_identity_def order_identity_def
      ex_trade_def ex_seller_def execution_party_is_eligible_def SPOT_WINDOW_def)

lemma ex_confirm:
  "\<exists>s' r. run_trade_command ex_env enc clk None ex_seller 71 Confirm (ex_traded ex_trade) (ex_traded ex_trade) = Inr (s', Fresh r)"
proof -
  have "execution_provenance_compatible REAL REAL (Some 42) (Some 41) None"
    by (simp add: execution_provenance_compatible_def)
  then show ?thesis
    using confirm_succeeds [OF ex_traded_inv ex_ready, of enc clk]
    by (simp add: run_trade_command_def ex_trade_def other_org_def other_user_def ex_seller_def)
qed

text \<open>C4: every command on a trade keeps the ledgers balanced. If the market invariant holds and confirm,
  decline, deliver or pay succeeds, it holds afterwards: a confirmed quantity leaves the reserved stock, a declined one returns
  to its order (or to free stock when the order is withdrawn or expired), and nothing else moves.\<close>

theorem trade_commands_keep_ledgers:
  assumes "market_inv s" "run_trade_command e enc clk h cur k c pv s = Inr (s', r)"
  shows "market_inv s'"
  by (rule run_trade_command_inv [OF assms])

theorem trade_commands_keep_ledgers_witness:
  "\<exists>s' r. run_trade_command ex_env (\<lambda>_. []) (\<lambda>_. 1000) None ex_seller 71 Confirm (ex_traded ex_trade) (ex_traded ex_trade) = Inr (s', r)
    \<and> market_inv s'"
  using ex_confirm [of "\<lambda>_. []" "\<lambda>_. 1000"] trade_commands_keep_ledgers [OF ex_traded_inv] by blast

text \<open>C5: the state machine of a trade. A command that is not a replay takes the trade along exactly one edge
  (pending to confirmed or declined, confirmed to delivered, delivered to paid), reports the new state, leaves the agreed quantity,
  price, parties and market snapshot alone, and touches no other trade.\<close>

theorem trade_state_machine:
  assumes "run_trade_command e enc clk h cur k c pv s = Inr (s', Fresh r)"
  shows "\<exists>t t'. trade_of k s = Some t \<and> trade_of k s' = Some t' \<and> (t_status t, t_status t') = command_edge c \<and>
    tr_id r = k \<and> tr_status r = t_status t' \<and>
    t_quantity_mt t' = t_quantity_mt t \<and> t_price_per_mt_usd t' = t_price_per_mt_usd t \<and>
    t_buyer_id t' = t_buyer_id t \<and> t_seller_id t' = t_seller_id t \<and> t_snapshot t' = t_snapshot t \<and>
    (\<forall>j. j \<noteq> k \<longrightarrow> trade_of j s' = trade_of j s)"
proof -
  from assms obtain t s2 adm where t: "trade_of (t_id t) s = Some t" "t_id t = k" "t_status t = fst (command_edge c)"
    and tr: "trades s' = trades (put_trade (command_row c clk t) s)"
    and r: "r = build_trade_response s2 (command_row c clk t) (u_organization_id cur) adm"
    by (rule run_trade_command_row)
  let ?t = "command_row c clk t"
  have "trade_of k s' = Some ?t" "\<forall>j. j \<noteq> k \<longrightarrow> trade_of j s' = trade_of j s"
    using trade_tab.get_put_same [of ?t s t] trade_tab.get_put_other [of _ ?t s] t(1,2)
    by (auto simp: tr command_row_fields)
  then show ?thesis
    using t by (intro exI [of _ t] exI [of _ ?t]) (simp add: command_row_fields r build_trade_response_def Let_def)
qed

theorem trade_state_machine_witness:
  "\<exists>s' t'. trade_of 71 s' = Some t' \<and> t_status t' = CONFIRMED \<and>
    (\<exists>r. run_trade_command ex_env (\<lambda>_. []) (\<lambda>_. 1000) None ex_seller 71 Confirm (ex_traded ex_trade) (ex_traded ex_trade)
       = Inr (s', Fresh r) \<and> tr_status r = CONFIRMED)"
proof -
  obtain s' r where r: "run_trade_command ex_env (\<lambda>_. []) (\<lambda>_. 1000) None ex_seller 71 Confirm
      (ex_traded ex_trade) (ex_traded ex_trade) = Inr (s', Fresh r)"
    using ex_confirm by blast
  from trade_state_machine [OF r] r show ?thesis by auto
qed

text \<open>C9: only the parties drive a trade. The user who confirms belongs, on the row read under the locks, to the
  organization that did not initiate the trade; a delivery is reported by a member of one of the two organizations and a
  payment by the seller's.\<close>

theorem trade_commands_by_parties:
  assumes "run_trade_command e enc clk h cur k c pv s = Inr (s', Fresh r)" "c \<noteq> Decline" "trade_of k s = Some t"
  shows "(\<exists>g. u_organization_id (refreshed s cur) = Some g \<and>
      (case c of Confirm \<Rightarrow> g = other_org t | Pay \<Rightarrow> g = t_seller_id t | _ \<Rightarrow> g = t_buyer_id t \<or> g = t_seller_id t)) \<and>
    (c = Confirm \<and> TRADE_DOMAIN t \<longrightarrow> u_organization_id (refreshed s cur) \<noteq> Some (t_initiator_org_id t))"
  using run_trade_command_actor [OF assms]
  by (cases c) (auto simp: acting_orgs_def TRADE_DOMAIN_def other_org_def)

theorem trade_commands_by_parties_witness:
  "\<exists>s' r. run_trade_command ex_env (\<lambda>_. []) (\<lambda>_. 1000) None ex_seller 71 Confirm (ex_traded ex_trade) (ex_traded ex_trade)
       = Inr (s', Fresh r) \<and> u_organization_id (refreshed (ex_traded ex_trade) ex_seller) = Some 41"
proof -
  obtain s' r where r: "run_trade_command ex_env (\<lambda>_. []) (\<lambda>_. 1000) None ex_seller 71 Confirm
      (ex_traded ex_trade) (ex_traded ex_trade) = Inr (s', Fresh r)"
    using ex_confirm by blast
  have t: "trade_of 71 (ex_traded ex_trade) = Some ex_trade" by (simp add: ex_trade_def)
  from trade_commands_by_parties [OF r _ t] r show ?thesis by (auto simp: other_org_def ex_trade_def)
qed

text \<open>C10: a pending trade whose parties and order are still good can be confirmed. Let the ledgers be consistent, the
  trade pending, its linked order still in its own slice and not an assisted one, both parties stored, admitted and of
  compatible provenance, the lock of the slice free, and let nothing change between the preview and the
  locks (\<open>ready_trade\<close> collects the conditions on the rows). Then the confirmation by the counterparty's user, sent without an idempotency key,
  succeeds: whatever other orders and trades the item carries, the stock that the trade needs is there, reserved.\<close>

theorem pending_trade_confirmable:
  assumes "market_inv_upto \<sigma> s" "ready_trade e s cur t x" "t_status t = PENDING_CONFIRMATION"
    and "execution_provenance_compatible (t_buyer_provenance t) (t_seller_provenance t)
      (Some (t_buyer_id t)) (Some (t_seller_id t)) None"
    and "u_organization_id cur = Some (other_org t)" "other_user t = Some (u_id cur)"
  shows "\<exists>s' r. confirm_trade e enc clk None cur (t_id t) s s = Inr (s', Fresh r)"
  by (rule confirm_succeeds [OF assms])

theorem pending_trade_confirmable_witness:
  "\<exists>s' r. confirm_trade ex_env (\<lambda>_. []) (\<lambda>_. 1000) None ex_seller (t_id ex_trade) (ex_traded ex_trade) (ex_traded ex_trade) = Inr (s', Fresh r)"
proof (rule pending_trade_confirmable [OF ex_traded_inv ex_ready])
  show "execution_provenance_compatible (t_buyer_provenance ex_trade) (t_seller_provenance ex_trade)
      (Some (t_buyer_id ex_trade)) (Some (t_seller_id ex_trade)) None"
    by (simp add: execution_provenance_compatible_def ex_trade_def)
qed (simp_all add: ex_trade_def other_org_def other_user_def ex_seller_def)

subsection \<open>Settlement\<close>

lemma quantize_money_le: "0 \<le> x \<Longrightarrow> x \<le> b \<Longrightarrow> scale2 b \<Longrightarrow> quantize_money x \<le> b"
  using quantize_money_mono [of x b] quantize_money_id [of b] by simp

lemma scale2_of_int [simp]: "scale2 (of_int n)" "scale2 (numeral m)"
proof -
  show "scale2 (of_int n)" unfolding scale2_iff by (rule exI [of _ "n * 100"]) simp
  show "scale2 (numeral m)" unfolding scale2_iff by (rule exI [of _ "numeral m * 100"]) simp
qed

lemma delivery_amounts_bounds:
  assumes "0 < q" "q \<le> 100000" "0 < p" "p \<le> 1000000" "0 \<le> rate" "rate \<le> 100"
    and "\<And>f. fee = Some f \<Longrightarrow> 0 \<le> f \<and> f \<le> 100000"
  shows "required_numeric (fst (delivery_amounts q p rate fee)) 0 100000000000 2"
    "required_numeric (snd (delivery_amounts q p rate fee)) 0 100000000000 2"
proof -
  have qp: "0 \<le> q * p" "q * p \<le> 100000 * 1000000" using assms(1-4) by (intro mult_nonneg_nonneg mult_mono; simp)+
  then have total: "0 \<le> quantize_money (q * p)" "quantize_money (q * p) \<le> 100000000000"
    by (simp_all add: quantize_money_nonneg quantize_money_le)
  then show "required_numeric (fst (delivery_amounts q p rate fee)) 0 100000000000 2"
    by (simp add: delivery_amounts_def Let_def required_numeric_scale2)
  show "required_numeric (snd (delivery_amounts q p rate fee)) 0 100000000000 2"
  proof (cases fee)
    case None
    have "quantize_money (q * p) * rate \<le> 100000000000 * 100" using total assms(5,6) by (intro mult_mono) simp_all
    then have "0 \<le> quantize_money (q * p) * rate / 100" "quantize_money (q * p) * rate / 100 \<le> 100000000000"
      using total assms(5) by simp_all
    then show ?thesis
      by (simp add: None delivery_amounts_def Let_def required_numeric_scale2 quantize_money_nonneg quantize_money_le)
  next
    case (Some f)
    have "q * f \<le> 100000 * 100000" using assms(1,2) assms(7) [OF Some] by (intro mult_mono) simp_all
    moreover have "0 \<le> q * f" using assms(1) assms(7) [OF Some] by simp
    ultimately show ?thesis
      by (simp add: Some delivery_amounts_def Let_def required_numeric_scale2 quantize_money_nonneg quantize_money_le)
  qed
qed

lemma price_band:
  assumes "\<bar>fp - p\<bar> / p * 100 \<le> (10::dec)" "0 < p"
  shows "9 / 10 * p \<le> fp" "fp \<le> 11 / 10 * p"
proof -
  from assms have "\<bar>fp - p\<bar> \<le> p / 10" by (simp add: field_simps)
  then have "fp - p \<le> p / 10 \<and> - (fp - p) \<le> p / 10" unfolding abs_le_iff .
  then show "9 / 10 * p \<le> fp" "fp \<le> 11 / 10 * p" by (simp_all add: field_simps)
qed

text \<open>C11: settlement amounts. A delivery records at most the traded quantity at a price within ten percent of the agreed one;
  the total is the product to the cent, the commission follows the seller's snapshot fee, and the finished row
  satisfies every numeric and lifecycle check of the trades table.\<close>

theorem delivery_settles_amounts:
  assumes "deliver_trade e enc clk h cur k p pv s = Inr (s', Fresh r)" "trade_of k s = Some t"
    and "TRADE_NUMERIC_VALUES t" "TRADE_LIFECYCLE t"
  shows "\<exists>t' fq fp total. trade_of k s' = Some t' \<and> t_status t' = DELIVERED \<and>
    t_final_quantity_mt t' = Some fq \<and> t_final_price_per_mt t' = Some fp \<and> t_final_total_usd t' = Some total \<and>
    0 < fq \<and> fq \<le> t_quantity_mt t \<and> 9 / 10 * t_price_per_mt_usd t \<le> fp \<and> fp \<le> 11 / 10 * t_price_per_mt_usd t \<and>
    \<bar>total - fq * fp\<bar> \<le> 1 / 200 \<and>
    (\<forall>fee. t_commission_fee_per_mt_usd t = Some fee \<longrightarrow> t_commission_amount_usd t' = Some (quantize_money (fq * fee))) \<and>
    TRADE_NUMERIC_VALUES t' \<and> TRADE_LIFECYCLE t'"
  using assms(1)
proof (cases rule: deliver_trade_cases)
  case (ran u ord cmd pub rc a fq fp)
  from ran(1,2) assms(2) have u: "u = t" "t_id t = k" by simp_all
  let ?t = "delivered_trade (clk 1) fq fp t" and ?am = "delivery_amounts fq fp (t_commission_rate_pct t) (t_commission_fee_per_mt_usd t)"
  note q = bounded_decimal_Inr [OF ran(5)] and p = bounded_decimal_Inr [OF ran(6)]
  have row: "trade_of k s' = Some ?t"
    using conclude_trade_tables [OF ran(11)] trade_tab.get_put_same [of ?t s t] assms(2) u
    by (simp add: delivered_trade_def Let_def)
  have price: "0 < t_price_per_mt_usd t" using assms(3) by (simp add: TRADE_NUMERIC_VALUES_def required_numeric_def)
  have g: "fq \<le> t_quantity_mt t" "\<bar>fp - t_price_per_mt_usd t\<bar> / t_price_per_mt_usd t * 100 \<le> 10"
    using ran(10) by (auto simp: deliver_guard_def u MAX_FINAL_PRICE_DEVIATION_PCT_def)
  have am: "required_numeric (fst ?am) 0 100000000000 2" "required_numeric (snd ?am) 0 100000000000 2"
    using assms(3) by (intro delivery_amounts_bounds q p; simp add: TRADE_NUMERIC_VALUES_def required_numeric_def optional_numeric_def)+
  have low: "1 / 100 \<le> x" if "0 < x" "scale2 x" for x
    using that by (auto simp: scale2_iff zero_less_divide_iff)
  have "TRADE_NUMERIC_VALUES ?t"
    using assms(3) am q p low [of fq] low [of fp]
    by (simp add: TRADE_NUMERIC_VALUES_def delivered_trade_def Let_def optional_numeric_def required_numeric_scale2)
  moreover have "TRADE_LIFECYCLE ?t"
    using assms(4) ran(4) g u by (simp add: TRADE_LIFECYCLE_def delivered_trade_def Let_def no_final_def all_final_def)
  moreover have "\<bar>fst ?am - fq * fp\<bar> \<le> 1 / 200"
    using quantize_money_error [of "fq * fp"] by (simp add: delivery_amounts_def Let_def)
  ultimately show ?thesis
    using row q(2) g(1) price_band [OF g(2) price]
    by (intro exI [of _ ?t] exI [of _ fq] exI [of _ fp] exI [of _ "fst ?am"])
      (simp add: delivered_trade_def delivery_amounts_def Let_def)
qed simp

definition ex_confirmed :: trade where
  "ex_confirmed = confirmed_trade 950 ex_trade"

definition ex_delivery :: TradeDeliverPayload where
  "ex_delivery = \<lparr>td_final_quantity_mt = Finite 195 0, td_final_price_per_mt = Finite 95025 (-2)\<rparr>"

lemma ex_deliver:
  "\<exists>s' r. deliver_trade ex_env enc clk None ex_seller 71 ex_delivery (ex_traded ex_confirmed) (ex_traded ex_confirmed) = Inr (s', Fresh r)"
proof -
  have ready: "ready_trade ex_env (ex_traded ex_confirmed) ex_seller ex_confirmed (hit_order 200 ex_ask)"
    by (rule ex_ready) (simp_all add: ex_confirmed_def confirmed_trade_def)
  have t: "t_id ex_confirmed = 71" "t_status ex_confirmed = CONFIRMED" "t_bid_order_id ex_confirmed = None"
    "t_seller_id ex_confirmed = 41" "t_seller_user_id ex_confirmed = Some 11" "t_quantity_mt ex_confirmed = 200"
    "t_price_per_mt_usd ex_confirmed = 900"
    by (simp_all add: ex_confirmed_def confirmed_trade_def ex_trade_def)
  have rv: "revalidate_trade_parties (ex_traded ex_confirmed) ex_confirmed = Inr ()"
    by (rule ready_revalidate [OF ready]) (simp add: t)
  have b: "bounded_decimal (td_final_quantity_mt ex_delivery) 100000 = Inr 195"
    "bounded_decimal (td_final_price_per_mt ex_delivery) 1000000 = Inr (3801 / 4)"
    by (simp_all add: ex_delivery_def bounded_decimal_def finite_decimal_def dec_value_def)
  have g: "deliver_guard ex_confirmed 195 (3801 / 4) = Inr ()"
    by (simp add: deliver_guard_def t MAX_FINAL_PRICE_DEVIATION_PCT_def)
  have "py_strip ''trade_delivered'' \<noteq> []" by code_simp
  note c = conclude_trade_None [OF this]
  show ?thesis
    using ready_locks(1-5) [OF ready, unfolded t] c
    by (simp add: deliver_trade_def run_deliver_def b trade_command_def prepare_command_attempt_def with_replay_def t rv g
        ex_seller_def Let_def del: One_nat_def)
qed

theorem delivery_settles_amounts_witness:
  "\<exists>s' r t' fq total. deliver_trade ex_env (\<lambda>_. []) (\<lambda>_. 1000) None ex_seller 71 ex_delivery
      (ex_traded ex_confirmed) (ex_traded ex_confirmed) = Inr (s', Fresh r) \<and>
    trade_of 71 s' = Some t' \<and> t_final_quantity_mt t' = Some fq \<and> fq \<le> 200 \<and> t_final_total_usd t' = Some total \<and>
    TRADE_NUMERIC_VALUES t'"
proof -
  obtain s' r where r: "deliver_trade ex_env (\<lambda>_. []) (\<lambda>_. 1000) None ex_seller 71 ex_delivery
      (ex_traded ex_confirmed) (ex_traded ex_confirmed) = Inr (s', Fresh r)"
    using ex_deliver by blast
  have t: "trade_of 71 (ex_traded ex_confirmed) = Some ex_confirmed" "t_quantity_mt ex_confirmed = 200"
    by (simp_all add: ex_confirmed_def confirmed_trade_def ex_trade_def)
  have "TRADE_NUMERIC_VALUES ex_confirmed" "TRADE_LIFECYCLE ex_confirmed"
    by (simp_all add: TRADE_NUMERIC_VALUES_def required_numeric_def optional_numeric_def TRADE_LIFECYCLE_def no_final_def
        ex_confirmed_def confirmed_trade_def ex_trade_def)
  from delivery_settles_amounts [OF r t(1) this] r t(2) show ?thesis by auto
qed

subsection \<open>Hitting an order\<close>

text \<open>C6: a hit is what both sides agreed to. A new trade is made on the order the caller named, in the state whose digest the
  caller reviewed, at the order's own price and for the requested quantity, which the order still had; the order is live and
  unexpired, the organizations differ and are both real, the caller and the order's owner are admitted, and the order
  keeps exactly the rest.\<close>

theorem created_trade_sound:
  assumes "create_trade e cfg clk h cur p pv s = Inr (s', r)" "s' \<noteq> s"
  shows "\<exists>t x. trades s' = trades s @ [t] \<and> order_of (tc_order_id p) s = Some x \<and>
    tc_expected_terms_digest p = Some (order_terms_digest e x) \<and>
    live_status (o_status x) \<and> \<not> order_expired (clk 1) x \<and>
    t_status t = PENDING_CONFIRMATION \<and> linked_order_id t = Some (o_id x) \<and>
    t_price_per_mt_usd t = o_price_per_mt_usd x \<and> t_quantity_mt t = pydec_val (tc_quantity_mt p) \<and>
    0 < t_quantity_mt t \<and> t_quantity_mt t \<le> o_remaining_quantity_mt x \<and>
    t_buyer_id t \<noteq> t_seller_id t \<and> t_buyer_provenance t = REAL \<and> t_seller_provenance t = REAL \<and>
    u_organization_id cur = Some (t_initiator_org_id t) \<and>
    execution_party_is_eligible s (user_of (u_id cur) s) (organization_of (t_initiator_org_id t) s) \<and>
    (\<exists>u. o_owner_user_id x = Some u \<and> order_owner_is_execution_eligible s x (user_of u s) (organization_of (o_organization_id x) s)) \<and>
    order_of (o_id x) s' = Some (hit_order (t_quantity_mt t) x)"
  using assms(1)
proof (cases rule: create_trade_cases)
  case (ran qty g idem x fee)
  let ?t = "hit_trade s cur g x qty fee idem (clk 3)"
  note q = trade_create_schema_Inr [OF ran(1)] and x = lock_target_order_Inr [OF ran(3)] and a = admit_target_Inr [OF ran(4)]
  have x': "order_of (o_id x) s' = Some (hit_order qty x)"
    using order_tab.get_put_same [of "hit_order qty x" s x] x(1) by (simp add: ran(7))
  have prov: "snapshot_organization_provenance (organization_of g s) = REAL" "o_provenance x = REAL"
    using a(9) by (simp_all add: execution_provenance_compatible_def split: if_splits option.splits)
  show ?thesis
    using x x' q a prov ran(2,5,8)
    by (intro exI [of _ ?t] exI [of _ x]) (auto simp: hit_trade_def Let_def linked_order_id_def del: One_nat_def)
qed (use assms(2) in simp)

text \<open>The example buyer hits the example ask; digests are modelled by a constant of the right shape.\<close>

definition ex_hash_env :: env where
  "ex_hash_env = ex_env\<lparr>sha256_hex := (\<lambda>_. replicate 64 CHR ''a'')\<rparr>"

definition ex_buyer :: user where
  "ex_buyer = ex_user 12 BUYER 42"

definition ex_hit :: TradeCreate where
  "ex_hit = \<lparr>tc_order_id = 31, tc_expected_terms_digest = Some (replicate 64 CHR ''a''), tc_quantity_mt = Finite 200 0\<rparr>"

lemma ex_listed: "catalog_listed ex_db ex_ask"
  by (simp add: catalog_listed_def active_market_catalog_clauses_def canonical_product_clause_def
      canonical_delivery_point_clause_def CANONICAL_PRODUCTS_def CANONICAL_DELIVERY_POINTS_def ex_product_def ex_point_def)

lemma ex_admit: "admit_target ex_db (\<lambda>_. 1000) 42 ex_buyer ex_ask = Inr ()"
proof -
  have orgs: "\<exists>m. lock_and_load_market_organizations ex_db [42, 41] [\<lparr>mo_user_id = 12, mo_organization_id = 42\<rparr>] True [] = Inr m"
    by (simp add: lock_and_load_market_organizations_def ownership_by_user_def execution_party_is_eligible_def
        py_upper_def upper_char_def)
  have demo: "\<not> is_demo_market_organization (Some 41)"
    by (simp add: is_demo_market_organization_def DEMO_MARKET_ORG_IDS_def DEMO_SEED_BUYERS_def DEMO_SEED_SUPPLIERS_def
        DEMO_ACCOUNT_BUYER_ORG_ID_def DEMO_ACCOUNT_SELLER_ORG_ID_def DEMO_ACTIVITY_BUYER_ORG_ID_def DEMO_ACTIVITY_SELLER_ORG_ID_def)
  show ?thesis
    using orgs
    by (auto simp: admit_target_def ex_listed ex_qualified live_status_def order_expired_def demo refreshed_def
        ex_buyer_def snapshot_organization_provenance_def execution_provenance_compatible_def execution_party_is_eligible_def
        order_owner_is_execution_eligible_def)
qed

lemma ex_create:
  "\<exists>s' r. create_trade ex_hash_env ex_cfg (\<lambda>_. 1000) None ex_buyer ex_hit ex_db ex_db = Inr (s', r) \<and> s' \<noteq> ex_db \<and>
    users s' = users ex_db \<and> organizations s' = organizations ex_db \<and> orders s' = [hit_order 200 ex_ask, ex_bid] \<and>
    trades s' = [hit_trade ex_db ex_buyer 42 ex_ask 200 (FREE, 2) None 1000]"
proof -
  let ?e = ex_hash_env
  have schema: "trade_create_schema ex_hit = Inr 200"
    by (simp add: trade_create_schema_def ex_hit_def finite_decimal_def dec_value_def list_all_iff Let_def)
  have eligible: "require_execution_eligible_user ex_db ex_buyer = Inr ex_buyer" "u_organization_id ex_buyer = Some 42"
    by (simp_all add: require_execution_eligible_user_def ex_buyer_def execution_party_is_eligible_def)
  have prep: "prepare_create ?e ex_db None ex_buyer 42 ex_hit = Inr (None, None)"
    by (simp add: prepare_create_def)
  have "acquire_market_slice_lock ?e (BID, p_id ex_product, Some (d_id ex_point), ''SPOT'') = Inr ()"
    using canonical_SPOT
    by (simp add: acquire_market_slice_lock_def market_slice_lock_key_def acquire_advisory_lock_def ex_hash_env_def ex_env_def
        normalize_canonical SPOT_WINDOW_def)
  then have target: "lock_target_order ?e ex_db ex_db ex_hit = Inr ex_ask"
    by (simp add: lock_target_order_def ex_hit_def order_identity_def order_terms_digest_def ex_hash_env_def)
  have fee: "resolve_seller_trade_fee ex_cfg ex_db 41 1000 = Inr (FREE, 2)"
    by (simp add: resolve_seller_trade_fee_def configured_fee_for_tier_def ex_cfg_def)
  have "py_strip ''trade_created'' \<noteq> []" "py_strip ''trade'' \<noteq> []" by code_simp+
  then have "\<exists>s' r. place_hit (\<lambda>_. 1000) ex_buyer 42 ex_ask 200 (FREE, 2) None ex_db = Inr (s', r)"
    by (simp add: place_hit_def participant_market_event_def Let_def)
  then obtain s' r where hit: "place_hit (\<lambda>_. 1000) ex_buyer 42 ex_ask 200 (FREE, 2) None ex_db = Inr (s', r)" by blast
  then have run: "create_trade ?e ex_cfg (\<lambda>_. 1000) None ex_buyer ex_hit ex_db ex_db = Inr (s', r)"
    by (simp add: create_trade_def schema eligible prep target ex_admit fee)
  have t: "trades s' = [hit_trade ex_db ex_buyer 42 ex_ask 200 (FREE, 2) None 1000]"
    using hit by (auto simp: place_hit_def Let_def ins_trade_def)
  have o: "orders s' = [hit_order 200 ex_ask, ex_bid]"
    using hit by (auto simp: place_hit_def Let_def ins_trade_def put_order_def put_row_def)
  have u: "users s' = users ex_db" "organizations s' = organizations ex_db"
    using hit by (auto simp: place_hit_def Let_def ins_trade_def put_order_def record_audit_def notify_org_users_def
        notify_org_users_batched_def project_def enqueue_market_events_def)
  have "s' \<noteq> ex_db" using t by auto
  with run t o u show ?thesis by blast
qed

theorem created_trade_sound_witness:
  "\<exists>s' r t. create_trade ex_hash_env ex_cfg (\<lambda>_. 1000) None ex_buyer ex_hit ex_db ex_db = Inr (s', r) \<and>
    trades s' = [t] \<and> t_price_per_mt_usd t = 900 \<and> t_quantity_mt t = 200 \<and> t_buyer_id t \<noteq> t_seller_id t"
proof -
  obtain s' r where r: "create_trade ex_hash_env ex_cfg (\<lambda>_. 1000) None ex_buyer ex_hit ex_db ex_db = Inr (s', r)" "s' \<noteq> ex_db"
    using ex_create by blast
  from created_trade_sound [OF r] r(1) show ?thesis by (auto simp: ex_hit_def dec_value_def)
qed

lemma canonical_product_names:
  assumes "canonical_product_clause pr"
  shows "trimmed_nonempty (Some (p_name pr))" "trimmed_nonempty (Some (p_fuel_type pr))" "trimmed_nonempty (Some (p_fuel_grade pr))"
    "\<exists>c. product_market_product pr = Some c \<and> c \<in> set (map (\<lambda>sp. market_product_value (ps_market_product sp)) CANONICAL_PRODUCTS)"
proof -
  from assms obtain sp where sp: "sp \<in> set CANONICAL_PRODUCTS" "p_name pr = ps_name sp" "p_fuel_type pr = ps_fuel_type sp"
    "p_fuel_grade pr = ps_fuel_grade sp"
    by (auto simp: canonical_product_clause_def list_ex_iff)
  have "list_all (\<lambda>sp. trimmed_nonempty (Some (ps_name sp)) \<and> trimmed_nonempty (Some (ps_fuel_type sp)) \<and>
      trimmed_nonempty (Some (ps_fuel_grade sp))) CANONICAL_PRODUCTS"
    by (simp add: CANONICAL_PRODUCTS_def trimmed_nonempty_def)
  with sp show "trimmed_nonempty (Some (p_name pr))" "trimmed_nonempty (Some (p_fuel_type pr))"
    "trimmed_nonempty (Some (p_fuel_grade pr))" by (auto simp: list_all_iff)
  let ?P = "\<lambda>sp. (p_name pr, p_fuel_type pr, p_fuel_grade pr) = (ps_name sp, ps_fuel_type sp, ps_fuel_grade sp)"
  obtain sp' where "find ?P CANONICAL_PRODUCTS = Some sp'"
    using sp by (cases "find ?P CANONICAL_PRODUCTS") (auto simp: find_None_iff)
  moreover from this have "sp' \<in> set CANONICAL_PRODUCTS" by (auto simp: find_Some_iff)
  ultimately show "\<exists>c. product_market_product pr = Some c \<and>
      c \<in> set (map (\<lambda>sp. market_product_value (ps_market_product sp)) CANONICAL_PRODUCTS)"
    by (auto simp: product_market_product_def derive_market_product_def)
qed

lemma listed_snapshot:
  assumes "catalog_listed s x" "distinct (map p_id (products s))" "distinct (map d_id (delivery_points s))"
    and "canonical_window (o_availability_window x)"
  shows "TRADE_SNAPSHOT (hit_trade s cur g x q fee idem c)"
proof -
  from assms(1) obtain pr d where pr: "pr \<in> set (products s)" "p_id pr = o_product_id x" "canonical_product_clause pr"
    and d: "d \<in> set (delivery_points s)" "o_delivery_point_id x = Some (d_id d)"
    by (auto simp: catalog_listed_def list_ex_iff active_market_catalog_clauses_def)
  have "product_of (o_product_id x) s = Some pr" "delivery_point_of (d_id d) s = Some d"
    using row_by_distinct [OF assms(2) pr(1)] row_by_distinct [OF assms(3) d(1)] pr(2) by simp_all
  with canonical_product_names [OF pr(3)] assms(4) d(2) show ?thesis
    by (auto simp: TRADE_SNAPSHOT_def hit_trade_def order_snapshot_def Let_def)
qed

text \<open>C14: the row a hit inserts is well-formed. If the order satisfies its own numeric checks and stands in a canonical
  window, and the seller's fee is in range, the new trade satisfies every \<open>CHECK\<close> of the trades table: domain, numeric
  values, commission snapshot, lifecycle and market snapshot.\<close>

theorem created_trade_well_formed:
  assumes "create_trade e cfg clk h cur p pv s = Inr (s', r)" "s' \<noteq> s"
    and "\<And>x. order_of (tc_order_id p) s = Some x \<Longrightarrow> ORDER_NUMERIC_VALUES x \<and> canonical_window (o_availability_window x)"
    and "distinct (map p_id (products s))" "distinct (map d_id (delivery_points s))"
    and "\<And>seller tier fee. resolve_seller_trade_fee cfg s seller (clk 2) = Inr (tier, fee) \<Longrightarrow> required_numeric fee 0 100000 2"
  shows "\<exists>t. trades s' = trades s @ [t] \<and> TRADE_DOMAIN t \<and> TRADE_NUMERIC_VALUES t \<and> TRADE_COMMISSION_SNAPSHOT t \<and>
    TRADE_LIFECYCLE t \<and> TRADE_SNAPSHOT t"
  using assms(1)
proof (cases rule: create_trade_cases)
  case (ran qty g idem x fee)
  let ?t = "hit_trade s cur g x qty fee idem (clk 3)"
  note q = trade_create_schema_Inr [OF ran(1)] and x = lock_target_order_Inr [OF ran(3)] and a = admit_target_Inr [OF ran(4)]
  have ok: "ORDER_NUMERIC_VALUES x" "canonical_window (o_availability_window x)" using assms(3) x(1,2) by simp_all
  have prov: "snapshot_organization_provenance (organization_of g s) = REAL" "o_provenance x = REAL"
    using a(9) by (simp_all add: execution_provenance_compatible_def split: if_splits option.splits)
  obtain tier f where fee: "fee = (tier, f)" by (cases fee)
  have f: "required_numeric f 0 100000 2" using assms(6) ran(6) fee by blast
  have "1 / 100 \<le> qty" using q(1,4) by (auto simp: scale2_iff zero_less_divide_iff)
  then have "TRADE_NUMERIC_VALUES ?t"
    using q ok(1) f fee
    by (simp add: TRADE_NUMERIC_VALUES_def hit_trade_def Let_def ORDER_NUMERIC_VALUES_def optional_numeric_def required_numeric_scale2)
      (simp add: required_numeric_def)
  moreover have "TRADE_DOMAIN ?t"
    using a(5) prov by (auto simp: TRADE_DOMAIN_def hit_trade_def Let_def idempotency_all_or_none_def no_idempotency_def split: option.splits)
  moreover have "TRADE_COMMISSION_SNAPSHOT ?t"
    by (cases tier) (simp_all add: TRADE_COMMISSION_SNAPSHOT_def hit_trade_def Let_def fee tier_value_def)
  moreover have "TRADE_LIFECYCLE ?t" by (simp add: TRADE_LIFECYCLE_def hit_trade_def Let_def no_final_def)
  ultimately show ?thesis using ran(8) listed_snapshot [OF a(6) assms(4,5) ok(2)] by blast
qed (use assms(2) in simp)

theorem created_trade_well_formed_witness:
  "\<exists>s' r t. create_trade ex_hash_env ex_cfg (\<lambda>_. 1000) None ex_buyer ex_hit ex_db ex_db = Inr (s', r) \<and>
    trades s' = [t] \<and> TRADE_DOMAIN t \<and> TRADE_NUMERIC_VALUES t \<and> TRADE_SNAPSHOT t"
proof -
  obtain s' r where r: "create_trade ex_hash_env ex_cfg (\<lambda>_. 1000) None ex_buyer ex_hit ex_db ex_db = Inr (s', r)" "s' \<noteq> ex_db"
    using ex_create by blast
  have x: "ORDER_NUMERIC_VALUES x \<and> canonical_window (o_availability_window x)" if "order_of (tc_order_id ex_hit) ex_db = Some x" for x
    using that canonical_SPOT
    by (auto simp: ex_hit_def ORDER_NUMERIC_VALUES_def required_numeric_def optional_numeric_def ex_metadata_def SPOT_WINDOW_def)
  have fee: "required_numeric fee 0 100000 2" if "resolve_seller_trade_fee ex_cfg ex_db seller 1000 = Inr (tier, fee)" for seller tier fee
    using that by (simp add: resolve_seller_trade_fee_def configured_fee_for_tier_def ex_cfg_def required_numeric_def Let_def)
  have "\<exists>t. trades s' = trades ex_db @ [t] \<and> TRADE_DOMAIN t \<and> TRADE_NUMERIC_VALUES t \<and> TRADE_COMMISSION_SNAPSHOT t \<and>
      TRADE_LIFECYCLE t \<and> TRADE_SNAPSHOT t"
    by (rule created_trade_well_formed [OF r x]) (auto intro: fee)
  with r(1) show ?thesis by auto
qed

subsection \<open>Declining\<close>

lemma give_back_live:
  assumes "give_back now cur q x s = Inr s'" "\<not> withdrawn (o_status x)" "\<not> order_expired now x"
  shows "orders s' = orders (put_order (restored_order q x) s)" "inventory s' = inventory s"
  using assms by (auto simp: give_back_def)

lemma restored_hit:
  assumes "order_row_ok x" "live_status (o_status x)" "0 < q" "q \<le> o_remaining_quantity_mt x"
  shows "o_remaining_quantity_mt (restored_order q (hit_order q x)) = o_remaining_quantity_mt x"
    "o_status (restored_order q (hit_order q x)) = o_status x" "o_id (restored_order q y) = o_id y"
    "\<not> withdrawn (o_status (hit_order q x))"
    "o_quantity_mt (restored_order q (hit_order q x)) = o_quantity_mt x"
    "o_price_per_mt_usd (restored_order q (hit_order q x)) = o_price_per_mt_usd x"
  using assms
  by (auto simp: restored_order_def hit_order_def Let_def order_row_ok_def ORDER_LIFECYCLE_def live_status_def withdrawn_def bump_version_def)

text \<open>C13: declining a hit undoes it. If a trade is created and then declined while its order has not expired, the order has its
  remaining quantity, status, quantity and price back, every other order is as it was, and no stock has moved.\<close>

theorem decline_undoes_hit:
  assumes "market_inv s" "create_trade e cfg clk h cur p pv s = Inr (s1, r1)" "s1 \<noteq> s"
    and "decline_trade e' enc clk' h' cur' (next_id s) pv' s1 = Inr (s2, Fresh r2)"
    and "order_of (tc_order_id p) s = Some x" "\<not> order_expired (clk' 1) x"
  shows "\<exists>y. order_of (o_id x) s2 = Some y \<and> o_remaining_quantity_mt y = o_remaining_quantity_mt x \<and>
      o_status y = o_status x \<and> o_quantity_mt y = o_quantity_mt x \<and> o_price_per_mt_usd y = o_price_per_mt_usd x \<and>
      (\<forall>j. j \<noteq> o_id x \<longrightarrow> order_of j s2 = order_of j s) \<and> inventory s2 = inventory s"
  using assms(2)
proof (cases rule: create_trade_cases)
  case (ran qty g idem x' fee)
  let ?t = "hit_trade s cur g x' qty fee idem (clk 3)" and ?x = "hit_order qty x"
  note o1 = ran(7) and i1 = ran(9) and lx = lock_target_order_Inr [OF ran(3)]
  have x: "x' = x" "order_of (o_id x) s = Some x" using lx(1,2) assms(5) by simp_all
  have q: "0 < qty" "qty \<le> o_remaining_quantity_mt x" using trade_create_schema_Inr(1) [OF ran(1)] ran(5) x by simp_all
  have live: "live_status (o_status x)" using admit_target_Inr(1) [OF ran(4)] x by simp
  have row: "order_row_ok x" using assms(1) order_of_mem [OF x(2)] by (auto simp: market_inv_upto_def rows_ok_def)
  note bk = restored_hit [OF row live q]
  have "next_id s \<notin> t_id ` set (trades s)" using assms(1) by (force simp: market_inv_upto_def keys_ok_def)
  then have t: "trade_of (next_id s) s1 = Some ?t"
    by (simp add: ran(8) row_by_append row_by_None_iff [THEN iffD2] hit_trade_fields)
  have x1: "order_of (o_id x) s1 = Some ?x"
    using order_tab.get_put_same [of ?x s x] x by (simp add: ran(7))
  from assms(4) show ?thesis
  proof (cases rule: decline_trade_cases)
    case (ran u ord s3 cmd pub v a)
    have u: "u = ?t" using ran(1,2) t by simp
    with ran(3) x(1) obtain y where "ord = Some y" "o_id y = o_id x" "order_of (o_id y) s1 = Some y"
      by (cases ord) (simp_all add: links_to_def hit_trade_fields)
    with x1 have ord: "ord = Some ?x" by simp
    have gb: "give_back (clk' 1) cur' qty ?x (put_trade (declined_trade ?t) s1) = Inr s3"
      using ran(7) by (simp add: ord u hit_trade_fields)
    have "\<not> order_expired (clk' 1) ?x" using assms(6) by (simp add: order_expired_def)
    note s3 = give_back_live [OF gb bk(4) this]
    have s2: "orders s2 = orders (put_order (restored_order qty ?x) s1)" "inventory s2 = inventory s1"
      using conclude_trade_tables [OF ran(8)] s3 by (simp_all add: order_tab.rows_put)
    have "order_of (o_id x) s2 = Some (restored_order qty ?x)"
      using order_tab.get_put_same [of "restored_order qty ?x" s1 ?x] x1 by (simp add: s2 bk(3))
    moreover have "order_of j s2 = order_of j s" if "j \<noteq> o_id x" for j
      using that order_tab.get_put_other [of j "restored_order qty ?x" s1] order_tab.get_put_other [of j ?x s] o1 x(1)
      by (simp add: s2 bk(3))
    ultimately show ?thesis using bk s2 i1 by auto
  qed simp
qed (use assms(3) in simp)

lemma decline_succeeds:
  assumes ready: "ready_trade e s cur t x" and pend: "t_status t = PENDING_CONFIRMATION"
    and cur: "other_user t = Some (u_id cur)" and live: "\<not> withdrawn (o_status x)" "\<not> order_expired (clk 1) x"
  shows "\<exists>s' r. decline_trade e enc clk None cur (t_id t) s s = Inr (s', Fresh r)"
proof -
  note l = ready_locks [OF ready]
  obtain b bg c cg where p: "organization_of (t_buyer_id t) s = Some bg" "organization_of (t_seller_id t) s = Some cg"
    using ready by (rule ready_parties) blast
  have x: "o_creation_method x \<noteq> MARKET_SUPPORT" "slice_identity (trade_market_slice s t) = order_identity x"
    using ready by (simp_all add: ready_trade_def)
  have own: "decline_actor_ownership t (Some x) cur = Inr []"
    using x(1) by (simp add: decline_actor_ownership_def assisted_trade_side_def)
  have orgs: "\<exists>m. lock_and_load_market_organizations s [t_buyer_id t, t_seller_id t] [] False [] = Inr m"
    using p by (simp add: lock_and_load_market_organizations_def ownership_by_user_def)
  have guard: "decline_guard t cur False = Inr ()"
    using cur by (auto simp: decline_guard_def other_user_def split: if_splits)
  have "py_strip ''trade_declined'' \<noteq> []" by code_simp
  from conclude_trade_None [OF this] orgs show ?thesis
    by (auto simp: decline_trade_def run_decline_def trade_command_def prepare_command_attempt_def with_replay_def l pend own guard x
        give_back_def live Let_def simp del: One_nat_def)
qed

lemma ex_declined:
  "\<exists>s1 r1 s2 r2. create_trade ex_hash_env ex_cfg (\<lambda>_. 1000) None ex_buyer ex_hit ex_db ex_db = Inr (s1, r1) \<and> s1 \<noteq> ex_db \<and>
    decline_trade ex_env (\<lambda>_. []) (\<lambda>_. 1000) None ex_seller (next_id ex_db) s1 s1 = Inr (s2, Fresh r2)"
proof -
  obtain s1 r1 where r: "create_trade ex_hash_env ex_cfg (\<lambda>_. 1000) None ex_buyer ex_hit ex_db ex_db = Inr (s1, r1)" "s1 \<noteq> ex_db"
    and u: "users s1 = users ex_db" "organizations s1 = organizations ex_db" "orders s1 = [hit_order 200 ex_ask, ex_bid]"
      "trades s1 = [hit_trade ex_db ex_buyer 42 ex_ask 200 (FREE, 2) None 1000]"
    using ex_create by blast
  let ?t = "hit_trade ex_db ex_buyer 42 ex_ask 200 (FREE, 2) None 1000"
  have t: "t_id ?t = 1000" "t_status ?t = PENDING_CONFIRMATION" "linked_order_id ?t = Some 31" "t_buyer_id ?t = 42" "t_seller_id ?t = 41"
    "t_buyer_user_id ?t = Some 12" "t_seller_user_id ?t = Some 11" "t_initiated_by ?t = BY_BUYER"
    "product_id (t_snapshot ?t) = Some (p_id ex_product)" "availability_window (t_snapshot ?t) = Some ''SPOT''"
    "delivery_point_id (t_snapshot ?t) = Some (d_id ex_point)"
    by (simp_all add: hit_trade_def Let_def linked_order_id_def ex_buyer_def order_snapshot_def)
  have "ready_trade ex_env s1 ex_seller ?t (hit_order 200 ex_ask)"
    using ex_slice_lock [OF canonical_SPOT]
    by (simp add: ready_trade_def links_to_def trade_market_slice_def slice_identity_def order_identity_def t u
        ex_seller_def execution_party_is_eligible_def SPOT_WINDOW_def)
  from decline_succeeds [OF this t(2), where clk = "\<lambda>_. 1000" and enc = "\<lambda>_. []"] r t show ?thesis
    by (simp add: other_user_def ex_seller_def withdrawn_def order_expired_def)
qed

theorem decline_undoes_hit_witness:
  "\<exists>s1 r1 s2 r2 y. create_trade ex_hash_env ex_cfg (\<lambda>_. 1000) None ex_buyer ex_hit ex_db ex_db = Inr (s1, r1) \<and>
    decline_trade ex_env (\<lambda>_. []) (\<lambda>_. 1000) None ex_seller (next_id ex_db) s1 s1 = Inr (s2, Fresh r2) \<and>
    order_of 31 s2 = Some y \<and> o_remaining_quantity_mt y = 500 \<and> o_status y = OPEN"
proof -
  obtain s1 r1 s2 r2 where r: "create_trade ex_hash_env ex_cfg (\<lambda>_. 1000) None ex_buyer ex_hit ex_db ex_db = Inr (s1, r1)" "s1 \<noteq> ex_db"
    "decline_trade ex_env (\<lambda>_. []) (\<lambda>_. 1000) None ex_seller (next_id ex_db) s1 s1 = Inr (s2, Fresh r2)"
    using ex_declined by blast
  have "order_of (tc_order_id ex_hit) ex_db = Some ex_ask" "\<not> order_expired 1000 ex_ask"
    by (simp_all add: ex_hit_def order_expired_def)
  from decline_undoes_hit [OF ex_market_inv r this] r(1,3) show ?thesis by auto
qed

subsection \<open>Replays\<close>

text \<open>The receipt of a command: the request its hash covers.\<close>

definition command_name :: "TradeCommand \<Rightarrow> string" where
  "command_name c = (case c of Confirm \<Rightarrow> ''trade.confirm'' | Decline \<Rightarrow> ''trade.decline''
     | Deliver _ \<Rightarrow> ''trade.deliver'' | Pay \<Rightarrow> ''trade.pay'')"

definition command_extra :: "TradeCommand \<Rightarrow> (string \<times> json) list" where
  "command_extra c = (case c of
     Deliver p \<Rightarrow> [(''final_quantity_mt'', JStr (decimal_text (pydec_val (td_final_quantity_mt p)))),
                  (''final_price_per_mt'', JStr (decimal_text (pydec_val (td_final_price_per_mt p))))]
   | _ \<Rightarrow> [])"

lemma conclude_trade_receipt:
  assumes "conclude_trade enc cmd cur v t rc action event pub s = Inr (s', Fresh r)"
  shows "\<exists>s2. record_command_success cmd 200 (enc r) s2 = Inr s' \<and> command_results s2 = command_results s"
  using assms
  by (auto simp: conclude_trade_def Let_def record_audit_def notify_org_users_def notify_org_users_batched_def
      enqueue_market_events_def)

lemma stock_receipts:
  "consume_inventory i q s = Inr s' \<Longrightarrow> command_results s' = command_results s"
  "release_inventory i q s = Inr s' \<Longrightarrow> command_results s' = command_results s"
  by (auto simp: consume_inventory_def release_inventory_def put_item_def split: if_splits)

lemma give_back_receipts:
  assumes "give_back now cur q x s = Inr s'" shows "command_results s' = command_results s"
proof (cases "o_inventory_item_id x")
  case None
  with assms show ?thesis
    by (auto simp: give_back_def Let_def order_changed_def project_def record_audit_def put_order_def split: if_splits)
next
  case (Some i)
  with assms show ?thesis
    unfolding give_back_def Let_def Some option.case
    by (auto simp: order_changed_def project_def record_audit_def put_order_def split: if_splits dest: stock_receipts)
qed

lemma with_replay_split:
  assumes "with_replay cmd s run = Inr (s', reply)"
  shows "cmd = Some a \<Longrightarrow> ca_replay a = Some x \<Longrightarrow> s' = s \<and> reply = Replayed (c_response_status x) (c_response_body x)"
    and "reply = Fresh r \<Longrightarrow> run = Inr (s', Fresh r)"
  using assms by (auto simp: with_replay_def split: option.splits)

definition receipted :: "CommandAttempt option \<Rightarrow> (TradeResponse \<Rightarrow> string) \<Rightarrow> market_db \<Rightarrow> market_db \<Rightarrow> TradeResponse \<Rightarrow> bool" where
  "receipted cmd enc s s' r \<longleftrightarrow>
     (\<exists>s2. record_command_success cmd 200 (enc r) s2 = Inr s' \<and> command_results s2 = command_results s)"

lemma conclude_receipted:
  assumes "conclude_trade enc cmd cur v t rc action event pub s1 = Inr (s', Fresh r)" "command_results s1 = command_results s"
  shows "receipted cmd enc s s' r"
  using conclude_trade_receipt [OF assms(1)] assms(2) by (simp add: receipted_def)

lemma put_trade_receipts [simp]: "command_results (put_trade t s) = command_results s"
  "command_results (activate_referrals n t s) = command_results s"
  by (simp_all add: put_trade_def activate_referrals_def)

lemma run_receipted:
  "run_confirm e enc clk cmd cur k pv s = Inr (s', Fresh r) \<Longrightarrow> receipted cmd enc s s' r"
  "run_decline e enc clk cmd cur k pv s = Inr (s', Fresh r) \<Longrightarrow> receipted cmd enc s s' r"
  "run_deliver e enc clk cmd cur k fq fp pv s = Inr (s', Fresh r) \<Longrightarrow> receipted cmd enc s s' r"
  "run_pay e enc clk cmd cur k pv s = Inr (s', Fresh r) \<Longrightarrow> receipted cmd enc s s' r"
proof -
  assume "run_confirm e enc clk cmd cur k pv s = Inr (s', Fresh r)"
  then obtain t ord s2 pub where
    s2: "(case order_stock ord of None \<Rightarrow> Inr (put_trade (confirmed_trade (clk 1) t) s)
        | Some i \<Rightarrow> consume_inventory i (t_quantity_mt t) (put_trade (confirmed_trade (clk 1) t) s)) = Inr s2"
    and c: "conclude_trade enc cmd cur (refreshed s cur) (confirmed_trade (clk 1) t) (initiator_party t)
        ''trade.confirmed'' ''trade_confirmed'' pub (activate_referrals (clk 2) t s2) = Inr (s', Fresh r)"
    unfolding run_confirm_def by (auto simp: Let_def simp del: One_nat_def)
  have "command_results s2 = command_results s"
    using s2 by (cases "order_stock ord") (auto dest: stock_receipts simp del: One_nat_def)
  then show "receipted cmd enc s s' r" by (intro conclude_receipted [OF c]) simp
next
  assume "run_decline e enc clk cmd cur k pv s = Inr (s', Fresh r)"
  then obtain t ord s2 pub v where
    s2: "(case ord of None \<Rightarrow> Inr (put_trade (declined_trade t) s)
        | Some x \<Rightarrow> give_back (clk 1) cur (t_quantity_mt t) x (put_trade (declined_trade t) s)) = Inr s2"
    and c: "conclude_trade enc cmd cur v (declined_trade t) (initiator_party t)
        ''trade.declined'' ''trade_declined'' pub s2 = Inr (s', Fresh r)"
    unfolding run_decline_def by (auto simp: Let_def simp del: One_nat_def)
  have "command_results s2 = command_results s" using s2 by (cases ord) (auto dest: give_back_receipts simp del: One_nat_def)
  then show "receipted cmd enc s s' r" by (rule conclude_receipted [OF c])
next
  assume "run_deliver e enc clk cmd cur k fq fp pv s = Inr (s', Fresh r)"
  then show "receipted cmd enc s s' r"
    unfolding run_deliver_def by (clarsimp simp: Let_def simp del: One_nat_def) (erule conclude_receipted, simp)
next
  assume "run_pay e enc clk cmd cur k pv s = Inr (s', Fresh r)"
  then show "receipted cmd enc s s' r"
    unfolding run_pay_def by (clarsimp simp: Let_def simp del: One_nat_def) (erule conclude_receipted, simp)
qed

lemma command_prepared:
  assumes "run_trade_command e enc clk h cur k c pv s = Inr (s', reply)"
  obtains cmd run where "trade_command e pv h cur (command_name c) k (command_extra c) = Inr cmd"
    "with_replay cmd s run = Inr (s', reply)" "\<forall>r. run = Inr (s', Fresh r) \<longrightarrow> receipted cmd enc s s' r"
proof (cases c)
  case (Deliver p)
  with assms obtain fq fp cmd where b: "bounded_decimal (td_final_quantity_mt p) 100000 = Inr fq"
      "bounded_decimal (td_final_price_per_mt p) 1000000 = Inr fp"
    and cmd: "trade_command e pv h cur ''trade.deliver'' k
      [(''final_quantity_mt'', JStr (decimal_text fq)), (''final_price_per_mt'', JStr (decimal_text fp))] = Inr cmd"
    and w: "with_replay cmd s (run_deliver e enc clk cmd cur k fq fp pv s) = Inr (s', reply)"
    by (auto simp: run_trade_command_def deliver_trade_def)
  show ?thesis
    using that [OF _ w] cmd bounded_decimal_Inr(1) [OF b(1)] bounded_decimal_Inr(1) [OF b(2)] run_receipted(3) Deliver
    by (simp add: command_name_def command_extra_def)
qed (use assms that run_receipted in \<open>auto simp: run_trade_command_def confirm_trade_def decline_trade_def pay_trade_def
      command_name_def command_extra_def\<close>)

lemma prepare_command_attempt_cong:
  assumes "command_results s = command_results s'"
  shows "prepare_command_attempt e s = prepare_command_attempt e s'"
  by (intro ext) (simp only: prepare_command_attempt_def assms)

lemma prepared_Some:
  "prepare_command_attempt e s (Some raw) u g x op rt k h = Inr cmd \<Longrightarrow> \<exists>a. cmd = Some a"
  by (cases g) (auto simp: prepare_command_attempt_def Let_def)

text \<open>C15: a command takes effect once. After a command carrying an \<open>Idempotency-Key\<close> has succeeded, the same request by the same
  user is answered, whenever it is answered at all, from the stored receipt with the response of the first run, and changes nothing.\<close>

theorem trade_command_takes_effect_once:
  assumes "run_trade_command e enc clk (Some raw) cur k c pv s = Inr (s', Fresh r)"
    and "command_results pv = command_results s"
    and "command_results pv' = command_results s' @ later"
    and "run_trade_command e enc' clk' (Some raw) cur k c pv' t = Inr (t', reply)"
  shows "t' = t \<and> reply = Replayed 200 (enc r)"
proof -
  from assms(1) obtain cmd run where c: "trade_command e pv (Some raw) cur (command_name c) k (command_extra c) = Inr cmd"
    "with_replay cmd s run = Inr (s', Fresh r)" and rec: "\<forall>r. run = Inr (s', Fresh r) \<longrightarrow> receipted cmd enc s s' r"
    by (rule command_prepared)
  obtain a where a: "cmd = Some a"
    using c(1) prepared_Some unfolding trade_command_def by blast
  have none: "ca_replay a = None"
    using with_replay_split(1) [OF c(2) a] by (cases "ca_replay a") auto
  from rec with_replay_split(2) [OF c(2)] obtain s2 where s2: "record_command_success (Some a) 200 (enc r) s2 = Inr s'"
    "command_results s2 = command_results pv" using a assms(2) by (auto simp: receipted_def)
  from assms(4) obtain cmd' run' where c': "trade_command e pv' (Some raw) cur (command_name c) k (command_extra c) = Inr cmd'"
    "with_replay cmd' t run' = Inr (t', reply)"
    by (rule command_prepared)
  obtain a' where a': "cmd' = Some a'"
    using c'(1) prepared_Some unfolding trade_command_def by blast
  have prep: "prepare_command_attempt e s2 (Some raw) (u_id cur) (u_organization_id cur) None (command_name c) ''trade'' k
      (command_request_hash e (JObj ([(''operation'', JStr (command_name c)), (''trade_id'', JStr (uuid_str k))] @ command_extra c)))
      = Inr (Some a)"
    using c(1) prepare_command_attempt_cong [OF s2(2)] unfolding trade_command_def a by simp
  have "\<exists>x. ca_replay a' = Some x \<and> c_response_status x = 200 \<and> c_response_body x = enc r"
    using replay_after_record [OF prep none s2(1) assms(3)] c'(1) unfolding trade_command_def a' by blast
  then show ?thesis using with_replay_split(1) [OF c'(2) a'] by auto
qed

theorem trade_command_takes_effect_once_witness:
  "\<exists>s' r t' reply. run_trade_command ex_env (\<lambda>_. ''ok'') (\<lambda>_. 1000) (Some ''k1'') ex_seller 71 Confirm (ex_traded ex_trade) (ex_traded ex_trade)
      = Inr (s', Fresh r) \<and>
    run_trade_command ex_env (\<lambda>_. ''ok'') (\<lambda>_. 1001) (Some ''k1'') ex_seller 71 Confirm s' s' = Inr (s', Replayed 200 ''ok'')"
proof -
  have key: "normalize_idempotency_key ''k1'' = Inr ''k1''" by code_simp
  let ?s = "ex_traded ex_trade"
  define a where "a = \<lparr>ca_actor_user_id = 11, ca_effective_organization_id = 41, ca_support_context_id = None,
     ca_operation = ''trade.confirm'', ca_idempotency_key = ''k1'',
     ca_request_hash = command_request_hash ex_env (JObj [(''operation'', JStr ''trade.confirm''), (''trade_id'', JStr (uuid_str 71))]),
     ca_resource_type = ''trade'', ca_resource_id = 71, ca_replay = None\<rparr>"
  have cmd: "trade_command ex_env ?s (Some ''k1'') ex_seller ''trade.confirm'' 71 [] = Inr (Some a)"
    by (simp add: trade_command_def prepare_command_attempt_def key ex_idempotency_lock ex_seller_def a_def)
  obtain s0 r where "run_confirm ex_env (\<lambda>_. ''ok'') (\<lambda>_. 1000) None ex_seller 71 ?s ?s = Inr (s0, Fresh r)"
    using ex_confirm [of "\<lambda>_. ''ok''" "\<lambda>_. 1000"]
    by (auto simp: run_trade_command_def confirm_trade_def trade_command_def prepare_command_attempt_def with_replay_def)
  then have "\<exists>s' r. run_confirm ex_env (\<lambda>_. ''ok'') (\<lambda>_. 1000) (Some a) ex_seller 71 ?s ?s = Inr (s', Fresh r)"
    unfolding run_confirm_def
    by (clarsimp simp: Let_def simp del: One_nat_def) 
       (auto simp: conclude_trade_def Let_def record_command_success_def a_def)
  then obtain s' r where "run_confirm ex_env (\<lambda>_. ''ok'') (\<lambda>_. 1000) (Some a) ex_seller 71 ?s ?s = Inr (s', Fresh r)" by blast
  then have first: "run_trade_command ex_env (\<lambda>_. ''ok'') (\<lambda>_. 1000) (Some ''k1'') ex_seller 71 Confirm ?s ?s = Inr (s', Fresh r)"
    by (simp add: run_trade_command_def confirm_trade_def cmd with_replay_def a_def)
  have "receipted (Some a) (\<lambda>_. ''ok'') ?s s' r" by (rule run_receipted(1)) fact
  then have res: "command_results s' = [\<lparr>c_actor_user_id = 11, c_effective_organization_id = 41, c_support_context_id = None,
      c_operation = ''trade.confirm'', c_idempotency_key = ''k1'', c_request_hash = ca_request_hash a, c_resource_type = ''trade'',
      c_resource_id = 71, c_response_status = 200, c_response_body = ''ok''\<rparr>]"
    by (auto simp: receipted_def record_command_success_def a_def)
  have "\<exists>t' reply. run_trade_command ex_env (\<lambda>_. ''ok'') (\<lambda>_. 1001) (Some ''k1'') ex_seller 71 Confirm s' s' = Inr (t', reply)"
    by (simp add: run_trade_command_def confirm_trade_def trade_command_def prepare_command_attempt_def key ex_idempotency_lock
        ex_seller_def with_replay_def res a_def Let_def)
  then obtain t' reply where second:
    "run_trade_command ex_env (\<lambda>_. ''ok'') (\<lambda>_. 1001) (Some ''k1'') ex_seller 71 Confirm s' s' = Inr (t', reply)" by blast
  from trade_command_takes_effect_once [OF first refl _ second, of "[]"] first second show ?thesis by auto
qed

end
