(* ===== verification/Order_Lifecycle.thy ===== *)
theory Order_Lifecycle
  imports Market_Evidence Matching_Engine
begin

section \<open>Expiring the orders of a slice\<close>

text \<open>
  \<^verbatim>\<open>src/app/services/order_lifecycle.py\<close>: one bounded pass over a market slice that expires its
  overdue orders and gives their reservations back to free stock. The advisory lock of the slice
  is held across the preview and the locking read, so both see the same rows.

  The lemmas: a pass keeps the market invariant, never fails on the reservation check when the
  invariant holds, and leaves no overdue order behind when the slice holds at most \<open>limit\<close> of them.
\<close>

definition MAX_EXPIRY_ROWS_PER_TRANSACTION :: nat where
  "MAX_EXPIRY_ROWS_PER_TRANSACTION = 100"

definition overdue :: "slice_key \<Rightarrow> time \<Rightarrow> order \<Rightarrow> bool" where
  "overdue key now x =
     (case key of (side, pid, dpid, window) \<Rightarrow>
        o_side x = side \<and> o_product_id x = pid \<and> o_availability_window x = window \<and> live_status (o_status x)
        \<and> order_expired now x \<and> o_delivery_point_id x = dpid)"

definition expiry_rows :: "slice_key \<Rightarrow> time \<Rightarrow> nat \<Rightarrow> market_db \<Rightarrow> order list" where
  "expiry_rows key now limit s = take limit (sort_key o_id (filter (overdue key now) (orders s)))"

text \<open>The stock movement of one expiry; the item is one of the locked rows.\<close>

definition unreserve :: "uuid option \<Rightarrow> dec \<Rightarrow> market_db \<Rightarrow> market_db result" where
  "unreserve k remaining s =
     (case k of None \<Rightarrow> Inr s
      | Some i \<Rightarrow>
          if remaining \<le> 0 then Inr s
          else case item_of i s of None \<Rightarrow> Inl KeyError
            | Some item \<Rightarrow>
                if i_reserved_stock_mt item < remaining
                then Inl (HTTPException 409 ''Inventory reservation is inconsistent; expiry refused'')
                else Inr (put_item (item\<lparr>i_reserved_stock_mt := i_reserved_stock_mt item - remaining,
                                      i_current_stock_mt := i_current_stock_mt item + remaining\<rparr>) s))"

definition lapsed_order :: "order \<Rightarrow> order" where
  "lapsed_order x = bump_version (x\<lparr>o_status := EXPIRED\<rparr>)"

definition expire_one :: "order \<Rightarrow> market_db \<Rightarrow> market_db result" where
  "expire_one x s =
     bindR (unreserve (o_inventory_item_id x) (o_remaining_quantity_mt x) s) (\<lambda>s1.
     Inr (record_audit None ''order.expired'' ''order'' (o_id x)
            (project (EmitOrderUpdated (o_id x)) (put_order (lapsed_order x) s1))))"

definition expiry_event :: "market_db \<Rightarrow> order \<Rightarrow> outbox_event result" where
  "expiry_event s x =
     participant_market_event ''order_expired'' ''order'' (o_id x) [o_organization_id x]
       (case o_expires_at x of None \<Rightarrow> False | Some t \<Rightarrow> public_order_is_visible s (t - 1) (o_id x))"

fun collectR :: "('a \<Rightarrow> 'b result) \<Rightarrow> 'a list \<Rightarrow> 'b list result" where
  "collectR f [] = Inr []"
| "collectR f (x # xs) = bindR (f x) (\<lambda>y. bindR (collectR f xs) (\<lambda>ys. Inr (y # ys)))"

definition expire_market_slice_orders ::
  "env \<Rightarrow> slice_key \<Rightarrow> time \<Rightarrow> nat \<Rightarrow> uuid list \<Rightarrow> MarketActorOwnership list \<Rightarrow> uuid list \<Rightarrow> market_db
     \<Rightarrow> (market_db \<times> order list \<times> (uuid \<rightharpoonup> organization)) result"
where
  "expire_market_slice_orders e key now limit additional owns approved s =
     bindR (refuse (limit < 1 \<or> limit > MAX_EXPIRY_ROWS_PER_TRANSACTION)
              (ValueError ''expiry limit is outside the operational bound'')) (\<lambda>_.
     bindR (acquire_market_slice_lock e key) (\<lambda>_.
     let rows = expiry_rows key now limit s in
     bindR (lock_and_load_market_organizations s (additional @ map o_organization_id rows) owns False approved) (\<lambda>orgs.
     bindR (lock_inventory_items s (remdups (List.map_filter (\<lambda>x. if o_remaining_quantity_mt x > 0 then o_inventory_item_id x else None) rows))) (\<lambda>_.
     bindR (mapR expire_one rows s) (\<lambda>s1.
     bindR (collectR (expiry_event s) rows) (\<lambda>evs.
     Inr (enqueue_market_events evs s1, rows, orgs)))))))"

subsection \<open>One expiry\<close>

lemma unreserve_effect:
  assumes "unreserve k q s = Inr s1" "0 \<le> q"
  shows "same_market s s1" "reserved_stock s1 j = reserved_stock s j - (if k = Some j then q else 0)"
    "current_stock s1 j = current_stock s j + (if k = Some j then q else 0)"
proof -
  have "same_market s s1 \<and> reserved_stock s1 j = reserved_stock s j - (if k = Some j then q else 0) \<and>
    current_stock s1 j = current_stock s j + (if k = Some j then q else 0)"
  proof (cases "k = None \<or> q \<le> 0")
    case True
    then show ?thesis using assms by (cases k) (auto simp: unreserve_def split: if_splits)
  next
    case False
    then obtain i where k: "k = Some i" by auto
    with assms False obtain it where it: "item_of i s = Some it"
      and s1: "s1 = put_item (it\<lparr>i_reserved_stock_mt := i_reserved_stock_mt it - q, i_current_stock_mt := i_current_stock_mt it + q\<rparr>) s"
      by (auto simp: unreserve_def split: option.splits if_splits)
    show ?thesis using it by (auto simp: s1 k stock_put_item reserved_stock_def [of s] current_stock_def [of s])
  qed
  then show "same_market s s1" "reserved_stock s1 j = reserved_stock s j - (if k = Some j then q else 0)"
    "current_stock s1 j = current_stock s j + (if k = Some j then q else 0)" by simp_all
qed

lemma lapsed_order_fields [simp]:
  "o_id (lapsed_order x) = o_id x" "o_inventory_item_id (lapsed_order x) = o_inventory_item_id x"
  "o_status (lapsed_order x) = EXPIRED" "o_remaining_quantity_mt (lapsed_order x) = o_remaining_quantity_mt x"
  "o_quantity_mt (lapsed_order x) = o_quantity_mt x"
  by (simp_all add: lapsed_order_def)

text \<open>Withdrawing a live order while its stock is released: the move behind expiry and cancellation.\<close>

lemma withdraw_move:
  assumes inv: "market_inv_upto \<sigma> s" and x: "order_of (o_id x) s = Some x" and live: "live_status (o_status x)"
    and y: "o_id y = o_id x" "o_inventory_item_id y = o_inventory_item_id x" "withdrawn (o_status y)"
      "o_remaining_quantity_mt y = o_remaining_quantity_mt x" "o_quantity_mt y = o_quantity_mt x"
    and st: "same_market s s1"
      "\<And>j. reserved_stock s1 j = reserved_stock s j - (if o_inventory_item_id x = Some j then o_remaining_quantity_mt x else 0)"
      "\<And>j. current_stock s1 j = current_stock s j + (if o_inventory_item_id x = Some j then o_remaining_quantity_mt x else 0)"
  shows "market_inv_upto \<sigma> (put_order y s1)"
proof -
  have row: "order_row_ok x" and fill: "order_filled (filled_quantity s (o_id x)) x"
    using inv order_of_mem [OF x] by (auto simp: market_inv_upto_def rows_ok_def fills_ok_def)
  have live': "\<not> withdrawn (o_status x)" using live by (auto simp: live_status_def withdrawn_def)
  have dead: "\<not> live_status (o_status y)" using y(3) by (auto simp: live_status_def withdrawn_def)
  show ?thesis
  proof (rule order_move [OF inv _ y(2) _ _ st(1)])
    show "order_of (o_id y) s = Some x" using x y(1) by simp
    show "order_row_ok y" using row y by (auto simp: order_row_ok_def ORDER_LIFECYCLE_def withdrawn_def)
    show "order_filled (filled_quantity s (o_id y)) y" using fill live' y by (simp add: order_filled_def)
    show "reserved_stock s1 k = reserved_stock s k - order_commitment k x + order_commitment k y" for k
      using st(2) [of k] live dead by (simp add: order_commitment_def)
    show "0 \<le> current_stock s1 k" for k
      using st(3) [of k] inv row by (simp add: market_inv_upto_def reserves_upto_def order_row_ok_def)
  qed
qed

lemma expire_one_inv:
  assumes "market_inv_upto \<sigma> s" "order_of (o_id x) s = Some x" "live_status (o_status x)" "expire_one x s = Inr s'"
  shows "market_inv_upto \<sigma> s'"
proof -
  from assms(4) obtain s1 where s1: "unreserve (o_inventory_item_id x) (o_remaining_quantity_mt x) s = Inr s1"
    and s': "s' = record_audit None ''order.expired'' ''order'' (o_id x)
      (project (EmitOrderUpdated (o_id x)) (put_order (lapsed_order x) s1))"
    by (auto simp: expire_one_def)
  have "0 \<le> o_remaining_quantity_mt x"
    using assms(1) order_of_mem [OF assms(2)] by (auto simp: market_inv_upto_def rows_ok_def order_row_ok_def)
  note u = unreserve_effect [OF s1 this]
  have "market_inv_upto \<sigma> (put_order (lapsed_order x) s1)"
    by (rule withdraw_move [OF assms(1-3)]) (use u in \<open>simp_all add: withdrawn_def\<close>)
  then show ?thesis by (simp add: s')
qed

lemma expire_one_effect:
  assumes "market_inv_upto \<sigma> s" "order_of (o_id x) s = Some x" "live_status (o_status x)" "expire_one x s = Inr s'"
  shows "order_of j s' = (if j = o_id x then Some (lapsed_order x) else order_of j s)"
    "map o_id (orders s') = map o_id (orders s)"
    "current_stock s' k + reserved_stock s' k = current_stock s k + reserved_stock s k"
    "set (orders s') \<subseteq> insert (lapsed_order x) (set (orders s) - {x})"
proof -
  from assms(4) obtain s1 where s1: "unreserve (o_inventory_item_id x) (o_remaining_quantity_mt x) s = Inr s1"
    and s': "s' = record_audit None ''order.expired'' ''order'' (o_id x)
      (project (EmitOrderUpdated (o_id x)) (put_order (lapsed_order x) s1))"
    by (auto simp: expire_one_def)
  have "0 \<le> o_remaining_quantity_mt x"
    using assms(1) order_of_mem [OF assms(2)] by (auto simp: market_inv_upto_def rows_ok_def order_row_ok_def)
  note u = unreserve_effect [OF s1 this]
  have o: "orders s1 = orders s" using u(1) by (simp add: same_market_def)
  have o': "orders s' = orders (put_order (lapsed_order x) s1)" and i': "inventory s' = inventory s1" by (simp_all add: s')
  show "order_of j s' = (if j = o_id x then Some (lapsed_order x) else order_of j s)"
    using order_tab.get_put_same [of "lapsed_order x" s1 x] order_tab.get_put_other [of j "lapsed_order x" s1] assms(2)
    by (simp add: o' o)
  show "map o_id (orders s') = map o_id (orders s)" by (simp add: o' o)
  show "current_stock s' k + reserved_stock s' k = current_stock s k + reserved_stock s k"
    using u(2,3) [of k] by (simp add: current_stock_def reserved_stock_def i')
  show "set (orders s') \<subseteq> insert (lapsed_order x) (set (orders s) - {x})"
    using orders_put_mem [of _ "lapsed_order x" s1] by (auto simp: o' o)
qed

lemma expire_one_succeeds:
  assumes inv: "market_inv_upto \<sigma> s" and x: "order_of (o_id x) s = Some x" and live: "live_status (o_status x)"
  shows "\<exists>s'. expire_one x s = Inr s'"
proof (cases "o_inventory_item_id x = None \<or> o_remaining_quantity_mt x \<le> 0")
  case True
  then show ?thesis by (cases "o_inventory_item_id x") (auto simp: expire_one_def unreserve_def)
next
  case False
  then obtain i where i: "o_inventory_item_id x = Some i" by auto
  have p: "refs_ok s" "rows_ok s" "reserves_upto \<sigma> s" using inv by (simp_all add: market_inv_upto_def)
  have xm: "x \<in> set (orders s)" using order_of_mem [OF x] by simp
  from p(1) xm i have "i \<in> i_id ` set (inventory s)" by (auto simp: refs_ok_def)
  then obtain it where it: "item_of i s = Some it" by (metis row_by_None_iff option.exhaust)
  have "order_commitment i x \<le> sum_list (map (order_commitment i) (orders s))"
    using p(2) xm by (intro member_le_sum_list) (auto simp: rows_ok_def order_commitment_def order_row_ok_def)
  moreover have "0 \<le> sum_list (map (trade_commitment (order_item s) i) (trades s))"
    using p(2) by (intro sum_list_nonneg) (auto simp: rows_ok_def trade_commitment_def trade_row_ok_def less_imp_le)
  ultimately have "o_remaining_quantity_mt x \<le> committed s i"
    using i live by (simp add: committed_def order_commitment_def)
  moreover have "committed s i \<le> reserved_stock s i" using p(3) by (simp add: reserves_upto_def)
  ultimately have "o_remaining_quantity_mt x \<le> i_reserved_stock_mt it" by (simp add: reserved_stock_def it)
  then show ?thesis using it i by (auto simp: expire_one_def unreserve_def)
qed

subsection \<open>The pass\<close>

lemma expire_all:
  assumes "market_inv_upto \<sigma> s" "distinct (map o_id xs)" "\<And>x. x \<in> set xs \<Longrightarrow> order_of (o_id x) s = Some x \<and> live_status (o_status x)"
  shows "\<exists>s'. mapR expire_one xs s = Inr s' \<and> market_inv_upto \<sigma> s' \<and>
    (\<forall>x\<in>set xs. order_of (o_id x) s' = Some (lapsed_order x)) \<and>
    (\<forall>j. j \<notin> o_id ` set xs \<longrightarrow> order_of j s' = order_of j s) \<and>
    (\<forall>k. current_stock s' k + reserved_stock s' k = current_stock s k + reserved_stock s k) \<and>
    set (orders s') \<subseteq> lapsed_order ` set xs \<union> (set (orders s) - set xs)"
  using assms
proof (induction xs arbitrary: s)
  case (Cons x xs)
  have x: "order_of (o_id x) s = Some x" "live_status (o_status x)" using Cons.prems(3) by auto
  obtain s1 where s1: "expire_one x s = Inr s1" using expire_one_succeeds [OF Cons.prems(1) x] by blast
  note e = expire_one_effect [OF Cons.prems(1) x s1]
  have "market_inv_upto \<sigma> s1" by (rule expire_one_inv [OF Cons.prems(1) x s1])
  moreover have "order_of (o_id y) s1 = Some y \<and> live_status (o_status y)" if "y \<in> set xs" for y
  proof -
    have "o_id y \<noteq> o_id x" using Cons.prems(2) that by (auto simp: image_iff)
    then show ?thesis using e(1) [of "o_id y"] Cons.prems(3) that by simp
  qed
  ultimately obtain s' where s': "mapR expire_one xs s1 = Inr s'" "market_inv_upto \<sigma> s'"
    "\<forall>x\<in>set xs. order_of (o_id x) s' = Some (lapsed_order x)"
    "\<forall>j. j \<notin> o_id ` set xs \<longrightarrow> order_of j s' = order_of j s1"
    "\<forall>k. current_stock s' k + reserved_stock s' k = current_stock s1 k + reserved_stock s1 k"
    "set (orders s') \<subseteq> lapsed_order ` set xs \<union> (set (orders s1) - set xs)"
    using Cons.IH [of s1] Cons.prems(2) by auto
  have "o_id x \<notin> o_id ` set xs" using Cons.prems(2) by simp
  with s'(4) e(1) have "order_of (o_id x) s' = Some (lapsed_order x)" by simp
  moreover have "set (orders s') \<subseteq> lapsed_order ` set (x # xs) \<union> (set (orders s) - set (x # xs))"
    using s'(6) e(4) by auto
  ultimately show ?case using s' s1 e(1,3) by (intro exI [of _ s']) auto
qed auto

lemma expiry_rows_facts:
  assumes "keys_ok s"
  shows "distinct (map o_id (expiry_rows key now n s))" "length (expiry_rows key now n s) \<le> n"
    "x \<in> set (expiry_rows key now n s) \<Longrightarrow> order_of (o_id x) s = Some x \<and> live_status (o_status x)"
    "length (filter (overdue key now) (orders s)) \<le> n \<Longrightarrow> set (expiry_rows key now n s) = set (filter (overdue key now) (orders s))"
proof -
  let ?r = "sort_key o_id (filter (overdue key now) (orders s))"
  have "distinct (map o_id (orders s))" using assms by (simp add: keys_ok_def)
  then have "inj_on o_id (set (orders s))" by (simp add: distinct_map)
  then have "distinct (map o_id ?r)"
    using \<open>distinct (map o_id (orders s))\<close> by (auto simp: distinct_map intro: inj_on_subset)
  then have "distinct (take n (map o_id ?r))" by (rule distinct_take)
  then show "distinct (map o_id (expiry_rows key now n s))" by (simp add: expiry_rows_def take_map)
  show "length (expiry_rows key now n s) \<le> n" by (simp add: expiry_rows_def)
  show "x \<in> set (expiry_rows key now n s) \<Longrightarrow> order_of (o_id x) s = Some x \<and> live_status (o_status x)"
    using order_unique [OF assms] by (auto simp: expiry_rows_def overdue_def split: prod.splits dest!: in_set_takeD)
  show "length (filter (overdue key now) (orders s)) \<le> n \<Longrightarrow>
      set (expiry_rows key now n s) = set (filter (overdue key now) (orders s))"
    by (simp add: expiry_rows_def)
qed

lemma collectR_ok: "(\<And>x. \<exists>y. f x = Inr y) \<Longrightarrow> \<exists>ys. collectR f xs = Inr ys"
proof (induction xs)
  case (Cons x xs)
  then obtain y ys where "f x = Inr y" "collectR f xs = Inr ys" by blast
  then show ?case by simp
qed simp

lemma lock_items_ok: "(\<And>i. i \<in> set ids \<Longrightarrow> item_of i s \<noteq> None) \<Longrightarrow> \<exists>m. lock_inventory_items s ids = Inr m"
  by (force simp: lock_inventory_items_def list_ex_iff)

text \<open>C25: a pass of the expiry job is complete and safe. Under the market invariant it never trips over a reservation,
  expires at most the given number of orders, releases exactly their reservations so that every item keeps its total stock,
  touches no other order, keeps the invariant, and leaves no overdue order in the slice if there were at most \<open>limit\<close>.\<close>

theorem expiry_pass_clears_slice:
  assumes "market_inv s" "1 \<le> limit" "limit \<le> 100" "acquire_market_slice_lock e key = Inr ()"
    and "lock_and_load_market_organizations s (extra @ map o_organization_id (expiry_rows key now limit s)) owns False approved = Inr orgs"
  shows "\<exists>s'. expire_market_slice_orders e key now limit extra owns approved s = Inr (s', expiry_rows key now limit s, orgs) \<and>
    market_inv s' \<and> length (expiry_rows key now limit s) \<le> limit \<and>
    (\<forall>x\<in>set (expiry_rows key now limit s). order_of (o_id x) s' = Some (lapsed_order x)) \<and>
    (\<forall>j. j \<notin> o_id ` set (expiry_rows key now limit s) \<longrightarrow> order_of j s' = order_of j s) \<and>
    (\<forall>k. current_stock s' k + reserved_stock s' k = current_stock s k + reserved_stock s k) \<and>
    (length (filter (overdue key now) (orders s)) \<le> limit \<longrightarrow> filter (overdue key now) (orders s') = [])"
proof -
  let ?rows = "expiry_rows key now limit s"
  have k: "keys_ok s" "refs_ok s" using assms(1) by (simp_all add: market_inv_upto_def)
  note f = expiry_rows_facts [OF k(1), where key = key and now = now and n = limit]
  obtain s1 where s1: "mapR expire_one ?rows s = Inr s1" "market_inv s1"
    "\<forall>x\<in>set ?rows. order_of (o_id x) s1 = Some (lapsed_order x)"
    "\<forall>j. j \<notin> o_id ` set ?rows \<longrightarrow> order_of j s1 = order_of j s"
    "\<forall>k. current_stock s1 k + reserved_stock s1 k = current_stock s k + reserved_stock s k"
    "set (orders s1) \<subseteq> lapsed_order ` set ?rows \<union> (set (orders s) - set ?rows)"
    using expire_all [OF assms(1) f(1,3)] by blast
  let ?ids = "remdups (List.map_filter (\<lambda>x. if o_remaining_quantity_mt x > 0 then o_inventory_item_id x else None) ?rows)"
  have "item_of i s \<noteq> None" if "i \<in> set ?ids" for i
  proof -
    from that obtain x where "x \<in> set ?rows" "o_inventory_item_id x = Some i"
      by (auto simp: List.map_filter_def split: if_splits)
    then have "i \<in> i_id ` set (inventory s)" using f(3) order_of_mem k(2) by (fastforce simp: refs_ok_def)
    then show ?thesis by (simp add: row_by_None_iff)
  qed
  then have inv: "\<exists>m. lock_inventory_items s ?ids = Inr m" using lock_items_ok by blast
  have "py_strip ''order_expired'' \<noteq> []" "py_strip ''order'' \<noteq> []" by code_simp+
  then have "\<exists>ev. expiry_event s x = Inr ev" for x by (simp add: expiry_event_def participant_market_event_def)
  then obtain evs where evs: "collectR (expiry_event s) ?rows = Inr evs" using collectR_ok by blast
  let ?s = "enqueue_market_events evs s1"
  have run: "expire_market_slice_orders e key now limit extra owns approved s = Inr (?s, ?rows, orgs)"
    using assms(2-5) inv s1(1) evs
    by (auto simp: expire_market_slice_orders_def MAX_EXPIRY_ROWS_PER_TRANSACTION_def Let_def)
  have stock: "current_stock ?s = current_stock s1" "reserved_stock ?s = reserved_stock s1"
    by (simp_all add: fun_eq_iff current_stock_def reserved_stock_def)
  have "filter (overdue key now) (orders ?s) = []" if "length (filter (overdue key now) (orders s)) \<le> limit"
  proof -
    have "\<not> overdue key now (lapsed_order x)" for x by (auto simp: overdue_def live_status_def split: prod.splits)
    then show ?thesis using s1(6) f(4) [OF that] by (auto simp: filter_empty_conv)
  qed
  then show ?thesis using run s1(2-5) f(2) by (intro exI [of _ ?s]) (simp add: stock)
qed

theorem expiry_pass_clears_slice_witness:
  "\<exists>s' orgs. expire_market_slice_orders ex_env (order_slice ex_ask) 3000 100 [] [] [] ex_db = Inr (s', [ex_ask], orgs) \<and>
    order_of 31 s' = Some (lapsed_order ex_ask) \<and> filter (overdue (order_slice ex_ask) 3000) (orders s') = []"
proof -
  have due: "filter (overdue (order_slice ex_ask) 3000) (orders ex_db) = [ex_ask]"
    by (simp add: overdue_def order_slice_def live_status_def order_expired_def)
  then have rows: "expiry_rows (order_slice ex_ask) 3000 100 ex_db = [ex_ask]" by (simp add: expiry_rows_def)
  have lock: "acquire_market_slice_lock ex_env (order_slice ex_ask) = Inr ()"
    using ex_slice_lock [OF canonical_SPOT] by (simp add: order_slice_def SPOT_WINDOW_def)
  obtain orgs where orgs: "lock_and_load_market_organizations ex_db ([] @ map o_organization_id (expiry_rows (order_slice ex_ask) 3000 100 ex_db)) [] False [] = Inr orgs"
    by (simp add: rows lock_and_load_market_organizations_def ownership_by_user_def)
  from expiry_pass_clears_slice [OF ex_market_inv _ _ lock orgs] rows due show ?thesis by auto
qed

end
