(* ===== verification/Order_Cancel.thy ===== *)
theory Order_Cancel
  imports Order_Lifecycle Trade_Lifecycle Request_Party
begin

section \<open>Cancelling an order\<close>

text \<open>
  \<open>cancel_order\<close> of \<^verbatim>\<open>src/app/routers/orderbook.py\<close> with the helpers of
  \<^verbatim>\<open>src/app/services/market_support.py\<close> it calls. An order is cancelled by its owner, or by a Market
  Support administrator when it is an assisted order of the supported organization; assisted
  orders carry a version, and the caller has to present the matching entity tag.

  The conventions are those of \<open>Trade_Lifecycle\<close>: \<open>pv\<close> is the state of the unlocked preview,
  \<open>s\<close> the state under the locks, \<open>clk 0\<close> the transaction's \<open>now()\<close> and \<open>clk 1, clk 2, ...\<close> the later
  readings of the clock. The result comes with the support tables, because an expired context
  is closed even when the request fails. Locking the rows of an assisted order's owner and
  organization (\<open>lock_support_order_parties\<close>) checks nothing and leaves no trace in the model.
\<close>

record order_settings =
  AUTO_MATCHING_ENABLED :: bool
  MARKET_SUPPORT_ENABLED :: bool
  MARKET_SUPPORT_CONSENT_VERSION :: string
  MARKET_SUPPORT_CONSENT_REFERENCE :: string

text \<open>What the handlers read of the HTTP request, besides its path and body.\<close>

record http_request =
  rq_method :: string
  rq_context :: "string option"
  rq_idempotency :: "string option"
  rq_if_match :: "string option"

subsection \<open>Entity tags\<close>

definition py_int_str :: "int \<Rightarrow> string" where
  "py_int_str v = (if v < 0 then CHR ''-'' # show_nat (nat (- v)) else show_nat (nat v))"

definition order_etag :: "uuid \<Rightarrow> int \<Rightarrow> string" where
  "order_etag k version = ''W/'' @ [CHR 0x22] @ ''order-'' @ uuid_str k @ ''-v'' @ py_int_str version @ [CHR 0x22]"

definition require_matching_etag :: "string option \<Rightarrow> uuid \<Rightarrow> int \<Rightarrow> unit result" where
  "require_matching_etag raw k version =
     (case raw of None \<Rightarrow> Inl (HTTPException 428 ''IF_MATCH_REQUIRED: If-Match is required'')
      | Some r \<Rightarrow>
          let v = py_strip r in
          if v = [] \<or> take 3 v \<noteq> ''W/'' @ [CHR 0x22] \<or> last v \<noteq> CHR 0x22
          then Inl (HTTPException 400 ''IF_MATCH_MALFORMED: If-Match is malformed'')
          else if v \<noteq> order_etag k version
          then Inl (HTTPException 412 ''ORDER_VERSION_STALE: Listing changed; reload and retry'')
          else Inr ())"

subsection \<open>Guards\<close>

definition truthy_header :: "string option \<Rightarrow> bool" where
  "truthy_header h \<longleftrightarrow> h \<noteq> None \<and> h \<noteq> Some []"

definition reject_admin_legacy_workspace_mutation :: "order_settings \<Rightarrow> http_request \<Rightarrow> user \<Rightarrow> unit result" where
  "reject_admin_legacy_workspace_mutation fl rq cur =
     refuse (MARKET_SUPPORT_ENABLED fl \<and> u_role cur = Some ADMIN \<and> \<not> truthy_header (rq_context rq))
       (HTTPException 410 ''MARKET_SUPPORT_LEGACY_MUTATION_RETIRED: Use an active Market Support context for workspace mutations'')"

text \<open>The request schema \<open>OrderCancelRequest\<close>; the body is optional.\<close>

definition cancel_reason :: "string option \<Rightarrow> string option result" where
  "cancel_reason body =
     (case body of None \<Rightarrow> Inr None
      | Some raw \<Rightarrow>
          if length raw < 3 \<or> 500 < length raw \<or> py_strip raw = [] then Inl (HTTPException 422 ''OrderCancelRequest'')
          else Inr (Some (py_strip raw)))"

definition owns_order :: "user \<Rightarrow> order \<Rightarrow> bool" where
  "owns_order cur ord =
     (case o_owner_user_id ord of Some u \<Rightarrow> u = u_id cur
      | None \<Rightarrow> u_organization_id cur \<noteq> None \<and> Some (o_organization_id ord) = u_organization_id cur)"

definition support_mode :: "RequestParty option \<Rightarrow> bool" where
  "support_mode party = (case party of None \<Rightarrow> False | Some p \<Rightarrow> rp_mode p = MODE_MARKET_SUPPORT)"

definition cancel_party ::
  "(string \<Rightarrow> uuid option) \<Rightarrow> order_settings \<Rightarrow> (nat \<Rightarrow> time) \<Rightarrow> http_request \<Rightarrow> market_db \<Rightarrow> support_db \<Rightarrow> user
     \<Rightarrow> RequestParty option result \<times> support_db" where
  "cancel_party up fl clk rq pv sd cur =
     (if \<not> truthy_header (rq_context rq) then (Inr None, sd)
      else case resolve_request_party up (MARKET_SUPPORT_ENABLED fl) clk (rq_context rq) pv sd cur of
        (Inl err, sd1) \<Rightarrow> (Inl err, sd1) | (Inr p, sd1) \<Rightarrow> (Inr (Some p), sd1))"

definition effective_organization_id :: "RequestParty option \<Rightarrow> user \<Rightarrow> uuid option" where
  "effective_organization_id party cur =
     (case Option.bind party rp_effective_organization of Some g \<Rightarrow> Some (g_id g) | None \<Rightarrow> u_organization_id cur)"

definition cancel_preview :: "http_request \<Rightarrow> user \<Rightarrow> RequestParty option \<Rightarrow> string option \<Rightarrow> order \<Rightarrow> unit result" where
  "cancel_preview rq cur party reason ord =
     bindR (refuse (o_creation_method ord = MARKET_SUPPORT \<and> reason = None)
              (HTTPException 400 ''Cancellation reason is required for assisted orders'')) (\<lambda>_.
     bindR (refuse (rq_method rq = ''POST'' \<and> reason = None) (HTTPException 400 ''Cancellation reason is required'')) (\<lambda>_.
     bindR (if support_mode party
            then bindR (refuse (o_creation_method ord \<noteq> MARKET_SUPPORT
                                \<or> Some (o_organization_id ord) \<noteq> effective_organization_id party cur)
                   (HTTPException 403 ''Only assisted orders for this organization can be cancelled'')) (\<lambda>_.
                 refuse (o_support_authorization_id ord = None)
                   (HTTPException 403 ''The support authorization for this listing is unavailable''))
            else refuse (\<not> owns_order cur ord) (HTTPException 403 ''You can only cancel your own orders'')) (\<lambda>_.
     bindR (if o_creation_method ord = MARKET_SUPPORT
            then require_matching_etag (rq_if_match rq) (o_id ord) (o_version ord) else Inr ()) (\<lambda>_.
     refuse (\<not> live_status (o_status ord))
       (HTTPException 400 ''Can only cancel orders with OPEN or PARTIALLY_FILLED status'')))))"

text \<open>The admission check of the caller's own organization, for an id that may be null.\<close>

definition lock_own_organization :: "market_db \<Rightarrow> uuid \<Rightarrow> uuid option \<Rightarrow> unit result" where
  "lock_own_organization s u g =
     (case g of
        Some k \<Rightarrow> bindR (lock_and_load_market_organizations s [k] [\<lparr>mo_user_id = u, mo_organization_id = k\<rparr>] True []) (\<lambda>_. Inr ())
      | None \<Rightarrow>
          (case user_of u s of None \<Rightarrow> Inl (HTTPException 409 ''Market user no longer exists'')
           | Some x \<Rightarrow> Inl (HTTPException 409 (if u_organization_id x \<noteq> None then ''Market user organization ownership changed''
                               else ''Market organization no longer exists''))))"

subsection \<open>The handler\<close>

definition cancelled_order :: "order \<Rightarrow> order" where
  "cancelled_order ord = bump_version (ord\<lparr>o_status := CANCELLED\<rparr>)"

definition release_remaining :: "order \<Rightarrow> market_db \<Rightarrow> market_db result" where
  "release_remaining ord s =
     (case o_inventory_item_id ord of
        Some i \<Rightarrow> if o_remaining_quantity_mt ord > 0 then release_inventory i (o_remaining_quantity_mt ord) s else Inr s
      | None \<Rightarrow> Inr s)"

text \<open>
  The work on the locked row. The audit entry of a request that carries a context header but
  resolves to an ordinary party would read the unbound local \<open>authorization_context\<close>.
\<close>

definition cancel_locked ::
  "(nat \<Rightarrow> time) \<Rightarrow> CommandAttempt option \<Rightarrow> http_request \<Rightarrow> user \<Rightarrow> RequestParty option \<Rightarrow> order \<Rightarrow> market_db \<Rightarrow> market_db result"
where
  "cancel_locked clk cmd rq cur party preview s =
     (case order_of (o_id preview) s of None \<Rightarrow> Inl (HTTPException 404 ''Order not found'')
      | Some ord \<Rightarrow>
          bindR (refuse (order_identity ord \<noteq> order_identity preview)
                   (HTTPException 409 ''Order slice changed; retry the cancellation'')) (\<lambda>_.
          bindR (if o_creation_method ord = MARKET_SUPPORT
                 then require_matching_etag (rq_if_match rq) (o_id ord) (o_version ord)
                 else lock_own_organization s (u_id cur) (effective_organization_id party cur)) (\<lambda>_.
          bindR (refuse (\<not> live_status (o_status ord))
                   (HTTPException 400 ''Can only cancel orders with OPEN or PARTIALLY_FILLED status'')) (\<lambda>_.
          bindR (release_remaining ord s) (\<lambda>s1.
          bindR (refuse (party \<noteq> None \<and> \<not> support_mode party) UnboundLocalError) (\<lambda>_.
          let s2 = record_audit (Some (u_id cur)) ''order.cancelled'' ''order'' (o_id ord)
                     (project (EmitOrderUpdated (o_id ord)) (project (RebuildBenchmarks (o_id ord))
                       (put_order (cancelled_order ord) s1))) in
          bindR (participant_market_event ''order_cancelled'' ''order'' (o_id ord) [o_organization_id ord]
                   (public_order_is_visible s (clk 0) (o_id ord))) (\<lambda>ev.
          record_command_success cmd 204 ''null'' (enqueue_market_events [ev] s2))))))))"

definition run_cancel ::
  "env \<Rightarrow> (nat \<Rightarrow> time) \<Rightarrow> CommandAttempt option \<Rightarrow> http_request \<Rightarrow> user \<Rightarrow> RequestParty option \<Rightarrow> uuid \<Rightarrow> string option
     \<Rightarrow> market_db \<Rightarrow> market_db \<Rightarrow> support_db \<Rightarrow> (market_db \<times> int) result \<times> support_db"
where
  "run_cancel e clk cmd rq cur party k reason pv s sd =
     (case order_of k pv of None \<Rightarrow> (Inl (HTTPException 404 ''Order not found''), sd)
      | Some preview \<Rightarrow>
          (case bindR (cancel_preview rq cur party reason preview) (\<lambda>_. acquire_market_slice_lock e (order_slice preview)) of
             Inl err \<Rightarrow> (Inl err, sd)
           | Inr _ \<Rightarrow>
               (case (case party of None \<Rightarrow> (Inr (), sd) | Some p \<Rightarrow> lock_request_party_context (\<lambda>i. clk (i + 3)) sd p) of
                  (Inl err, sd1) \<Rightarrow> (Inl err, sd1)
                | (Inr _, sd1) \<Rightarrow> (bindR (cancel_locked clk cmd rq cur party preview s) (\<lambda>s1. Inr (s1, 204)), sd1))))"

definition cancel_order ::
  "env \<Rightarrow> (string \<Rightarrow> uuid option) \<Rightarrow> order_settings \<Rightarrow> (nat \<Rightarrow> time) \<Rightarrow> http_request \<Rightarrow> user \<Rightarrow> uuid \<Rightarrow> string option
     \<Rightarrow> market_db \<Rightarrow> market_db \<Rightarrow> support_db \<Rightarrow> (market_db \<times> int) result \<times> support_db"
where
  "cancel_order e up fl clk rq cur k body pv s sd =
     (case bindR (cancel_reason body) (\<lambda>reason.
             bindR (reject_admin_legacy_workspace_mutation fl rq cur) (\<lambda>_. Inr reason)) of
        Inl err \<Rightarrow> (Inl err, sd)
      | Inr reason \<Rightarrow>
          (case cancel_party up fl (\<lambda>i. clk (i + 1)) rq pv sd cur of
             (Inl err, sd1) \<Rightarrow> (Inl err, sd1)
           | (Inr party, sd1) \<Rightarrow>
               (case prepare_command_attempt e pv (rq_idempotency rq) (u_id cur) (effective_organization_id party cur)
                       (Option.bind party rp_support_context_id) ''order.cancel'' ''order'' k
                       (command_request_hash e (JObj [(''operation'', JStr ''order.cancel''), (''order_id'', JStr (uuid_str k)),
                          (''reason'', opt_json JStr reason), (''if_match'', opt_json JStr (rq_if_match rq))])) of
                  Inl err \<Rightarrow> (Inl err, sd1)
                | Inr cmd \<Rightarrow>
                    (case Option.bind cmd ca_replay of
                       Some r \<Rightarrow> (Inr (s, c_response_status r), sd1)
                     | None \<Rightarrow> run_cancel e clk cmd rq cur party k reason pv s sd1))))"

subsection \<open>What a cancellation does\<close>

lemma release_remaining_effect:
  assumes "release_remaining x s = Inr s1" "0 \<le> o_remaining_quantity_mt x"
  shows "same_market s s1"
    "reserved_stock s1 j = reserved_stock s j - (if o_inventory_item_id x = Some j then o_remaining_quantity_mt x else 0)"
    "current_stock s1 j = current_stock s j + (if o_inventory_item_id x = Some j then o_remaining_quantity_mt x else 0)"
proof -
  let ?q = "o_remaining_quantity_mt x"
  have "s1 = s \<and> (o_inventory_item_id x = None \<or> ?q = 0) \<or>
      (\<exists>i. o_inventory_item_id x = Some i \<and> 0 < ?q \<and> release_inventory i ?q s = Inr s1)"
    using assms by (auto simp: release_remaining_def split: option.splits if_splits)
  then have "same_market s s1 \<and> reserved_stock s1 j = reserved_stock s j - (if o_inventory_item_id x = Some j then ?q else 0) \<and>
      current_stock s1 j = current_stock s j + (if o_inventory_item_id x = Some j then ?q else 0)"
    using stock.release_effect same_market_stock(3) by fastforce
  then show "same_market s s1"
    "reserved_stock s1 j = reserved_stock s j - (if o_inventory_item_id x = Some j then ?q else 0)"
    "current_stock s1 j = current_stock s j + (if o_inventory_item_id x = Some j then ?q else 0)" by simp_all
qed

lemma cancelled_order_fields [simp]:
  "o_id (cancelled_order x) = o_id x" "o_inventory_item_id (cancelled_order x) = o_inventory_item_id x"
  "o_status (cancelled_order x) = CANCELLED" "o_remaining_quantity_mt (cancelled_order x) = o_remaining_quantity_mt x"
  "o_quantity_mt (cancelled_order x) = o_quantity_mt x"
  by (simp_all add: cancelled_order_def)

lemma record_command_market:
  "record_command_success cmd c b s = Inr s' \<Longrightarrow> market_part s' = market_part s"
  by (auto simp: record_command_success_def market_part_def split: option.splits if_splits)

lemma prepared_replay:
  assumes "prepare_command_attempt e s h u g c op ty k rh = Inr (Some a)" "ca_replay a = Some r"
  shows "r \<in> set (command_results s)" "c_actor_user_id r = u" "c_operation r = op" "c_resource_id r = k"
proof -
  from assms(1) obtain raw key g' where h: "h = Some raw" "normalize_idempotency_key raw = Inr key" "g = Some g'"
    by (cases h; cases g) (auto simp: prepare_command_attempt_def)
  note p = assms(1) [unfolded prepare_command_attempt_def h option.case bindR_simps]
  from p assms(2) have f: "find (\<lambda>r. c_actor_user_id r = u \<and> c_operation r = op \<and> c_idempotency_key r = key)
      (command_results s) = Some r"
    by (auto simp: Let_def)
  have "c_resource_id r = k" using p unfolding f by (auto simp: Let_def)
  with find_mem [OF f] show "r \<in> set (command_results s)" "c_actor_user_id r = u" "c_operation r = op" "c_resource_id r = k"
    by simp_all
qed

lemma cancel_locked_cases:
  assumes "cancel_locked clk cmd rq cur party p s = Inr s'"
  obtains x s1 where "order_of (o_id p) s = Some x" "live_status (o_status x)" "order_identity x = order_identity p"
    "release_remaining x s = Inr s1" "market_part s' = market_part (put_order (cancelled_order x) s1)"
    "o_creation_method x = MARKET_SUPPORT \<Longrightarrow> require_matching_etag (rq_if_match rq) (o_id x) (o_version x) = Inr ()"
    "length (audit_log s') = length (audit_log s1) + 1"
proof -
  from assms obtain x where x: "order_of (o_id p) s = Some x" by (auto simp: cancel_locked_def split: option.splits)
  note r = assms [unfolded cancel_locked_def x option.case]
  from r obtain s1 ev where s1: "release_remaining x s = Inr s1" "live_status (o_status x)" "order_identity x = order_identity p"
    and rec: "record_command_success cmd 204 ''null'' (enqueue_market_events [ev]
      (record_audit (Some (u_id cur)) ''order.cancelled'' ''order'' (o_id x)
         (project (EmitOrderUpdated (o_id x)) (project (RebuildBenchmarks (o_id x)) (put_order (cancelled_order x) s1))))) = Inr s'"
    by (auto simp: Let_def)
  have tag: "o_creation_method x = MARKET_SUPPORT \<Longrightarrow> require_matching_etag (rq_if_match rq) (o_id x) (o_version x) = Inr ()"
    using r by auto
  have "market_part s' = market_part (put_order (cancelled_order x) s1)"
    using record_command_market [OF rec] by (simp add: frame_simps)
  moreover have "length (audit_log s') = length (audit_log s1) + 1"
    using rec by (auto simp: record_command_success_def record_audit_def enqueue_market_events_def project_def put_order_def
        split: option.splits if_splits)
  ultimately show thesis using that x s1 tag by blast
qed

lemma cancel_locked_inv:
  assumes "market_inv_upto \<sigma> s" "cancel_locked clk cmd rq cur party p s = Inr s'"
  shows "market_inv_upto \<sigma> s'"
  using assms(2)
proof (cases rule: cancel_locked_cases)
  case (1 x s1)
  have x: "order_of (o_id x) s = Some x" using 1(1) order_of_mem by fastforce
  have "0 \<le> o_remaining_quantity_mt x"
    using assms(1) order_of_mem [OF x] by (auto simp: market_inv_upto_def rows_ok_def order_row_ok_def)
  note u = release_remaining_effect [OF 1(4) this]
  have "market_inv_upto \<sigma> (put_order (cancelled_order x) s1)"
    by (rule withdraw_move [OF assms(1) x 1(2)]) (use u in \<open>simp_all add: withdrawn_def\<close>)
  then show ?thesis using market_inv_cong [OF market_part_eqD(1-3,10) [OF 1(5)]] by simp
qed

text \<open>Either the stored receipt is replayed, or the locked row is cancelled for an authorized caller.\<close>

lemma cancel_order_cases:
  assumes "cancel_order e up fl clk rq cur k body pv s sd = (Inr (s', code), sd')"
  obtains (replay) r where "s' = s" "r \<in> set (command_results pv)" "c_actor_user_id r = u_id cur"
      "c_operation r = ''order.cancel''" "c_resource_id r = k" "code = c_response_status r"
    | (run) reason party sd1 cmd p where
      "cancel_party up fl (\<lambda>i. clk (i + 1)) rq pv sd cur = (Inr party, sd1)" "order_of k pv = Some p"
      "cancel_preview rq cur party reason p = Inr ()" "cancel_locked clk cmd rq cur party p s = Inr s'" "code = 204"
proof -
  from assms obtain reason where "cancel_reason body = Inr reason"
    "reject_admin_legacy_workspace_mutation fl rq cur = Inr ()"
    by (auto simp: cancel_order_def split: sum.splits)
  note r1 = assms [unfolded cancel_order_def this bindR_simps sum.case]
  from r1 obtain party sd1 where pa: "cancel_party up fl (\<lambda>i. clk (i + 1)) rq pv sd cur = (Inr party, sd1)"
    by (auto split: prod.splits sum.splits)
  note r2 = r1 [unfolded pa prod.case sum.case]
  obtain h where h: "h = command_request_hash e (JObj [(''operation'', JStr ''order.cancel''), (''order_id'', JStr (uuid_str k)),
      (''reason'', opt_json JStr reason), (''if_match'', opt_json JStr (rq_if_match rq))])" by blast
  from r2 obtain cmd where cmd: "prepare_command_attempt e pv (rq_idempotency rq) (u_id cur) (effective_organization_id party cur)
      (Option.bind party rp_support_context_id) ''order.cancel'' ''order'' k h = Inr cmd"
    by (auto simp: h split: sum.splits)
  note r3 = r2 [folded h, unfolded cmd sum.case]
  show thesis
  proof (cases "Option.bind cmd ca_replay")
    case (Some r)
    then obtain a where a: "cmd = Some a" "ca_replay a = Some r" by (cases cmd) auto
    from prepared_replay [OF cmd [unfolded a(1)] a(2)] show thesis using replay [of r] r3 Some by simp
  next
    case None
    with r3 have "run_cancel e clk cmd rq cur party k reason pv s sd1 = (Inr (s', code), sd')" by simp
    then show thesis
      using run [OF pa, of _ reason cmd]
      by (auto simp: run_cancel_def split: option.splits sum.splits prod.splits)
  qed
qed

text \<open>C27: a cancellation takes effect exactly once and only for whoever may ask for it. Unless a stored receipt is
  replayed, the caller owns the order or is an administrator supporting an assisted order, the locked row is still live and,
  for an assisted order, carries the version named by the presented entity tag. It becomes CANCELLED, precisely
  its remaining quantity returns to free stock, no trade and no other order changes, and the market
  invariant is kept.\<close>

theorem cancel_order_sound:
  assumes "market_inv s" "cancel_order e up fl clk rq cur k body pv s sd = (Inr (s', code), sd')"
  shows "market_inv s' \<and> (s' = s \<or> (\<exists>p x. order_of k pv = Some p \<and> order_of k s = Some x \<and>
    (owns_order cur p \<or> u_role cur = Some ADMIN \<and> o_creation_method p = MARKET_SUPPORT) \<and>
    (o_creation_method x = MARKET_SUPPORT \<longrightarrow>
       (\<exists>raw. rq_if_match rq = Some raw \<and> py_strip raw = order_etag k (o_version x))) \<and>
    live_status (o_status x) \<and> order_of k s' = Some (cancelled_order x) \<and> trades s' = trades s \<and>
    (\<forall>j. j \<noteq> k \<longrightarrow> order_of j s' = order_of j s) \<and>
    (\<forall>i. current_stock s' i = current_stock s i + (if o_inventory_item_id x = Some i then o_remaining_quantity_mt x else 0) \<and>
         reserved_stock s' i = reserved_stock s i - (if o_inventory_item_id x = Some i then o_remaining_quantity_mt x else 0))))"
  using assms(2)
proof (cases rule: cancel_order_cases)
  case (replay r)
  then show ?thesis using assms(1) by simp
next
  case (run reason party sd1 cmd p)
  have k: "o_id p = k" using order_of_mem [OF run(2)] by simp
  have who: "owns_order cur p \<or> u_role cur = Some ADMIN \<and> o_creation_method p = MARKET_SUPPORT"
  proof (cases "support_mode party")
    case True
    then obtain q where q: "party = Some q" "rp_mode q = MODE_MARKET_SUPPORT" by (auto simp: support_mode_def split: option.splits)
    with run(1) have "resolve_request_party up (MARKET_SUPPORT_ENABLED fl) (\<lambda>i. clk (i + 1)) (rq_context rq) pv sd cur = (Inr q, sd1)"
      by (auto simp: cancel_party_def split: if_splits prod.splits sum.splits)
    from support_party_cases [OF this q(2)] have "u_role cur = Some ADMIN" by blast
    then show ?thesis using run(3) True by (simp add: cancel_preview_def)
  qed (use run(3) in \<open>simp add: cancel_preview_def\<close>)
  from run(4) show ?thesis
  proof (cases rule: cancel_locked_cases)
    case (1 x s1)
    have xid: "o_id x = k" "x \<in> set (orders s)" using order_of_mem [OF 1(1)] k by simp_all
    have "0 \<le> o_remaining_quantity_mt x"
      using assms(1) xid by (auto simp: market_inv_upto_def rows_ok_def order_row_ok_def)
    note u = release_remaining_effect [OF 1(4) this]
    note m = market_part_eqD [OF 1(5)]
    have o1: "orders s1 = orders s" "trades s1 = trades s" using u(1) by (simp_all add: same_market_def)
    have "order_of k s' = Some (cancelled_order x)"
      using order_tab.get_put_same [of "cancelled_order x" s1 x] 1(1) k by (simp add: m o1 xid)
    moreover have "order_of j s' = order_of j s" if "j \<noteq> k" for j
      using order_tab.get_put_other [of j "cancelled_order x" s1] that by (simp add: m o1 xid)
    moreover have "current_stock s' = current_stock s1" "reserved_stock s' = reserved_stock s1"
      by (simp_all add: fun_eq_iff current_stock_def reserved_stock_def m)
    moreover have "\<exists>raw. rq_if_match rq = Some raw \<and> py_strip raw = order_etag k (o_version x)" if "o_creation_method x = MARKET_SUPPORT"
      using 1(6) [OF that] xid by (auto simp: require_matching_etag_def Let_def split: option.splits if_splits)
    ultimately show ?thesis
      using cancel_locked_inv [OF assms(1) run(4)] run(2) 1(1,2) k who u(2,3) m(2) o1(2) by simp
  qed
qed

definition ex_cancel_request :: http_request where
  "ex_cancel_request = \<lparr>rq_method = ''POST'', rq_context = None, rq_idempotency = None, rq_if_match = None\<rparr>"

definition ex_flags :: order_settings where
  "ex_flags = \<lparr>AUTO_MATCHING_ENABLED = True, MARKET_SUPPORT_ENABLED = True, MARKET_SUPPORT_CONSENT_VERSION = ''v1'',
     MARKET_SUPPORT_CONSENT_REFERENCE = ''market-support/v1''\<rparr>"

theorem cancel_order_sound_witness:
  "\<exists>s'. cancel_order ex_env (\<lambda>_. None) ex_flags (\<lambda>_. 1000) ex_cancel_request (ex_user 11 SUPPLIER 41) 31 (Some ''sold'') ex_db ex_db
      ex_support = (Inr (s', 204), ex_support) \<and> order_of 31 s' = Some (cancelled_order ex_ask) \<and> current_stock s' 21 = 1500"
proof -
  let ?r = "cancel_order ex_env (\<lambda>_. None) ex_flags (\<lambda>_. 1000) ex_cancel_request (ex_user 11 SUPPLIER 41) 31 (Some ''sold'') ex_db ex_db ex_support"
  have l: "acquire_market_slice_lock ex_env (order_slice ex_ask) = Inr ()"
    using ex_slice_lock [OF canonical_SPOT] by (simp add: order_slice_def SPOT_WINDOW_def)
  have own: "lock_own_organization ex_db 11 (Some 41) = Inr ()"
    by (simp add: lock_own_organization_def lock_and_load_market_organizations_def Let_def ownership_by_user_def
        py_upper_def upper_char_def execution_party_is_eligible_def)
  have a: "audit_log ex_db = []" by (simp add: ex_db_def)
  have "\<exists>s'. ?r = (Inr (s', 204), ex_support) \<and> length (audit_log s') = 1"
    by (simp add: cancel_order_def cancel_reason_def py_strip_def is_space_def reject_admin_legacy_workspace_mutation_def
        ex_flags_def ex_cancel_request_def cancel_party_def truthy_header_def effective_organization_id_def
        prepare_command_attempt_def run_cancel_def cancel_preview_def support_mode_def owns_order_def live_status_def l
        cancel_locked_def own release_remaining_def release_inventory_def participant_market_event_def
        record_command_success_def enqueue_market_events_def record_audit_def project_def put_order_def put_item_def a)
  then obtain s' where r: "?r = (Inr (s', 204), ex_support)" "length (audit_log s') = 1" by blast
  then have "s' \<noteq> ex_db" using a by auto
  with cancel_order_sound [OF ex_market_inv r(1)] show ?thesis
    using r(1) by (auto simp: current_stock_def [of ex_db])
qed

end
