(* ===== verification/Order_Amend.thy ===== *)
theory Order_Amend
  imports Order_Cancel Constraints Matching_Refinement
begin

section \<open>Amending an order\<close>

text \<open>
  \<open>update_order\<close> of \<^verbatim>\<open>src/app/routers/orderbook.py\<close>, the effects of automatic matches shared with order
  entry (\<^verbatim>\<open>src/app/services/auto_match_side_effects.py\<close>) and the request schema \<open>OrderUpdate\<close>. A field of the
  request is \<open>None\<close> when the client left it out, \<open>Some None\<close> when it sent \<open>null\<close>. The dictionary of changes
  the handler works on is the same record with the ignored fields taken out. \<open>clk 0\<close> is the
  transaction's \<open>now()\<close>, \<open>clk 1, clk 2, clk 3\<close> are the handler's readings of the clock and \<open>clk 4, ...\<close> those of the matching engine;
  \<open>enc\<close> is the JSON text of the response. A null list of certifications is stored as the empty list, which every
  reader treats alike. A value too long for its column is rejected by the database with state 22001.

  The properties: an amendment keeps the market invariant, and one that keeps the order's place in
  the queue opens no execution the order did not already allow.
\<close>

subsection \<open>Texts of the command payload\<close>

text \<open>\<open>format(value.normalize(), "f")\<close> of a non-negative finite decimal of at most 28 digits.\<close>

definition plain_decimal :: "pydecimal \<Rightarrow> string" where
  "plain_decimal v = (case v of
      Finite c e \<Rightarrow>
        let ds = show_nat (nat \<bar>c\<bar>) in
        if c = 0 then ''0''
        else if 0 \<le> e then ds @ replicate (nat e) (CHR ''0'')
        else
          let k = nat (- e); pad = replicate (Suc k - length ds) (CHR ''0'') @ ds;
              frac = rev (dropWhile (\<lambda>c. c = CHR ''0'') (rev (drop (length pad - k) pad))) in
          take (length pad - k) pad @ (if frac = [] then [] else CHR ''.'' # frac)
    | Infinite neg \<Rightarrow> if neg then ''-Infinity'' else ''Infinity''
    | NaN \<Rightarrow> ''NaN'')"

text \<open>\<open>isoformat()\<close> in UTC: the fraction is left out when it is zero.\<close>

definition utc_iso :: "time \<Rightarrow> string" where
  "utc_iso t =
     (let d = t div day_us; us = nat (t mod day_us); sec = us div 1000000 in
      date_isoformat (d + 719163) @ ''T'' @ show_02d (sec div 3600) @ '':'' @ show_02d (sec div 60 mod 60)
      @ '':'' @ show_02d (sec mod 60) @ (if us mod 1000000 = 0 then [] else CHR ''.'' # show_06d (us mod 1000000)) @ ''Z'')"

subsection \<open>The request\<close>

record OrderUpdate =
  ou_quantity_mt :: "pydecimal option option"
  ou_price_per_mt_usd :: "pydecimal option option"
  ou_availability_window :: "string option option"
  ou_certifications :: "string list option option"
  ou_certification_declared :: "bool option option"
  ou_certification_scheme :: "string option option"
  ou_specification_standard :: "string option option"
  ou_msds_available :: "bool option option"
  ou_carbon_intensity_gco2_mj :: "pydecimal option option"
  ou_carbon_intensity_method :: "string option option"
  ou_feedstock :: "string option option"
  ou_origin :: "string option option"
  ou_off_spec :: "bool option option"
  ou_off_spec_notes :: "string option option"
  ou_expires_at :: "(time \<times> bool) option option"

definition valid_amount :: "dec \<Rightarrow> pydecimal \<Rightarrow> bool" where
  "valid_amount maximum v = (case finite_decimal v 2 of Inl _ \<Rightarrow> False | Inr w \<Rightarrow> 0 < pydec_val w \<and> pydec_val w \<le> maximum)"

definition set_value :: "'a option option \<Rightarrow> 'a option" where
  "set_value v = (case v of None \<Rightarrow> None | Some x \<Rightarrow> x)"

definition pred_opt :: "('a \<Rightarrow> bool) \<Rightarrow> 'a option \<Rightarrow> bool" where
  "pred_opt P v = (case v of None \<Rightarrow> True | Some x \<Rightarrow> P x)"

definition order_update_schema :: "OrderUpdate \<Rightarrow> OrderUpdate result" where
  "order_update_schema u =
     bindR (refuse (\<not> (pred_opt (valid_amount 100000) (set_value (ou_quantity_mt u))
              \<and> pred_opt (valid_amount 1000000) (set_value (ou_price_per_mt_usd u))
              \<and> pred_opt (\<lambda>x. length x \<le> 120) (set_value (ou_specification_standard u))
              \<and> pred_opt (\<lambda>x. length x \<le> 120) (set_value (ou_carbon_intensity_method u))
              \<and> pred_opt (\<lambda>v. case v of Finite c e \<Rightarrow> 0 \<le> c | _ \<Rightarrow> False) (set_value (ou_carbon_intensity_gco2_mj u))
              \<and> pred_opt (\<lambda>v. case v of (t, aware) \<Rightarrow> aware) (set_value (ou_expires_at u))))
       (HTTPException 422 ''OrderUpdate'')) (\<lambda>_.
     case set_value (ou_availability_window u) of None \<Rightarrow> Inr u
     | Some raw \<Rightarrow> (case normalize_availability_window raw of
         Inl _ \<Rightarrow> Inl (HTTPException 422 ''OrderUpdate'')
       | Inr w \<Rightarrow> Inr (u\<lparr>ou_availability_window := Some (Some w)\<rparr>)))"

definition set_json :: "string \<Rightarrow> ('a \<Rightarrow> json) \<Rightarrow> 'a option option \<Rightarrow> (string \<times> json) list" where
  "set_json name f v = (case v of None \<Rightarrow> [] | Some x \<Rightarrow> [(name, opt_json f x)])"

definition order_update_payload :: "OrderUpdate \<Rightarrow> json" where
  "order_update_payload u = JObj (
     set_json ''quantity_mt'' (JStr \<circ> plain_decimal) (ou_quantity_mt u)
     @ set_json ''price_per_mt_usd'' (JStr \<circ> plain_decimal) (ou_price_per_mt_usd u)
     @ set_json ''availability_window'' JStr (ou_availability_window u)
     @ set_json ''certifications'' (\<lambda>xs. JArr (map JStr xs)) (ou_certifications u)
     @ set_json ''certification_declared'' JBool (ou_certification_declared u)
     @ set_json ''certification_scheme'' JStr (ou_certification_scheme u)
     @ set_json ''specification_standard'' JStr (ou_specification_standard u)
     @ set_json ''msds_available'' JBool (ou_msds_available u)
     @ set_json ''carbon_intensity_gco2_mj'' (JStr \<circ> plain_decimal) (ou_carbon_intensity_gco2_mj u)
     @ set_json ''carbon_intensity_method'' JStr (ou_carbon_intensity_method u)
     @ set_json ''feedstock'' JStr (ou_feedstock u)
     @ set_json ''origin'' JStr (ou_origin u)
     @ set_json ''off_spec'' JBool (ou_off_spec u)
     @ set_json ''off_spec_notes'' JStr (ou_off_spec_notes u)
     @ set_json ''expires_at'' (\<lambda>v. JStr (utc_iso (fst v))) (ou_expires_at u))"

subsection \<open>Supplier metadata\<close>

definition require_supplier_certification :: "bool \<Rightarrow> string option \<Rightarrow> unit result" where
  "require_supplier_certification declared scheme =
     bindR (refuse (\<not> declared) (HTTPException 400 ''ASK orders require an explicit certification declaration'')) (\<lambda>_.
     refuse (or_empty scheme = []) (HTTPException 400 ''ASK orders require a certification scheme''))"

fun join_names :: "string list \<Rightarrow> string" where
  "join_names [] = []"
| "join_names [x] = x"
| "join_names (x # xs) = x @ '', '' @ join_names xs"

definition require_supplier_metadata ::
  "string option \<Rightarrow> bool \<Rightarrow> bool \<Rightarrow> string option \<Rightarrow> string option \<Rightarrow> uuid \<Rightarrow> string option \<Rightarrow> unit result" where
  "require_supplier_metadata standard msds has_ci feed orig pid ci_method =
     (let missing = (if py_strip (or_empty standard) = [] then [''specification_standard''] else [])
            @ (if \<not> msds then [''msds_available''] else [])
            @ (if \<not> has_ci then [''carbon_intensity_gco2_mj''] else [])
            @ (if py_strip (or_empty feed) = [] then [''feedstock''] else [])
            @ (if py_strip (or_empty orig) = [] then [''origin''] else []) in
      bindR (refuse (missing \<noteq> []) (HTTPException 400 (''ASK orders require supplier details: '' @ join_names missing))) (\<lambda>_.
      case supplier_product_metadata_error (Some pid) standard ci_method of
        None \<Rightarrow> Inr () | Some message \<Rightarrow> Inl (HTTPException 400 message)))"

subsection \<open>The changes and the queue\<close>

definition get_or :: "'a option \<Rightarrow> 'a \<Rightarrow> 'a" where
  "get_or v d = (case v of None \<Rightarrow> d | Some x \<Rightarrow> x)"

definition truthy :: "bool option \<Rightarrow> bool" where
  "truthy b \<longleftrightarrow> b = Some True"

definition amend_changes :: "OrderSide \<Rightarrow> OrderUpdate \<Rightarrow> OrderUpdate" where
  "amend_changes side u =
     (let v = u\<lparr>ou_availability_window := None,
               ou_certification_scheme := map_option normalize_certification_scheme (ou_certification_scheme u)\<rparr> in
      if side = ASK then v
      else v\<lparr>ou_certification_declared := None, ou_specification_standard := None, ou_msds_available := None,
             ou_carbon_intensity_gco2_mj := None, ou_carbon_intensity_method := None, ou_feedstock := None,
             ou_origin := None, ou_off_spec := None, ou_off_spec_notes := None\<rparr>)"

definition require_amended_metadata :: "order \<Rightarrow> OrderUpdate \<Rightarrow> unit result" where
  "require_amended_metadata ord ch =
     (let m = o_metadata ord in
      if o_side ord \<noteq> ASK then Inr ()
      else bindR (require_supplier_certification
              (truthy (get_or (ou_certification_declared ch) (Some (certification_declared m))))
              (get_or (ou_certification_scheme ch) (certification_scheme m))) (\<lambda>_.
           require_supplier_metadata (get_or (ou_specification_standard ch) (specification_standard m))
             (truthy (get_or (ou_msds_available ch) (Some (msds_available m))))
             (case ou_carbon_intensity_gco2_mj ch of None \<Rightarrow> carbon_intensity_gco2_mj m \<noteq> None | Some v \<Rightarrow> v \<noteq> None)
             (get_or (ou_feedstock ch) (feedstock m)) (get_or (ou_origin ch) (origin m)) (o_product_id ord)
             (get_or (ou_carbon_intensity_method ch) (carbon_intensity_method m))))"

definition economic_update :: "OrderUpdate \<Rightarrow> bool" where
  "economic_update ch \<longleftrightarrow> ou_quantity_mt ch \<noteq> None \<or> ou_price_per_mt_usd ch \<noteq> None \<or> ou_expires_at ch \<noteq> None
     \<or> ou_certifications ch \<noteq> None \<or> ou_certification_declared ch \<noteq> None \<or> ou_certification_scheme ch \<noteq> None
     \<or> ou_specification_standard ch \<noteq> None \<or> ou_msds_available ch \<noteq> None \<or> ou_carbon_intensity_gco2_mj ch \<noteq> None
     \<or> ou_carbon_intensity_method ch \<noteq> None \<or> ou_feedstock ch \<noteq> None \<or> ou_origin ch \<noteq> None
     \<or> ou_off_spec ch \<noteq> None \<or> ou_off_spec_notes ch \<noteq> None"

definition certification_set :: "string list \<Rightarrow> string set" where
  "certification_set xs = set (List.map_filter (\<lambda>c. normalize_certification_scheme (Some c)) xs)"

definition amendment_loses_priority :: "order \<Rightarrow> OrderUpdate \<Rightarrow> bool" where
  "amendment_loses_priority ord ch \<longleftrightarrow>
     (case ou_price_per_mt_usd ch of None \<Rightarrow> False | Some v \<Rightarrow> map_option pydec_val v \<noteq> Some (o_price_per_mt_usd ord))
     \<or> (case set_value (ou_quantity_mt ch) of None \<Rightarrow> False | Some q \<Rightarrow> pydec_val q > o_quantity_mt ord)
     \<or> (case ou_expires_at ch of None \<Rightarrow> False
        | Some v \<Rightarrow> (case o_expires_at ord of None \<Rightarrow> False
            | Some old \<Rightarrow> (case v of None \<Rightarrow> True | Some (t, _) \<Rightarrow> t > old)))
     \<or> (case ou_certifications ch of None \<Rightarrow> False
        | Some v \<Rightarrow> certification_set (get_or v []) \<noteq> certification_set (o_certifications ord))
     \<or> (case ou_certification_scheme ch of None \<Rightarrow> False | Some v \<Rightarrow> v \<noteq> certification_scheme (o_metadata ord))
     \<or> (case ou_off_spec ch of None \<Rightarrow> False | Some v \<Rightarrow> off_spec (o_metadata ord) \<and> \<not> truthy v)"

text \<open>The new quantity, its remaining part and the reservation behind it; a null quantity cannot be subtracted from.\<close>

definition requantify :: "order \<Rightarrow> OrderUpdate \<Rightarrow> market_db \<Rightarrow> (market_db \<times> order) result" where
  "requantify ord ch s =
     (case ou_quantity_mt ch of
        None \<Rightarrow> Inr (s, ord)
      | Some None \<Rightarrow> Inl (TypeError ''unsupported operand type(s) for -'')
      | Some (Some q) \<Rightarrow>
          let filled = o_quantity_mt ord - o_remaining_quantity_mt ord;
              new_remaining = pydec_val q - filled;
              delta = new_remaining - o_remaining_quantity_mt ord in
          bindR (refuse (new_remaining < 0)
                   (HTTPException 400 ''New quantity cannot be less than already filled amount'')) (\<lambda>_.
          bindR (case product_of (o_product_id ord) s of None \<Rightarrow> Inl (TypeError ''order product'')
                 | Some pr \<Rightarrow> require_minimum_order_quantity q pr) (\<lambda>_.
          bindR (case o_inventory_item_id ord of None \<Rightarrow> Inr s
                 | Some i \<Rightarrow> if delta > 0 then reserve_inventory i delta s
                             else if delta < 0 then release_inventory i (- delta) s else Inr s) (\<lambda>s1.
          Inr (s1, ord\<lparr>o_quantity_mt := pydec_val q, o_remaining_quantity_mt := new_remaining,
                     o_status := (if new_remaining = 0 then FILLED else o_status ord)\<rparr>)))))"

definition amended_metadata :: "supplier_metadata \<Rightarrow> OrderUpdate \<Rightarrow> supplier_metadata" where
  "amended_metadata m ch = m\<lparr>
     certification_declared := truthy (get_or (ou_certification_declared ch) (Some (certification_declared m))),
     certification_scheme := get_or (ou_certification_scheme ch) (certification_scheme m),
     specification_standard := get_or (ou_specification_standard ch) (specification_standard m),
     msds_available := truthy (get_or (ou_msds_available ch) (Some (msds_available m))),
     carbon_intensity_gco2_mj := (case ou_carbon_intensity_gco2_mj ch of None \<Rightarrow> carbon_intensity_gco2_mj m
        | Some v \<Rightarrow> map_option pydec_val v),
     carbon_intensity_method := get_or (ou_carbon_intensity_method ch) (carbon_intensity_method m),
     feedstock := get_or (ou_feedstock ch) (feedstock m),
     origin := get_or (ou_origin ch) (origin m),
     off_spec := truthy (get_or (ou_off_spec ch) (Some (off_spec m))),
     off_spec_notes := get_or (ou_off_spec_notes ch) (off_spec_notes m)\<rparr>"

definition amended_order :: "order \<Rightarrow> OrderUpdate \<Rightarrow> order" where
  "amended_order ord ch = ord\<lparr>
     o_price_per_mt_usd := (case set_value (ou_price_per_mt_usd ch) of None \<Rightarrow> o_price_per_mt_usd ord | Some p \<Rightarrow> pydec_val p),
     o_certifications := (case ou_certifications ch of None \<Rightarrow> o_certifications ord | Some v \<Rightarrow> get_or v []),
     o_metadata := amended_metadata (o_metadata ord) ch,
     o_expires_at := (case ou_expires_at ch of None \<Rightarrow> o_expires_at ord | Some v \<Rightarrow> map_option fst v)\<rparr>"

subsection \<open>Writing an order row\<close>

definition null_column :: "OrderUpdate \<Rightarrow> bool" where
  "null_column ch \<longleftrightarrow> ou_price_per_mt_usd ch = Some None \<or> ou_off_spec ch = Some None"

definition columns_fit :: "order \<Rightarrow> bool" where
  "columns_fit ord \<longleftrightarrow> (let m = o_metadata ord in
     pred_opt (\<lambda>x. length x \<le> 120) (certification_scheme m) \<and> pred_opt (\<lambda>x. length x \<le> 120) (specification_standard m)
     \<and> pred_opt (\<lambda>x. length x \<le> 120) (carbon_intensity_method m) \<and> pred_opt (\<lambda>x. length x \<le> 255) (feedstock m)
     \<and> pred_opt (\<lambda>x. length x \<le> 255) (origin m) \<and> pred_opt (\<lambda>x. length x \<le> 50) (o_port_id ord))"

definition order_write_check :: "order \<Rightarrow> unit result" where
  "order_write_check ord =
     bindR (refuse (\<not> columns_fit ord) (DBAPIError ''22001'')) (\<lambda>_.
     refuse (\<not> (ORDER_DOMAIN ord \<and> ORDER_NUMERIC_VALUES ord \<and> ORDER_LIFECYCLE ord \<and> 1 \<le> o_version ord)) IntegrityError)"

subsection \<open>Side effects of automatic matches\<close>

definition resting_orders :: "order \<Rightarrow> trade list \<Rightarrow> market_db \<Rightarrow> order list" where
  "resting_orders triggering ts s =
     (let ids = List.map_filter (\<lambda>t. if o_side triggering = BID then t_ask_order_id t else t_bid_order_id t) ts in
      sort_key o_id (filter (\<lambda>x. o_id x \<in> set ids) (orders s)))"

definition match_participants :: "order \<Rightarrow> trade list \<Rightarrow> uuid list" where
  "match_participants ord ts = o_organization_id ord # map t_buyer_id ts @ map t_seller_id ts"

definition collect_auto_match_side_effects ::
  "order \<Rightarrow> trade list \<Rightarrow> uuid option \<Rightarrow> market_db \<Rightarrow> (market_db \<times> outbox_event list) result" where
  "collect_auto_match_side_effects triggering ts actor s =
     (if ts = [] then Inr (s, [])
      else
        let s1 = fold (\<lambda>t. record_audit actor ''trade.auto_matched'' ''trade'' (t_id t)) ts s;
            resting = resting_orders triggering ts s1;
            s2 = fold (\<lambda>x. project (EmitPinUpdated (o_id x))) resting s1;
            s3 = (case resting of [] \<Rightarrow> s2 | x # _ \<Rightarrow> project (EmitSliceStateChanged (o_id x)) s2) in
        bindR (collectR (\<lambda>t. participant_market_event ''trade_auto_matched'' ''trade'' (t_id t)
                  [t_buyer_id t, t_seller_id t] False) ts) (\<lambda>evs.
        bindR (participant_market_event ''orders_matched'' ''order'' (o_id triggering)
                 (match_participants triggering ts) False) (\<lambda>ev.
        Inr (s3, evs @ [ev]))))"

subsection \<open>The handler\<close>

definition amend_preview :: "(nat \<Rightarrow> time) \<Rightarrow> user \<Rightarrow> uuid \<Rightarrow> OrderUpdate \<Rightarrow> market_db \<Rightarrow> order result" where
  "amend_preview clk cur k u pv =
     bindR (require_execution_eligible_user pv cur) (\<lambda>_.
     bindR (refuse (case set_value (ou_expires_at u) of None \<Rightarrow> False | Some (t, _) \<Rightarrow> t \<le> clk 1)
              (HTTPException 422 ''expires_at must be in the future'')) (\<lambda>_.
     case order_of k pv of None \<Rightarrow> Inl (HTTPException 404 ''Order not found'')
     | Some p \<Rightarrow>
         bindR (refuse (\<not> owns_order cur p) (HTTPException 403 ''You can only update your own orders'')) (\<lambda>_.
         bindR (refuse (o_creation_method p = MARKET_SUPPORT)
                  (HTTPException 409 ''Assisted listings cannot be edited; cancel and create a replacement'')) (\<lambda>_.
         bindR (refuse (order_expired (clk 2) p \<and> live_status (o_status p)) (HTTPException 400 ''Order has expired'')) (\<lambda>_.
         bindR (refuse (\<not> live_status (o_status p))
                  (HTTPException 400 ''Can only update orders with OPEN or PARTIALLY_FILLED status'')) (\<lambda>_.
         bindR (refuse (case set_value (ou_availability_window u) of None \<Rightarrow> False | Some w \<Rightarrow> w \<noteq> o_availability_window p)
                  (HTTPException 409 ''Executable order market identity is immutable; cancel and create a new order'')) (\<lambda>_.
         bindR (require_amended_metadata p (amend_changes (o_side p) u)) (\<lambda>_.
         Inr p))))))))"

definition lock_amended :: "env \<Rightarrow> (nat \<Rightarrow> time) \<Rightarrow> user \<Rightarrow> order \<Rightarrow> market_db \<Rightarrow> order result" where
  "lock_amended e clk cur p s =
     bindR (acquire_market_slice_locks e [order_slice p]) (\<lambda>_.
     case order_of (o_id p) s of None \<Rightarrow> Inl (HTTPException 404 ''Order not found'')
     | Some ord \<Rightarrow>
         bindR (refuse (Some (o_organization_id ord) \<noteq> u_organization_id cur)
                  (HTTPException 403 ''You can only update your own orders'')) (\<lambda>_.
         bindR (refuse (order_identity ord \<noteq> order_identity p) (HTTPException 409 ''Order slice changed; retry the update'')) (\<lambda>_.
         bindR (refuse (order_expired (clk 3) ord \<and> live_status (o_status ord)) (HTTPException 400 ''Order has expired'')) (\<lambda>_.
         bindR (refuse (\<not> live_status (o_status ord))
                  (HTTPException 400 ''Can only update orders with OPEN or PARTIALLY_FILLED status'')) (\<lambda>_.
         bindR (lock_own_organization s (u_id cur) (u_organization_id cur)) (\<lambda>_.
         Inr ord))))))"

definition apply_amendment :: "order \<Rightarrow> OrderUpdate \<Rightarrow> market_db \<Rightarrow> (market_db \<times> order) result" where
  "apply_amendment ord ch s =
     bindR (requantify ord ch s) (\<lambda>(s1, ord1).
     let (n, s2) = (if amendment_loses_priority ord ch then next_order_acceptance_ordinal s1
                    else (o_acceptance_ordinal ord, s1));
         y = (amended_order ord1 ch)\<lparr>o_acceptance_ordinal := n\<rparr> in
     bindR (refuse (null_column ch) IntegrityError) (\<lambda>_.
     bindR (if y = ord then Inr () else order_write_check y) (\<lambda>_.
     Inr (put_order y s2, y))))"

definition match_amended ::
  "env \<Rightarrow> Settings \<Rightarrow> order_settings \<Rightarrow> (nat \<Rightarrow> time) \<Rightarrow> OrderUpdate \<Rightarrow> order \<Rightarrow> market_db \<Rightarrow> (market_db \<times> trade list) result" where
  "match_amended e cfg fl clk ch y s =
     (if economic_update ch \<and> AUTO_MATCHING_ENABLED fl
      then bindR (acquire_market_slice_lock e (order_slice y)) (\<lambda>_. match_order e cfg (\<lambda>i. clk (i + 4)) y True None s)
      else Inr (s, []))"

definition conclude_amend ::
  "(market_db \<Rightarrow> order \<Rightarrow> string) \<Rightarrow> (nat \<Rightarrow> time) \<Rightarrow> CommandAttempt option \<Rightarrow> user \<Rightarrow> order \<Rightarrow> bool \<Rightarrow> order \<Rightarrow> trade list \<Rightarrow> market_db
     \<Rightarrow> (market_db \<times> order reply) result" where
  "conclude_amend enc clk cmd cur ord public_before z ts s =
     bindR (collect_auto_match_side_effects z ts (Some (u_id cur))
              (project (EmitOrderUpdated (o_id ord)) (project (RebuildBenchmarks (o_id ord)) s))) (\<lambda>(s1, evs).
     bindR (participant_market_event ''order_updated'' ''order'' (o_id ord) (match_participants z ts)
              (z \<noteq> ord \<and> (public_before \<or> public_order_is_visible s1 (clk 0) (o_id ord))
               \<or> list_ex (\<lambda>t. public_trade_is_visible s1 (t_id t)) ts)) (\<lambda>ev.
     let s2 = (if z \<noteq> ord then record_audit (Some (u_id cur)) ''order.updated'' ''order'' (o_id ord) s1 else s1);
         s3 = enqueue_market_events (evs @ [ev]) s2 in
     bindR (record_command_success cmd 200 (enc s3 z) s3) (\<lambda>s4.
     Inr (s4, Fresh z))))"

definition run_amend ::
  "env \<Rightarrow> Settings \<Rightarrow> order_settings \<Rightarrow> (market_db \<Rightarrow> order \<Rightarrow> string) \<Rightarrow> (nat \<Rightarrow> time) \<Rightarrow> CommandAttempt option \<Rightarrow> user \<Rightarrow> uuid
     \<Rightarrow> OrderUpdate \<Rightarrow> market_db \<Rightarrow> market_db \<Rightarrow> (market_db \<times> order reply) result" where
  "run_amend e cfg fl enc clk cmd cur k u pv s =
     bindR (amend_preview clk cur k u pv) (\<lambda>p.
     let ch = amend_changes (o_side p) u in
     bindR (lock_amended e clk cur p s) (\<lambda>ord.
     bindR (apply_amendment ord ch s) (\<lambda>(s1, y).
     bindR (match_amended e cfg fl clk ch y s1) (\<lambda>(s2, ts).
     conclude_amend enc clk cmd cur ord (public_order_is_visible s (clk 0) (o_id ord)) (get_or (order_of (o_id ord) s2) y) ts s2))))"

definition update_order ::
  "env \<Rightarrow> Settings \<Rightarrow> order_settings \<Rightarrow> (market_db \<Rightarrow> order \<Rightarrow> string) \<Rightarrow> (nat \<Rightarrow> time) \<Rightarrow> http_request \<Rightarrow> user \<Rightarrow> uuid \<Rightarrow> OrderUpdate
     \<Rightarrow> market_db \<Rightarrow> market_db \<Rightarrow> (market_db \<times> order reply) result" where
  "update_order e cfg fl enc clk rq cur k raw pv s =
     bindR (order_update_schema raw) (\<lambda>u.
     bindR (reject_admin_legacy_workspace_mutation fl rq cur) (\<lambda>_.
     bindR (prepare_command_attempt e pv (rq_idempotency rq) (u_id cur) (u_organization_id cur) None ''order.amend'' ''order'' k
              (command_request_hash e (JObj [(''operation'', JStr ''order.amend''), (''order_id'', JStr (uuid_str k)),
                 (''update'', order_update_payload u)]))) (\<lambda>cmd.
     case Option.bind cmd ca_replay of
       Some r \<Rightarrow> Inr (s, Replayed (c_response_status r) (c_response_body r))
     | None \<Rightarrow> run_amend e cfg fl enc clk cmd cur k u pv s)))"

subsection \<open>Amendments keep the ledgers\<close>

lemma requantify_effect:
  assumes inv: "market_inv_upto \<sigma> s" and x: "order_of (o_id x) s = Some x" and live: "live_status (o_status x)"
    and r: "requantify x ch s = Inr (s1, y)"
  shows "same_market s s1" "o_id y = o_id x" "o_inventory_item_id y = o_inventory_item_id x" "order_row_ok y"
    "order_filled (filled_quantity s (o_id x)) y" "live_status (o_status y) \<or> o_remaining_quantity_mt y = 0"
    "\<And>k. reserved_stock s1 k = reserved_stock s k - order_commitment k x + order_commitment k y"
    "\<And>k. 0 \<le> current_stock s1 k"
proof -
  have row: "order_row_ok x" and fill: "order_filled (filled_quantity s (o_id x)) x"
    and cur: "\<And>k. 0 \<le> current_stock s k"
    using inv order_of_mem [OF x] by (auto simp: market_inv_upto_def rows_ok_def fills_ok_def reserves_upto_def)
  have "same_market s s1 \<and> o_id y = o_id x \<and> o_inventory_item_id y = o_inventory_item_id x \<and> order_row_ok y \<and>
    order_filled (filled_quantity s (o_id x)) y \<and> (live_status (o_status y) \<or> o_remaining_quantity_mt y = 0) \<and>
    (\<forall>k. reserved_stock s1 k = reserved_stock s k - order_commitment k x + order_commitment k y \<and> 0 \<le> current_stock s1 k)"
  proof (cases "ou_quantity_mt ch")
    case None
    then show ?thesis using r row fill live cur by (simp add: requantify_def)
  next
    case (Some v)
    with r obtain q where ch: "ou_quantity_mt ch = Some (Some q)" by (cases v) (auto simp: requantify_def)
    define rem where "rem = pydec_val q - (o_quantity_mt x - o_remaining_quantity_mt x)"
    define d where "d = rem - o_remaining_quantity_mt x"
    note r1 = r [unfolded requantify_def ch option.case Let_def, folded rem_def, folded d_def]
    from r1 obtain pr where p: "product_of (o_product_id x) s = Some pr" by (cases "product_of (o_product_id x) s") auto
    from r1 [unfolded p option.case] obtain v where pos: "0 \<le> rem" and pr: "require_minimum_order_quantity q pr = Inr v"
      and st: "(case o_inventory_item_id x of None \<Rightarrow> Inr s | Some i \<Rightarrow> if d > 0 then reserve_inventory i d s
                else if d < 0 then release_inventory i (- d) s else Inr s) = Inr s1"
      and y: "y = x\<lparr>o_quantity_mt := pydec_val q, o_remaining_quantity_mt := rem, o_status := (if rem = 0 then FILLED else o_status x)\<rparr>"
      by (auto simp: not_less)
    have q: "0 < pydec_val q"
      using pr by (auto simp: require_minimum_order_quantity_def finite_decimal_def split: pydecimal.splits if_splits sum.splits option.splits)
    have life: "ORDER_LIFECYCLE x" using row by (simp add: order_row_ok_def)
    have "order_row_ok y \<and> order_filled (filled_quantity s (o_id x)) y \<and> (live_status (o_status y) \<or> o_remaining_quantity_mt y = 0)"
      using life row fill live q pos
      by (auto simp: y order_row_ok_def ORDER_LIFECYCLE_def order_filled_def withdrawn_def live_status_def rem_def)
    moreover have "same_market s s1 \<and> (\<forall>k. reserved_stock s1 k = reserved_stock s k + (if o_inventory_item_id x = Some k then d else 0)
        \<and> 0 \<le> current_stock s1 k)"
    proof (cases "o_inventory_item_id x")
      case None
      then show ?thesis using st cur by simp
    next
      case (Some i)
      consider "d = 0" "s1 = s" | "0 < d" "reserve_inventory i d s = Inr s1" | "d < 0" "release_inventory i (- d) s = Inr s1"
        using st Some by (auto split: if_splits)
      then show ?thesis
      proof cases
        case 1
        then show ?thesis using cur by simp
      next
        case 2
        from stock.reserve_effect [OF 2(2)] same_market_stock(1) [OF 2(2)] cur Some show ?thesis by auto
      next
        case 3
        then have "0 < - d" by simp
        moreover have "d \<le> current_stock s i" using 3(1) cur [of i] by linarith
        ultimately show ?thesis using stock.release_effect [OF _ 3(2)] same_market_stock(3) [OF 3(2)] cur Some by auto
      qed
    qed
    moreover have "(if o_inventory_item_id x = Some k then d else 0) = order_commitment k y - order_commitment k x" for k
      using live by (auto simp: order_commitment_def y d_def live_status_def)
    ultimately show ?thesis by (simp add: y)
  qed
  then show "same_market s s1" "o_id y = o_id x" "o_inventory_item_id y = o_inventory_item_id x" "order_row_ok y"
    "order_filled (filled_quantity s (o_id x)) y" "live_status (o_status y) \<or> o_remaining_quantity_mt y = 0"
    "\<And>k. reserved_stock s1 k = reserved_stock s k - order_commitment k x + order_commitment k y"
    "\<And>k. 0 \<le> current_stock s1 k" by simp_all
qed

lemma amended_order_fields [simp]:
  "o_id (amended_order x ch) = o_id x" "o_inventory_item_id (amended_order x ch) = o_inventory_item_id x"
  "o_status (amended_order x ch) = o_status x" "o_quantity_mt (amended_order x ch) = o_quantity_mt x"
  "o_remaining_quantity_mt (amended_order x ch) = o_remaining_quantity_mt x" "o_side (amended_order x ch) = o_side x"
  "o_product_id (amended_order x ch) = o_product_id x" "o_creation_method (amended_order x ch) = o_creation_method x"
  by (simp_all add: amended_order_def)

lemma apply_amendment_cases:
  assumes "apply_amendment x ch s = Inr (s', y)"
  obtains s1 x1 s2 n where "requantify x ch s = Inr (s1, x1)" "y = (amended_order x1 ch)\<lparr>o_acceptance_ordinal := n\<rparr>"
    "s' = put_order y s2" "n = (if amendment_loses_priority x ch then next_ordinal s1 else o_acceptance_ordinal x)"
    "s2 = s1\<lparr>next_ordinal := (if amendment_loses_priority x ch then next_ordinal s1 + 1 else next_ordinal s1)\<rparr>"
    "\<not> null_column ch"
proof -
  from assms obtain s1 x1 where r: "requantify x ch s = Inr (s1, x1)" by (auto simp: apply_amendment_def)
  note a = assms [unfolded apply_amendment_def r bindR_simps prod.case next_order_acceptance_ordinal_def]
  show thesis
    using a by (intro that [OF r]) (auto simp: Let_def split: if_splits)
qed

lemma apply_amendment_inv:
  assumes inv: "market_inv_upto \<sigma> s" and x: "order_of (o_id x) s = Some x" and live: "live_status (o_status x)"
    and r: "apply_amendment x ch s = Inr (s', y)"
  shows "market_inv_upto \<sigma> s'" "order_of (o_id x) s' = Some y" "o_id y = o_id x" "live_status (o_status y) \<or> o_remaining_quantity_mt y = 0"
    "o_inventory_item_id y = o_inventory_item_id x" "o_expires_at y = o_expires_at (amended_order x ch)"
proof -
  from r obtain s1 x1 s2 n where q: "requantify x ch s = Inr (s1, x1)" and y: "y = (amended_order x1 ch)\<lparr>o_acceptance_ordinal := n\<rparr>"
    and s': "s' = put_order y s2"
    and s2: "s2 = s1\<lparr>next_ordinal := (if amendment_loses_priority x ch then next_ordinal s1 + 1 else next_ordinal s1)\<rparr>"
    by (rule apply_amendment_cases)
  note e = requantify_effect [OF inv x live q]
  have f: "same_market s s2" using e(1) by (simp add: s2 same_market_def)
  have st: "reserved_stock s2 = reserved_stock s1" "current_stock s2 = current_stock s1"
    by (simp_all add: fun_eq_iff reserved_stock_def current_stock_def s2)
  show "market_inv_upto \<sigma> s'"
    unfolding s'
  proof (rule order_move [OF inv _ _ _ _ f])
    show "order_of (o_id y) s = Some x" using x e(2) by (simp add: y)
    show "order_row_ok y" using e(4) by (simp add: y order_row_ok_def ORDER_LIFECYCLE_def)
    show "order_filled (filled_quantity s (o_id y)) y" using e(2,5) by (simp add: y order_filled_def)
    have "order_commitment k y = order_commitment k x1" for k by (simp add: y order_commitment_def)
    then show "reserved_stock s2 k = reserved_stock s k - order_commitment k x + order_commitment k y" for k
      using e(7) by (simp add: st)
  qed (use e in \<open>simp_all add: y st\<close>)
  have "order_of (o_id y) s2 = Some x" using x e(2) f by (simp add: y same_market_def)
  then show "order_of (o_id x) s' = Some y" using order_tab.get_put_same [of y s2 x] e(2) by (simp add: s' y)
  have "o_expires_at x1 = o_expires_at x"
    using q by (auto simp: requantify_def Let_def split: option.splits)
  then show "o_id y = o_id x" "live_status (o_status y) \<or> o_remaining_quantity_mt y = 0"
    "o_inventory_item_id y = o_inventory_item_id x" "o_expires_at y = o_expires_at (amended_order x ch)"
    using e(2,3,6) by (simp_all add: y) (simp add: amended_order_def split: option.split)
qed

lemma match_amended_strands:
  assumes "market_inv_upto \<sigma> s" "order_of (o_id y) s = Some y" "live_status (o_status y) \<or> o_remaining_quantity_mt y = 0"
    and "match_amended e cfg fl clk ch y s = Inr (s', ts)"
  shows "\<exists>\<tau>. market_inv_upto \<tau> s' \<and> (\<forall>j. \<sigma> j \<le> \<tau> j \<and> (\<tau> j \<noteq> \<sigma> j \<longrightarrow> order_expired (clk 4) y \<and> o_inventory_item_id y = Some j))"
proof (cases "economic_update ch \<and> AUTO_MATCHING_ENABLED fl \<and> live_status (o_status y)")
  case True
  with assms(4) have m: "match_order e cfg (\<lambda>i. clk (i + 4)) y True None s = Inr (s', ts)" by (auto simp: match_amended_def)
  have "0 \<le> o_remaining_quantity_mt y"
    using assms(1) order_of_mem [OF assms(2)] by (auto simp: market_inv_upto_def rows_ok_def order_row_ok_def)
  then have "0 \<le> stranded_by (clk 4) y j \<and> (stranded_by (clk 4) y j \<noteq> 0 \<longrightarrow> order_expired (clk 4) y \<and> o_inventory_item_id y = Some j)" for j
    by (simp add: stranded_by_def order_commitment_def)
  then show ?thesis using match_order_strands [OF assms(1,2) _ m] True by (intro exI [of _ "\<lambda>j. \<sigma> j + stranded_by (clk 4) y j"]) auto
next
  case False
  then have "s' = s" using assms(3,4) by (auto simp: match_amended_def match_order_def split: if_splits)
  then show ?thesis using assms(1) by (intro exI [of _ \<sigma>]) simp
qed

lemma side_effects_market:
  "collect_auto_match_side_effects x ts a s = Inr (s', evs) \<Longrightarrow> market_part s' = market_part s"
proof -
  have 1: "market_part (fold (\<lambda>t. record_audit a b c (t_id t)) ts s) = market_part s" for b c s
    by (induction ts arbitrary: s) (simp_all add: frame_simps)
  have 2: "market_part (fold (\<lambda>x. project (EmitPinUpdated (o_id x))) xs s) = market_part s" for xs s
    by (induction xs arbitrary: s) (simp_all add: frame_simps)
  show "collect_auto_match_side_effects x ts a s = Inr (s', evs) \<Longrightarrow> market_part s' = market_part s"
    by (auto simp: collect_auto_match_side_effects_def Let_def frame_simps 1 2 split: if_splits list.splits)
qed

lemma conclude_amend_market:
  assumes "conclude_amend enc clk cmd cur x pub z ts s = Inr (s', r)"
  shows "market_part s' = market_part s" "r = Fresh z"
proof -
  from assms obtain s1 evs ev s2 where c: "collect_auto_match_side_effects z ts (Some (u_id cur))
      (project (EmitOrderUpdated (o_id x)) (project (RebuildBenchmarks (o_id x)) s)) = Inr (s1, evs)"
    and s2: "s2 = enqueue_market_events (evs @ [ev])
      (if z \<noteq> x then record_audit (Some (u_id cur)) ''order.updated'' ''order'' (o_id x) s1 else s1)"
    and r: "record_command_success cmd 200 (enc s2 z) s2 = Inr s'" "r = Fresh z"
    by (auto simp: conclude_amend_def Let_def)
  have "market_part s2 = market_part s1" by (simp add: s2 frame_simps)
  then show "market_part s' = market_part s" "r = Fresh z"
    using record_command_market [OF r(1)] side_effects_market [OF c] r(2) by (simp_all add: frame_simps)
qed

lemma update_order_cases:
  assumes "update_order e cfg fl enc clk rq cur k raw pv s = Inr (s', r)"
  obtains (replay) st b where "s' = s" "r = Replayed st b"
    | (run) u p ch x s1 y s2 ts cmd pub where "order_update_schema raw = Inr u" "amend_preview clk cur k u pv = Inr p"
      "ch = amend_changes (o_side p) u" "lock_amended e clk cur p s = Inr x" "apply_amendment x ch s = Inr (s1, y)"
      "match_amended e cfg fl clk ch y s1 = Inr (s2, ts)"
      "conclude_amend enc clk cmd cur x pub (get_or (order_of (o_id x) s2) y) ts s2 = Inr (s', r)"
proof -
  from assms obtain u cmd where u: "order_update_schema raw = Inr u"
    and d: "(case Option.bind cmd ca_replay of Some c \<Rightarrow> Inr (s, Replayed (c_response_status c) (c_response_body c))
       | None \<Rightarrow> run_amend e cfg fl enc clk cmd cur k u pv s) = Inr (s', r)"
    by (auto simp: update_order_def)
  show thesis
  proof (cases "Option.bind cmd ca_replay")
    case None
    with d have "run_amend e cfg fl enc clk cmd cur k u pv s = Inr (s', r)" by simp
    then show thesis using run [OF u] by (auto simp: run_amend_def Let_def)
  qed (use d replay in auto)
qed

lemma lock_amended_facts:
  assumes "lock_amended e clk cur p s = Inr x"
  shows "order_of (o_id p) s = Some x" "order_of (o_id x) s = Some x" "live_status (o_status x)"
    "\<not> order_expired (clk 3) x" "u_organization_id cur = Some (o_organization_id x)" "order_identity x = order_identity p"
proof -
  have "order_of (o_id p) s = Some x \<and> live_status (o_status x) \<and> \<not> order_expired (clk 3) x
      \<and> u_organization_id cur = Some (o_organization_id x) \<and> order_identity x = order_identity p"
    using assms by (auto simp: lock_amended_def split: option.splits)
  moreover from this have "o_id x = o_id p" using order_of_mem by blast
  ultimately show "order_of (o_id p) s = Some x" "order_of (o_id x) s = Some x" "live_status (o_status x)"
    "\<not> order_expired (clk 3) x" "u_organization_id cur = Some (o_organization_id x)" "order_identity x = order_identity p"
    by auto
qed

lemma amend_preview_order:
  "amend_preview clk cur k u pv = Inr p \<Longrightarrow> order_of k pv = Some p \<and> o_id p = k \<and> owns_order cur p \<and> o_creation_method p \<noteq> MARKET_SUPPORT"
  by (auto simp: amend_preview_def dest: order_of_mem split: option.splits)

lemma schema_expiry: "order_update_schema raw = Inr u \<Longrightarrow> ou_expires_at u = ou_expires_at raw"
  by (auto simp: order_update_schema_def split: option.splits sum.splits)

text \<open>A successful amendment keeps the market invariant. Whatever it changes, and whatever it is matched with, fills add up and
  the reserved stock of every item is what its live orders and pending trades commit plus what is stranded; stock is
  stranded only at the item behind an order that has lapsed when the engine looks at it.\<close>

definition lapsed_amendment :: "(nat \<Rightarrow> time) \<Rightarrow> uuid \<Rightarrow> OrderUpdate \<Rightarrow> market_db \<Rightarrow> uuid set" where
  "lapsed_amendment clk k raw s =
     (case order_of k s of None \<Rightarrow> {} | Some x \<Rightarrow> {j. o_inventory_item_id x = Some j \<and> order_expired (clk 4) (amended_order x raw)})"

lemma update_order_strands:
  assumes "market_inv_upto \<sigma> s" "update_order e cfg fl enc clk rq cur k raw pv s = Inr (s', r)"
  shows "\<exists>\<tau>. market_inv_upto \<tau> s' \<and> (\<forall>j. \<sigma> j \<le> \<tau> j \<and> (\<tau> j \<noteq> \<sigma> j \<longrightarrow> j \<in> lapsed_amendment clk k raw s))"
  using assms(2)
proof (cases rule: update_order_cases)
  case (replay st b)
  then show ?thesis using assms(1) by (intro exI [of _ \<sigma>]) simp
next
  case (run u p ch x s1 y s2 ts cmd pub)
  note x = lock_amended_facts [OF run(4)]
  have k: "o_id p = k" using amend_preview_order [OF run(2)] by simp
  note a = apply_amendment_inv [OF assms(1) x(2,3) run(5)]
  have "ou_expires_at ch = ou_expires_at raw"
    using schema_expiry [OF run(1)] by (simp add: run(3) amend_changes_def Let_def)
  then have "order_expired (clk 4) y = order_expired (clk 4) (amended_order x raw)"
    using a(6) by (simp add: order_expired_def amended_order_def)
  then have l: "order_expired (clk 4) y \<and> o_inventory_item_id y = Some j \<longrightarrow> j \<in> lapsed_amendment clk k raw s" for j
    using a(5) x(1) k by (simp add: lapsed_amendment_def)
  have "order_of (o_id y) s1 = Some y" using a(2,3) by simp
  from match_amended_strands [OF a(1) this a(4) run(6)] l obtain \<tau> where
    t: "market_inv_upto \<tau> s2" "\<forall>j. \<sigma> j \<le> \<tau> j \<and> (\<tau> j \<noteq> \<sigma> j \<longrightarrow> j \<in> lapsed_amendment clk k raw s)" by blast
  have "market_inv_upto \<tau> s'" using t(1) market_inv_cong [OF market_part_eqD(1-3,10) [OF conclude_amend_market(1) [OF run(7)]]] by simp
  then show ?thesis using t(2) by blast
qed

subsection \<open>Keeping the place in the queue\<close>

text \<open>An order without the columns that fills change.\<close>

definition entry_of :: "order \<Rightarrow> order" where
  "entry_of x = x\<lparr>o_remaining_quantity_mt := 0, o_status := OPEN, o_version := 0\<rparr>"

lemma entry_simps [simp]:
  "entry_of (bump_version x) = entry_of x" "entry_of (x\<lparr>o_status := st\<rparr>) = entry_of x"
  "entry_of (filled_order q x) = entry_of x"
  by (simp_all add: entry_of_def bump_version_def filled_order_def Let_def)

lemma entry_of_eqD:
  assumes "entry_of z = entry_of y"
  shows "o_price_per_mt_usd z = o_price_per_mt_usd y" "o_quantity_mt z = o_quantity_mt y" "o_expires_at z = o_expires_at y"
    "o_acceptance_ordinal z = o_acceptance_ordinal y" "o_metadata z = o_metadata y" "o_certifications z = o_certifications y"
    "o_side z = o_side y" "o_product_id z = o_product_id y"
  using assms by (auto simp: entry_of_def dest: arg_cong [where f = o_price_per_mt_usd] arg_cong [where f = o_quantity_mt]
      arg_cong [where f = o_expires_at] arg_cong [where f = o_acceptance_ordinal] arg_cong [where f = o_metadata]
      arg_cong [where f = o_certifications] arg_cong [where f = o_side] arg_cong [where f = o_product_id])

lemma match_loop_entry:
  "match_loop cfg clk an cp cs m = Inr m' \<Longrightarrow> entry_of (ms_new m') = entry_of (ms_new m) \<and> o_id (ms_new m') = o_id (ms_new m)"
proof (induction cs arbitrary: m)
  case (Cons c cs)
  show ?case
  proof (cases "o_remaining_quantity_mt (ms_new m) \<le> 0")
    case False
    with Cons.prems obtain m1 where m1: "match_step cfg clk an cp c m = Inr m1" "match_loop cfg clk an cp cs m1 = Inr m'" by auto
    have "entry_of (ms_new m1) = entry_of (ms_new m) \<and> o_id (ms_new m1) = o_id (ms_new m)"
      using m1(1) by (auto simp: match_step_def fill_crossing_def filled_order_def Let_def entry_of_def bump_version_def split: if_splits)
    then show ?thesis using Cons.IH [OF m1(2)] by simp
  qed (use Cons.prems in simp)
qed simp

lemma match_order_entry:
  assumes "market_inv_upto \<sigma> s" "order_of (o_id new) s = Some new" "live_status (o_status new) \<or> o_remaining_quantity_mt new = 0"
    and "match_order e cfg clk new an pair s = Inr (s', ts)"
  shows "\<exists>z. order_of (o_id new) s' = Some z \<and> entry_of z = entry_of new"
  using assms(4)
proof (cases rule: match_order_cases)
  case idle
  then show ?thesis using assms(2) by simp
next
  case expired
  then show ?thesis using order_tab.get_put_same [of "bump_version (new\<lparr>o_status := EXPIRED\<rparr>)" s new] assms(2) by simp
next
  case (loop cp m)
  then have "live_status (o_status new)" using assms(3) by auto
  from match_loop_inv [OF crossing_orders_loop_inv [OF assms(1,2) this] loop(5)] match_loop_entry [OF loop(5)] loop(6)
  show ?thesis by auto
qed

lemma compatible_cong:
  assumes "o_side a = o_side b" "o_product_id a = o_product_id b" "o_metadata a = o_metadata b" "o_certifications a = o_certifications b"
  shows "orders_execution_compatible a c = orders_execution_compatible b c"
proof -
  have "order_is_execution_qualified a = order_is_execution_qualified b"
    by (simp add: order_is_execution_qualified_def assms)
  then show ?thesis
    unfolding orders_execution_compatible_def Let_def by (cases "o_side b = BID") (simp_all only: assms if_True if_False simp_thms)
qed

lemma compatible_same_terms:
  assumes "o_side y = o_side x" "o_product_id y = o_product_id x" "order_is_execution_qualified x"
    "certification_scheme (o_metadata y) = certification_scheme (o_metadata x)"
    "certification_set (o_certifications y) = certification_set (o_certifications x)"
    "orders_execution_compatible y c"
  shows "orders_execution_compatible x c"
proof -
  let ?f = "List.map_filter (\<lambda>c. normalize_certification_scheme (Some c))"
  have l: "?f (o_certifications y) = [] \<longleftrightarrow> ?f (o_certifications x) = []"
    using assms(5) unfolding certification_set_def by (metis set_empty)
  have "order_is_execution_qualified y" "order_is_execution_qualified c"
    using assms(6) by (auto simp: orders_execution_compatible_def split: if_splits)
  then show ?thesis
    using assms l unfolding orders_execution_compatible_def Let_def
    by (cases "o_side x = BID") (simp_all add: certification_set_def split: option.splits if_splits)
qed

lemma kept_priority:
  assumes "\<not> amendment_loses_priority x ch" "\<not> null_column ch"
  shows "o_price_per_mt_usd (amended_order x ch) = o_price_per_mt_usd x"
    "case o_expires_at x of None \<Rightarrow> True | Some t \<Rightarrow> \<exists>t'. o_expires_at (amended_order x ch) = Some t' \<and> t' \<le> t"
    "orders_execution_compatible (amended_order x ch) c \<Longrightarrow> order_is_execution_qualified x \<Longrightarrow> orders_execution_compatible x c"
proof -
  show "o_price_per_mt_usd (amended_order x ch) = o_price_per_mt_usd x"
    using assms(1,2) by (auto simp: amended_order_def amendment_loses_priority_def null_column_def set_value_def split: option.splits)
  show "case o_expires_at x of None \<Rightarrow> True | Some t \<Rightarrow> \<exists>t'. o_expires_at (amended_order x ch) = Some t' \<and> t' \<le> t"
    using assms(1) by (auto simp: amended_order_def amendment_loses_priority_def not_less split: option.splits)
  have "certification_scheme (o_metadata (amended_order x ch)) = certification_scheme (o_metadata x)"
    using assms(1) by (auto simp: amended_order_def amended_metadata_def amendment_loses_priority_def get_or_def split: option.splits)
  moreover have "certification_set (o_certifications (amended_order x ch)) = certification_set (o_certifications x)"
    using assms(1) by (auto simp: amended_order_def amendment_loses_priority_def split: option.splits)
  ultimately show "orders_execution_compatible (amended_order x ch) c \<Longrightarrow> order_is_execution_qualified x \<Longrightarrow> orders_execution_compatible x c"
    using compatible_same_terms [of "amended_order x ch" x c] by simp
qed

lemma requantified:
  assumes "requantify x ch s = Inr (s1, y)"
  shows "\<exists>q r st. y = x\<lparr>o_quantity_mt := q, o_remaining_quantity_mt := r, o_status := st\<rparr> \<and>
    (\<not> amendment_loses_priority x ch \<longrightarrow> q \<le> o_quantity_mt x)" "next_ordinal s1 = next_ordinal s"
proof -
  have same: "reserve_inventory i d s = Inr s1 \<Longrightarrow> next_ordinal s1 = next_ordinal s"
    "release_inventory i d s = Inr s1 \<Longrightarrow> next_ordinal s1 = next_ordinal s" for i d
    by (auto simp: reserve_inventory_def release_inventory_def frame_simps split: if_splits)
  have "(\<exists>q r st. y = x\<lparr>o_quantity_mt := q, o_remaining_quantity_mt := r, o_status := st\<rparr> \<and>
    (\<not> amendment_loses_priority x ch \<longrightarrow> q \<le> o_quantity_mt x)) \<and> next_ordinal s1 = next_ordinal s"
  proof (cases "ou_quantity_mt ch")
    case None
    then have "y = x\<lparr>o_quantity_mt := o_quantity_mt x, o_remaining_quantity_mt := o_remaining_quantity_mt x, o_status := o_status x\<rparr> \<and> s1 = s"
      using assms by (simp add: requantify_def)
    then show ?thesis by blast
  next
    case (Some v)
    with assms obtain q where ch: "ou_quantity_mt ch = Some (Some q)" by (cases v) (auto simp: requantify_def)
    note r = assms [unfolded requantify_def ch option.case Let_def]
    have "\<exists>r st. y = x\<lparr>o_quantity_mt := pydec_val q, o_remaining_quantity_mt := r, o_status := st\<rparr>"
      using r by (auto simp del: diff_eq_diff_eq)
    moreover have "\<not> amendment_loses_priority x ch \<longrightarrow> pydec_val q \<le> o_quantity_mt x"
      by (simp add: amendment_loses_priority_def ch set_value_def)
    moreover have "next_ordinal s1 = next_ordinal s"
      using r by (cases "o_inventory_item_id x") (auto split: if_splits dest: same)
    ultimately show ?thesis by blast
  qed
  then show "\<exists>q r st. y = x\<lparr>o_quantity_mt := q, o_remaining_quantity_mt := r, o_status := st\<rparr> \<and>
    (\<not> amendment_loses_priority x ch \<longrightarrow> q \<le> o_quantity_mt x)" "next_ordinal s1 = next_ordinal s" by blast+
qed

text \<open>C28: what an amendment can change without costing the order its place. When an order comes out of an amendment with its old
  acceptance ordinal (and not because the sequence handed that number out again), its price is the old one, its quantity has not grown and it
  does not expire later; and every order it may now trade with is one it could already trade with, unless it was not
  execution qualified before: completing the missing product data of an unqualified order is the one amendment that opens new
  counterparties and keeps the place.\<close>

theorem amendment_priority_safe:
  assumes "market_inv_upto \<sigma> s" "update_order e cfg fl enc clk rq cur k raw pv s = Inr (s', Fresh z)"
    and "order_of k s = Some x"
    and "o_acceptance_ordinal x \<noteq> next_ordinal s" "o_acceptance_ordinal z = o_acceptance_ordinal x"
  shows "order_of k s' = Some z \<and> o_price_per_mt_usd z = o_price_per_mt_usd x \<and> o_quantity_mt z \<le> o_quantity_mt x \<and>
    (case o_expires_at x of None \<Rightarrow> True | Some t \<Rightarrow> \<exists>t'. o_expires_at z = Some t' \<and> t' \<le> t) \<and>
    (\<forall>c. orders_execution_compatible z c \<longrightarrow> orders_execution_compatible x c \<or> \<not> order_is_execution_qualified x)"
  using assms(2)
proof (cases rule: update_order_cases)
  case (run u p ch x0 s1 y s2 ts cmd pub)
  have k: "o_id p = k" using amend_preview_order [OF run(2)] by simp
  note l = lock_amended_facts [OF run(4)]
  have x0: "x0 = x" using l(1) k assms(3) by simp
  note x = l [unfolded x0]
  have xk: "o_id x = k" using order_of_mem [OF assms(3)] by simp
  note a = apply_amendment_inv [OF assms(1) x(2,3) run(5) [unfolded x0]]
  have "\<exists>z. order_of k s2 = Some z \<and> entry_of z = entry_of y"
    using match_order_entry [OF a(1) _ a(4)] run(6) a(2,3) xk by (auto simp: match_amended_def split: if_splits)
  then obtain z0 where z0: "order_of k s2 = Some z0" "entry_of z0 = entry_of y" by blast
  have z: "z0 = z" "order_of k s' = Some z"
    using conclude_amend_market(2) [OF run(7)] market_part_eqD(1) [OF conclude_amend_market(1) [OF run(7)]] z0(1)
    by (simp_all add: x0 xk get_or_def)
  note t = entry_of_eqD [OF z0(2) [unfolded z(1)]]
  from run(5) obtain s3 x1 n where q: "requantify x ch s = Inr (s3, x1)" and y: "y = (amended_order x1 ch)\<lparr>o_acceptance_ordinal := n\<rparr>"
    and n: "n = (if amendment_loses_priority x ch then next_ordinal s3 else o_acceptance_ordinal x)" and nn: "\<not> null_column ch"
    unfolding x0 by (rule apply_amendment_cases)
  have ord: "next_ordinal s3 = next_ordinal s" by (rule requantified(2) [OF q])
  have keep: "\<not> amendment_loses_priority x ch"
    using t(4) assms(4,5) n ord by (auto simp: y split: if_splits)
  have e1: "amended_order x1 ch = (amended_order x ch)\<lparr>o_quantity_mt := o_quantity_mt x1, o_remaining_quantity_mt := o_remaining_quantity_mt x1,
      o_status := o_status x1\<rparr>" "o_quantity_mt x1 \<le> o_quantity_mt x"
    using requantified(1) [OF q] keep by (auto simp: amended_order_def cong: option.case_cong)
  have "orders_execution_compatible z c \<longleftrightarrow> orders_execution_compatible (amended_order x ch) c" for c
    by (rule compatible_cong) (simp_all add: t y e1)
  moreover have "o_price_per_mt_usd z = o_price_per_mt_usd (amended_order x ch)" "o_expires_at z = o_expires_at (amended_order x ch)"
    "o_quantity_mt z = o_quantity_mt x1"
    by (simp_all add: t y e1)
  ultimately show ?thesis
    using kept_priority [OF keep nn] z(2) e1(2) by (auto split: option.splits)
qed (use assms(2) in simp)

subsection \<open>Examples\<close>

definition no_update :: OrderUpdate where
  "no_update = \<lparr>ou_quantity_mt = None, ou_price_per_mt_usd = None, ou_availability_window = None, ou_certifications = None,
     ou_certification_declared = None, ou_certification_scheme = None, ou_specification_standard = None,
     ou_msds_available = None, ou_carbon_intensity_gco2_mj = None, ou_carbon_intensity_method = None, ou_feedstock = None,
     ou_origin = None, ou_off_spec = None, ou_off_spec_notes = None, ou_expires_at = None\<rparr>"

lemma no_update_simps [simp]:
  "ou_quantity_mt no_update = None" "ou_price_per_mt_usd no_update = None" "ou_availability_window no_update = None"
  "ou_certifications no_update = None" "ou_certification_declared no_update = None" "ou_certification_scheme no_update = None"
  "ou_specification_standard no_update = None" "ou_msds_available no_update = None"
  "ou_carbon_intensity_gco2_mj no_update = None" "ou_carbon_intensity_method no_update = None" "ou_feedstock no_update = None"
  "ou_origin no_update = None" "ou_off_spec no_update = None" "ou_off_spec_notes no_update = None" "ou_expires_at no_update = None"
  by (simp_all add: no_update_def)

definition ex_ask_db :: market_db where
  "ex_ask_db = ex_db\<lparr>orders := [ex_ask]\<rparr>"

definition ex_reduce :: OrderUpdate where
  "ex_reduce = no_update\<lparr>ou_quantity_mt := Some (Some (Finite 400 0))\<rparr>"

definition ex_reduced :: order where
  "ex_reduced = ex_ask\<lparr>o_quantity_mt := 400, o_remaining_quantity_mt := 400\<rparr>"

lemma ex_ask_market_inv: "market_inv ex_ask_db"
proof -
  have "keys_ok ex_ask_db" "refs_ok ex_ask_db" by (simp_all add: keys_ok_def refs_ok_def ex_ask_db_def)
  moreover have "rows_ok ex_ask_db" by (simp add: rows_ok_def order_row_ok_def ORDER_LIFECYCLE_def ex_ask_db_def)
  moreover have "fills_ok ex_ask_db" by (simp add: fills_ok_def order_filled_def filled_quantity_def withdrawn_def ex_ask_db_def)
  moreover have "reserved_stock ex_ask_db k = committed ex_ask_db k \<and> 0 \<le> current_stock ex_ask_db k" for k
    by (cases "k = 21")
      (simp_all add: committed_def order_commitment_def live_status_def reserved_stock_def current_stock_def ex_ask_db_def)
  then have "reserves_ok ex_ask_db" by (simp add: reserves_upto_def)
  ultimately show ?thesis by (simp add: market_inv_upto_def)
qed

lemma ex_reduce_simps [simp]:
  "ou_quantity_mt ex_reduce = Some (Some (Finite 400 0))" "ou_price_per_mt_usd ex_reduce = None" "ou_expires_at ex_reduce = None"
  "ou_availability_window ex_reduce = None" "ou_certifications ex_reduce = None" "ou_certification_scheme ex_reduce = None"
  "ou_off_spec ex_reduce = None"
  by (simp_all add: ex_reduce_def)

lemma ex_reduced_simps [simp]:
  "o_id ex_reduced = 31" "o_metadata ex_reduced = ex_metadata" "o_side ex_reduced = ASK" "o_provenance ex_reduced = REAL"
  "o_organization_id ex_reduced = 41" "o_acceptance_ordinal ex_reduced = 1" "o_remaining_quantity_mt ex_reduced = 400"
  "o_price_per_mt_usd ex_reduced = 900" "o_product_id ex_reduced = p_id ex_product" "o_expires_at ex_reduced = Some 2000"
  by (simp_all add: ex_reduced_def)

lemma ex_amend:
  "\<exists>s'. update_order ex_env ex_cfg ex_flags (\<lambda>_ _. []) (\<lambda>_. 1000) ex_cancel_request (ex_user 11 SUPPLIER 41) 31 ex_reduce
     ex_ask_db ex_ask_db = Inr (s', Fresh ex_reduced)"
proof -
  let ?u = "ex_user 11 SUPPLIER 41"
  have sch: "order_update_schema ex_reduce = Inr ex_reduce"
    by (simp add: order_update_schema_def ex_reduce_def set_value_def pred_opt_def valid_amount_def finite_decimal_def dec_value_def)
  have ch: "amend_changes ASK ex_reduce = ex_reduce"
    by (simp add: amend_changes_def ex_reduce_def no_update_def)
  have el: "execution_party_is_eligible ex_ask_db (Some ?u) (Some (ex_org 41 ''Supplier''))"
    by (simp add: execution_party_is_eligible_def ex_ask_db_def)
  have bio: "BIOFUEL_SPECIFICATION_STANDARDS (p_id ex_product) = None"
    by (simp add: BIOFUEL_SPECIFICATION_STANDARDS_def ex_product_def B30_PRODUCT_ID_def B100_PRODUCT_ID_def)
  have meta: "require_amended_metadata ex_ask ex_reduce = Inr ()"
    by (simp add: require_amended_metadata_def ex_reduce_def get_or_def truthy_def require_supplier_certification_def bio
        require_supplier_metadata_def ex_metadata_def py_strip_def is_space_def or_empty_def Let_def supplier_product_metadata_error_def)
  have pv: "amend_preview (\<lambda>_. 1000) ?u 31 ex_reduce ex_ask_db = Inr ex_ask"
    using el meta ch
    by (simp add: amend_preview_def require_execution_eligible_user_def ex_ask_db_def set_value_def owns_order_def
        order_expired_def live_status_def)
  have lk: "acquire_market_slice_lock ex_env (order_slice ex_ask) = Inr ()" "order_slice ex_reduced = order_slice ex_ask"
    using ex_slice_lock [OF canonical_SPOT] by (simp_all add: order_slice_def SPOT_WINDOW_def ex_reduced_def)
  have own: "lock_own_organization ex_ask_db 11 (Some 41) = Inr ()"
    using el by (simp add: lock_own_organization_def lock_and_load_market_organizations_def Let_def ownership_by_user_def
        py_upper_def upper_char_def ex_ask_db_def)
  have lks: "acquire_market_slice_locks ex_env [order_slice ex_ask] = Inr ()"
    using normalize_canonical [OF canonical_SPOT] ex_slice_lock [OF canonical_SPOT]
    by (simp add: acquire_market_slice_locks_def slice_lock_order_def order_slice_def SPOT_WINDOW_def)
  have ob: "order_of 31 ex_ask_db = Some ex_ask" by (simp add: ex_ask_db_def)
  have lock: "lock_amended ex_env (\<lambda>_. 1000) ?u ex_ask ex_ask_db = Inr ex_ask"
    using own by (simp add: lock_amended_def lks ob order_expired_def live_status_def)
  have lot: "require_minimum_order_quantity (Finite 400 0) ex_product = Inr 400"
    by (simp add: require_minimum_order_quantity_def finite_decimal_def dec_value_def ex_product_def)
  obtain s1 where req: "requantify ex_ask ex_reduce ex_ask_db = Inr (s1, ex_reduced)" and s1: "orders s1 = [ex_ask]"
    using lot by (simp add: requantify_def Let_def dec_value_def ex_ask_db_def release_inventory_def ex_reduced_def frame_simps)
  have "amended_metadata ex_metadata ex_reduce = ex_metadata"
    by (simp add: amended_metadata_def ex_metadata_def get_or_def truthy_def ex_reduce_def)
  then have am: "(amended_order ex_reduced ex_reduce)\<lparr>o_acceptance_ordinal := 1\<rparr> = ex_reduced"
    by (simp add: amended_order_def set_value_def)
  have chk: "order_write_check ex_reduced = Inr ()"
    by (simp add: order_write_check_def columns_fit_def pred_opt_def ORDER_DOMAIN_def ORDER_NUMERIC_VALUES_def ORDER_LIFECYCLE_def
        idempotency_all_or_none_def no_idempotency_def required_numeric_def optional_numeric_def ex_metadata_def ex_reduced_def)
  have ne: "ex_reduced \<noteq> ex_ask"
  proof
    assume "ex_reduced = ex_ask"
    then have "o_quantity_mt ex_reduced = o_quantity_mt ex_ask" by (rule arg_cong)
    then show False by (simp add: ex_reduced_def)
  qed
  have lp: "\<not> amendment_loses_priority ex_ask ex_reduce" "\<not> null_column ex_reduce"
    by (simp_all add: amendment_loses_priority_def set_value_def dec_value_def null_column_def)
  let ?s2 = "put_order ex_reduced s1"
  have ap: "apply_amendment ex_ask ex_reduce ex_ask_db = Inr (?s2, ex_reduced)"
    using req am chk lp by (simp add: apply_amendment_def)
  have q: "order_is_execution_qualified ex_reduced" "\<not> order_expired 1000 ex_reduced"
    by (simp_all add: order_is_execution_qualified_def bio ex_metadata_def normalize_certification_scheme_def Let_def py_strip_def
        is_space_def order_expired_def)
  have o2: "orders ?s2 = [ex_reduced]" using s1 by (simp add: put_order_def put_row_def)
  have "candidate_rows now ex_reduced ?s2 = []" for now
    by (simp add: candidate_rows_def o2 match_filters_def)
  then have mt: "match_amended ex_env ex_cfg ex_flags (\<lambda>_. 1000) ex_reduce ex_reduced ?s2 = Inr (?s2, [])"
    using q lk by (simp add: match_amended_def match_order_def demo_counterparty_def)
  have "\<exists>s'. conclude_amend (\<lambda>_ _. []) (\<lambda>_. 1000) None ?u ex_ask pub ex_reduced [] ?s2 = Inr (s', Fresh ex_reduced)" for pub
    by (simp add: conclude_amend_def collect_auto_match_side_effects_def participant_market_event_def match_participants_def
        record_command_success_def Let_def py_strip_def is_space_def)
  then show ?thesis
    using sch ch pv lock ap mt o2
    by (simp add: update_order_def reject_admin_legacy_workspace_mutation_def prepare_command_attempt_def ex_cancel_request_def
        run_amend_def get_or_def)
qed

theorem amendment_priority_safe_witness:
  "\<exists>s'. update_order ex_env ex_cfg ex_flags (\<lambda>_ _. []) (\<lambda>_. 1000) ex_cancel_request (ex_user 11 SUPPLIER 41) 31 ex_reduce
     ex_ask_db ex_ask_db = Inr (s', Fresh ex_reduced) \<and> order_of 31 s' = Some ex_reduced \<and>
     (\<forall>c. orders_execution_compatible ex_reduced c \<longrightarrow> orders_execution_compatible ex_ask c)"
proof -
  obtain s' where r: "update_order ex_env ex_cfg ex_flags (\<lambda>_ _. []) (\<lambda>_. 1000) ex_cancel_request (ex_user 11 SUPPLIER 41) 31 ex_reduce
     ex_ask_db ex_ask_db = Inr (s', Fresh ex_reduced)" using ex_amend by blast
  have "order_is_execution_qualified ex_ask"
    by (simp add: order_is_execution_qualified_def ex_metadata_def normalize_certification_scheme_def Let_def py_strip_def
        is_space_def BIOFUEL_SPECIFICATION_STANDARDS_def ex_product_def B30_PRODUCT_ID_def B100_PRODUCT_ID_def)
  with amendment_priority_safe [OF ex_ask_market_inv r] r show ?thesis by (auto simp: ex_ask_db_def)
qed

subsection \<open>Where the code falls short of its comments\<close>

text \<open>An inventory-backed order that lapses before the engine sees it is marked EXPIRED without giving its reservation
  back: the stock stays reserved for an order that no longer exists on the market.\<close>

lemma lapsed_match_strands_stock:
  "\<exists>s'. match_order ex_env ex_cfg (\<lambda>_. 3000) ex_ask True None ex_ask_db = Inr (s', []) \<and> market_inv ex_ask_db \<and> \<not> market_inv s'"
proof -
  let ?x = "bump_version (ex_ask\<lparr>o_status := EXPIRED\<rparr>)"
  have l: "acquire_market_slice_lock ex_env (order_slice ex_ask) = Inr ()"
    using ex_slice_lock [OF canonical_SPOT] by (simp add: order_slice_def SPOT_WINDOW_def)
  have m: "match_order ex_env ex_cfg (\<lambda>_. 3000) ex_ask True None ex_ask_db = Inr (put_order ?x ex_ask_db, [])"
    by (simp add: match_order_def l order_expired_def)
  have "committed (put_order ?x ex_ask_db) 21 = 0"
    by (simp add: committed_def put_order_def put_row_def ex_ask_db_def order_commitment_def live_status_def)
  moreover have "reserved_stock (put_order ?x ex_ask_db) 21 = 500" by (simp add: ex_ask_db_def reserved_stock_def)
  ultimately have "reserved_stock (put_order ?x ex_ask_db) 21 \<noteq> committed (put_order ?x ex_ask_db) 21" by simp
  then have "\<not> market_inv (put_order ?x ex_ask_db)" by (auto simp: market_inv_upto_def reserves_upto_def dest: spec [of _ 21])
  with m ex_ask_market_inv show ?thesis by blast
qed

text \<open>Completing the metadata of a biofuel ASK makes it executable for the first time, and yet it keeps its place.\<close>

lemma completed_metadata_keeps_priority:
  "\<exists>x ch. \<not> order_is_execution_qualified x \<and> order_is_execution_qualified (amended_order x ch) \<and> \<not> amendment_loses_priority x ch"
proof (intro exI conjI)
  let ?x = "ex_ask\<lparr>o_product_id := B30_PRODUCT_ID, o_metadata := ex_metadata\<lparr>specification_standard := Some ''ISO 8217:2024 RF 380'',
      carbon_intensity_method := None\<rparr>\<rparr>"
  let ?ch = "no_update\<lparr>ou_carbon_intensity_method := Some (Some ''RED II'')\<rparr>"
  show "\<not> order_is_execution_qualified ?x"
    by (simp add: order_is_execution_qualified_def BIOFUEL_SPECIFICATION_STANDARDS_def ex_metadata_def supplier_product_metadata_error_def
        or_empty_def py_strip_def Let_def)
  show "order_is_execution_qualified (amended_order ?x ?ch)"
    by (simp add: order_is_execution_qualified_def BIOFUEL_SPECIFICATION_STANDARDS_def ex_metadata_def supplier_product_metadata_error_def
        or_empty_def py_strip_def Let_def amended_order_def amended_metadata_def get_or_def truthy_def is_space_def
        normalize_certification_scheme_def py_upper_def upper_char_def)
  show "\<not> amendment_loses_priority ?x ?ch"
    by (simp add: amendment_loses_priority_def set_value_def)
qed

text \<open>Sending back the certification scheme an ASK was stored with, in lower case, costs the order its place.\<close>

lemma resubmitted_scheme_loses_priority:
  "\<exists>x. certification_scheme (o_metadata x) = Some ''iscc eu'' \<and>
    amendment_loses_priority x (amend_changes ASK (no_update\<lparr>ou_certification_scheme := Some (certification_scheme (o_metadata x))\<rparr>))"
proof
  show "certification_scheme (o_metadata (ex_ask\<lparr>o_metadata := ex_metadata\<lparr>certification_scheme := Some ''iscc eu''\<rparr>\<rparr>)) = Some ''iscc eu'' \<and>
    amendment_loses_priority (ex_ask\<lparr>o_metadata := ex_metadata\<lparr>certification_scheme := Some ''iscc eu''\<rparr>\<rparr>)
      (amend_changes ASK (no_update\<lparr>ou_certification_scheme :=
        Some (certification_scheme (o_metadata (ex_ask\<lparr>o_metadata := ex_metadata\<lparr>certification_scheme := Some ''iscc eu''\<rparr>\<rparr>)))\<rparr>))"
    by (simp add: amendment_loses_priority_def set_value_def amend_changes_def Let_def normalize_certification_scheme_def py_strip_def
        is_space_def py_upper_def upper_char_def char_of_def)
qed

end
