(* ===== verification/Post_Only.thy ===== *)
theory Post_Only
  imports Matching_Engine
begin

section \<open>Post-only assessment of assisted orders\<close>

text \<open>
  \<^verbatim>\<open>src/app/services/market_support_post_only.py\<close>: an order entered by market support must rest. Before it is inserted,
  the whole crossing set is read under the slice lock and assessed against the fill-time policies;
  a set larger than a match may handle is indeterminate and refused. The property relates the assessment to the engine: an
  order that passes would not have traded.
\<close>

record PostOnlyAssessment =
  would_cross :: bool
  indeterminate :: bool
  best_executable_price :: "dec option"

definition post_only_filters :: "time \<Rightarrow> order \<Rightarrow> market_db \<Rightarrow> order \<Rightarrow> bool" where
  "post_only_filters now candidate s c \<longleftrightarrow>
     o_side c = opposite (o_side candidate)
     \<and> o_product_id c = o_product_id candidate
     \<and> o_delivery_point_id c = o_delivery_point_id candidate
     \<and> o_availability_window c = o_availability_window candidate
     \<and> live_status (o_status c)
     \<and> o_organization_id c \<noteq> o_organization_id candidate
     \<and> price_crosses candidate c
     \<and> (case o_expires_at c of None \<Rightarrow> True | Some t \<Rightarrow> t > now)
     \<and> o_provenance c = REAL
     \<and> (case organization_of (o_organization_id c) s of None \<Rightarrow> False
        | Some g \<Rightarrow> g_verification_status g = ''APPROVED'')"

text \<open>The first order of the crossing set, in price and acceptance order, that would really fill.\<close>

definition executable_crossing :: "market_db \<Rightarrow> order \<Rightarrow> order \<Rightarrow> bool" where
  "executable_crossing s candidate c =
     (case o_owner_user_id c of None \<Rightarrow> False
      | Some u \<Rightarrow> orders_execution_compatible candidate c
          \<and> order_owner_is_execution_eligible s c (user_of u s) (organization_of (o_organization_id c) s))"

definition assess_locked_order :: "market_db \<Rightarrow> time \<Rightarrow> order \<Rightarrow> organization \<Rightarrow> PostOnlyAssessment" where
  "assess_locked_order s now candidate g =
     (if o_remaining_quantity_mt candidate \<le> 0 \<or> \<not> order_is_execution_qualified candidate
         \<or> o_provenance candidate \<noteq> REAL \<or> g_id g \<noteq> o_organization_id candidate
         \<or> g_verification_status g \<noteq> ''APPROVED''
      then \<lparr>would_cross = True, indeterminate = True, best_executable_price = None\<rparr>
      else
        let preview = take (MAX_CROSSING_ORDERS_PER_MATCH + 1)
              (sort_key (priority_key candidate) (filter (post_only_filters now candidate s) (orders s))) in
        if length preview > MAX_CROSSING_ORDERS_PER_MATCH
        then \<lparr>would_cross = True, indeterminate = True, best_executable_price = None\<rparr>
        else
          let crossing = sort_key (priority_key candidate)
                (filter (\<lambda>c. o_id c \<in> set (map o_id preview) \<and> post_only_filters now candidate s c) (orders s)) in
          case find (executable_crossing s candidate) crossing of
            Some c \<Rightarrow> \<lparr>would_cross = True, indeterminate = False, best_executable_price = Some (o_price_per_mt_usd c)\<rparr>
          | None \<Rightarrow> \<lparr>would_cross = False, indeterminate = False, best_executable_price = None\<rparr>)"

subsection \<open>Passing the assessment means resting\<close>

lemma assess_passes:
  assumes "\<not> would_cross (assess_locked_order s now x g)" "c \<in> set (orders s)" "post_only_filters now x s c"
  shows "\<not> executable_crossing s x c" "o_provenance x = REAL"
proof -
  let ?f = "filter (post_only_filters now x s) (orders s)"
  let ?p = "take (MAX_CROSSING_ORDERS_PER_MATCH + 1) (sort_key (priority_key x) ?f)"
  let ?c = "sort_key (priority_key x) (filter (\<lambda>c. o_id c \<in> set (map o_id ?p) \<and> post_only_filters now x s c) (orders s))"
  have prov: "o_provenance x = REAL" and len: "length ?p \<le> MAX_CROSSING_ORDERS_PER_MATCH"
    and none: "find (executable_crossing s x) ?c = None"
    using assms(1) by (auto simp: assess_locked_order_def Let_def split: if_splits option.splits)
  show "o_provenance x = REAL" by (rule prov)
  have "length ?f \<le> MAX_CROSSING_ORDERS_PER_MATCH" using len by simp
  then have "set ?p = set ?f" by simp
  then have "c \<in> set ?c" using assms(2,3) by auto
  then show "\<not> executable_crossing s x c" using none by (auto simp: find_None_iff)
qed

lemma match_loop_idle:
  assumes "\<And>c. c \<in> set cs \<Longrightarrow> \<not> order_expired (clk 0) c \<and> \<not> crossing_admitted (ms_new m) cp (ms_db m) c"
  shows "match_loop cfg clk an cp cs m = Inr m"
  using assms by (induction cs) (auto simp: match_step_def)

lemma crossing_members:
  "c \<in> set (crossing_orders now x s) \<Longrightarrow> c \<in> set (orders s) \<and> match_filters now x s c"
  by (auto simp: crossing_orders_def Let_def)

text \<open>C26: post-only means what it says. An order that the assessment lets pass, once inserted, makes no trade when the matching engine
  looks at it at that moment: every order it crosses in price is one the engine would not fill.\<close>

theorem post_only_order_rests:
  assumes "\<not> would_cross (assess_locked_order s (clk 0) x g)"
    and "match_order e cfg clk x an pair (ins_order x s) = Inr (s', ts)"
  shows "ts = []"
proof -
  let ?s = "ins_order x s"
  have frame: "users ?s = users s" "organizations ?s = organizations s" by (simp_all add: ins_order_def)
  have "o_provenance x = REAL"
    using assms(1) by (auto simp: assess_locked_order_def Let_def split: if_splits)
  then have cp: "demo_counterparty x pair = Some None" by (simp add: demo_counterparty_def)
  have idle: "\<not> order_expired (clk 0) c \<and> \<not> crossing_admitted x None ?s c" if "c \<in> set (crossing_orders (clk 0) x ?s)" for c
  proof -
    from crossing_members [OF that] have c: "c \<in> set (orders ?s)" "match_filters (clk 0) x ?s c" by simp_all
    then have "c \<noteq> x" by (auto simp: match_filters_def)
    with c have "c \<in> set (orders s)" by (auto simp: order_tab.rows_ins)
    moreover have "post_only_filters (clk 0) x s c"
      using c(2) \<open>o_provenance x = REAL\<close> by (simp add: match_filters_def post_only_filters_def frame)
    ultimately have "\<not> executable_crossing s x c" by (rule assess_passes(1) [OF assms(1)])
    then have "\<not> crossing_admitted x None ?s c"
      by (auto simp: crossing_admitted_def owners_admitted_def executable_crossing_def frame
          order_owner_is_execution_eligible_def execution_party_is_eligible_def split: option.splits)
    moreover have "\<not> order_expired (clk 0) c" using c(2) by (auto simp: match_filters_def order_expired_def split: option.splits)
    ultimately show ?thesis by simp
  qed
  let ?m = "\<lparr>ms_db = ?s, ms_new = x, ms_fees = [], ms_trades = [], ms_pending = []\<rparr>"
  have "match_loop cfg clk an None (crossing_orders (clk 0) x ?s) ?m = Inr ?m"
    using idle by (intro match_loop_idle) simp
  then show ?thesis
    using assms(2) by (auto simp: match_order_def cp Let_def split: if_splits)
qed

theorem post_only_order_rests_witness:
  "\<exists>s'. \<not> would_cross (assess_locked_order (ex_db\<lparr>orders := [ex_ask]\<rparr>) 1000 (ex_bid\<lparr>o_price_per_mt_usd := 850\<rparr>) (ex_org 42 ''Buyer'')) \<and>
    match_order ex_env ex_cfg (\<lambda>_. 1000) (ex_bid\<lparr>o_price_per_mt_usd := 850\<rparr>) True None
      (ins_order (ex_bid\<lparr>o_price_per_mt_usd := 850\<rparr>) (ex_db\<lparr>orders := [ex_ask]\<rparr>)) = Inr (s', [])"
proof -
  define x where "x = ex_bid\<lparr>o_price_per_mt_usd := 850\<rparr>"
  define s where "s = ex_db\<lparr>orders := [ex_ask]\<rparr>"
  have x: "o_side x = BID" "o_price_per_mt_usd x = 850" "o_remaining_quantity_mt x = 300" "o_provenance x = REAL"
    "o_organization_id x = 42" "o_expires_at x = None" "order_slice x = (BID, p_id ex_product, Some (d_id ex_point), ''SPOT'')"
    by (simp_all add: x_def order_slice_def)
  have q: "order_is_execution_qualified x"
    by (simp add: x_def order_is_execution_qualified_def ex_metadata_def)
  have f: "filter (post_only_filters now x s) (orders s) = []" "filter (match_filters now x (ins_order x s)) (orders (ins_order x s)) = []" for now
    by (simp_all add: s_def post_only_filters_def match_filters_def price_crosses_def x ins_order_def opposite_def)
  have a: "\<not> would_cross (assess_locked_order s 1000 x (ex_org 42 ''Buyer''))"
    using f(1) [of 1000] by (simp add: assess_locked_order_def q x Let_def filter_empty_conv)
  have "acquire_market_slice_lock ex_env (order_slice x) = Inr ()"
    using ex_slice_lock [OF canonical_SPOT] by (simp add: x SPOT_WINDOW_def)
  then have "\<exists>s' ts. match_order ex_env ex_cfg (\<lambda>_. 1000) x True None (ins_order x s) = Inr (s', ts)"
    using f(2) [of 1000] by (simp add: match_order_def x q order_expired_def demo_counterparty_def candidate_rows_def)
  then obtain s' ts where m: "match_order ex_env ex_cfg (\<lambda>_. 1000) x True None (ins_order x s) = Inr (s', ts)" by blast
  from post_only_order_rests [OF a m] a m show ?thesis unfolding x_def s_def by auto
qed

end
