(* ===== verification/Order_Create.thy ===== *)
theory Order_Create
  imports Order_Amend Post_Only
begin

section \<open>Placing an order\<close>

text \<open>
  \<open>create_order\<close> of \<^verbatim>\<open>src/app/routers/orderbook.py\<close> with the request schemas \<open>OrderCreate\<close> and
  \<open>MarketSupportFinalConfirmation\<close>. A supplier or a buyer places an order for the own organization; an
  administrator inside a Market Support context places one for the supported organization, which is
  accepted only when it would rest, and is recorded with a consumed authorization.

  \<open>clk 0\<close> is the transaction's \<open>now()\<close>; the later readings are: 1 the schema, 2 and 3 the party, 4 to 6 the
  lock of the context, 7 the expiry recheck, 8 the support checks, 9 the post-only assessment, 10
  the consumption of the authorization, 11 the creation time, 12 and later the matching engine.
  \<open>today\<close> is the year and month of the server's local date. Parameters stand for code outside the repository: \<open>dump\<close> and \<open>cdump\<close>
  are pydantic's JSON dumps of the request without and of the confirmation, and \<open>vessel_exists\<close> is the
  foreign key to the vessels table.

  A failed request leaves the market tables unchanged. The acceptance sequence is the exception
  in the database, where drawn ordinals stay drawn; they are only ever compared with each other.
\<close>

subsection \<open>The request\<close>

record MarketSupportFinalConfirmation =
  sc_external_instruction_reference :: string
  sc_instruction_at :: "time \<times> bool"
  sc_evidence_excerpt :: "string option"
  sc_acknowledge_exact_terms :: bool
  sc_acknowledge_executable_standing_order :: bool

record OrderCreate =
  oc_side :: OrderSide
  oc_product_id :: uuid
  oc_delivery_point_id :: uuid
  oc_port_id :: "string option"
  oc_vessel_id :: "uuid option"
  oc_quantity_mt :: pydecimal
  oc_price_per_mt_usd :: pydecimal
  oc_availability_window :: string
  oc_certifications :: "string list"
  oc_certification_declared :: bool
  oc_certification_scheme :: "string option"
  oc_specification_standard :: "string option"
  oc_msds_available :: bool
  oc_carbon_intensity_gco2_mj :: "pydecimal option"
  oc_carbon_intensity_method :: "string option"
  oc_feedstock :: "string option"
  oc_origin :: "string option"
  oc_off_spec :: bool
  oc_off_spec_notes :: "string option"
  oc_expires_at :: "(time \<times> bool) option"
  oc_is_anonymous :: bool
  oc_support_confirmation :: "MarketSupportFinalConfirmation option"
  oc_fields_set :: "string list"

definition strip_or_none :: "string option \<Rightarrow> string option" where
  "strip_or_none v = (case v of None \<Rightarrow> None | Some x \<Rightarrow> if py_strip x = [] then None else Some (py_strip x))"

definition confirmation_schema :: "time \<Rightarrow> MarketSupportFinalConfirmation \<Rightarrow> MarketSupportFinalConfirmation result" where
  "confirmation_schema now c =
     (let r = sc_external_instruction_reference c in
      if length r < 3 \<or> 500 < length r \<or> py_strip r = []
         \<or> \<not> pred_opt (\<lambda>x. length x \<le> 4000) (sc_evidence_excerpt c)
         \<or> \<not> snd (sc_instruction_at c) \<or> fst (sc_instruction_at c) > now
         \<or> \<not> sc_acknowledge_exact_terms c \<or> \<not> sc_acknowledge_executable_standing_order c
      then Inl (HTTPException 422 ''OrderCreate'')
      else Inr (c\<lparr>sc_external_instruction_reference := py_strip r,
                sc_evidence_excerpt := strip_or_none (sc_evidence_excerpt c)\<rparr>))"

text \<open>The stripped certifications, without blanks, each once in the order of first occurrence.\<close>

definition normalize_certifications :: "string list \<Rightarrow> string list" where
  "normalize_certifications xs = rev (remdups (rev (filter (\<lambda>x. x \<noteq> []) (map py_strip xs))))"

definition order_create_schema :: "time \<Rightarrow> OrderCreate \<Rightarrow> OrderCreate result" where
  "order_create_schema now d =
     bindR (refuse (\<not> (valid_amount 100000 (oc_quantity_mt d) \<and> valid_amount 1000000 (oc_price_per_mt_usd d)
              \<and> pred_opt (\<lambda>x. length x \<le> 120) (oc_specification_standard d)
              \<and> pred_opt (\<lambda>x. length x \<le> 120) (oc_carbon_intensity_method d)
              \<and> pred_opt (\<lambda>v. case v of Finite c e \<Rightarrow> 0 \<le> c | _ \<Rightarrow> False) (oc_carbon_intensity_gco2_mj d)
              \<and> pred_opt (\<lambda>v. snd v) (oc_expires_at d) \<and> oc_is_anonymous d))
       (HTTPException 422 ''OrderCreate'')) (\<lambda>_.
     bindR (case normalize_availability_window (oc_availability_window d) of
              Inl _ \<Rightarrow> Inl (HTTPException 422 ''OrderCreate'') | Inr w \<Rightarrow> Inr w) (\<lambda>w.
     bindR (case oc_support_confirmation d of None \<Rightarrow> Inr None
            | Some c \<Rightarrow> bindR (confirmation_schema now c) (\<lambda>c1. Inr (Some c1))) (\<lambda>conf.
     Inr (d\<lparr>oc_availability_window := w, oc_certifications := normalize_certifications (oc_certifications d),
           oc_certification_scheme := strip_or_none (oc_certification_scheme d), oc_support_confirmation := conf\<rparr>))))"

definition ASK_ONLY_METADATA_FIELDS :: "string list" where
  "ASK_ONLY_METADATA_FIELDS = [''certification_declared'', ''specification_standard'', ''msds_available'',
     ''carbon_intensity_gco2_mj'', ''carbon_intensity_method'', ''feedstock'', ''origin'', ''off_spec'', ''off_spec_notes'']"

subsection \<open>Replays\<close>

definition authorization_of :: "uuid \<Rightarrow> support_db \<Rightarrow> MarketSupportAuthorization option" where
  "authorization_of k sd = row_by az_id k (authorizations sd)"

definition replay_belongs_to_party :: "support_db \<Rightarrow> order \<Rightarrow> RequestParty \<Rightarrow> bool" where
  "replay_belongs_to_party sd ord party =
     (let support = (rp_mode party = MODE_MARKET_SUPPORT); principal = u_id (rp_accountable_principal party) in
      o_creation_method ord = rp_creation_method party
      \<and> (case o_owner_user_id ord of Some u \<Rightarrow> u = principal | None \<Rightarrow> \<not> support)
      \<and> (case o_created_by_actor_user_id ord of Some u \<Rightarrow> u = u_id (rp_actor party) | None \<Rightarrow> True)
      \<and> (support \<longrightarrow>
           (case Option.bind (o_support_authorization_id ord) (\<lambda>k. authorization_of k sd) of None \<Rightarrow> False
            | Some a \<Rightarrow> az_accountable_user_id a = principal
                \<and> az_market_support_context_id a = rp_support_context_id party)))"

definition load_valid_order_create_replay ::
  "market_db \<Rightarrow> support_db \<Rightarrow> uuid \<Rightarrow> string \<Rightarrow> string \<Rightarrow> RequestParty \<Rightarrow> order option result" where
  "load_valid_order_create_replay s sd g key request_hash party =
     (case find (\<lambda>x. o_organization_id x = g \<and> idempotency_operation (o_idempotency x) = Some ''order.create''
                  \<and> idempotency_key (o_idempotency x) = Some key) (orders s) of
        None \<Rightarrow> Inr None
      | Some x \<Rightarrow>
          if idempotency_request_hash (o_idempotency x) \<noteq> Some request_hash
          then Inl (HTTPException 409 ''Idempotency-Key was reused with a different request'')
          else if \<not> replay_belongs_to_party sd x party
          then Inl (HTTPException 409 ''Idempotency-Key is bound to another request party'')
          else Inr (Some x))"

subsection \<open>Guards before the locks\<close>

definition create_admission :: "market_db \<Rightarrow> user \<Rightarrow> RequestParty \<Rightarrow> OrderCreate \<Rightarrow> uuid result" where
  "create_admission pv cur party d =
     bindR (if rp_mode party = MODE_SELF_SERVICE
            then bindR (refuse (oc_support_confirmation d \<noteq> None)
                          (HTTPException 400 ''Assisted-order confirmation requires an active assisted workspace'')) (\<lambda>_.
                 bindR (require_execution_eligible_user pv cur) (\<lambda>_. Inr ()))
            else refuse (oc_support_confirmation d = None)
                   (HTTPException 400 ''Final assisted-order confirmation is required'')) (\<lambda>_.
     case effective_organization_id (Some party) cur of
       None \<Rightarrow> Inl (HTTPException 400 ''User must belong to an organization'')
     | Some g \<Rightarrow> Inr g)"

definition create_idempotency ::
  "env \<Rightarrow> (OrderCreate \<Rightarrow> json) \<Rightarrow> (MarketSupportFinalConfirmation \<Rightarrow> json) \<Rightarrow> http_request \<Rightarrow> market_db \<Rightarrow> support_db
     \<Rightarrow> RequestParty \<Rightarrow> uuid \<Rightarrow> OrderCreate \<Rightarrow> ((string \<times> string) option \<times> order option) result" where
  "create_idempotency e dump cdump rq pv sd party g d =
     (if \<not> truthy_header (rq_idempotency rq)
      then bindR (refuse (rp_mode party = MODE_MARKET_SUPPORT)
                    (HTTPException 400 ''Assisted orders require Idempotency-Key'')) (\<lambda>_. Inr (None, None))
      else
        bindR (normalize_idempotency_key (or_empty (rq_idempotency rq))) (\<lambda>key.
        let request_hash = idempotency_payload_hash e
              (if rp_mode party = MODE_MARKET_SUPPORT
               then JObj ([(''order'', dump d)]
                      @ (case oc_support_confirmation d of None \<Rightarrow> [] | Some c \<Rightarrow> [(''support_confirmation'', cdump c)]))
               else dump d) in
        bindR (acquire_idempotency_lock e g ''order.create'' key) (\<lambda>_.
        bindR (load_valid_order_create_replay pv sd g key request_hash party) (\<lambda>existing.
        Inr (Some (key, request_hash), existing)))))"

definition create_guards :: "nat \<times> nat \<Rightarrow> RequestParty \<Rightarrow> OrderCreate \<Rightarrow> market_db \<Rightarrow> product result" where
  "create_guards today party d pv =
     (let self = (rp_mode party = MODE_SELF_SERVICE) in
      bindR (refuse (self \<and> oc_side d = BID \<and> rp_effective_role party \<noteq> Some BUYER)
               (HTTPException 403 ''Only buyers can place BID orders'')) (\<lambda>_.
      bindR (refuse (self \<and> oc_side d = ASK \<and> rp_effective_role party \<noteq> Some SUPPLIER)
               (HTTPException 403 ''Only suppliers can place ASK orders'')) (\<lambda>_.
      bindR (is_tradable_availability_window (oc_availability_window d) (fst today) (snd today) FORWARD_QUARTER_COUNT) (\<lambda>tradable.
      bindR (refuse (\<not> tradable) (HTTPException 400 ''Availability window is no longer open for new orders'')) (\<lambda>_.
      bindR (if oc_side d \<noteq> ASK
             then (let supplied = filter (\<lambda>f. f \<in> set (oc_fields_set d)) ASK_ONLY_METADATA_FIELDS in
                   refuse (supplied \<noteq> [])
                     (HTTPException 400 (''Supplier metadata is only allowed for ASK orders: '' @ join_names (sort supplied))))
             else bindR (require_supplier_certification (oc_certification_declared d)
                           (normalize_certification_scheme (oc_certification_scheme d))) (\<lambda>_.
                  require_supplier_metadata (oc_specification_standard d) (oc_msds_available d)
                    (oc_carbon_intensity_gco2_mj d \<noteq> None) (oc_feedstock d) (oc_origin d) (oc_product_id d)
                    (oc_carbon_intensity_method d))) (\<lambda>_.
      case product_of (oc_product_id d) pv of
        None \<Rightarrow> Inl (HTTPException 400 ''Invalid product_id'')
      | Some pr \<Rightarrow>
          bindR (refuse (\<not> p_is_active pr \<or> canonical_market_product_expression pr = None)
                   (HTTPException 400 ''Invalid product_id'')) (\<lambda>_.
          bindR (refuse (case delivery_point_of (oc_delivery_point_id d) pv of None \<Rightarrow> True
                         | Some dp \<Rightarrow> \<not> canonical_delivery_point_clause dp)
                   (HTTPException 400 ''Invalid delivery_point_id'')) (\<lambda>_.
          Inr pr))))))))"

subsection \<open>The row and the authorization\<close>

text \<open>A bid keeps the normalized scheme only; an ask keeps every metadata field as submitted, the scheme included.\<close>

definition entry_metadata :: "OrderCreate \<Rightarrow> supplier_metadata" where
  "entry_metadata d =
     (if oc_side d = ASK
      then \<lparr>certification_declared = oc_certification_declared d, certification_scheme = oc_certification_scheme d,
            specification_standard = oc_specification_standard d, msds_available = oc_msds_available d,
            carbon_intensity_gco2_mj = map_option pydec_val (oc_carbon_intensity_gco2_mj d),
            carbon_intensity_method = oc_carbon_intensity_method d, energy_density_mj_kg = None,
            feedstock = oc_feedstock d, origin = oc_origin d, off_spec = oc_off_spec d, off_spec_notes = oc_off_spec_notes d\<rparr>
      else \<lparr>certification_declared = False, certification_scheme = normalize_certification_scheme (oc_certification_scheme d),
            specification_standard = None, msds_available = False, carbon_intensity_gco2_mj = None,
            carbon_intensity_method = None, energy_density_mj_kg = None, feedstock = None, origin = None,
            off_spec = False, off_spec_notes = None\<rparr>)"

definition new_order_row ::
  "uuid \<Rightarrow> int \<Rightarrow> time \<Rightarrow> RequestParty \<Rightarrow> organization \<Rightarrow> OrderCreate \<Rightarrow> (string \<times> string) option \<Rightarrow> order" where
  "new_order_row k ordinal created party g d idem =
     \<lparr>o_id = k, o_acceptance_ordinal = ordinal, o_organization_id = g_id g,
      o_owner_user_id = Some (u_id (rp_accountable_principal party)),
      o_created_by_actor_user_id = Some (u_id (rp_actor party)), o_creation_method = rp_creation_method party,
      o_support_authorization_id = None, o_version = 1, o_inventory_item_id = None,
      o_provenance = snapshot_organization_provenance (Some g), o_side = oc_side d, o_product_id = oc_product_id d,
      o_delivery_point_id = Some (oc_delivery_point_id d), o_port_id = oc_port_id d, o_vessel_id = oc_vessel_id d,
      o_quantity_mt = pydec_val (oc_quantity_mt d), o_remaining_quantity_mt = pydec_val (oc_quantity_mt d),
      o_price_per_mt_usd = pydec_val (oc_price_per_mt_usd d), o_availability_window = oc_availability_window d,
      o_delivery_window_start = None, o_delivery_window_end = None, o_certifications = oc_certifications d,
      o_metadata = entry_metadata d, o_is_verdaxis_verified = False, o_status = OPEN,
      o_expires_at = map_option fst (oc_expires_at d),
      o_idempotency = (case idem of None \<Rightarrow> no_idempotency
        | Some (key, h) \<Rightarrow> \<lparr>idempotency_key = Some key, idempotency_operation = Some ''order.create'',
            idempotency_request_hash = Some h\<rparr>),
      o_created_at = created\<rparr>"

definition side_value :: "OrderSide \<Rightarrow> string" where
  "side_value sd = (case sd of BID \<Rightarrow> ''BID'' | ASK \<Rightarrow> ''ASK'')"

text \<open>\<open>authorization_terms_digest\<close>: the canonical text of the request without its confirmation.\<close>

definition authorization_terms :: "OrderCreate \<Rightarrow> json" where
  "authorization_terms d = JObj [
     (''certification_declared'', JBool (oc_certification_declared d)),
     (''certification_scheme'', opt_json JStr (oc_certification_scheme d)),
     (''specification_standard'', opt_json JStr (oc_specification_standard d)),
     (''msds_available'', JBool (oc_msds_available d)),
     (''carbon_intensity_gco2_mj'', opt_json (JStr \<circ> plain_decimal) (oc_carbon_intensity_gco2_mj d)),
     (''carbon_intensity_method'', opt_json JStr (oc_carbon_intensity_method d)),
     (''feedstock'', opt_json JStr (oc_feedstock d)), (''origin'', opt_json JStr (oc_origin d)),
     (''off_spec'', JBool (oc_off_spec d)), (''off_spec_notes'', opt_json JStr (oc_off_spec_notes d)),
     (''side'', JStr (side_value (oc_side d))), (''product_id'', JStr (uuid_str (oc_product_id d))),
     (''delivery_point_id'', JStr (uuid_str (oc_delivery_point_id d))),
     (''port_id'', opt_json JStr (oc_port_id d)), (''vessel_id'', opt_json (JStr \<circ> uuid_str) (oc_vessel_id d)),
     (''quantity_mt'', JStr (plain_decimal (oc_quantity_mt d))),
     (''price_per_mt_usd'', JStr (plain_decimal (oc_price_per_mt_usd d))),
     (''availability_window'', JStr (oc_availability_window d)),
     (''certifications'', JArr (map JStr (oc_certifications d))),
     (''expires_at'', opt_json (\<lambda>v. JStr (utc_iso (fst v))) (oc_expires_at d)),
     (''is_anonymous'', JBool (oc_is_anonymous d))]"

definition authorization_terms_digest :: "env \<Rightarrow> OrderCreate \<Rightarrow> string" where
  "authorization_terms_digest e d = sha256_hex e (json_dumps True (authorization_terms d))"

definition authorization_row ::
  "env \<Rightarrow> order_settings \<Rightarrow> uuid \<Rightarrow> time \<Rightarrow> RequestParty \<Rightarrow> MarketSupportContext \<Rightarrow> OrderCreate \<Rightarrow> MarketSupportFinalConfirmation
     \<Rightarrow> string \<times> string \<Rightarrow> order \<Rightarrow> MarketSupportAuthorization" where
  "authorization_row e fl k now party ctx d conf idem new =
     \<lparr>az_id = k, az_organization_id = o_organization_id new,
      az_accountable_user_id = u_id (rp_accountable_principal party),
      az_market_support_context_id = rp_support_context_id party, az_status = AUTH_CONSUMED,
      az_product_id = o_product_id new, az_delivery_point_id = oc_delivery_point_id d,
      az_availability_window = o_availability_window new, az_quantity_mt = o_quantity_mt new,
      az_price_per_mt_usd = o_price_per_mt_usd new, az_order_side = o_side new,
      az_authorization_expires_at = (case oc_expires_at d of None \<Rightarrow> x_expires_at ctx
         | Some (t, _) \<Rightarrow> min (x_expires_at ctx) t),
      az_order_expires_at = map_option fst (oc_expires_at d), az_is_anonymous = oc_is_anonymous d,
      az_certifications = oc_certifications d,
      az_metadata = \<lparr>certification_declared = oc_certification_declared d,
         certification_scheme = normalize_certification_scheme (oc_certification_scheme d),
         specification_standard = oc_specification_standard d, msds_available = oc_msds_available d,
         carbon_intensity_gco2_mj = map_option pydec_val (oc_carbon_intensity_gco2_mj d),
         carbon_intensity_method = oc_carbon_intensity_method d, energy_density_mj_kg = None,
         feedstock = oc_feedstock d, origin = oc_origin d, off_spec = oc_off_spec d, off_spec_notes = oc_off_spec_notes d\<rparr>,
      az_terms_digest = authorization_terms_digest e d,
      az_evidence_reference = sc_external_instruction_reference conf,
      az_evidence_sha256 = map_option (sha256_hex e) (sc_evidence_excerpt conf),
      az_commercial_consent_version = MARKET_SUPPORT_CONSENT_VERSION fl,
      az_commercial_consent_reference = MARKET_SUPPORT_CONSENT_REFERENCE fl,
      az_support_case_reference = rp_support_reference party,
      az_instruction_at = Some (fst (sc_instruction_at conf)),
      az_acknowledge_exact_terms = Some (sc_acknowledge_exact_terms conf),
      az_acknowledge_executable_standing_order = Some (sc_acknowledge_executable_standing_order conf),
      az_idempotency_key = fst idem, az_idempotency_request_hash = snd idem,
      az_created_by_actor_user_id = u_id (rp_actor party), az_consumed_at = Some now\<rparr>"

text \<open>
  The support branch: the checks on the instruction, the post-only assessment under the slice
  lock, and the authorization row, whose insert the unique key of organization and
  idempotency key may refuse. Outside support the order goes on as it is.
\<close>

definition authorize_support ::
  "env \<Rightarrow> order_settings \<Rightarrow> (nat \<Rightarrow> time) \<Rightarrow> RequestParty \<Rightarrow> organization \<Rightarrow> OrderCreate \<Rightarrow> (string \<times> string) option \<Rightarrow> order
     \<Rightarrow> market_db \<Rightarrow> support_db \<Rightarrow> (order \<times> market_db \<times> support_db) result" where
  "authorize_support e fl clk party g d idem new s sd =
     (if rp_mode party \<noteq> MODE_MARKET_SUPPORT then Inr (new, s, sd)
      else case oc_support_confirmation d of None \<Rightarrow> Inl (HTTPException 400 ''Assisted orders require final confirmation'')
      | Some conf \<Rightarrow>
          bindR (refuse (oc_port_id d \<noteq> None \<or> oc_vessel_id d \<noteq> None)
                   (HTTPException 400 ''Assisted orders use the canonical delivery point only'')) (\<lambda>_.
          bindR (refuse (fst (sc_instruction_at conf) > clk 8)
                   (HTTPException 400 ''MARKET_SUPPORT_INSTRUCTION_TIME_INVALID: Instruction time cannot be in the future'')) (\<lambda>_.
          bindR (refuse (case oc_expires_at d of None \<Rightarrow> False | Some (t, _) \<Rightarrow> t \<le> fst (sc_instruction_at conf))
                   (HTTPException 400 ''Order expiry must follow the instruction time'')) (\<lambda>_.
          case Option.bind (rp_support_context_id party) (\<lambda>k. context_of k sd) of None \<Rightarrow> Inl (RuntimeError ''NoResultFound'')
          | Some ctx \<Rightarrow>
          let a = assess_locked_order s (clk 9) new g in
          bindR (refuse (indeterminate a)
                   (HTTPException 409 ''POST_ONLY_CHECK_INDETERMINATE: The complete crossing set could not be assessed; retry later'')) (\<lambda>_.
          bindR (refuse (would_cross a)
                   (HTTPException 409 ''POST_ONLY_WOULD_CROSS: Assisted order entry is post-only and must rest without immediate execution'')) (\<lambda>_.
          case idem of None \<Rightarrow> Inl IntegrityError
          | Some i \<Rightarrow>
          let az = authorization_row e fl (o_id new + 1) (clk 10) party ctx d conf i new in
          bindR (refuse (\<not> columns_fit new) (DBAPIError ''22001'')) (\<lambda>_.
          bindR (refuse (list_ex (\<lambda>b. az_organization_id b = az_organization_id az \<and> az_idempotency_key b = az_idempotency_key az)
                           (authorizations sd)) IntegrityError) (\<lambda>_.
          Inr (new\<lparr>o_support_authorization_id := Some (az_id az)\<rparr>,
               record_audit (Some (u_id (rp_actor party))) ''market_support.authorization_created'' ''market_support_authorization'' (az_id az) s,
               sd\<lparr>authorizations := authorizations sd @ [az]\<rparr>)))))))))"

subsection \<open>Inserting and matching\<close>

definition insert_conflict :: "(uuid \<Rightarrow> bool) \<Rightarrow> market_db \<Rightarrow> order \<Rightarrow> bool" where
  "insert_conflict vessel_exists s new \<longleftrightarrow>
     \<not> (ORDER_DOMAIN new \<and> ORDER_NUMERIC_VALUES new \<and> ORDER_LIFECYCLE new \<and> 1 \<le> o_version new)
     \<or> \<not> pred_opt vessel_exists (o_vessel_id new)
     \<or> list_ex (\<lambda>x. o_acceptance_ordinal x = o_acceptance_ordinal new
          \<or> idempotency_key (o_idempotency new) \<noteq> None \<and> o_organization_id x = o_organization_id new
            \<and> idempotency_operation (o_idempotency x) = idempotency_operation (o_idempotency new)
            \<and> idempotency_key (o_idempotency x) = idempotency_key (o_idempotency new)) (orders s)"

text \<open>The row takes the next fresh identifier, an authorization the one after it.\<close>

definition place_order ::
  "env \<Rightarrow> Settings \<Rightarrow> order_settings \<Rightarrow> (nat \<Rightarrow> time) \<Rightarrow> RequestParty \<Rightarrow> order \<Rightarrow> market_db \<Rightarrow> (market_db \<times> order) result" where
  "place_order e cfg fl clk party new s =
     (let actor = Some (u_id (rp_actor party));
          s1 = record_audit actor ''order.created'' ''order'' (o_id new) (ins_order new (s\<lparr>next_id := next_id s + 2\<rparr>));
          s2 = (if rp_mode party = MODE_MARKET_SUPPORT
                then notify_org_users_batched [(o_organization_id new, ORDER_UPDATE, o_id new)] s1 else s1) in
      bindR (if AUTO_MATCHING_ENABLED fl \<and> rp_mode party = MODE_SELF_SERVICE
             then match_order e cfg (\<lambda>i. clk (i + 12)) new True None s2 else Inr (s2, [])) (\<lambda>(s3, ts).
      let z = get_or (order_of (o_id new) s3) new in
      bindR (collect_auto_match_side_effects z ts actor
               (project (EmitOrderCreated (o_id new)) (project (RebuildBenchmarks (o_id new)) s3))) (\<lambda>(s4, evs).
      bindR (participant_market_event ''order_created'' ''order'' (o_id new) (match_participants z ts)
               (public_order_is_visible s4 (clk 0) (o_id new) \<or> list_ex (\<lambda>t. public_trade_is_visible s4 (t_id t)) ts)) (\<lambda>ev.
      Inr (enqueue_market_events (evs @ [ev]) s4, z)))))"

subsection \<open>The handler\<close>

datatype placed = Placed order | AlreadyPlaced order

definition create_locked ::
  "env \<Rightarrow> Settings \<Rightarrow> order_settings \<Rightarrow> (uuid \<Rightarrow> bool) \<Rightarrow> (nat \<Rightarrow> time) \<Rightarrow> RequestParty \<Rightarrow> uuid \<Rightarrow> product \<Rightarrow> OrderCreate
     \<Rightarrow> (string \<times> string) option \<Rightarrow> market_db \<Rightarrow> support_db \<Rightarrow> (market_db \<times> placed \<times> support_db) result" where
  "create_locked e cfg fl vessel_exists clk party g pr d idem s sd =
     (let (n, s0) = next_order_acceptance_ordinal s in
      bindR (lock_and_load_market_organizations s0 [g]
               (if rp_mode party = MODE_MARKET_SUPPORT then []
                else [\<lparr>mo_user_id = u_id (rp_accountable_principal party), mo_organization_id = g\<rparr>]) True []) (\<lambda>orgs.
      case orgs g of None \<Rightarrow> Inl KeyError
      | Some org \<Rightarrow>
      bindR (require_minimum_order_quantity (oc_quantity_mt d) pr) (\<lambda>_.
      bindR (refuse (case oc_expires_at d of None \<Rightarrow> False | Some (t, _) \<Rightarrow> t \<le> clk 7)
               (HTTPException 400 ''Order expiry must be in the future'')) (\<lambda>_.
      bindR (authorize_support e fl clk party org d idem
               (new_order_row (next_id s0) n (clk 11) party org d idem) s0 sd) (\<lambda>(new, s1, sd1).
      bindR (refuse (\<not> columns_fit new) (DBAPIError ''22001'')) (\<lambda>_.
      if insert_conflict vessel_exists s1 new
      then (case idem of None \<Rightarrow> Inl IntegrityError
            | Some (key, h) \<Rightarrow>
                bindR (load_valid_order_create_replay s sd g key h party) (\<lambda>existing.
                case existing of None \<Rightarrow> Inl IntegrityError | Some x \<Rightarrow> Inr (s, AlreadyPlaced x, sd)))
      else bindR (place_order e cfg fl clk party new s1) (\<lambda>(s2, z). Inr (s2, Placed z, sd1))))))))"

definition create_order ::
  "env \<Rightarrow> (string \<Rightarrow> uuid option) \<Rightarrow> Settings \<Rightarrow> order_settings \<Rightarrow> (OrderCreate \<Rightarrow> json) \<Rightarrow> (MarketSupportFinalConfirmation \<Rightarrow> json)
     \<Rightarrow> (uuid \<Rightarrow> bool) \<Rightarrow> nat \<times> nat \<Rightarrow> (nat \<Rightarrow> time) \<Rightarrow> http_request \<Rightarrow> user \<Rightarrow> OrderCreate \<Rightarrow> market_db \<Rightarrow> market_db \<Rightarrow> support_db
     \<Rightarrow> (market_db \<times> placed) result \<times> support_db" where
  "create_order e up cfg fl dump cdump vessel_exists today clk rq cur raw pv s sd =
     (case order_create_schema (clk 1) raw of Inl err \<Rightarrow> (Inl err, sd)
      | Inr d \<Rightarrow>
      (case resolve_request_party up (MARKET_SUPPORT_ENABLED fl) (\<lambda>i. clk (i + 2)) (rq_context rq) pv sd cur of
         (Inl err, sd1) \<Rightarrow> (Inl err, sd1)
       | (Inr party, sd1) \<Rightarrow>
       (case bindR (create_admission pv cur party d) (\<lambda>g.
               bindR (create_idempotency e dump cdump rq pv sd1 party g d) (\<lambda>(idem, existing). Inr (g, idem, existing))) of
          Inl err \<Rightarrow> (Inl err, sd1)
        | Inr (g, idem, Some x) \<Rightarrow> (Inr (s, AlreadyPlaced x), sd1)
        | Inr (g, idem, None) \<Rightarrow>
        (case bindR (create_guards today party d pv) (\<lambda>pr.
                bindR (acquire_market_slice_lock e (oc_side d, oc_product_id d, Some (oc_delivery_point_id d), oc_availability_window d))
                  (\<lambda>_. Inr pr)) of
           Inl err \<Rightarrow> (Inl err, sd1)
         | Inr pr \<Rightarrow>
         (case lock_request_party_context (\<lambda>i. clk (i + 4)) sd1 party of
            (Inl err, sd2) \<Rightarrow> (Inl err, sd2)
          | (Inr _, sd2) \<Rightarrow>
          (case create_locked e cfg fl vessel_exists clk party g pr d idem s sd2 of
             Inl err \<Rightarrow> (Inl err, sd2)
           | Inr (s1, r, sd3) \<Rightarrow> (Inr (s1, r), sd3)))))))"

subsection \<open>Inserting keeps the ledgers\<close>

lemma order_insert:
  assumes inv: "market_inv_upto \<sigma> s" and id: "o_id x = next_id s" "next_id s < n"
    and row: "order_row_ok x" "o_remaining_quantity_mt x = o_quantity_mt x"
    and item: "\<And>k. o_inventory_item_id x = Some k \<Longrightarrow> k \<in> i_id ` set (inventory s)"
    and frame: "same_market s s1"
    and stock: "\<And>k. reserved_stock s1 k = reserved_stock s k + order_commitment k x" "\<And>k. 0 \<le> current_stock s1 k"
  shows "market_inv_upto \<sigma> (ins_order x (s1\<lparr>next_id := n\<rparr>))"
proof -
  note p = same_market_parts [OF frame]
  have inv1: "keys_ok s1" "refs_ok s1" "rows_ok s1" and f: "fills_ok s" and res: "reserves_upto \<sigma> s"
    using inv by (auto simp: market_inv_upto_def p)
  have eq: "orders s1 = orders s" "trades s1 = trades s" "next_id s1 = next_id s" using frame by (simp_all add: same_market_def)
  let ?s = "s1\<lparr>next_id := n\<rparr>"
  have fresh: "o_id x \<notin> o_id ` set (orders s1)"
    using inv1(1) id(1) by (auto simp: keys_ok_def eq)
  have "keys_ok (ins_order x ?s)"
    using inv1(1) id fresh by (auto simp: keys_ok_def ins_order_def eq)
  moreover have "refs_ok (ins_order x ?s)"
  proof (rule refs_ok_ins_order)
    show "refs_ok ?s" using inv1(2) by simp
    have "i_id ` set (inventory s1) = i_id ` set (inventory s)"
      using frame by (metis same_market_def list.set_map)
    then show "k \<in> i_id ` set (inventory ?s)" if "o_inventory_item_id x = Some k" for k using item [OF that] by simp
  qed
  moreover have "rows_ok (ins_order x ?s)" using rows_ok_ins(2) [of ?s x] inv1(3) row(1) by simp
  moreover have "fills_ok (ins_order x ?s)"
    unfolding fills_ok_def
  proof
    fix y assume "y \<in> set (orders (ins_order x ?s))"
    then consider "y = x" | "y \<in> set (orders s)" by (auto simp: order_tab.rows_ins eq)
    then show "order_filled (filled_quantity (ins_order x ?s) (o_id y)) y"
    proof cases
      case 1
      have "filled_quantity s1 (o_id x) = 0" by (rule filled_fresh [OF inv1(2) fresh])
      then show ?thesis using 1 row(2) by (simp add: order_filled_def)
    qed (use f in \<open>simp add: fills_ok_def p\<close>)
  qed
  moreover have "reserves_upto \<sigma> (ins_order x ?s)"
    using res stock committed_ins_order [of ?s x] inv1(2) fresh by (simp add: reserves_upto_def p)
  ultimately show ?thesis by (simp add: market_inv_upto_def)
qed

lemma valid_amount_pos: "valid_amount m v \<Longrightarrow> 0 < pydec_val v"
  by (auto simp: valid_amount_def dest: finite_decimal_Inr split: sum.splits)

lemma order_create_schema_amounts:
  assumes "order_create_schema now raw = Inr d"
  shows "0 < pydec_val (oc_quantity_mt d)"
  using assms by (auto simp: order_create_schema_def intro: valid_amount_pos split: option.splits sum.splits)

lemma new_order_row_fields [simp]:
  "o_id (new_order_row k n t p g d i) = k" "o_acceptance_ordinal (new_order_row k n t p g d i) = n"
  "o_inventory_item_id (new_order_row k n t p g d i) = None" "o_status (new_order_row k n t p g d i) = OPEN"
  "o_quantity_mt (new_order_row k n t p g d i) = pydec_val (oc_quantity_mt d)"
  "o_remaining_quantity_mt (new_order_row k n t p g d i) = pydec_val (oc_quantity_mt d)"
  "o_side (new_order_row k n t p g d i) = oc_side d" "o_organization_id (new_order_row k n t p g d i) = g_id g"
  "o_creation_method (new_order_row k n t p g d i) = rp_creation_method p"
  "o_product_id (new_order_row k n t p g d i) = oc_product_id d"
  by (simp_all add: new_order_row_def)

lemma authorize_support_cases:
  assumes "authorize_support e fl clk party g d idem new s sd = Inr (y, s1, sd1)"
  obtains (self) "rp_mode party \<noteq> MODE_MARKET_SUPPORT" "y = new" "s1 = s" "sd1 = sd"
  | (support) conf ctx i az where "rp_mode party = MODE_MARKET_SUPPORT" "oc_support_confirmation d = Some conf" "idem = Some i"
      "Option.bind (rp_support_context_id party) (\<lambda>k. context_of k sd) = Some ctx"
      "\<not> would_cross (assess_locked_order s (clk 9) new g)" "fst (sc_instruction_at conf) \<le> clk 8"
      "az = authorization_row e fl (o_id new + 1) (clk 10) party ctx d conf i new"
      "y = new\<lparr>o_support_authorization_id := Some (az_id az)\<rparr>" "sd1 = sd\<lparr>authorizations := authorizations sd @ [az]\<rparr>"
      "market_part s1 = market_part s"
proof (cases "rp_mode party = MODE_MARKET_SUPPORT")
  case False
  then show thesis using assms self by (simp add: authorize_support_def)
next
  case True
  note a = assms [unfolded authorize_support_def]
  from a True obtain conf where c: "oc_support_confirmation d = Some conf" by (auto split: option.splits)
  from a True obtain ctx where x: "Option.bind (rp_support_context_id party) (\<lambda>k. context_of k sd) = Some ctx"
    unfolding c by (auto split: option.splits)
  from a True obtain i where i: "idem = Some i" unfolding c x option.case by (auto simp: Let_def split: option.splits)
  show thesis
    using a True unfolding c x i option.case by (intro support [OF True c i x]) (auto simp: Let_def frame_simps)
qed

lemma place_order_cases:
  assumes "place_order e cfg fl clk party new s = Inr (s', z)"
  obtains s2 s3 ts where "market_part s2 = market_part (ins_order new (s\<lparr>next_id := next_id s + 2\<rparr>))"
    "if AUTO_MATCHING_ENABLED fl \<and> rp_mode party = MODE_SELF_SERVICE
     then match_order e cfg (\<lambda>i. clk (i + 12)) new True None s2 = Inr (s3, ts) else s3 = s2 \<and> ts = []"
    "market_part s' = market_part s3" "z = get_or (order_of (o_id new) s3) new"
proof -
  let ?s1 = "record_audit (Some (u_id (rp_actor party))) ''order.created'' ''order'' (o_id new) (ins_order new (s\<lparr>next_id := next_id s + 2\<rparr>))"
  define s2 where "s2 = (if rp_mode party = MODE_MARKET_SUPPORT
      then notify_org_users_batched [(o_organization_id new, ORDER_UPDATE, o_id new)] ?s1 else ?s1)"
  note r0 = assms [unfolded place_order_def Let_def, folded s2_def]
  from r0 obtain s3 ts where m: "(if AUTO_MATCHING_ENABLED fl \<and> rp_mode party = MODE_SELF_SERVICE
      then match_order e cfg (\<lambda>i. clk (i + 12)) new True None s2 else Inr (s2, [])) = Inr (s3, ts)"
    by (auto simp del: if_split)
  note r = r0 [unfolded m bindR_simps prod.case]
  from r obtain s4 evs ev where c: "collect_auto_match_side_effects (get_or (order_of (o_id new) s3) new) ts (Some (u_id (rp_actor party)))
      (project (EmitOrderCreated (o_id new)) (project (RebuildBenchmarks (o_id new)) s3)) = Inr (s4, evs)"
    "s' = enqueue_market_events (evs @ [ev]) s4" "z = get_or (order_of (o_id new) s3) new"
    by auto
  have "market_part s2 = market_part (ins_order new (s\<lparr>next_id := next_id s + 2\<rparr>))" by (simp add: s2_def frame_simps)
  moreover have "market_part s' = market_part s3" using side_effects_market [OF c(1)] by (simp add: c(2) frame_simps)
  ultimately show thesis using that m c(3) by (auto split: if_splits)
qed

lemma lock_own_load:
  "lock_and_load_market_organizations s [g] owns True [] = Inr orgs \<Longrightarrow> orgs k = (if k = g then organization_of g s else None)"
  by (auto simp: lock_and_load_market_organizations_def Let_def)

lemma create_locked_cases:
  assumes "create_locked e cfg fl ve clk party g pr d idem s sd = Inr (s', r, sd')"
  obtains (replay) x where "s' = s" "r = AlreadyPlaced x" "sd' = sd"
  | (placed) org new s1 z where "organization_of g s = Some org" "\<exists>q. require_minimum_order_quantity (oc_quantity_mt d) pr = Inr q"
      "authorize_support e fl clk party org d idem (new_order_row (next_id s) (next_ordinal s) (clk 11) party org d idem)
         (s\<lparr>next_ordinal := next_ordinal s + 1\<rparr>) sd = Inr (new, s1, sd')"
      "place_order e cfg fl clk party new s1 = Inr (s', z)" "r = Placed z" "\<not> insert_conflict ve s1 new"
      "\<And>t b. oc_expires_at d = Some (t, b) \<Longrightarrow> clk 7 < t"
proof -
  let ?s0 = "s\<lparr>next_ordinal := next_ordinal s + 1\<rparr>"
  note a = assms [unfolded create_locked_def next_order_acceptance_ordinal_def Let_def prod.case]
  from a obtain orgs where o: "lock_and_load_market_organizations ?s0 [g]
      (if rp_mode party = MODE_MARKET_SUPPORT then []
       else [\<lparr>mo_user_id = u_id (rp_accountable_principal party), mo_organization_id = g\<rparr>]) True [] = Inr orgs"
    by auto
  note a1 = a [unfolded o bindR_simps]
  from a1 obtain org where g: "orgs g = Some org" by (auto split: option.splits)
  note a2 = a1 [unfolded g option.case]
  from a2 obtain new s1 sd1 where auth: "authorize_support e fl clk party org d idem
      (new_order_row (next_id ?s0) (next_ordinal s) (clk 11) party org d idem) ?s0 sd = Inr (new, s1, sd1)"
    and lot: "\<exists>q. require_minimum_order_quantity (oc_quantity_mt d) pr = Inr q"
    and ex: "\<And>t b. oc_expires_at d = Some (t, b) \<Longrightarrow> clk 7 < t"
    by (auto simp: not_le split: option.splits)
  have org: "organization_of g s = Some org" using lock_own_load [OF o, of g] g by simp
  from a2 have "(if insert_conflict ve s1 new
      then (case idem of None \<Rightarrow> Inl IntegrityError
            | Some (key, h) \<Rightarrow> bindR (load_valid_order_create_replay s sd g key h party) (\<lambda>existing.
                case existing of None \<Rightarrow> Inl IntegrityError | Some x \<Rightarrow> Inr (s, AlreadyPlaced x, sd)))
      else bindR (place_order e cfg fl clk party new s1) (\<lambda>(s2, z). Inr (s2, Placed z, sd1))) = Inr (s', r, sd')"
    by (auto simp: auth [simplified])
  then show thesis
    using replay placed [OF org lot _ _ _ _ ex] auth by (cases "insert_conflict ve s1 new") (auto split: option.splits)
qed

lemma create_order_cases:
  assumes "create_order e up cfg fl dump cdump ve today clk rq cur raw pv s sd = (Inr (s', r), sd')"
  obtains (replay) x where "s' = s" "r = AlreadyPlaced x"
  | (run) d party sd1 g idem pr sd2 where "order_create_schema (clk 1) raw = Inr d"
      "resolve_request_party up (MARKET_SUPPORT_ENABLED fl) (\<lambda>i. clk (i + 2)) (rq_context rq) pv sd cur = (Inr party, sd1)"
      "create_admission pv cur party d = Inr g" "create_guards today party d pv = Inr pr"
      "lock_request_party_context (\<lambda>i. clk (i + 4)) sd1 party = (Inr (), sd2)"
      "create_locked e cfg fl ve clk party g pr d idem s sd2 = Inr (s', r, sd')"
proof -
  note a = assms [unfolded create_order_def]
  from a obtain d where d: "order_create_schema (clk 1) raw = Inr d" by (auto split: sum.splits)
  note a1 = a [unfolded d sum.case]
  from a1 obtain party sd1 where p: "resolve_request_party up (MARKET_SUPPORT_ENABLED fl) (\<lambda>i. clk (i + 2)) (rq_context rq) pv sd cur = (Inr party, sd1)"
    by (auto split: prod.splits sum.splits)
  note a2 = a1 [unfolded p prod.case sum.case]
  from a2 obtain g idem existing where g: "create_admission pv cur party d = Inr g"
    and i: "create_idempotency e dump cdump rq pv sd1 party g d = Inr (idem, existing)"
    by (auto split: sum.splits)
  note a3 = a2 [unfolded g i bindR_simps prod.case sum.case]
  show thesis
  proof (cases existing)
    case (Some x)
    then show thesis using a3 replay by auto
  next
    case None
    note a4 = a3 [unfolded None option.case]
    from a4 obtain pr where pr: "create_guards today party d pv = Inr pr"
      "acquire_market_slice_lock e (oc_side d, oc_product_id d, Some (oc_delivery_point_id d), oc_availability_window d) = Inr ()"
      by (auto split: sum.splits)
    note a5 = a4 [unfolded pr bindR_simps sum.case]
    from a5 obtain sd2 where l: "lock_request_party_context (\<lambda>i. clk (i + 4)) sd1 party = (Inr (), sd2)"
      by (auto split: prod.splits sum.splits)
    from a5 [unfolded l prod.case sum.case] show thesis
      using run [OF d p g pr(1) l, of idem] by (auto split: sum.splits)
  qed
qed

lemma market_part_same:
  "market_part s1 = market_part (s\<lparr>next_ordinal := n\<rparr>) \<Longrightarrow> same_market s s1"
  "market_part s1 = market_part (s\<lparr>next_ordinal := n\<rparr>) \<Longrightarrow> inventory s1 = inventory s"
  by (simp_all add: market_part_def same_market_def)

lemma placed_row:
  assumes "authorize_support e fl clk party org d idem (new_order_row k n c party org d idem) s sd = Inr (new, s1, sd1)"
  shows "\<exists>a. new = (new_order_row k n c party org d idem)\<lparr>o_support_authorization_id := a\<rparr>" "market_part s1 = market_part s"
  using assms
proof (atomize(full), cases rule: authorize_support_cases)
  case self
  then have "new = (new_order_row k n c party org d idem)\<lparr>o_support_authorization_id := None\<rparr>" by (simp add: new_order_row_def)
  then show "(\<exists>a. new = (new_order_row k n c party org d idem)\<lparr>o_support_authorization_id := a\<rparr>) \<and> market_part s1 = market_part s"
    using self by blast
next
  case (support conf ctx i az)
  then show "(\<exists>a. new = (new_order_row k n c party org d idem)\<lparr>o_support_authorization_id := a\<rparr>) \<and> market_part s1 = market_part s" by blast
qed

text \<open>The state right after the insert, and the row in it.\<close>

lemma inserted_inv:
  assumes inv: "market_inv_upto \<sigma> s" and q: "0 < pydec_val (oc_quantity_mt d)"
    and a: "authorize_support e fl clk party org d idem (new_order_row (next_id s) n c party org d idem) (s\<lparr>next_ordinal := m\<rparr>) sd = Inr (new, s1, sd1)"
    and p: "market_part s2 = market_part (ins_order new (s1\<lparr>next_id := next_id s1 + 2\<rparr>))"
  shows "market_inv_upto \<sigma> s2" "order_of (o_id new) s2 = Some new" "o_id new = next_id s" "live_status (o_status new)"
    "o_inventory_item_id new = None" "trades s2 = trades s" "\<And>k. k \<noteq> next_id s \<Longrightarrow> order_of k s2 = order_of k s"
proof -
  obtain z where new: "new = (new_order_row (next_id s) n c party org d idem)\<lparr>o_support_authorization_id := z\<rparr>"
    using placed_row(1) [OF a] by blast
  have f: "same_market s s1" "inventory s1 = inventory s" using market_part_same placed_row(2) [OF a] by blast+
  have nid: "next_id s1 = next_id s" "orders s1 = orders s" "trades s1 = trades s" using f(1) by (simp_all add: same_market_def)
  have st: "reserved_stock s1 = reserved_stock s" "current_stock s1 = current_stock s"
    by (simp_all add: fun_eq_iff reserved_stock_def current_stock_def f(2))
  have "market_inv_upto \<sigma> (ins_order new (s1\<lparr>next_id := next_id s1 + 2\<rparr>))"
    by (rule order_insert [OF inv _ _ _ _ _ f(1)])
      (use q inv in \<open>auto simp: new nid st order_row_ok_def ORDER_LIFECYCLE_def order_commitment_def market_inv_upto_def reserves_upto_def\<close>)
  then show "market_inv_upto \<sigma> s2" using market_inv_cong [OF market_part_eqD(1-3,10) [OF p]] by simp
  have o2: "orders s2 = orders s @ [new]" "trades s2 = trades s"
    using market_part_eqD(1,2) [OF p] by (simp_all add: ins_order_def nid)
  have "\<forall>x\<in>set (orders s). o_id x < next_id s" using inv by (simp add: market_inv_upto_def keys_ok_def)
  then have "order_of (next_id s) s = None" by (auto simp: row_by_None_iff)
  then show "order_of (o_id new) s2 = Some new" "o_id new = next_id s" "live_status (o_status new)"
    "o_inventory_item_id new = None" "trades s2 = trades s"
    by (simp_all add: o2 row_by_append new live_status_def)
  show "order_of k s2 = order_of k s" if "k \<noteq> next_id s" for k
    using that by (simp add: o2 row_by_append new split: option.splits)
qed

subsection \<open>What order entry guarantees\<close>

lemma self_service_party:
  assumes "resolve_request_party up en clk h pv sd cur = (Inr party, sd1)" "rp_mode party \<noteq> MODE_MARKET_SUPPORT"
  shows "rp_actor party = cur" "rp_accountable_principal party = cur" "rp_effective_role party = u_role cur"
    "rp_creation_method party = SELF_SERVICE" "rp_mode party = MODE_SELF_SERVICE"
    "effective_organization_id (Some party) cur = u_organization_id cur"
proof -
  have *: "rp_mode (party::RequestParty) = MODE_SELF_SERVICE" using assms(2) by (cases "rp_mode party") auto
  with assms(1) have r: "rp_actor party = cur \<and> rp_accountable_principal party = cur \<and> rp_effective_role party = u_role cur \<and>
      rp_creation_method party = SELF_SERVICE \<and>
      rp_effective_organization party = (case u_organization_id cur of None \<Rightarrow> None | Some k \<Rightarrow> organization_of k pv)"
    by (auto simp: resolve_request_party_def split: sum.splits option.splits if_splits)
  then have "effective_organization_id (Some party) cur = u_organization_id cur"
    by (auto simp: effective_organization_id_def dest: row_by_SomeD split: option.splits)
  with r * show "rp_actor party = cur" "rp_accountable_principal party = cur" "rp_effective_role party = u_role cur"
    "rp_creation_method party = SELF_SERVICE" "rp_mode party = MODE_SELF_SERVICE"
    "effective_organization_id (Some party) cur = u_organization_id cur" by simp_all
qed


text \<open>Everything a successful entry that is not a replay establishes.\<close>

lemma placed_order:
  assumes "market_inv_upto \<sigma> s" "create_order e up cfg fl dump cdump ve today clk rq cur raw pv s sd = (Inr (s', Placed z), sd')"
  obtains d party sd1 sd2 g org pr idem new s1 s2 s3 ts where
    "order_create_schema (clk 1) raw = Inr d"
    "resolve_request_party up (MARKET_SUPPORT_ENABLED fl) (\<lambda>i. clk (i + 2)) (rq_context rq) pv sd cur = (Inr party, sd1)"
    "create_admission pv cur party d = Inr g" "create_guards today party d pv = Inr pr"
    "lock_request_party_context (\<lambda>i. clk (i + 4)) sd1 party = (Inr (), sd2)"
    "organization_of g s = Some org" "\<exists>q. require_minimum_order_quantity (oc_quantity_mt d) pr = Inr q"
    "authorize_support e fl clk party org d idem (new_order_row (next_id s) (next_ordinal s) (clk 11) party org d idem)
       (s\<lparr>next_ordinal := next_ordinal s + 1\<rparr>) sd2 = Inr (new, s1, sd')"
    "market_inv_upto \<sigma> s2" "order_of (o_id new) s2 = Some new" "trades s2 = trades s"
    "if AUTO_MATCHING_ENABLED fl \<and> rp_mode party = MODE_SELF_SERVICE
     then match_order e cfg (\<lambda>i. clk (i + 12)) new True None s2 = Inr (s3, ts) else s3 = s2 \<and> ts = []"
    "market_part s' = market_part s3" "market_inv_upto \<sigma> s3" "order_of (next_id s) s' = Some z" "entry_of z = entry_of new" "o_id new = next_id s"
    "live_status (o_status new)"
  using assms(2)
proof (cases rule: create_order_cases)
  case (run d party sd1 g idem pr sd2)
  from run(6) show thesis
  proof (cases rule: create_locked_cases)
    case (placed org new s1 z0)
    then have z0: "z0 = z" by simp
    from placed(4) obtain s2 s3 ts where s2: "market_part s2 = market_part (ins_order new (s1\<lparr>next_id := next_id s1 + 2\<rparr>))"
      and m: "if AUTO_MATCHING_ENABLED fl \<and> rp_mode party = MODE_SELF_SERVICE
        then match_order e cfg (\<lambda>i. clk (i + 12)) new True None s2 = Inr (s3, ts) else s3 = s2 \<and> ts = []"
      and s3: "market_part s' = market_part s3" "z0 = get_or (order_of (o_id new) s3) new"
      by (rule place_order_cases)
    note i = inserted_inv [OF assms(1) order_create_schema_amounts [OF run(1)] placed(3) s2]
    have "market_inv_upto \<sigma> s3 \<and> (\<exists>z. order_of (o_id new) s3 = Some z \<and> entry_of z = entry_of new)"
    proof (cases "AUTO_MATCHING_ENABLED fl \<and> rp_mode party = MODE_SELF_SERVICE")
      case True
      with m have mt: "match_order e cfg (\<lambda>i. clk (i + 12)) new True None s2 = Inr (s3, ts)" by simp
      show ?thesis using match_order_inv [OF i(1,2,4) _ mt] match_order_entry [OF i(1,2) _ mt] i(4,5) by simp
    qed (use m i(1,2) in auto)
    moreover from this have "order_of (o_id new) s3 = Some z" "entry_of z = entry_of new"
      using s3(2) z0 by (auto simp: get_or_def)
    ultimately show thesis
      using that [OF run(1-5) placed(1-3) i(1,2,6) m s3(1)] i(3,4) market_part_eqD(1) [OF s3(1)] by simp
  qed simp
qed simp

lemma create_order_inv:
  assumes "market_inv_upto \<sigma> s" "create_order e up cfg fl dump cdump ve today clk rq cur raw pv s sd = (Inr (s', r), sd')"
  shows "market_inv_upto \<sigma> s'" "r = AlreadyPlaced x \<Longrightarrow> s' = s"
proof -
  show "r = AlreadyPlaced x \<Longrightarrow> s' = s"
    using assms(2) by (cases rule: create_order_cases) (auto elim: create_locked_cases)
  then show "market_inv_upto \<sigma> s'"
  proof (cases r)
    case (Placed z)
    then obtain s3 where "market_part s' = market_part s3" "market_inv_upto \<sigma> s3" using placed_order [OF assms(1)] assms(2) by metis
    then show ?thesis using market_inv_cong [OF market_part_eqD(1-3,10)] by metis
  qed (use assms in \<open>auto elim!: create_order_cases create_locked_cases\<close>)
qed





lemma lock_context_unchanged: "lock_request_party_context clk sd party = (Inr u, sd') \<Longrightarrow> sd' = sd"
  by (auto simp: lock_request_party_context_def split: option.splits sum.splits if_splits)

lemma support_actor:
  assumes "resolve_request_party up en clk h s sd cur = (Inr party, sd')"
  shows "rp_actor party = cur"
  using assms by (auto simp: resolve_request_party_def Let_def split: sum.splits option.splits if_splits)

lemma locked_context_live:
  assumes "lock_request_party_context clk sd party = (Inr u, sd')" "rp_mode party = MODE_MARKET_SUPPORT"
    "rp_support_context_id party = Some (x_id x)" "context_of (x_id x) sd = Some x" "x_actor_user_id x = u_id (rp_actor party)"
  shows "clk 1 < x_expires_at x"
proof -
  have "find (\<lambda>y. x_id y = x_id x \<and> x_actor_user_id y = u_id (rp_actor party)) xs = Some x" if "row_by x_id (x_id x) xs = Some x" for xs
    using that assms(5) by (induction xs) (auto split: if_splits)
  note this [OF assms(4)]
  then show ?thesis using assms(1-3) by (auto simp: lock_request_party_context_def not_le split: sum.splits if_splits)
qed

lemma ordinal_frame:
  "post_only_filters now x (s\<lparr>next_ordinal := n\<rparr>) c = post_only_filters now x s c"
  "executable_crossing (s\<lparr>next_ordinal := n\<rparr>) x c = executable_crossing s x c"
  by (simp_all add: post_only_filters_def executable_crossing_def order_owner_is_execution_eligible_def execution_party_is_eligible_def
      split: option.splits)

lemma support_id_frame:
  "post_only_filters now (x\<lparr>o_support_authorization_id := a\<rparr>) s c = post_only_filters now x s c"
  "executable_crossing s (x\<lparr>o_support_authorization_id := a\<rparr>) c = executable_crossing s x c"
proof -
  show "post_only_filters now (x\<lparr>o_support_authorization_id := a\<rparr>) s c = post_only_filters now x s c"
    by (simp add: post_only_filters_def price_crosses_def)
  have "orders_execution_compatible (x\<lparr>o_support_authorization_id := a\<rparr>) c = orders_execution_compatible x c"
    by (rule compatible_cong) simp_all
  then show "executable_crossing s (x\<lparr>o_support_authorization_id := a\<rparr>) c = executable_crossing s x c"
    by (simp add: executable_crossing_def split: option.splits)
qed

text \<open>C30: assisted order entry is post-only and authorized. An order placed by Market Support rests untouched: it makes no
  trade, and no standing order that would really fill against it crosses it. It is placed by the administrator who opened the context,
  which is active and has not expired when the order is placed, for the context's organization. It carries a consumed authorization
  that names its organization, product, delivery point, window, side, quantity, price, expiry and certifications, an ask's
  supplier metadata too (with the certification scheme in its normal form), and that never outlives the context or the order.\<close>

theorem assisted_order_rests:
  assumes "market_inv_upto \<sigma> s" "create_order e up cfg fl dump cdump ve today clk rq cur raw pv s sd = (Inr (s', Placed z), sd')"
    and "o_creation_method z = MARKET_SUPPORT"
  shows "trades s' = trades s \<and> o_status z = OPEN \<and> o_remaining_quantity_mt z = o_quantity_mt z \<and> u_role cur = Some ADMIN \<and>
    (\<forall>c\<in>set (orders s). post_only_filters (clk 9) z s c \<longrightarrow> \<not> executable_crossing s z c) \<and>
    (\<exists>az ctx. az \<in> set (authorizations sd') \<and> o_support_authorization_id z = Some (az_id az) \<and> az_status az = AUTH_CONSUMED \<and>
       az_organization_id az = o_organization_id z \<and> az_quantity_mt az = o_quantity_mt z \<and>
       az_price_per_mt_usd az = o_price_per_mt_usd z \<and> az_order_side az = o_side z \<and> az_product_id az = o_product_id z \<and>
       Some (az_delivery_point_id az) = o_delivery_point_id z \<and> az_availability_window az = o_availability_window z \<and>
       az_order_expires_at az = o_expires_at z \<and> az_certifications az = o_certifications z \<and>
       (o_side z = ASK \<longrightarrow> az_metadata az =
          (o_metadata z)\<lparr>certification_scheme := normalize_certification_scheme (certification_scheme (o_metadata z))\<rparr>) \<and>
       (o_side z = BID \<longrightarrow> certification_scheme (az_metadata az) = certification_scheme (o_metadata z)) \<and>
       az_market_support_context_id az = Some (x_id ctx) \<and> az_created_by_actor_user_id az = u_id cur \<and>
       context_of (x_id ctx) sd = Some ctx \<and> x_actor_user_id ctx = u_id cur \<and> x_status ctx = CTX_ACTIVE \<and> clk 5 < x_expires_at ctx \<and>
       x_organization_id ctx = o_organization_id z \<and> az_authorization_expires_at az \<le> x_expires_at ctx \<and>
       (case o_expires_at z of None \<Rightarrow> True | Some t \<Rightarrow> az_authorization_expires_at az \<le> t))"
proof -
  obtain d party sd1 sd2 g org pr idem new s1 s2 s3 ts where
    p: "resolve_request_party up (MARKET_SUPPORT_ENABLED fl) (\<lambda>i. clk (i + 2)) (rq_context rq) pv sd cur = (Inr party, sd1)"
    and g: "create_admission pv cur party d = Inr g" and l: "lock_request_party_context (\<lambda>i. clk (i + 4)) sd1 party = (Inr (), sd2)"
    and org: "organization_of g s = Some org"
    and a: "authorize_support e fl clk party org d idem (new_order_row (next_id s) (next_ordinal s) (clk 11) party org d idem)
       (s\<lparr>next_ordinal := next_ordinal s + 1\<rparr>) sd2 = Inr (new, s1, sd')"
    and s2: "order_of (o_id new) s2 = Some new" "trades s2 = trades s"
    and m: "if AUTO_MATCHING_ENABLED fl \<and> rp_mode party = MODE_SELF_SERVICE
     then match_order e cfg (\<lambda>i. clk (i + 12)) new True None s2 = Inr (s3, ts) else s3 = s2 \<and> ts = []"
    and s3: "market_part s' = market_part s3" and z: "order_of (next_id s) s' = Some z" "entry_of z = entry_of new" "o_id new = next_id s"
    by (rule placed_order [OF assms(1,2)])
  have "o_creation_method new = MARKET_SUPPORT"
    using z(2) assms(3) by (auto simp: entry_of_def dest: arg_cong [where f = o_creation_method])
  moreover have "o_creation_method new = rp_creation_method party" using placed_row(1) [OF a] by auto
  ultimately have sm: "rp_mode party = MODE_MARKET_SUPPORT" using self_service_party(4) [OF p] by fastforce
  obtain x gp where x: "context_of (x_id x) sd = Some x" "x_actor_user_id x = u_id cur" "x_status x = CTX_ACTIVE"
    "organization_of (x_organization_id x) pv = Some gp" "u_role cur = Some ADMIN"
    "rp_effective_organization party = Some gp" "rp_support_context_id party = Some (x_id x)" and sd1: "sd1 = sd"
    by (rule support_party_cases [OF p sm])
  have sd2: "sd2 = sd" using lock_context_unchanged [OF l] sd1 by simp
  note live = locked_context_live [OF l sm x(7) x(1) [folded sd1] x(2) [folded support_actor [OF p]]]
  have "s3 = s2" using m sm by simp
  then have zn: "z = new" and tr: "trades s' = trades s" using z(1,3) s2 market_part_eqD(1,2) [OF s3] by simp_all
  have gid: "g = x_organization_id x" "g_id org = g"
    using g x(4,6) row_by_SomeD [OF x(4)] row_by_SomeD [OF org] by (auto simp: create_admission_def effective_organization_id_def)
  from a show ?thesis
  proof (cases rule: authorize_support_cases)
    case (support conf ctx i az)
    have ctx: "ctx = x" using support(4) x(1,7) sd2 by simp
    have "\<not> executable_crossing s z c" if "c \<in> set (orders s)" "post_only_filters (clk 9) z s c" for c
      using assess_passes(1) [OF support(5), of c] that unfolding zn support(8) ordinal_frame support_id_frame by simp
    moreover have "az_authorization_expires_at az \<le> x_expires_at x \<and>
        (case o_expires_at z of None \<Rightarrow> True | Some t \<Rightarrow> az_authorization_expires_at az \<le> t)"
      by (auto simp: support(7,8) zn ctx authorization_row_def new_order_row_def split: option.splits prod.splits)
    moreover have "o_status z = OPEN" "o_remaining_quantity_mt z = o_quantity_mt z" "o_organization_id z = g"
      by (simp_all add: zn support(8) gid)
    moreover have "az \<in> set (authorizations sd')" "o_support_authorization_id z = Some (az_id az)" "az_status az = AUTH_CONSUMED"
      "az_organization_id az = o_organization_id z" "az_quantity_mt az = o_quantity_mt z"
      "az_price_per_mt_usd az = o_price_per_mt_usd z" "az_order_side az = o_side z" "az_product_id az = o_product_id z"
      "Some (az_delivery_point_id az) = o_delivery_point_id z" "az_availability_window az = o_availability_window z"
      "az_order_expires_at az = o_expires_at z" "az_certifications az = o_certifications z"
      by (simp_all add: zn support(8,9)) (simp_all add: support(7) authorization_row_def new_order_row_def)
    moreover have "o_side z = ASK \<longrightarrow> az_metadata az =
        (o_metadata z)\<lparr>certification_scheme := normalize_certification_scheme (certification_scheme (o_metadata z))\<rparr>"
      "o_side z = BID \<longrightarrow> certification_scheme (az_metadata az) = certification_scheme (o_metadata z)"
      by (simp_all add: zn support(7,8) authorization_row_def new_order_row_def entry_metadata_def)
    moreover have "az_market_support_context_id az = Some (x_id x)" "az_created_by_actor_user_id az = u_id cur"
      using x(7) support_actor [OF p] by (simp_all add: support(7) authorization_row_def)
    ultimately show ?thesis
      using tr x(1-3,5) gid live by (intro conjI ballI impI exI [of _ az] exI [of _ x]) simp_all
  qed (use sm in simp)
qed

subsection \<open>Examples\<close>

definition ex_entry :: "MarketSupportFinalConfirmation option \<Rightarrow> OrderCreate" where
  "ex_entry c = \<lparr>oc_side = BID, oc_product_id = p_id ex_product, oc_delivery_point_id = d_id ex_point, oc_port_id = None,
     oc_vessel_id = None, oc_quantity_mt = Finite 300 0, oc_price_per_mt_usd = Finite 850 0, oc_availability_window = ''SPOT'',
     oc_certifications = [], oc_certification_declared = False, oc_certification_scheme = None,
     oc_specification_standard = None, oc_msds_available = False, oc_carbon_intensity_gco2_mj = None,
     oc_carbon_intensity_method = None, oc_feedstock = None, oc_origin = None, oc_off_spec = False, oc_off_spec_notes = None,
     oc_expires_at = Some (5000, True), oc_is_anonymous = True, oc_support_confirmation = c, oc_fields_set = []\<rparr>"

definition ex_confirmation :: MarketSupportFinalConfirmation where
  "ex_confirmation = \<lparr>sc_external_instruction_reference = ''MAIL-7'', sc_instruction_at = (900, True), sc_evidence_excerpt = None,
     sc_acknowledge_exact_terms = True, sc_acknowledge_executable_standing_order = True\<rparr>"


definition ex_support_request :: http_request where
  "ex_support_request = \<lparr>rq_method = ''POST'', rq_context = Some ''ctx'', rq_idempotency = Some ''k1'', rq_if_match = None\<rparr>"

lemma ex_entry_simps [simp]:
  "oc_side (ex_entry c) = BID" "oc_product_id (ex_entry c) = p_id ex_product" "oc_delivery_point_id (ex_entry c) = d_id ex_point"
  "oc_port_id (ex_entry c) = None" "oc_vessel_id (ex_entry c) = None" "oc_quantity_mt (ex_entry c) = Finite 300 0"
  "oc_price_per_mt_usd (ex_entry c) = Finite 850 0" "oc_availability_window (ex_entry c) = ''SPOT''"
  "oc_expires_at (ex_entry c) = Some (5000, True)" "oc_support_confirmation (ex_entry c) = c" "oc_fields_set (ex_entry c) = []"
  "oc_certification_scheme (ex_entry c) = None" "oc_certifications (ex_entry c) = []"
  by (simp_all add: ex_entry_def)

lemma ex_entry_schema:
  "order_create_schema 1000 (ex_entry None) = Inr (ex_entry None)"
  "order_create_schema 1000 (ex_entry (Some ex_confirmation)) = Inr (ex_entry (Some ex_confirmation))"
  using normalize_canonical [OF canonical_SPOT]
  by (simp_all add: order_create_schema_def ex_entry_def valid_amount_def finite_decimal_def dec_value_def pred_opt_def SPOT_WINDOW_def
      normalize_certifications_def strip_or_none_def confirmation_schema_def ex_confirmation_def py_strip_def is_space_def Let_def)

lemma ex_entry_guards:
  assumes "rp_mode party = MODE_SELF_SERVICE \<Longrightarrow> rp_effective_role party = Some BUYER"
  shows "create_guards (2026, 2) party (ex_entry c) ex_ask_db = Inr ex_product"
proof -
  have w: "is_tradable_availability_window ''SPOT'' 2026 2 n = Inr True" for n
    using normalize_canonical [OF canonical_SPOT]
    by (simp add: is_tradable_availability_window_def tradable_availability_windows_def SPOT_WINDOW_def Let_def)
  have pr: "canonical_market_product_expression ex_product \<noteq> None" "p_is_active ex_product"
    by (simp_all add: canonical_market_product_expression_def ex_product_def CANONICAL_PRODUCTS_def)
  have dp: "canonical_delivery_point_clause ex_point"
    by (simp add: canonical_delivery_point_clause_def ex_point_def CANONICAL_DELIVERY_POINTS_def)
  show ?thesis using assms pr dp w by (simp add: create_guards_def ex_ask_db_def Let_def)
qed

lemma ex_entry_row:
  fixes party :: RequestParty and k :: uuid and nm c idem
  defines "new \<equiv> new_order_row 1000 3 1000 party (ex_org k nm) (ex_entry c) idem"
  assumes "rp_creation_method party \<noteq> LEGACY_UNKNOWN" "idem = None \<or> (\<exists>a b. idem = Some (a, b))"
  shows "columns_fit new" "order_is_execution_qualified new" "o_provenance new = REAL" "o_price_per_mt_usd new = 850"
    "o_expires_at new = Some 5000" "o_availability_window new = ''SPOT''" "o_delivery_point_id new = Some (d_id ex_point)"
    "\<not> insert_conflict (\<lambda>_. False) (ex_ask_db\<lparr>next_ordinal := 4\<rparr>) new"
proof -
  have m: "o_metadata new = entry_metadata (ex_entry c)" by (simp add: new_def new_order_row_def)
  show fit: "columns_fit new" and q: "order_is_execution_qualified new"
    unfolding columns_fit_def order_is_execution_qualified_def m
    by (simp_all add: entry_metadata_def pred_opt_def normalize_certification_scheme_def new_def Let_def) (simp add: new_order_row_def)
  show r: "o_provenance new = REAL" "o_price_per_mt_usd new = 850" "o_expires_at new = Some 5000"
    "o_availability_window new = ''SPOT''" "o_delivery_point_id new = Some (d_id ex_point)"
    by (simp_all add: new_def new_order_row_def snapshot_organization_provenance_def dec_value_def)
  have "ORDER_NUMERIC_VALUES new" "ORDER_LIFECYCLE new" "ORDER_DOMAIN new"
    using assms(3)
    by (auto simp: ORDER_NUMERIC_VALUES_def ORDER_LIFECYCLE_def ORDER_DOMAIN_def r m entry_metadata_def required_numeric_def optional_numeric_def
        dec_value_def new_def idempotency_all_or_none_def new_order_row_def no_idempotency_def split: option.splits)
  moreover have "1 \<le> o_version new" "o_vessel_id new = None" "o_acceptance_ordinal new = 3" "o_organization_id new = k"
    by (simp_all add: new_def new_order_row_def)
  ultimately show "\<not> insert_conflict (\<lambda>_. False) (ex_ask_db\<lparr>next_ordinal := 4\<rparr>) new"
    by (auto simp: insert_conflict_def pred_opt_def ex_ask_db_def no_idempotency_def new_def new_order_row_def split: option.splits)
qed

lemma ex_entry_lot: "require_minimum_order_quantity (Finite 300 0) ex_product = Inr 300"
  by (simp add: require_minimum_order_quantity_def finite_decimal_def dec_value_def ex_product_def)

text \<open>An order that finds no counterparty, or is not matched at all, is placed.\<close>

lemma place_order_returns:
  assumes "\<And>s2. AUTO_MATCHING_ENABLED fl \<Longrightarrow> rp_mode party = MODE_SELF_SERVICE \<Longrightarrow>
    s2 = record_audit (Some (u_id (rp_actor party))) ''order.created'' ''order'' (o_id new) (ins_order new (s\<lparr>next_id := next_id s + 2\<rparr>)) \<Longrightarrow>
    match_order e cfg (\<lambda>i. clk (i + 12)) new True None s2 = Inr (s2, [])"
    and "order_of (o_id new) s = None"
  shows "\<exists>s'. place_order e cfg fl clk party new s = Inr (s', new)"
proof -
  have z: "order_of (o_id new) (ins_order new (s\<lparr>next_id := n\<rparr>)) = Some new" for n
    using assms(2) by (simp add: ins_order_def row_by_append)
  have "\<exists>x. participant_market_event ''order_created'' ''order'' k (match_participants z []) b = Inr x" for k z b
    by (simp add: participant_market_event_def match_participants_def py_strip_def is_space_def)
  then obtain ev where ev: "\<And>k z b. participant_market_event ''order_created'' ''order'' k (match_participants z []) b = Inr (ev k z b)"
    by metis
  show ?thesis
  proof (cases "AUTO_MATCHING_ENABLED fl \<and> rp_mode party = MODE_SELF_SERVICE")
    case True
    then show ?thesis
      using assms(1) [OF _ _ refl] ev z by (simp add: get_or_def place_order_def Let_def collect_auto_match_side_effects_def)
  next
    case False
    then have "(AUTO_MATCHING_ENABLED fl \<and> rp_mode party = MODE_SELF_SERVICE) = False" by blast
    then show ?thesis using ev z by (simp only: place_order_def if_False) (simp add: get_or_def place_order_def Let_def collect_auto_match_side_effects_def)
  qed
qed



lemma ex_entry_assisted:
  "\<exists>s' z sd'. create_order ex_env (\<lambda>_. Some 61) ex_cfg ex_flags (\<lambda>_. JNull) (\<lambda>_. JNull) (\<lambda>_. False) (2026, 2) (\<lambda>_. 1000) ex_support_request
     ex_admin (ex_entry (Some ex_confirmation)) ex_ask_db ex_ask_db ex_support = (Inr (s', Placed z), sd') \<and> o_creation_method z = MARKET_SUPPORT"
proof -
  let ?db = "ex_ask_db\<lparr>next_ordinal := 4\<rparr>" and ?d = "ex_entry (Some ex_confirmation)"
  obtain party where p: "resolve_request_party (\<lambda>_. Some 61) True (\<lambda>_. 1000) (Some ''ctx'') ex_ask_db ex_support ex_admin = (Inr party, ex_support)"
    "rp_mode party = MODE_MARKET_SUPPORT" "rp_support_context_id party = Some 61" "rp_creation_method party = MARKET_SUPPORT"
    "rp_actor party = ex_admin" "rp_effective_organization party = Some (ex_org 41 ''Supplier'')"
    by (simp add: resolve_request_party_def context_locator_def py_strip_def is_space_def ex_admin_def ex_ask_db_def
        require_context_capabilities_def capability_expired_def ex_support_def Let_def)
  have adm: "create_admission ex_ask_db ex_admin party ?d = Inr 41"
    using p by (simp add: create_admission_def effective_organization_id_def)
  have gd: "create_guards (2026, 2) party ?d ex_ask_db = Inr ex_product"
    by (rule ex_entry_guards) (simp add: p)
  have lk: "acquire_market_slice_lock ex_env (BID, p_id ex_product, Some (d_id ex_point), ''SPOT'') = Inr ()"
    using ex_slice_lock [OF canonical_SPOT] by (simp add: SPOT_WINDOW_def)
  obtain h where id: "create_idempotency ex_env (\<lambda>_. JNull) (\<lambda>_. JNull) ex_support_request ex_ask_db ex_support party 41 ?d = Inr (Some (''k1'', h), None)"
    using p(2)
    by (simp add: create_idempotency_def ex_support_request_def truthy_header_def normalize_idempotency_key_def py_strip_def is_space_def
        acquire_idempotency_lock_def ex_env_def load_valid_order_create_replay_def ex_ask_db_def no_idempotency_def or_empty_def)
  have lc: "lock_request_party_context (\<lambda>_. 1000) ex_support party = (Inr (), ex_support)"
    using p by (simp add: lock_request_party_context_def lock_request_party_capabilities_def capability_expired_def ex_support_def ex_admin_def)
  define row where "row = new_order_row 1000 3 1000 party (ex_org 41 ''Supplier'') ?d (Some (''k1'', h))"
  have r: "columns_fit row" "order_is_execution_qualified row" "o_provenance row = REAL" "\<not> insert_conflict (\<lambda>_. False) ?db row"
    unfolding row_def by (rule ex_entry_row; simp add: p(4))+
  have rw: "o_remaining_quantity_mt row = 300" "o_organization_id row = 41" "o_id row = 1000"
    by (simp_all add: row_def new_order_row_def dec_value_def)
  have ld: "\<exists>orgs. lock_and_load_market_organizations ?db [41] [] True [] = Inr orgs \<and> orgs 41 = Some (ex_org 41 ''Supplier'')"
    by (simp add: lock_and_load_market_organizations_def Let_def ownership_by_user_def py_upper_def upper_char_def ex_ask_db_def)
  have pa: "\<not> indeterminate (assess_locked_order ?db 1000 row (ex_org 41 ''Supplier''))"
    "\<not> would_cross (assess_locked_order ?db 1000 row (ex_org 41 ''Supplier''))"
    using r rw by (simp_all add: assess_locked_order_def Let_def post_only_filters_def ex_ask_db_def)
  obtain new s1 sd1 where au: "authorize_support ex_env ex_flags (\<lambda>_. 1000) party (ex_org 41 ''Supplier'') ?d (Some (''k1'', h)) row ?db ex_support =
      Inr (new, s1, sd1)"
    using p pa r(1) by (auto simp: authorize_support_def ex_confirmation_def ex_support_def Let_def)
  then obtain az where a: "authorize_support ex_env ex_flags (\<lambda>_. 1000) party (ex_org 41 ''Supplier'') ?d (Some (''k1'', h)) row ?db ex_support =
      Inr (row\<lparr>o_support_authorization_id := az\<rparr>, s1, sd1)" "market_part s1 = market_part ?db"
    using placed_row [OF au [unfolded row_def]] unfolding row_def by blast
  let ?new = "row\<lparr>o_support_authorization_id := az\<rparr>"
  have fit: "columns_fit ?new" "\<not> insert_conflict (\<lambda>_. False) s1 ?new"
  proof -
    have "ORDER_DOMAIN ?new = ORDER_DOMAIN row" "ORDER_NUMERIC_VALUES ?new = ORDER_NUMERIC_VALUES row" "ORDER_LIFECYCLE ?new = ORDER_LIFECYCLE row"
      by (simp_all add: ORDER_DOMAIN_def ORDER_NUMERIC_VALUES_def ORDER_LIFECYCLE_def)
    then show "columns_fit ?new" "\<not> insert_conflict (\<lambda>_. False) s1 ?new"
      using r(1,4) market_part_eqD(1) [OF a(2)] by (simp_all add: columns_fit_def insert_conflict_def)
  qed
  have "order_of (o_id ?new) s1 = None" using market_part_eqD(1) [OF a(2)] rw by (simp add: ex_ask_db_def)
  then have "\<exists>s'. place_order ex_env ex_cfg ex_flags (\<lambda>_. 1000) party ?new s1 = Inr (s', ?new)"
    by (intro place_order_returns) (simp_all add: p)
  then have "\<exists>s'. create_locked ex_env ex_cfg ex_flags (\<lambda>_. False) (\<lambda>_. 1000) party 41 ex_product ?d (Some (''k1'', h)) ex_ask_db ex_support =
      Inr (s', Placed ?new, sd1)"
    using ld p(2) a fit ex_entry_lot 
    by (auto simp: create_locked_def next_order_acceptance_ordinal_def row_def ex_ask_db_def)
  moreover have "o_creation_method ?new = MARKET_SUPPORT" by (simp add: row_def new_order_row_def p)
  ultimately show ?thesis
    using adm gd lk lc p id ex_entry_schema(2)
    by (auto simp: create_order_def ex_support_request_def ex_flags_def)
qed

theorem assisted_order_rests_witness:
  "\<exists>s' z sd'. create_order ex_env (\<lambda>_. Some 61) ex_cfg ex_flags (\<lambda>_. JNull) (\<lambda>_. JNull) (\<lambda>_. False) (2026, 2) (\<lambda>_. 1000) ex_support_request
     ex_admin (ex_entry (Some ex_confirmation)) ex_ask_db ex_ask_db ex_support = (Inr (s', Placed z), sd') \<and>
     o_creation_method z = MARKET_SUPPORT \<and> trades s' = [] \<and> o_status z = OPEN"
proof -
  obtain s' z sd' where r: "create_order ex_env (\<lambda>_. Some 61) ex_cfg ex_flags (\<lambda>_. JNull) (\<lambda>_. JNull) (\<lambda>_. False) (2026, 2) (\<lambda>_. 1000)
     ex_support_request ex_admin (ex_entry (Some ex_confirmation)) ex_ask_db ex_ask_db ex_support = (Inr (s', Placed z), sd')"
    "o_creation_method z = MARKET_SUPPORT"
    using ex_entry_assisted by blast
  from assisted_order_rests [OF ex_ask_market_inv r] r show ?thesis by (auto simp: ex_ask_db_def)
qed

end
