(* ===== verification/Inventory_Routes.thy ===== *)
theory Inventory_Routes
  imports Order_Create Order_Lifecycle
begin

section \<open>Managing and publishing inventory\<close>

text \<open>
  \<^verbatim>\<open>src/app/routers/inventory.py\<close> with the request schemas of \<^verbatim>\<open>src/app/schemas/marketplace.py\<close>: a
  supplier adds, edits, deletes and lists stock, and publishes an item as an ask whose quantity is reserved
  out of the free stock. The lemmas show that each route keeps the market invariant, and what a
  publication reserves.

  As in the order routes \<open>pv\<close> is the database seen before the row locks and \<open>s\<close> the one under them;
  \<open>clk 0\<close> is the transaction's \<open>now()\<close>, and the later readings of the clock are numbered in the order the code takes
  them. A failed request, and a publication that finds an existing listing, leave the database unchanged.
\<close>

subsection \<open>Requests\<close>

definition FUEL_TYPES :: "string list" where
  "FUEL_TYPES = [''Methanol'', ''Ethanol'', ''Biofuel'', ''LNG'', ''Ammonia'', ''LSMGO'']"

record InventoryCreate =
  ic_port_id :: string
  ic_fuel_type :: string
  ic_product_name :: "string option"
  ic_current_stock_mt :: pydecimal
  ic_incoming_stock_mt :: pydecimal
  ic_price_per_mt_usd :: "pydecimal option"
  ic_energy_density_mj_kg :: "pydecimal option"
  ic_is_certified :: bool
  ic_certification_declared :: bool
  ic_certification_scheme :: "string option"
  ic_specification_standard :: "string option"
  ic_msds_available :: bool
  ic_carbon_intensity_gco2_mj :: "pydecimal option"
  ic_carbon_intensity_method :: "string option"
  ic_feedstock :: "string option"
  ic_origin :: "string option"
  ic_off_spec :: bool
  ic_off_spec_notes :: "string option"

text \<open>An update names some of the fields; a named field may be null.\<close>

record InventoryItemUpdate =
  iu_product_name :: "string option option"
  iu_current_stock_mt :: "pydecimal option option"
  iu_incoming_stock_mt :: "pydecimal option option"
  iu_price_per_mt_usd :: "pydecimal option option"
  iu_certification_declared :: "bool option option"
  iu_certification_scheme :: "string option option"
  iu_specification_standard :: "string option option"
  iu_msds_available :: "bool option option"
  iu_carbon_intensity_gco2_mj :: "pydecimal option option"
  iu_carbon_intensity_method :: "string option option"
  iu_feedstock :: "string option option"
  iu_origin :: "string option option"
  iu_off_spec :: "bool option option"
  iu_off_spec_notes :: "string option option"

text \<open>
  A decimal between zero and the maximum with at most two decimal places. The limit on the number of digits
  is implied by the maximum, except for the energy density, whose three digits before the point keep it below 1000.
\<close>

definition valid_stock :: "dec \<Rightarrow> pydecimal \<Rightarrow> bool" where
  "valid_stock maximum v = (case finite_decimal v 2 of Inl _ \<Rightarrow> False | Inr w \<Rightarrow> 0 \<le> pydec_val w \<and> pydec_val w \<le> maximum)"

definition inventory_create_schema :: "InventoryCreate \<Rightarrow> InventoryCreate result" where
  "inventory_create_schema d =
     bindR (refuse (\<not> (ic_fuel_type d \<in> set FUEL_TYPES
              \<and> valid_stock 100000 (ic_current_stock_mt d) \<and> valid_stock 100000 (ic_incoming_stock_mt d)
              \<and> pred_opt (valid_amount 1000000) (ic_price_per_mt_usd d)
              \<and> pred_opt (\<lambda>v. valid_stock 10000 v \<and> pydec_val v < 1000) (ic_energy_density_mj_kg d)
              \<and> pred_opt (\<lambda>x. length x \<le> 120) (ic_specification_standard d)
              \<and> pred_opt (valid_stock 10000) (ic_carbon_intensity_gco2_mj d)
              \<and> pred_opt (\<lambda>x. length x \<le> 120) (ic_carbon_intensity_method d)))
       (HTTPException 422 ''InventoryCreate'')) (\<lambda>_. Inr d)"

definition inventory_update_schema :: "InventoryItemUpdate \<Rightarrow> InventoryItemUpdate result" where
  "inventory_update_schema u =
     bindR (refuse (\<not> (pred_opt (valid_stock 100000) (set_value (iu_current_stock_mt u))
              \<and> pred_opt (valid_stock 100000) (set_value (iu_incoming_stock_mt u))
              \<and> pred_opt (valid_amount 1000000) (set_value (iu_price_per_mt_usd u))
              \<and> pred_opt (\<lambda>x. length x \<le> 120) (set_value (iu_specification_standard u))
              \<and> pred_opt (valid_stock 10000) (set_value (iu_carbon_intensity_gco2_mj u))
              \<and> pred_opt (\<lambda>x. length x \<le> 120) (set_value (iu_carbon_intensity_method u))))
       (HTTPException 422 ''InventoryItemUpdate'')) (\<lambda>_. Inr u)"

subsection \<open>Rows\<close>

definition del_item :: "uuid \<Rightarrow> market_db \<Rightarrow> market_db" where
  "del_item k s = s\<lparr>inventory := filter (\<lambda>i. i_id i \<noteq> k) (inventory s)\<rparr>"

definition new_item_row :: "uuid \<Rightarrow> time \<Rightarrow> user \<Rightarrow> uuid \<Rightarrow> InventoryCreate \<Rightarrow> inventory_item" where
  "new_item_row k now cur g d =
     \<lparr>i_id = k, i_supplier_id = Some g, i_owner_user_id = Some (u_id cur), i_port_id = Some (ic_port_id d),
      i_fuel_type = ic_fuel_type d, i_product_name = ic_product_name d,
      i_current_stock_mt = pydec_val (ic_current_stock_mt d), i_incoming_stock_mt = pydec_val (ic_incoming_stock_mt d),
      i_reserved_stock_mt = 0, i_price_per_mt_usd = map_option pydec_val (ic_price_per_mt_usd d),
      i_is_certified = ic_is_certified d,
      i_metadata = \<lparr>certification_declared = ic_certification_declared d, certification_scheme = ic_certification_scheme d,
         specification_standard = ic_specification_standard d, msds_available = ic_msds_available d,
         carbon_intensity_gco2_mj = map_option pydec_val (ic_carbon_intensity_gco2_mj d),
         carbon_intensity_method = ic_carbon_intensity_method d,
         energy_density_mj_kg = map_option pydec_val (ic_energy_density_mj_kg d), feedstock = ic_feedstock d,
         origin = ic_origin d, off_spec = ic_off_spec d, off_spec_notes = ic_off_spec_notes d\<rparr>,
      i_updated_at = now\<rparr>"

text \<open>What the database accepts of an item: its CHECK constraint, the lengths of its columns and its port.\<close>

definition item_write_check :: "market_db \<Rightarrow> inventory_item \<Rightarrow> unit result" where
  "item_write_check s i = (let m = i_metadata i in
     bindR (refuse (\<not> (pred_opt (\<lambda>x. length x \<le> 120) (certification_scheme m)
              \<and> pred_opt (\<lambda>x. length x \<le> 120) (specification_standard m)
              \<and> pred_opt (\<lambda>x. length x \<le> 120) (carbon_intensity_method m)
              \<and> pred_opt (\<lambda>x. length x \<le> 255) (feedstock m) \<and> pred_opt (\<lambda>x. length x \<le> 255) (origin m)))
       (DBAPIError ''22001'')) (\<lambda>_.
     refuse (\<not> (INVENTORY_NUMERIC_VALUES i \<and> pred_opt (\<lambda>p. list_ex (\<lambda>pt. pt_id pt = p) (ports s)) (i_port_id i)))
       IntegrityError))"

subsection \<open>Guards\<close>

text \<open>The dependency on an eligible user, the role, the organization and its lock. Creation words a missing organization in its own way.\<close>

definition manage_inventory_guard :: "string \<Rightarrow> user \<Rightarrow> market_db \<Rightarrow> market_db \<Rightarrow> uuid result" where
  "manage_inventory_guard no_org cur pv s =
     bindR (require_execution_eligible_user pv cur) (\<lambda>_.
     bindR (refuse (u_role cur \<noteq> Some SUPPLIER) (HTTPException 403 ''Only suppliers can manage inventory'')) (\<lambda>_.
     case u_organization_id cur of None \<Rightarrow> Inl (HTTPException 400 no_org)
     | Some g \<Rightarrow> bindR (lock_own_organization s (u_id cur) (Some g)) (\<lambda>_. Inr g)))"

definition own_item :: "uuid \<Rightarrow> uuid \<Rightarrow> market_db \<Rightarrow> inventory_item result" where
  "own_item k g s =
     (case item_of k s of None \<Rightarrow> Inl (HTTPException 404 ''Inventory item not found'')
      | Some i \<Rightarrow> if i_supplier_id i = Some g then Inr i else Inl (HTTPException 404 ''Inventory item not found''))"

definition inventory_event :: "string \<Rightarrow> uuid \<Rightarrow> uuid \<Rightarrow> bool \<Rightarrow> market_db \<Rightarrow> market_db result" where
  "inventory_event name k g public s =
     bindR (participant_market_event name ''inventory'' k [g] public) (\<lambda>ev. Inr (enqueue_market_events [ev] s))"

subsection \<open>Adding, editing and deleting\<close>

text \<open>Whatever goes wrong while the row is written, the client is told that the item could not be created.\<close>

definition hide_create_failure :: "'a result \<Rightarrow> 'a result" where
  "hide_create_failure r = (case r of Inr x \<Rightarrow> Inr x
     | Inl err \<Rightarrow> (case err of HTTPException c m \<Rightarrow> Inl err
         | DBAPIError st \<Rightarrow> if is_retryable_market_transaction_error err then Inl err
             else Inl (HTTPException 500 ''Unable to create inventory item'')
         | _ \<Rightarrow> Inl (HTTPException 500 ''Unable to create inventory item'')))"

definition add_inventory :: "time \<Rightarrow> user \<Rightarrow> InventoryCreate \<Rightarrow> market_db \<Rightarrow> market_db \<Rightarrow> (market_db \<times> inventory_item) result" where
  "add_inventory now cur raw pv s =
     bindR (inventory_create_schema raw) (\<lambda>d.
     bindR (manage_inventory_guard ''User has no organization. Please complete onboarding first.'' cur pv s) (\<lambda>g.
     hide_create_failure (
       let i = new_item_row (next_id s) now cur g d;
           s1 = ins_item i (s\<lparr>next_id := next_id s + 1\<rparr>) in
       bindR (item_write_check s i) (\<lambda>_.
       bindR (inventory_event ''inventory_created'' (i_id i) g (public_inventory_is_visible s1 (i_id i)) s1) (\<lambda>s2.
       Inr (s2, i))))))"

definition updated_metadata :: "supplier_metadata \<Rightarrow> InventoryItemUpdate \<Rightarrow> supplier_metadata" where
  "updated_metadata m u = m\<lparr>
     certification_declared := truthy (get_or (iu_certification_declared u) (Some (certification_declared m))),
     certification_scheme := get_or (iu_certification_scheme u) (certification_scheme m),
     specification_standard := get_or (iu_specification_standard u) (specification_standard m),
     msds_available := truthy (get_or (iu_msds_available u) (Some (msds_available m))),
     carbon_intensity_gco2_mj := (case iu_carbon_intensity_gco2_mj u of None \<Rightarrow> carbon_intensity_gco2_mj m
        | Some v \<Rightarrow> map_option pydec_val v),
     carbon_intensity_method := get_or (iu_carbon_intensity_method u) (carbon_intensity_method m),
     feedstock := get_or (iu_feedstock u) (feedstock m),
     origin := get_or (iu_origin u) (origin m),
     off_spec := truthy (get_or (iu_off_spec u) (Some (off_spec m))),
     off_spec_notes := get_or (iu_off_spec_notes u) (off_spec_notes m)\<rparr>"

definition updated_item :: "inventory_item \<Rightarrow> InventoryItemUpdate \<Rightarrow> inventory_item" where
  "updated_item i u = i\<lparr>
     i_product_name := get_or (iu_product_name u) (i_product_name i),
     i_current_stock_mt := (case set_value (iu_current_stock_mt u) of None \<Rightarrow> i_current_stock_mt i | Some v \<Rightarrow> pydec_val v),
     i_incoming_stock_mt := (case set_value (iu_incoming_stock_mt u) of None \<Rightarrow> i_incoming_stock_mt i | Some v \<Rightarrow> pydec_val v),
     i_price_per_mt_usd := (case iu_price_per_mt_usd u of None \<Rightarrow> i_price_per_mt_usd i | Some v \<Rightarrow> map_option pydec_val v),
     i_metadata := updated_metadata (i_metadata i) u\<rparr>"

text \<open>Null in a column that has to have a value.\<close>

definition null_item_column :: "InventoryItemUpdate \<Rightarrow> bool" where
  "null_item_column u \<longleftrightarrow> iu_current_stock_mt u = Some None \<or> iu_incoming_stock_mt u = Some None
     \<or> iu_certification_declared u = Some None \<or> iu_msds_available u = Some None \<or> iu_off_spec u = Some None"

definition update_inventory ::
  "time \<Rightarrow> user \<Rightarrow> uuid \<Rightarrow> InventoryItemUpdate \<Rightarrow> market_db \<Rightarrow> market_db \<Rightarrow> (market_db \<times> inventory_item) result" where
  "update_inventory now cur k raw pv s =
     bindR (inventory_update_schema raw) (\<lambda>u.
     bindR (manage_inventory_guard ''User has no organization'' cur pv s) (\<lambda>g.
     bindR (own_item k g s) (\<lambda>i.
     bindR (assert_inventory_mutable s i False) (\<lambda>_.
     let public_before = public_inventory_is_visible s k;
         changed = (updated_item i u \<noteq> i);
         j = (updated_item i u)\<lparr>i_updated_at := now\<rparr>;
         s1 = put_item j s in
     bindR (refuse (null_item_column u) IntegrityError) (\<lambda>_.
     bindR (item_write_check s j) (\<lambda>_.
     bindR (inventory_event ''inventory_updated'' k g
              (changed \<and> (public_before \<or> public_inventory_is_visible s1 k)) s1) (\<lambda>s2.
     Inr (s2, j))))))))"

definition delete_inventory :: "user \<Rightarrow> uuid \<Rightarrow> market_db \<Rightarrow> market_db \<Rightarrow> market_db result" where
  "delete_inventory cur k pv s =
     bindR (manage_inventory_guard ''User has no organization'' cur pv s) (\<lambda>g.
     bindR (own_item k g s) (\<lambda>i.
     bindR (assert_inventory_mutable s i True) (\<lambda>_.
     inventory_event ''inventory_deleted'' k g (public_inventory_is_visible s k) (del_item k s))))"

subsection \<open>Publishing\<close>

definition resolve_catalog_product :: "inventory_item \<Rightarrow> market_db \<Rightarrow> product option result" where
  "resolve_catalog_product i s =
     (let name = py_strip (or_empty (i_product_name i)) in
      if name = [] then Inr None
      else scalar_one_or_none (\<lambda>p. p_is_active p \<and> p_name p = name \<and> canonical_market_product_expression p \<noteq> None) (products s))"

definition resolve_delivery_point :: "inventory_item \<Rightarrow> market_db \<Rightarrow> delivery_point option result" where
  "resolve_delivery_point i s =
     (case Option.bind (i_port_id i) (\<lambda>p. find (\<lambda>pt. pt_id pt = p) (ports s)) of None \<Rightarrow> Inr None
      | Some pt \<Rightarrow>
          if pt_name pt = [] then Inr None
          else scalar_one_or_none (\<lambda>d. canonical_delivery_point_clause d \<and> d_name d = py_strip (pt_name pt)) (delivery_points s))"

definition current_listing :: "time \<Rightarrow> uuid \<Rightarrow> market_db \<Rightarrow> order option" where
  "current_listing now k s =
     find (\<lambda>x. o_inventory_item_id x = Some k \<and> live_status (o_status x) \<and> \<not> order_expired now x) (orders s)"

definition expired_backlog :: "time \<Rightarrow> uuid \<Rightarrow> market_db \<Rightarrow> bool" where
  "expired_backlog now k s \<longleftrightarrow>
     list_ex (\<lambda>x. o_inventory_item_id x = Some k \<and> live_status (o_status x) \<and> order_expired now x) (orders s)"

definition publish_replay :: "market_db \<Rightarrow> uuid \<Rightarrow> (string \<times> string) option \<Rightarrow> order option result" where
  "publish_replay s g idem =
     (case idem of None \<Rightarrow> Inr None
      | Some (key, h) \<Rightarrow>
          (case find (\<lambda>x. o_organization_id x = g \<and> idempotency_operation (o_idempotency x) = Some ''inventory.publish''
                       \<and> idempotency_key (o_idempotency x) = Some key) (orders s) of
             None \<Rightarrow> Inr None
           | Some x \<Rightarrow>
               if idempotency_request_hash (o_idempotency x) \<noteq> Some h
               then Inl (HTTPException 409 ''Idempotency-Key was reused with a different request'')
               else Inr (Some x)))"

definition publish_idempotency :: "env \<Rightarrow> string option \<Rightarrow> uuid \<Rightarrow> uuid \<Rightarrow> (string \<times> string) option result" where
  "publish_idempotency e header g k =
     (if \<not> truthy_header header then Inr None
      else bindR (normalize_idempotency_key (or_empty header)) (\<lambda>key.
           bindR (acquire_idempotency_lock e g ''inventory.publish'' key) (\<lambda>_.
           Inr (Some (key, idempotency_payload_hash e (JObj [(''inventory_item_id'', JStr (uuid_str k))]))))))"

text \<open>A stored amount has two decimal places.\<close>

definition stored_decimal :: "dec \<Rightarrow> pydecimal" where
  "stored_decimal q = Finite \<lfloor>q * 100\<rfloor> (- 2)"

definition listing_row ::
  "uuid \<Rightarrow> int \<Rightarrow> time \<Rightarrow> user \<Rightarrow> organization \<Rightarrow> inventory_item \<Rightarrow> product \<Rightarrow> delivery_point \<Rightarrow> dec \<Rightarrow> dec \<Rightarrow> time option
     \<Rightarrow> (string \<times> string) option \<Rightarrow> order" where
  "listing_row k ordinal created cur g i pr dp quantity price expiry idem =
     \<lparr>o_id = k, o_acceptance_ordinal = ordinal, o_organization_id = g_id g, o_owner_user_id = Some (u_id cur),
      o_created_by_actor_user_id = None, o_creation_method = LEGACY_UNKNOWN, o_support_authorization_id = None, o_version = 1,
      o_inventory_item_id = Some (i_id i), o_provenance = snapshot_organization_provenance (Some g), o_side = ASK,
      o_product_id = p_id pr, o_delivery_point_id = Some (d_id dp), o_port_id = i_port_id i, o_vessel_id = None,
      o_quantity_mt = quantity, o_remaining_quantity_mt = quantity, o_price_per_mt_usd = price,
      o_availability_window = SPOT_WINDOW, o_delivery_window_start = None, o_delivery_window_end = None,
      o_certifications = (if i_is_certified i then [''INVENTORY_CERTIFIED''] else []),
      o_metadata = (i_metadata i)\<lparr>energy_density_mj_kg := None\<rparr>, o_is_verdaxis_verified = False, o_status = OPEN,
      o_expires_at = expiry,
      o_idempotency = (case idem of None \<Rightarrow> no_idempotency
        | Some (key, h) \<Rightarrow> \<lparr>idempotency_key = Some key, idempotency_operation = Some ''inventory.publish'',
            idempotency_request_hash = Some h\<rparr>),
      o_created_at = created\<rparr>"

text \<open>The checks before the slice lock: the listing is already there, or the slice to lock.\<close>

definition publish_preview ::
  "time \<Rightarrow> user \<Rightarrow> uuid \<Rightarrow> uuid \<Rightarrow> market_db \<Rightarrow> (order + product \<times> delivery_point) result" where
  "publish_preview now cur g k pv =
     bindR (refuse (u_role cur \<noteq> Some SUPPLIER) (HTTPException 403 ''Only suppliers can publish inventory'')) (\<lambda>_.
     bindR (refuse (\<not> (execution_party_is_eligible pv (user_of (u_id cur) pv) (organization_of g pv)
                       \<and> (case user_of (u_id cur) pv of None \<Rightarrow> False | Some u \<Rightarrow> u_role u = Some SUPPLIER)))
              (HTTPException 403 ''Supplier is no longer execution-qualified'')) (\<lambda>_.
     bindR (own_item k g pv) (\<lambda>i.
     case current_listing now k pv of Some x \<Rightarrow> Inr (Inl x)
     | None \<Rightarrow>
     bindR (refuse (i_price_per_mt_usd i = None) (HTTPException 400 ''Inventory item missing price'')) (\<lambda>_.
     bindR (resolve_catalog_product i pv) (\<lambda>found.
     case found of
       None \<Rightarrow> Inl (HTTPException 400 ''Unable to map inventory item to a catalog product'')
     | Some pr \<Rightarrow>
         bindR (resolve_delivery_point i pv) (\<lambda>point.
         case point of
           None \<Rightarrow> Inl (HTTPException 400 ''Inventory port is not an active canonical delivery point'')
         | Some dp \<Rightarrow> Inr (Inr (pr, dp))))))))"

text \<open>The item once more, under the slice lock and after the expiry pass, and the listing to insert.\<close>

definition prepare_listing ::
  "(nat \<Rightarrow> time) \<Rightarrow> user \<Rightarrow> uuid \<Rightarrow> organization \<Rightarrow> uuid \<Rightarrow> product \<Rightarrow> delivery_point \<Rightarrow> (string \<times> string) option
     \<Rightarrow> market_db \<Rightarrow> (order + market_db \<times> order) result" where
  "prepare_listing clk cur g org k pr dp idem s =
     bindR (own_item k g s) (\<lambda>i.
     bindR (resolve_catalog_product i s) (\<lambda>found.
     bindR (resolve_delivery_point i s) (\<lambda>point.
     bindR (refuse (\<not> ((case found of None \<Rightarrow> False | Some p \<Rightarrow> p_id p = p_id pr)
                       \<and> (case point of None \<Rightarrow> False | Some d \<Rightarrow> d_id d = d_id dp)))
              (HTTPException 409 ''Inventory market slice changed; retry publication'')) (\<lambda>_.
     case current_listing (clk 0) k s of Some x \<Rightarrow> Inr (Inl x)
     | None \<Rightarrow>
     bindR (refuse (expired_backlog (clk 0) k s)
              (HTTPException 409 ''Inventory listing expiry backlog must be reconciled before publication'')) (\<lambda>_.
     bindR (refuse (i_current_stock_mt i \<le> 0) (HTTPException 400 ''Inventory quantity must be positive'')) (\<lambda>_.
     bindR (case found of None \<Rightarrow> Inl KeyError
            | Some p \<Rightarrow> require_minimum_order_quantity (stored_decimal (i_current_stock_mt i)) p) (\<lambda>quantity.
     bindR (case i_price_per_mt_usd i of None \<Rightarrow> Inl (RuntimeError ''InvalidOperation'') | Some x \<Rightarrow> Inr x) (\<lambda>price.
     let (n, s1) = next_order_acceptance_ordinal s in
     bindR (if snapshot_organization_provenance (Some org) = DEMO
            then bindR (availability_window_expiry SPOT_WINDOW (clk 2)) (\<lambda>t. Inr (Some t)) else Inr None) (\<lambda>expiry.
     let listing = listing_row (next_id s) n (clk 3) cur org i pr dp quantity price expiry idem in
     bindR (case supplier_product_metadata_error (Some (p_id pr)) (specification_standard (o_metadata listing))
                   (carbon_intensity_method (o_metadata listing)) of
              None \<Rightarrow> Inr () | Some message \<Rightarrow> Inl (HTTPException 400 message)) (\<lambda>_.
     bindR (refuse (\<not> order_is_execution_qualified listing)
              (HTTPException 400 ''Inventory is not execution-qualified for marketplace publication'')) (\<lambda>_.
     bindR (reserve_inventory k quantity s1) (\<lambda>s2.
     Inr (Inr (s2, listing))))))))))))))"

text \<open>The effects after the insert.\<close>

definition conclude_publication ::
  "env \<Rightarrow> Settings \<Rightarrow> order_settings \<Rightarrow> (nat \<Rightarrow> time) \<Rightarrow> user \<Rightarrow> uuid \<Rightarrow> order \<Rightarrow> market_db \<Rightarrow> (market_db \<times> order) result" where
  "conclude_publication e cfg fl clk cur k listing s =
     (let s1 = ins_order listing (s\<lparr>next_id := next_id s + 1\<rparr>) in
      bindR (if AUTO_MATCHING_ENABLED fl then match_order e cfg (\<lambda>i. clk (i + 4)) listing True None s1 else Inr (s1, [])) (\<lambda>(s2, ts).
      let z = get_or (order_of (o_id listing) s2) listing in
      bindR (collect_auto_match_side_effects z ts (Some (u_id cur))
               (project (EmitOrderCreated (o_id z)) (project (RebuildBenchmarks (o_id z)) s2))) (\<lambda>(s3, evs).
      let s4 = record_audit (Some (u_id cur)) ''inventory.published'' ''inventory'' k s3 in
      bindR (participant_market_event ''order_created'' ''order'' (o_id z) (match_participants z ts)
               (public_order_is_visible s4 (clk 0) (o_id z) \<or> list_ex (\<lambda>t. public_trade_is_visible s4 (t_id t)) ts)) (\<lambda>ev.
      Inr (enqueue_market_events (evs @ [ev]) s4, z)))))"

definition run_publication ::
  "env \<Rightarrow> Settings \<Rightarrow> order_settings \<Rightarrow> (nat \<Rightarrow> time) \<Rightarrow> user \<Rightarrow> uuid \<Rightarrow> uuid \<Rightarrow> product \<Rightarrow> delivery_point
     \<Rightarrow> (string \<times> string) option \<Rightarrow> market_db \<Rightarrow> (market_db \<times> placed) result" where
  "run_publication e cfg fl clk cur g k pr dp idem s =
     (let slice = (ASK, p_id pr, Some (d_id dp), SPOT_WINDOW) in
      bindR (acquire_market_slice_lock e slice) (\<lambda>_.
      bindR (expire_market_slice_orders e slice (clk 1) MAX_EXPIRY_ROWS_PER_TRANSACTION [g]
               [\<lparr>mo_user_id = u_id cur, mo_organization_id = g\<rparr>] [g] s) (\<lambda>(s1, _, orgs).
      case orgs g of None \<Rightarrow> Inl KeyError
      | Some org \<Rightarrow>
      bindR (prepare_listing clk cur g org k pr dp idem s1) (\<lambda>r.
      case r of Inl x \<Rightarrow> Inr (s, AlreadyPlaced x)
      | Inr (s2, listing) \<Rightarrow>
          bindR (refuse (\<not> columns_fit listing) (DBAPIError ''22001'')) (\<lambda>_.
          if insert_conflict (\<lambda>_. False) s2 listing
          then bindR (publish_replay s g idem) (\<lambda>x. case x of None \<Rightarrow> Inl IntegrityError | Some y \<Rightarrow> Inr (s, AlreadyPlaced y))
          else bindR (conclude_publication e cfg fl clk cur k listing s2) (\<lambda>(s3, z). Inr (s3, Placed z)))))))"

definition publish_inventory_item ::
  "env \<Rightarrow> Settings \<Rightarrow> order_settings \<Rightarrow> (nat \<Rightarrow> time) \<Rightarrow> string option \<Rightarrow> user \<Rightarrow> uuid \<Rightarrow> market_db \<Rightarrow> market_db
     \<Rightarrow> (market_db \<times> placed) result" where
  "publish_inventory_item e cfg fl clk header cur k pv s =
     bindR (require_execution_eligible_user pv cur) (\<lambda>_.
     case u_organization_id cur of None \<Rightarrow> Inl (HTTPException 400 ''User has no organization'')
     | Some g \<Rightarrow>
     bindR (publish_idempotency e header g k) (\<lambda>idem.
     bindR (publish_replay pv g idem) (\<lambda>replay.
     case replay of Some x \<Rightarrow> Inr (s, AlreadyPlaced x)
     | None \<Rightarrow>
     bindR (publish_preview (clk 0) cur g k pv) (\<lambda>p.
     case p of Inl x \<Rightarrow> Inr (s, AlreadyPlaced x)
     | Inr (pr, dp) \<Rightarrow> run_publication e cfg fl clk cur g k pr dp idem s))))"

subsection \<open>Lists\<close>

text \<open>A page of the rows, newest first and by identifier among equals; \<open>skip\<close> and \<open>limit\<close> are checked by the route.\<close>

definition newest_page :: "('a \<Rightarrow> time) \<Rightarrow> ('a \<Rightarrow> uuid) \<Rightarrow> int \<Rightarrow> int \<Rightarrow> 'a list \<Rightarrow> 'a list result" where
  "newest_page stamp pk skip limit xs =
     (if skip < 0 \<or> limit < 1 \<or> limit > 100 then Inl (HTTPException 422 ''Query'')
      else Inr (take (nat limit) (drop (nat skip) (sort_key (\<lambda>x. - stamp x) (sort_key pk xs)))))"

text \<open>A comparison with a missing organization becomes \<^verbatim>\<open>IS NULL\<close>: a supplier without one is shown the items without a supplier.\<close>

definition list_inventory :: "user \<Rightarrow> int \<Rightarrow> int \<Rightarrow> market_db \<Rightarrow> inventory_item list result" where
  "list_inventory cur skip limit s =
     bindR (newest_page i_updated_at i_id skip limit
              (filter (\<lambda>i. i_supplier_id i = u_organization_id cur) (inventory s))) (\<lambda>page.
     if u_role cur \<noteq> Some SUPPLIER then Inl (HTTPException 403 ''Forbidden'') else Inr page)"

definition list_public_listings :: "time \<Rightarrow> int \<Rightarrow> int \<Rightarrow> market_db \<Rightarrow> order list result" where
  "list_public_listings now skip limit s =
     newest_page o_created_at o_id skip limit
       (filter (\<lambda>x. o_side x = ASK \<and> live_status (o_status x) \<and> current_public_order_clause s now x
                  \<and> public_order_collection_provenance_clause x
                  \<and> list_ex (\<lambda>p. p_id p = o_product_id x \<and>
                      list_ex (\<lambda>d. o_delivery_point_id x = Some (d_id d) \<and> active_market_catalog_clauses p d) (delivery_points s))
                      (products s)) (orders s))"

definition list_my_listings :: "user \<Rightarrow> int \<Rightarrow> int \<Rightarrow> market_db \<Rightarrow> (order \<times> nat) list result" where
  "list_my_listings cur skip limit s =
     bindR (newest_page o_created_at o_id skip limit
              (filter (\<lambda>x. Some (o_organization_id x) = u_organization_id cur \<and> o_side x = ASK) (orders s))) (\<lambda>page.
     if u_role cur \<noteq> Some SUPPLIER then Inl (HTTPException 403 ''Only suppliers can view own listings'')
     else Inr (map (\<lambda>x. (x, length (filter (\<lambda>t. t_ask_order_id t = Some (o_id x)) (trades s)))) page))"

subsection \<open>Item writes keep the ledgers\<close>

lemma row_by_filter_out: "row_by pk j (filter (\<lambda>x. pk x \<noteq> k) xs) = (if j = k then None else row_by pk j xs)"
  by (induction xs) auto

lemma order_trade_ledgers:
  assumes "orders t = orders s" "trades t = trades s"
  shows "committed t = committed s" "filled_quantity t = filled_quantity s"
proof -
  have "order_item t = order_item s" by (rule ext) (simp add: order_item_def assms)
  then show "committed t = committed s" by (intro ext) (simp add: committed_def assms)
  show "filled_quantity t = filled_quantity s" by (intro ext) (simp add: filled_quantity_def assms)
qed

lemma item_insert_inv:
  assumes inv: "market_inv_upto \<sigma> s" and i: "i_id i = next_id s" "i_reserved_stock_mt i = 0" "0 \<le> i_current_stock_mt i"
    and n: "next_id s < n"
  shows "market_inv_upto \<sigma> (ins_item i (s\<lparr>next_id := n\<rparr>))" (is "market_inv_upto \<sigma> ?t")
proof -
  have k: "keys_ok s" "refs_ok s" "rows_ok s" "fills_ok s" "reserves_upto \<sigma> s" using inv by (simp_all add: market_inv_upto_def)
  have eq: "orders ?t = orders s" "trades ?t = trades s" "inventory ?t = inventory s @ [i]" "next_id ?t = n"
    by (simp_all add: ins_item_def)
  have c: "committed ?t = committed s" "filled_quantity ?t = filled_quantity s"
    by (rule order_trade_ledgers [OF eq(1,2)])+
  have none: "item_of (next_id s) s = None" using k(1) by (auto simp: row_by_None_iff keys_ok_def)
  have get: "item_of j ?t = (if j = next_id s then Some i else item_of j s)" for j
    using none i(1) unfolding eq by (simp add: row_by_append split: option.splits)
  have "0 \<le> current_stock s j" for j using k(5) by (simp add: reserves_upto_def)
  then have "reserved_stock ?t j = reserved_stock s j \<and> 0 \<le> current_stock ?t j" for j
    using none i by (simp add: reserved_stock_def current_stock_def get)
  then have "reserves_upto \<sigma> ?t" using k(5) by (simp add: reserves_upto_def c)
  moreover have "keys_ok ?t" using k(1) i(1) n by (auto simp: keys_ok_def eq)
  moreover have "refs_ok ?t" using k(2) by (auto simp: refs_ok_def eq)
  ultimately show ?thesis using k(3,4) by (simp add: market_inv_upto_def rows_ok_def fills_ok_def eq c)
qed

lemma item_put_inv:
  assumes "market_inv_upto \<sigma> s" "item_of (i_id j) s = Some i" "i_reserved_stock_mt j = i_reserved_stock_mt i" "0 \<le> i_current_stock_mt j"
  shows "market_inv_upto \<sigma> (put_item j s)"
proof -
  note p = same_market_parts [OF same_market_put_item [of s j]]
  note st = stock_put_item [OF assms(2)]
  have "reserved_stock (put_item j s) = reserved_stock s" using assms(2,3) by (auto simp: st reserved_stock_def)
  then show ?thesis using assms(1,4) by (auto simp: market_inv_upto_def reserves_upto_def p st)
qed

lemma unreferenced_uncommitted:
  assumes "\<And>x. x \<in> set (orders s) \<Longrightarrow> o_inventory_item_id x \<noteq> Some k"
  shows "committed s k = 0"
proof -
  have "order_commitment k x = 0" if "x \<in> set (orders s)" for x using assms [OF that] by (simp add: order_commitment_def)
  then have "sum_list (map (order_commitment k) (orders s)) = 0" by (simp cong: map_cong)
  moreover have "order_item s j \<noteq> Some k" for j
    using assms by (auto simp: order_item_def split: option.splits dest: row_by_SomeD)
  then have "trade_commitment (order_item s) k = (\<lambda>t. 0)" by (auto simp: fun_eq_iff trade_commitment_def split: option.splits)
  ultimately show ?thesis by (simp add: committed_def)
qed

lemma item_delete_inv:
  assumes inv: "market_inv_upto \<sigma> s" and free: "\<And>x. x \<in> set (orders s) \<Longrightarrow> o_inventory_item_id x \<noteq> Some k"
    and empty: "reserved_stock s k \<le> 0"
  shows "market_inv_upto \<sigma> (del_item k s)" (is "market_inv_upto \<sigma> ?t")
proof -
  have q: "keys_ok s" "refs_ok s" "rows_ok s" "fills_ok s" "reserves_upto \<sigma> s" using inv by (simp_all add: market_inv_upto_def)
  have eq: "orders ?t = orders s" "trades ?t = trades s" "inventory ?t = filter (\<lambda>i. i_id i \<noteq> k) (inventory s)" "next_id ?t = next_id s"
    by (simp_all add: del_item_def)
  have c: "committed ?t = committed s" "filled_quantity ?t = filled_quantity s"
    by (rule order_trade_ledgers [OF eq(1,2)])+
  have get: "item_of j ?t = (if j = k then None else item_of j s)" for j
    unfolding eq by (rule row_by_filter_out)
  have "reserved_stock ?t j = committed ?t j + \<sigma> j \<and> 0 \<le> \<sigma> j \<and> 0 \<le> current_stock ?t j" for j
  proof (cases "j = k")
    case True
    have "\<sigma> k = 0" using unreferenced_uncommitted [OF free] empty q(5) by (force simp: reserves_upto_def dest: spec [of _ k])
    then show ?thesis using True unreferenced_uncommitted [OF free] by (simp add: reserved_stock_def current_stock_def get c)
  next
    case False
    then have "reserved_stock ?t j = reserved_stock s j" "current_stock ?t j = current_stock s j"
      by (simp_all add: reserved_stock_def current_stock_def get)
    then show ?thesis using q(5) by (simp add: reserves_upto_def c)
  qed
  then have "reserves_upto \<sigma> ?t" by (simp add: reserves_upto_def)
  moreover have "keys_ok ?t" using q(1) by (auto simp: keys_ok_def eq distinct_map_filter)
  moreover have "refs_ok ?t" using q(2) free by (fastforce simp: refs_ok_def eq)
  ultimately show ?thesis using q(3,4) by (simp add: market_inv_upto_def rows_ok_def fills_ok_def eq c)
qed

lemma inventory_event_inv: "inventory_event n k g b s = Inr s' \<Longrightarrow> market_inv_upto \<sigma> s' = market_inv_upto \<sigma> s"
  by (auto simp: inventory_event_def)

lemma add_inventory_inv:
  assumes "market_inv_upto \<sigma> s" "add_inventory now cur raw pv s = Inr (s', i)"
  shows "market_inv_upto \<sigma> s'"
proof -
  from assms(2) obtain d g where d: "inventory_create_schema raw = Inr d"
    and r: "hide_create_failure (let i = new_item_row (next_id s) now cur g d; s1 = ins_item i (s\<lparr>next_id := next_id s + 1\<rparr>) in
       bindR (item_write_check s i) (\<lambda>_.
       bindR (inventory_event ''inventory_created'' (i_id i) g (public_inventory_is_visible s1 (i_id i)) s1) (\<lambda>s2. Inr (s2, i)))) = Inr (s', i)"
    by (auto simp: add_inventory_def)
  have hide: "hide_create_failure x = Inr y \<Longrightarrow> x = Inr y" for x :: "'a result" and y
    by (auto simp: hide_create_failure_def split: sum.splits failure.splits if_splits)
  let ?i = "new_item_row (next_id s) now cur g d"
  from hide [OF r] obtain b where e: "inventory_event ''inventory_created'' (i_id ?i) g b (ins_item ?i (s\<lparr>next_id := next_id s + 1\<rparr>)) = Inr s'"
    by (auto simp: Let_def)
  have "0 \<le> pydec_val (ic_current_stock_mt d)"
    using d by (auto simp: inventory_create_schema_def valid_stock_def dest: finite_decimal_Inr split: sum.splits)
  then have "market_inv_upto \<sigma> (ins_item ?i (s\<lparr>next_id := next_id s + 1\<rparr>))"
    by (intro item_insert_inv [OF assms(1)]) (simp_all add: new_item_row_def)
  then show ?thesis using inventory_event_inv [OF e] by simp
qed

lemma update_inventory_inv:
  assumes "market_inv_upto \<sigma> s" "update_inventory now cur k raw pv s = Inr (s', j)"
  shows "market_inv_upto \<sigma> s'"
proof -
  from assms(2) obtain u g i b where u: "inventory_update_schema raw = Inr u" and i: "own_item k g s = Inr i"
    and e: "inventory_event ''inventory_updated'' k g b (put_item ((updated_item i u)\<lparr>i_updated_at := now\<rparr>) s) = Inr s'"
    by (auto simp: update_inventory_def Let_def)
  let ?j = "(updated_item i u)\<lparr>i_updated_at := now\<rparr>"
  have it: "item_of k s = Some i" using i by (auto simp: own_item_def split: option.splits if_splits)
  then have "0 \<le> i_current_stock_mt i" 
    using assms(1) by (auto simp: market_inv_upto_def reserves_upto_def current_stock_def dest: spec [of _ k])
  then have "0 \<le> i_current_stock_mt ?j"
    using u by (auto simp: updated_item_def inventory_update_schema_def valid_stock_def pred_opt_def dest: finite_decimal_Inr split: sum.splits option.splits)
  then have "market_inv_upto \<sigma> (put_item ?j s)"
    using it by (intro item_put_inv [OF assms(1)]) (auto simp: updated_item_def)
  then show ?thesis using inventory_event_inv [OF e] by simp
qed

lemma delete_inventory_inv:
  assumes "market_inv_upto \<sigma> s" "delete_inventory cur k pv s = Inr s'"
  shows "market_inv_upto \<sigma> s'"
proof -
  from assms(2) obtain g i b where i: "own_item k g s = Inr i" "assert_inventory_mutable s i True = Inr ()"
    and e: "inventory_event ''inventory_deleted'' k g b (del_item k s) = Inr s'"
    by (auto simp: delete_inventory_def)
  then have "i_id i = k" "item_of k s = Some i" by (auto simp: own_item_def split: option.splits if_splits)
  then have "market_inv_upto \<sigma> (del_item k s)"
    using i(2) by (intro item_delete_inv [OF assms(1)]) (auto simp: assert_inventory_mutable_def list_ex_iff reserved_stock_def)
  then show ?thesis using inventory_event_inv [OF e] by simp
qed

subsection \<open>Live listings of an item\<close>

definition listings_on :: "uuid \<Rightarrow> market_db \<Rightarrow> uuid set" where
  "listings_on k s = o_id ` {x \<in> set (orders s). o_inventory_item_id x = Some k \<and> live_status (o_status x)}"

lemma listings_on_cong: "orders t = orders s \<Longrightarrow> listings_on k t = listings_on k s"
  by (simp add: listings_on_def)

lemma listings_on_put:
  assumes "o_inventory_item_id y = Some k \<Longrightarrow> live_status (o_status y) \<Longrightarrow> o_id y \<in> listings_on k s"
  shows "listings_on k (put_order y s) \<subseteq> listings_on k s"
  using assms orders_put_mem [of _ y s] by (fastforce simp: listings_on_def)

lemma listings_on_member: "order_of j s = Some x \<Longrightarrow> o_inventory_item_id x = Some k \<Longrightarrow> live_status (o_status x) \<Longrightarrow> j \<in> listings_on k s"
  using order_of_mem [of j s x] by (auto simp: listings_on_def)

lemma filled_order_item [simp]: "o_inventory_item_id (filled_order q x) = o_inventory_item_id x"
  by (simp add: filled_order_def Let_def bump_version_def)

text \<open>Matching revives no order.\<close>

lemma match_step_listings:
  assumes "loop_inv \<sigma> (clk 0) (c # cs) m" "0 < o_remaining_quantity_mt (ms_new m)" "match_step cfg clk an cp c m = Inr m'"
  shows "listings_on k (ms_db m') \<subseteq> listings_on k (ms_db m)"
proof -
  have c: "order_of (o_id c) (ms_db m) = Some c" "live_status (o_status c)" "\<not> order_expired (clk 0) c"
    and n: "order_of (o_id (ms_new m)) (ms_db m) = Some (ms_new m)" "live_status (o_status (ms_new m))"
    using assms(1,2) by (auto simp: loop_inv_def)
  show ?thesis
  proof (cases "crossing_admitted (ms_new m) cp (ms_db m) c")
    case True
    with assms(3) c(3) have "fill_crossing cfg clk an c m = Inr m'" by (simp add: match_step_def)
    from fill_crossing_cases [OF this] obtain fee s1 q where
      s1: "mapR consume_matched (consumption_by_item (ms_new m) c q) (ms_db m) = Inr s1"
      and new': "ms_new m' = filled_order q (ms_new m)"
      and db: "ms_db m' = put_order (filled_order q c) (put_order (ms_new m') (ins_trade (last (ms_trades m')) (s1\<lparr>next_id := next_id s1 + 1\<rparr>)))"
      by metis
    define t where "t = ins_trade (last (ms_trades m')) (s1\<lparr>next_id := next_id s1 + 1\<rparr>)"
    note db = db [folded t_def]
    have o: "orders t = orders (ms_db m)" using consume_all_effect [OF s1] by (simp add: same_market_def t_def)
    have a: "listings_on k (put_order (ms_new m') t) \<subseteq> listings_on k (ms_db m)"
      using listings_on_put [of "ms_new m'" k t] listings_on_member [OF n(1) _ n(2), of k]
      unfolding listings_on_cong [OF o] by (simp add: new')
    have b: "listings_on k (put_order (filled_order q c) (put_order (ms_new m') t)) \<subseteq> insert (o_id c) (listings_on k (put_order (ms_new m') t))"
      using orders_put_mem [of _ "filled_order q c" "put_order (ms_new m') t"] by (fastforce simp: listings_on_def)
    show ?thesis
    proof (cases "o_inventory_item_id c = Some k")
      case True
      then show ?thesis using a b listings_on_member [OF c(1) True c(2)] by (auto simp: db)
    next
      case False
      then show ?thesis using a listings_on_put [of "filled_order q c" k "put_order (ms_new m') t"] by (auto simp: db)
    qed
  next
    case False
    then show ?thesis using assms(3) c(3) by (simp add: match_step_def)
  qed
qed

lemma match_loop_listings:
  "loop_inv \<sigma> (clk 0) cs m \<Longrightarrow> match_loop cfg clk an cp cs m = Inr m' \<Longrightarrow> listings_on k (ms_db m') \<subseteq> listings_on k (ms_db m)"
proof (induction cs arbitrary: m)
  case (Cons c cs)
  show ?case
  proof (cases "o_remaining_quantity_mt (ms_new m) \<le> 0")
    case False
    then obtain m1 where m1: "match_step cfg clk an cp c m = Inr m1" "match_loop cfg clk an cp cs m1 = Inr m'"
      using Cons.prems(2) by auto
    have pos: "0 < o_remaining_quantity_mt (ms_new m)" using False by simp
    have "loop_inv \<sigma> (clk 0) cs m1" by (rule match_step_loop_inv [OF Cons.prems(1) pos m1(1)])
    from Cons.IH [OF this m1(2)] match_step_listings [OF Cons.prems(1) pos m1(1), of k] show ?thesis by blast
  qed (use Cons.prems in simp)
qed simp

lemma match_order_listings:
  assumes "market_inv_upto \<sigma> s" "order_of (o_id new) s = Some new" "live_status (o_status new)"
    and "match_order e cfg clk new an pair s = Inr (s', ts)"
  shows "listings_on k s' \<subseteq> listings_on k s"
  using assms(4)
proof (cases rule: match_order_cases)
  case expired
  then show ?thesis using listings_on_put [of "bump_version (new\<lparr>o_status := EXPIRED\<rparr>)" k s] by (simp add: live_status_def)
next
  case (loop cp m)
  from match_loop_listings [OF crossing_orders_loop_inv [OF assms(1-3)] loop(5), of k]
  show ?thesis by (simp add: loop(6) listings_on_def)
qed simp

text \<open>Matching never touches free stock.\<close>

lemma match_step_free_stock:
  assumes "match_step cfg clk an cp c m = Inr m'"
  shows "current_stock (ms_db m') = current_stock (ms_db m)"
proof -
  have "current_stock (ms_db m') = current_stock (ms_db m)" if "fill_crossing cfg clk an c m = Inr m'"
  proof -
    from fill_crossing_cases [OF that] obtain s1 q where
      s1: "mapR consume_matched (consumption_by_item (ms_new m) c q) (ms_db m) = Inr s1"
      and db: "ms_db m' = put_order (filled_order q c) (put_order (ms_new m') (ins_trade (last (ms_trades m')) (s1\<lparr>next_id := next_id s1 + 1\<rparr>)))"
      by metis
    have "current_stock (ms_db m') = current_stock s1" by (simp add: db current_stock_def fun_eq_iff)
    then show ?thesis using consume_all_effect [OF s1] by simp
  qed
  then show ?thesis using assms by (auto simp: match_step_def current_stock_def fun_eq_iff split: if_splits)
qed

lemma match_loop_free_stock: "match_loop cfg clk an cp cs m = Inr m' \<Longrightarrow> current_stock (ms_db m') = current_stock (ms_db m)"
proof (induction cs arbitrary: m)
  case (Cons c cs)
  then show ?case using match_step_free_stock by (fastforce split: if_splits)
qed simp

lemma match_order_free_stock:
  assumes "match_order e cfg clk new an pair s = Inr (s', ts)"
  shows "current_stock s' = current_stock s"
  using assms
proof (cases rule: match_order_cases)
  case (loop cp m)
  then show ?thesis using match_loop_free_stock [OF loop(5)] by (simp add: current_stock_def fun_eq_iff)
qed (simp_all add: current_stock_def fun_eq_iff)

subsection \<open>Publication\<close>

lemma expire_pass_inv:
  assumes "market_inv_upto \<sigma> s" "expire_market_slice_orders e key now limit extra owns approved s = Inr (s', rows, orgs)"
  shows "market_inv_upto \<sigma> s'" "current_stock s' k + reserved_stock s' k = current_stock s k + reserved_stock s k"
    "orgs g = Some org \<Longrightarrow> organization_of g s = Some org"
proof -
  have "keys_ok s" using assms(1) by (simp add: market_inv_upto_def)
  note f = expiry_rows_facts [OF this, where key = key and now = now and n = limit]
  note a = assms(2) [unfolded expire_market_slice_orders_def Let_def]
  from a obtain s1 evs where s1: "mapR expire_one (expiry_rows key now limit s) s = Inr s1" "s' = enqueue_market_events evs s1"
    by auto
  obtain s2 where "mapR expire_one (expiry_rows key now limit s) s = Inr s2" "market_inv_upto \<sigma> s2"
    "\<forall>k. current_stock s2 k + reserved_stock s2 k = current_stock s k + reserved_stock s k"
    using expire_all [OF assms(1) f(1,3)] by blast
  with s1 show "market_inv_upto \<sigma> s'" "current_stock s' k + reserved_stock s' k = current_stock s k + reserved_stock s k"
    by (auto simp: current_stock_def reserved_stock_def)
  from a obtain ids where "lock_and_load_market_organizations s ids owns False approved = Inr orgs" by auto
  then show "orgs g = Some org \<Longrightarrow> organization_of g s = Some org"
    by (auto simp: lock_and_load_market_organizations_def Let_def split: if_splits)
qed

lemma expire_pass_live:
  assumes inv: "market_inv_upto \<sigma> s" and res: "expire_market_slice_orders e key now limit extra owns approved s = Inr (s', rows, orgs)"
    and x: "x \<in> set (orders s')" "live_status (o_status x)"
  shows "x \<in> set (orders s)"
proof -
  have "keys_ok s" using inv by (simp add: market_inv_upto_def)
  note f = expiry_rows_facts [OF this, where key = key and now = now and n = limit]
  from res obtain s1 evs where s1: "mapR expire_one (expiry_rows key now limit s) s = Inr s1" "s' = enqueue_market_events evs s1"
    by (auto simp: expire_market_slice_orders_def Let_def)
  from expire_all [OF inv f(1,3)] s1(1) have "set (orders s1) \<subseteq> lapsed_order ` set (expiry_rows key now limit s) \<union> set (orders s)" by auto
  moreover have "\<not> live_status (o_status (lapsed_order y))" for y by (simp add: lapsed_order_def live_status_def)
  ultimately show ?thesis using x s1(2) by auto
qed

text \<open>An item apart from its stock. The expiry pass only moves stock.\<close>

definition item_terms :: "inventory_item \<Rightarrow> inventory_item" where
  "item_terms i = i\<lparr>i_current_stock_mt := 0, i_reserved_stock_mt := 0\<rparr>"

lemma unreserve_item_terms:
  assumes "unreserve j q s = Inr s'"
  shows "map_option item_terms (item_of k s') = map_option item_terms (item_of k s)"
proof -
  have "map_option item_terms (item_of k (put_item i' s)) = map_option item_terms (item_of k s)"
    if "item_of m s = Some i" "item_terms i' = item_terms i" "i_id i' = i_id i" for m i i'
    using that row_by_SomeD [OF that(1)] by (auto simp: put_item_def row_by_put_row)
  then show ?thesis
    using assms by (auto simp: unreserve_def item_terms_def split: option.splits if_splits)
qed

lemma expire_all_item_terms:
  "mapR expire_one xs s = Inr s' \<Longrightarrow> map_option item_terms (item_of k s') = map_option item_terms (item_of k s)"
proof (induction xs arbitrary: s)
  case (Cons x xs)
  from Cons.prems obtain s2 where s2: "expire_one x s = Inr s2" "mapR expire_one xs s2 = Inr s'" by auto
  from s2(1) obtain s1 where s1: "unreserve (o_inventory_item_id x) (o_remaining_quantity_mt x) s = Inr s1" "inventory s2 = inventory s1"
    by (auto simp: expire_one_def)
  have "map_option item_terms (item_of k s1) = map_option item_terms (item_of k s)"
    by (rule unreserve_item_terms [OF s1(1)])
  then show ?case using Cons.IH [OF s2(2)] by (simp add: s1(2))
qed simp

lemma expire_pass_item:
  assumes "expire_market_slice_orders e key now limit extra owns approved s = Inr (s', rows, orgs)" "item_of k s' = Some i"
  shows "\<exists>j. item_of k s = Some j \<and> item_terms j = item_terms i"
proof -
  from assms(1) obtain s1 evs where s1: "mapR expire_one (expiry_rows key now limit s) s = Inr s1" "s' = enqueue_market_events evs s1"
    by (auto simp: expire_market_slice_orders_def Let_def)
  have "item_of k s1 = Some i" using assms(2) by (simp add: s1(2))
  then have "map_option item_terms (item_of k s) = Some (item_terms i)" using expire_all_item_terms [OF s1(1), of k] by simp
  then show ?thesis by (cases "item_of k s") auto
qed

lemma prepare_listing_cases:
  assumes "prepare_listing clk cur g org k pr dp idem s = Inr (Inr (s2, listing))"
  obtains i price expiry q where "own_item k g s = Inr i" "current_listing (clk 0) k s = None" "\<not> expired_backlog (clk 0) k s"
    "i_price_per_mt_usd i = Some price" "\<exists>p. p_id p = p_id pr \<and> p_is_active p \<and> require_minimum_order_quantity (stored_decimal (i_current_stock_mt i)) p = Inr q"
    "expiry = None \<or> expiry = Some (clk 2 + day_us)"
    "listing = listing_row (next_id s) (next_ordinal s) (clk 3) cur org i pr dp q price expiry idem"
    "reserve_inventory k q (s\<lparr>next_ordinal := next_ordinal s + 1\<rparr>) = Inr s2" "order_is_execution_qualified listing"
proof -
  note a = assms [unfolded prepare_listing_def next_order_acceptance_ordinal_def Let_def prod.case]
  from a obtain i found point where i: "own_item k g s = Inr i" and f: "resolve_catalog_product i s = Inr found"
    "resolve_delivery_point i s = Inr point" by auto
  note a1 = a [unfolded i f bindR_simps]
  from a1 have cl: "current_listing (clk 0) k s = None" by (auto split: option.splits)
  note a2 = a1 [unfolded cl option.case]
  from a2 have xb: "\<not> expired_backlog (clk 0) k s" by auto
  from a2 obtain p where p: "found = Some p" "p_id p = p_id pr" by (auto split: option.splits)
  note a3 = a2 [unfolded p(1) option.case]
  from a3 obtain q where q: "require_minimum_order_quantity (stored_decimal (i_current_stock_mt i)) p = Inr q" by auto
  note a4 = a3 [unfolded q bindR_simps]
  from a4 obtain price where price: "i_price_per_mt_usd i = Some price" by (auto split: option.splits)
  note a5 = a4 [unfolded price option.case bindR_simps]
  have "p_is_active p" using f(1) p(1) by (auto simp: resolve_catalog_product_def Let_def dest: scalar_one_or_none_SomeD split: if_splits)
  with p(2) q have pe: "\<exists>p. p_id p = p_id pr \<and> p_is_active p \<and> require_minimum_order_quantity (stored_decimal (i_current_stock_mt i)) p = Inr q"
    by blast
  have sp: "availability_window_expiry SPOT_WINDOW (clk 2) = Inr (clk 2 + day_us)"
    using normalize_canonical [OF canonical_SPOT] by (simp add: availability_window_expiry_def)
  show thesis
    using that [OF i cl xb price pe] a5 sp by (auto split: option.splits if_splits)
qed

lemma conclude_publication_cases:
  assumes "conclude_publication e cfg fl clk cur k listing s = Inr (s', z)"
  obtains s2 ts where
    "if AUTO_MATCHING_ENABLED fl
     then match_order e cfg (\<lambda>i. clk (i + 4)) listing True None (ins_order listing (s\<lparr>next_id := next_id s + 1\<rparr>)) = Inr (s2, ts)
     else s2 = ins_order listing (s\<lparr>next_id := next_id s + 1\<rparr>) \<and> ts = []"
    "market_part s' = market_part s2" "z = get_or (order_of (o_id listing) s2) listing"
proof -
  let ?s1 = "ins_order listing (s\<lparr>next_id := next_id s + 1\<rparr>)"
  note r0 = assms [unfolded conclude_publication_def Let_def]
  from r0 obtain s2 ts where m: "(if AUTO_MATCHING_ENABLED fl then match_order e cfg (\<lambda>i. clk (i + 4)) listing True None ?s1
      else Inr (?s1, [])) = Inr (s2, ts)"
    by (auto simp del: if_split)
  note r = r0 [unfolded m bindR_simps prod.case]
  let ?z = "get_or (order_of (o_id listing) s2) listing"
  from r obtain s3 evs ev where c: "collect_auto_match_side_effects ?z ts (Some (u_id cur))
      (project (EmitOrderCreated (o_id ?z)) (project (RebuildBenchmarks (o_id ?z)) s2)) = Inr (s3, evs)"
    "s' = enqueue_market_events (evs @ [ev]) (record_audit (Some (u_id cur)) ''inventory.published'' ''inventory'' k s3)" "z = ?z"
    by auto
  have "market_part s' = market_part s2" using side_effects_market [OF c(1)] by (simp add: c(2) frame_simps)
  then show thesis using that m c(3) by (auto split: if_splits)
qed

lemma publish_replay_SomeD:
  assumes "publish_replay s g idem = Inr (Some x)"
  shows "\<exists>key h. idem = Some (key, h) \<and> x \<in> set (orders s) \<and> o_organization_id x = g \<and>
    o_idempotency x = \<lparr>idempotency_key = Some key, idempotency_operation = Some ''inventory.publish'', idempotency_request_hash = Some h\<rparr>"
  using assms by (auto simp: publish_replay_def find_Some_iff intro!: nth_mem split: option.splits if_splits)

lemma current_listing_SomeD:
  "current_listing now k s = Some x \<Longrightarrow>
    x \<in> set (orders s) \<and> o_inventory_item_id x = Some k \<and> live_status (o_status x) \<and> \<not> order_expired now x"
  by (auto simp: current_listing_def find_Some_iff)

lemma prepare_listing_present:
  "prepare_listing clk cur g org k pr dp idem s = Inr (Inl x) \<Longrightarrow> current_listing (clk 0) k s = Some x"
  by (auto simp: prepare_listing_def next_order_acceptance_ordinal_def Let_def split: option.splits)

text \<open>A publication that is there already: the live listing of the item, or the order placed under the same key.\<close>

definition already_published :: "time \<Rightarrow> uuid \<Rightarrow> uuid \<Rightarrow> (string \<times> string) option \<Rightarrow> order \<Rightarrow> bool" where
  "already_published now k g idem x \<longleftrightarrow>
     (o_inventory_item_id x = Some k \<and> live_status (o_status x) \<and> \<not> order_expired now x) \<or>
     (\<exists>key h. idem = Some (key, h) \<and> o_organization_id x = g \<and>
        o_idempotency x = \<lparr>idempotency_key = Some key, idempotency_operation = Some ''inventory.publish'', idempotency_request_hash = Some h\<rparr>)"

lemma run_publication_cases:
  assumes inv: "market_inv_upto \<sigma> s" and res: "run_publication e cfg fl clk cur g k pr dp idem s = Inr (s', r)"
  obtains (present) x where "s' = s" "r = AlreadyPlaced x" "x \<in> set (orders s)" "already_published (clk 0) k g idem x"
  | (fresh) s1 rows orgs org s2 listing z where
      "expire_market_slice_orders e (ASK, p_id pr, Some (d_id dp), SPOT_WINDOW) (clk 1) MAX_EXPIRY_ROWS_PER_TRANSACTION [g]
         [\<lparr>mo_user_id = u_id cur, mo_organization_id = g\<rparr>] [g] s = Inr (s1, rows, orgs)"
      "orgs g = Some org" "prepare_listing clk cur g org k pr dp idem s1 = Inr (Inr (s2, listing))"
      "conclude_publication e cfg fl clk cur k listing s2 = Inr (s', z)" "r = Placed z"
proof -
  note a = res [unfolded run_publication_def Let_def]
  from a obtain s1 rows orgs where e: "expire_market_slice_orders e (ASK, p_id pr, Some (d_id dp), SPOT_WINDOW) (clk 1)
      MAX_EXPIRY_ROWS_PER_TRANSACTION [g] [\<lparr>mo_user_id = u_id cur, mo_organization_id = g\<rparr>] [g] s = Inr (s1, rows, orgs)"
    by auto
  from a have l: "acquire_market_slice_lock e (ASK, p_id pr, Some (d_id dp), SPOT_WINDOW) = Inr ()" by auto
  note a1 = a [unfolded l e bindR_simps prod.case]
  from a1 obtain org where o: "orgs g = Some org" by (auto split: option.splits)
  note a2 = a1 [unfolded o option.case]
  from a2 obtain q where q: "prepare_listing clk cur g org k pr dp idem s1 = Inr q" by auto
  note a3 = a2 [unfolded q bindR_simps]
  show thesis
  proof (cases q)
    case (Inl x)
    note c = current_listing_SomeD [OF prepare_listing_present [OF q [unfolded Inl]]]
    show thesis
      using a3 c expire_pass_live [OF inv e] by (intro present [of x]) (auto simp: Inl already_published_def)
  next
    case (Inr y)
    obtain s2 listing where y: "y = (s2, listing)" by fastforce
    note a4 = a3 [unfolded Inr y sum.case prod.case]
    show thesis
    proof (cases "insert_conflict (\<lambda>_. False) s2 listing")
      case True
      with a4 obtain x where x: "publish_replay s g idem = Inr (Some x)" "s' = s" "r = AlreadyPlaced x" by (auto split: option.splits)
      then show thesis using publish_replay_SomeD [OF x(1)] by (intro present [of x]) (auto simp: already_published_def)
    next
      case False
      then show thesis using a4 fresh [OF e o q [unfolded Inr y]] by auto
    qed
  qed
qed

lemma publish_cases:
  assumes "publish_inventory_item e cfg fl clk header cur k pv s = Inr (s', r)"
  obtains (present) x g idem where "s' = s" "r = AlreadyPlaced x" "x \<in> set (orders pv)" "u_organization_id cur = Some g"
      "publish_idempotency e header g k = Inr idem" "already_published (clk 0) k g idem x"
  | (fresh) g pr dp idem where "u_organization_id cur = Some g" "u_role cur = Some SUPPLIER" "publish_idempotency e header g k = Inr idem"
      "run_publication e cfg fl clk cur g k pr dp idem s = Inr (s', r)"
proof -
  note a = assms [unfolded publish_inventory_item_def]
  from a obtain g where g: "u_organization_id cur = Some g" by (auto split: option.splits)
  note a1 = a [unfolded g option.case]
  from a1 obtain idem replay where i: "publish_idempotency e header g k = Inr idem" "publish_replay pv g idem = Inr replay"
    by auto
  note a2 = a1 [unfolded i bindR_simps]
  show thesis
  proof (cases replay)
    case (Some x)
    then show thesis using a2 i publish_replay_SomeD [of pv g idem x] g by (intro present [of x g idem]) (auto simp: already_published_def)
  next
    case None
    note a3 = a2 [unfolded None option.case]
    from a3 obtain p where p: "publish_preview (clk 0) cur g k pv = Inr p" by auto
    have role: "u_role cur = Some SUPPLIER" using p by (auto simp: publish_preview_def)
    note a4 = a3 [unfolded p bindR_simps]
    show thesis
    proof (cases p)
      case (Inl x)
      have "current_listing (clk 0) k pv = Some x" using p unfolding Inl by (auto simp: publish_preview_def split: option.splits)
      then show thesis
        using a4 Inl i g current_listing_SomeD [of "clk 0" k pv x] by (intro present [of x g idem]) (auto simp: already_published_def)
    next
      case (Inr y)
      then show thesis using a4 fresh [OF g role i(1)] by (cases y) auto
    qed
  qed
qed

lemma stored_decimal_rest: "0 \<le> q - pydec_val (stored_decimal q)" "q - pydec_val (stored_decimal q) < 1 / 100"
proof -
  have "pydec_val (stored_decimal q) = of_int \<lfloor>q * 100\<rfloor> / 100" by (simp add: stored_decimal_def dec_value_def)
  moreover have "of_int \<lfloor>q * 100\<rfloor> \<le> q * 100" "q * 100 < of_int \<lfloor>q * 100\<rfloor> + 1" by (rule of_int_floor_le, linarith)
  ultimately show "0 \<le> q - pydec_val (stored_decimal q)" "q - pydec_val (stored_decimal q) < 1 / 100" by linarith+
qed

lemma minimum_quantity_value: "require_minimum_order_quantity v p = Inr q \<Longrightarrow> q = pydec_val v \<and> 0 < q"
  by (auto simp: require_minimum_order_quantity_def not_le dest!: finite_decimal_Inr split: sum.splits option.splits if_splits)

lemma listing_terms:
  assumes "prepare_listing clk cur g org k pr dp idem s = Inr (Inr (s2, listing))"
  shows "o_side listing = ASK" "o_inventory_item_id listing = Some k" "o_owner_user_id listing = Some (u_id cur)"
    "o_organization_id listing = g_id org" "o_expires_at listing = None \<or> o_expires_at listing = Some (clk 2 + day_us)"
    "o_id listing = next_id s" "o_remaining_quantity_mt listing = o_quantity_mt listing"
    "\<exists>i. item_of k s = Some i \<and> i_supplier_id i = Some g \<and> i_price_per_mt_usd i = Some (o_price_per_mt_usd listing) \<and>
       o_metadata listing = (i_metadata i)\<lparr>energy_density_mj_kg := None\<rparr>"
  using assms by (auto elim!: prepare_listing_cases simp: listing_row_def own_item_def split: option.splits if_splits)

lemma inserted_listing:
  assumes inv: "market_inv_upto \<sigma> s" and prep: "prepare_listing clk cur g org k pr dp idem s = Inr (Inr (s2, listing))"
  defines "t \<equiv> ins_order listing (s2\<lparr>next_id := next_id s2 + 1\<rparr>)"
  shows "market_inv_upto \<sigma> t" "order_of (o_id listing) t = Some listing" "listings_on k t \<subseteq> {o_id listing}"
    "live_status (o_status listing)" "0 \<le> current_stock t k \<and> current_stock t k < 1 / 100"
    "0 < o_quantity_mt listing \<and> o_quantity_mt listing \<le> current_stock s k"
proof -
  from prep obtain i price expiry q p where i: "own_item k g s = Inr i"
    and none: "current_listing (clk 0) k s = None" "\<not> expired_backlog (clk 0) k s"
    and lot: "require_minimum_order_quantity (stored_decimal (i_current_stock_mt i)) p = Inr q"
    and l: "listing = listing_row (next_id s) (next_ordinal s) (clk 3) cur org i pr dp q price expiry idem"
    and res: "reserve_inventory k q (s\<lparr>next_ordinal := next_ordinal s + 1\<rparr>) = Inr s2"
    by (rule prepare_listing_cases) blast
  let ?s0 = "s\<lparr>next_ordinal := next_ordinal s + 1\<rparr>"
  have it: "item_of k s = Some i" "i_id i = k" using i by (auto simp: own_item_def split: option.splits if_splits)
  have q: "q = pydec_val (stored_decimal (i_current_stock_mt i))" "0 < q" using minimum_quantity_value [OF lot] by auto
  have st0: "current_stock ?s0 = current_stock s" "reserved_stock ?s0 = reserved_stock s"
    by (simp_all add: current_stock_def reserved_stock_def fun_eq_iff)
  note st = stock.reserve_effect [OF res, unfolded st0]
  have fr: "same_market s s2" using same_market_stock(1) [OF res] by (simp add: same_market_def)
  then have nid: "next_id s2 = next_id s" "orders s2 = orders s" by (simp_all add: same_market_def)
  have res_ok: "\<And>j. 0 \<le> current_stock s j" using inv by (simp add: market_inv_upto_def reserves_upto_def)
  have lf: "o_id listing = next_id s" "o_inventory_item_id listing = Some k" "o_status listing = OPEN"
    "o_quantity_mt listing = q" "o_remaining_quantity_mt listing = q"
    by (simp_all add: l listing_row_def it)
  show "market_inv_upto \<sigma> t"
    unfolding t_def
  proof (rule order_insert [OF inv _ _ _ _ _ fr])
    show "reserved_stock s2 j = reserved_stock s j + order_commitment j listing" for j
      using st by (simp add: order_commitment_def lf live_status_def)
    show "0 \<le> current_stock s2 j" for j using st res_ok by simp
    show "j \<in> i_id ` set (inventory s)" if "o_inventory_item_id listing = Some j" for j
      using that lf(2) row_by_SomeD [OF it(1)] by auto
  qed (use q(2) in \<open>simp_all add: lf nid order_row_ok_def ORDER_LIFECYCLE_def\<close>)
  have ot: "orders t = orders s @ [listing]" by (simp add: t_def ins_order_def nid)
  have "\<forall>x\<in>set (orders s). o_id x < next_id s" using inv by (simp add: market_inv_upto_def keys_ok_def)
  then have "order_of (next_id s) s = None" by (auto simp: row_by_None_iff)
  then show "order_of (o_id listing) t = Some listing" by (simp add: ot row_by_append lf)
  have "\<not> (o_inventory_item_id x = Some k \<and> live_status (o_status x))" if "x \<in> set (orders s)" for x
    using none that by (auto simp: current_listing_def expired_backlog_def find_None_iff list_ex_iff)
  then show "listings_on k t \<subseteq> {o_id listing}" by (auto simp: listings_on_def ot)
  show "live_status (o_status listing)" by (simp add: lf live_status_def)
  have c: "current_stock t k = current_stock s k - q" using st by (simp add: t_def current_stock_def)
  have "current_stock s k = i_current_stock_mt i" by (simp add: current_stock_def it)
  then show "0 \<le> current_stock t k \<and> current_stock t k < 1 / 100" "0 < o_quantity_mt listing \<and> o_quantity_mt listing \<le> current_stock s k"
    using c q stored_decimal_rest [of "i_current_stock_mt i"] by (simp_all add: lf)
qed

text \<open>The stock of item \<open>k\<close> that a listing strands when it lapses before the engine sees it.\<close>

definition lapsed_listing :: "order_settings \<Rightarrow> (nat \<Rightarrow> time) \<Rightarrow> uuid \<Rightarrow> order \<Rightarrow> uuid \<Rightarrow> dec" where
  "lapsed_listing fl clk k z j = (if j = k \<and> AUTO_MATCHING_ENABLED fl \<and> order_expired (clk 4) z then o_quantity_mt z else 0)"

lemma concluded_listing:
  assumes inv: "market_inv_upto \<sigma> s" and prep: "prepare_listing clk cur g org k pr dp idem s = Inr (Inr (s2, listing))"
    and res: "conclude_publication e cfg fl clk cur k listing s2 = Inr (s', z)"
  defines "t \<equiv> ins_order listing (s2\<lparr>next_id := next_id s2 + 1\<rparr>)"
  shows "market_inv_upto (\<lambda>j. \<sigma> j + lapsed_listing fl clk k z j) s'" "order_of (o_id listing) s' = Some z" "entry_of z = entry_of listing"
    "listings_on k s' \<subseteq> {o_id listing}" "current_stock s' k = current_stock t k"
proof -
  note l = inserted_listing [OF inv prep, folded t_def]
  note f = listing_terms [OF prep]
  obtain s3 ts where m: "if AUTO_MATCHING_ENABLED fl then match_order e cfg (\<lambda>i. clk (i + 4)) listing True None t = Inr (s3, ts)
      else s3 = t \<and> ts = []"
    and s3: "market_part s' = market_part s3" "z = get_or (order_of (o_id listing) s3) listing"
    using conclude_publication_cases [OF res] unfolding t_def by metis
  note mp = market_part_eqD [OF s3(1)]
  have "market_inv_upto (\<lambda>j. \<sigma> j + lapsed_listing fl clk k listing j) s3 \<and> order_of (o_id listing) s3 = Some z \<and> entry_of z = entry_of listing \<and>
      listings_on k s3 \<subseteq> {o_id listing} \<and> current_stock s3 = current_stock t"
  proof (cases "AUTO_MATCHING_ENABLED fl")
    case True
    with m have mt: "match_order e cfg (\<lambda>i. clk (i + 4)) listing True None t = Inr (s3, ts)" by simp
    have "lapsed_listing fl clk k listing = stranded_by (clk 4) listing"
      using True f(2,7) l(4) by (auto simp: fun_eq_iff lapsed_listing_def stranded_by_def order_commitment_def)
    then show ?thesis
      using match_order_strands [OF l(1,2,4) mt] match_order_entry [OF l(1,2) _ mt] match_order_listings [OF l(1,2,4) mt, of k] l(3,4)
        match_order_free_stock [OF mt] s3(2) by (auto simp: get_or_def)
  qed (use m l s3(2) in \<open>auto simp: lapsed_listing_def get_or_def\<close>)
  moreover have stock: "current_stock s' = current_stock s3" by (simp add: current_stock_def mp(3) fun_eq_iff)
  ultimately have r: "market_inv_upto (\<lambda>j. \<sigma> j + lapsed_listing fl clk k listing j) s'" "order_of (o_id listing) s' = Some z" "entry_of z = entry_of listing"
    "listings_on k s' \<subseteq> {o_id listing}" "current_stock s' k = current_stock t k"
    using market_inv_cong [OF mp(1-3,10)] listings_on_cong [OF mp(1)] mp(1) stock by simp_all
  have "lapsed_listing fl clk k listing = lapsed_listing fl clk k z"
    using r(3) entry_of_eqD [OF r(3)] by (auto simp: lapsed_listing_def order_expired_def fun_eq_iff)
  with r show "market_inv_upto (\<lambda>j. \<sigma> j + lapsed_listing fl clk k z j) s'" "order_of (o_id listing) s' = Some z" "entry_of z = entry_of listing"
    "listings_on k s' \<subseteq> {o_id listing}" "current_stock s' k = current_stock t k"
    by simp_all
qed

lemma publish_strands:
  assumes "market_inv_upto \<sigma> s" "publish_inventory_item e cfg fl clk header cur k pv s = Inr (s', r)"
  shows "market_inv_upto (\<lambda>j. \<sigma> j + (case r of Placed z \<Rightarrow> lapsed_listing fl clk k z j | AlreadyPlaced x \<Rightarrow> 0)) s'"
  using assms(2)
proof (cases rule: publish_cases)
  case (fresh g pr dp idem)
  from assms(1) fresh(4) show ?thesis
  proof (cases rule: run_publication_cases)
    case (fresh s1 rows orgs org s2 listing z)
    then show ?thesis using concluded_listing(1) [OF expire_pass_inv(1) [OF assms(1) fresh(1)] fresh(3,4)] by simp
  qed (use assms(1) in simp)
qed (use assms(1) in simp)

text \<open>C31: publishing an inventory item is sound. If the item has a live listing already, or the request repeats one made under the
  same key, that order is returned and nothing changes. Otherwise the listing is a new ask of the calling supplier on
  exactly this item, at the item's price and with its metadata; it takes all of the free stock (less than a hundredth
  of a tonne stays free) and no more than the item held. It is then the one live listing of the
  item, unless the match that follows has filled it or found it lapsed, and then there is none. The
  ledgers stay exact, except that a listing that lapsed before its match leaves its quantity stranded.\<close>

theorem publication_sound:
  assumes "market_inv_upto \<sigma> s" "publish_inventory_item e cfg fl clk header cur k pv s = Inr (s', r)"
  shows "case r of
      AlreadyPlaced x \<Rightarrow> s' = s \<and> (x \<in> set (orders pv) \<or> x \<in> set (orders s)) \<and>
        (\<exists>g idem. u_organization_id cur = Some g \<and> publish_idempotency e header g k = Inr idem \<and> already_published (clk 0) k g idem x)
    | Placed z \<Rightarrow> market_inv_upto (\<lambda>j. \<sigma> j + lapsed_listing fl clk k z j) s' \<and>
        order_of (o_id z) s' = Some z \<and> o_side z = ASK \<and> o_inventory_item_id z = Some k \<and>
        listings_on k s' = (if live_status (o_status z) then {o_id z} else {}) \<and>
        o_owner_user_id z = Some (u_id cur) \<and> u_organization_id cur = Some (o_organization_id z) \<and> u_role cur = Some SUPPLIER \<and>
        (\<exists>i. item_of k s = Some i \<and> i_supplier_id i = Some (o_organization_id z) \<and> i_price_per_mt_usd i = Some (o_price_per_mt_usd z) \<and>
           o_metadata z = (i_metadata i)\<lparr>energy_density_mj_kg := None\<rparr>) \<and>
        0 < o_quantity_mt z \<and> o_quantity_mt z \<le> current_stock s k + reserved_stock s k \<and>
        0 \<le> current_stock s' k \<and> current_stock s' k < 1 / 100"
  using assms(2)
proof (cases rule: publish_cases)
  case (fresh g pr dp idem)
  note caller = fresh(1-3)
  from assms(1) fresh(4) show ?thesis
  proof (cases rule: run_publication_cases)
    case (present x)
    then show ?thesis using caller by auto
  next
    case (fresh s1 rows orgs org s2 listing z)
    note x = expire_pass_inv [OF assms(1) fresh(1)]
    note l = inserted_listing [OF x(1) fresh(3)] and f = listing_terms [OF fresh(3)] and c = concluded_listing [OF x(1) fresh(3,4)]
    have e: "o_id z = o_id listing" "o_side z = o_side listing" "o_inventory_item_id z = o_inventory_item_id listing"
      "o_owner_user_id z = o_owner_user_id listing" "o_organization_id z = o_organization_id listing"
      "o_price_per_mt_usd z = o_price_per_mt_usd listing" "o_metadata z = o_metadata listing" "o_quantity_mt z = o_quantity_mt listing"
      using c(2,3) order_of_mem [OF c(2)]
      by (auto simp: entry_of_def dest: arg_cong [where f = o_side] arg_cong [where f = o_inventory_item_id] arg_cong [where f = o_owner_user_id]
          arg_cong [where f = o_organization_id] arg_cong [where f = o_price_per_mt_usd] arg_cong [where f = o_metadata]
          arg_cong [where f = o_quantity_mt])
    obtain i where i: "item_of k s1 = Some i" "i_supplier_id i = Some g" "i_price_per_mt_usd i = Some (o_price_per_mt_usd listing)"
      "o_metadata listing = (i_metadata i)\<lparr>energy_density_mj_kg := None\<rparr>"
      using f(8) by blast
    obtain j where j: "item_of k s = Some j" "item_terms j = item_terms i" using expire_pass_item [OF fresh(1) i(1)] by blast
    have "i_supplier_id j = i_supplier_id i" "i_price_per_mt_usd j = i_price_per_mt_usd i" "i_metadata j = i_metadata i"
      using j(2) by (auto simp: item_terms_def dest: arg_cong [where f = i_supplier_id] arg_cong [where f = i_price_per_mt_usd]
          arg_cong [where f = i_metadata])
    then have terms: "\<exists>i. item_of k s = Some i \<and> i_supplier_id i = Some g \<and> i_price_per_mt_usd i = Some (o_price_per_mt_usd z) \<and>
        o_metadata z = (i_metadata i)\<lparr>energy_density_mj_kg := None\<rparr>"
      using i j(1) e by auto
    have "g_id org = g" using row_by_SomeD [OF x(3) [OF fresh(2)]] by simp
    then have own: "o_organization_id z = g" using e f(4) by simp
    have one: "listings_on k s' = (if live_status (o_status z) then {o_id z} else {})"
    proof (cases "live_status (o_status z)")
      case True
      then show ?thesis using listings_on_member [OF c(2), of k] c(4) e f(2) by auto
    next
      case False
      have "keys_ok s'" using c(1) by (simp add: market_inv_upto_def)
      then have "o_id listing \<notin> listings_on k s'" using False c(2) order_unique [of s'] by (fastforce simp: listings_on_def)
      then show ?thesis using False c(4) by auto
    qed
    have "0 \<le> reserved_stock s1 k" using x(1) commitment_nonneg by (simp add: market_inv_upto_def reserves_upto_def)
    then have "o_quantity_mt listing \<le> current_stock s k + reserved_stock s k" using l(6) x(2) [of k] by simp
    then show ?thesis using fresh(5) caller own one terms c(1,2,5) l(5,6) f(1-3) e by simp
  qed
qed auto

subsection \<open>Example\<close>

text \<open>The example item on the shelf, at a port and with no listing yet.\<close>

definition ex_shelf :: inventory_item where
  "ex_shelf = ex_item\<lparr>i_port_id := Some ''nl-rtm'', i_reserved_stock_mt := 0\<rparr>"

definition ex_shelf_db :: market_db where
  "ex_shelf_db = ex_db\<lparr>orders := [], inventory := [ex_shelf]\<rparr>"

lemma ex_shelf_simps [simp]:
  "i_id ex_shelf = 21" "i_supplier_id ex_shelf = Some 41" "i_port_id ex_shelf = Some ''nl-rtm''"
  "i_product_name ex_shelf = Some ''Bio Methanol''" "i_current_stock_mt ex_shelf = 1000" "i_reserved_stock_mt ex_shelf = 0"
  "i_price_per_mt_usd ex_shelf = Some 900" "i_is_certified ex_shelf = True" "i_metadata ex_shelf = ex_metadata"
  by (simp_all add: ex_shelf_def)

lemma ex_shelf_db_simps [simp]:
  "orders ex_shelf_db = []" "trades ex_shelf_db = []" "inventory ex_shelf_db = [ex_shelf]"
  "users ex_shelf_db = [ex_user 11 SUPPLIER 41, ex_user 12 BUYER 42]"
  "organizations ex_shelf_db = [ex_org 41 ''Supplier'', ex_org 42 ''Buyer'']"
  "products ex_shelf_db = [ex_product]" "delivery_points ex_shelf_db = [ex_point]"
  "ports ex_shelf_db = [\<lparr>pt_id = ''nl-rtm'', pt_name = ''Rotterdam'', pt_is_active = True\<rparr>]"
  "next_ordinal ex_shelf_db = 3" "next_id ex_shelf_db = 1000"
  by (simp_all add: ex_shelf_db_def)

lemma ex_shelf_market_inv: "market_inv ex_shelf_db"
  by (simp add: market_inv_upto_def keys_ok_def refs_ok_def rows_ok_def fills_ok_def reserves_upto_def committed_def reserved_stock_def current_stock_def)

lemma ex_shelf_catalog:
  "resolve_catalog_product ex_shelf ex_shelf_db = Inr (Some ex_product)" "resolve_delivery_point ex_shelf ex_shelf_db = Inr (Some ex_point)"
proof -
  have "canonical_market_product_expression ex_product \<noteq> None" "p_is_active ex_product" "p_name ex_product = ''Bio Methanol''"
    by (simp_all add: canonical_market_product_expression_def ex_product_def CANONICAL_PRODUCTS_def)
  then show "resolve_catalog_product ex_shelf ex_shelf_db = Inr (Some ex_product)"
    by (simp add: resolve_catalog_product_def scalar_one_or_none_def or_empty_def py_strip_def is_space_def)
  have "canonical_delivery_point_clause ex_point" "d_name ex_point = ''Rotterdam''"
    by (simp_all add: canonical_delivery_point_clause_def ex_point_def CANONICAL_DELIVERY_POINTS_def)
  then show "resolve_delivery_point ex_shelf ex_shelf_db = Inr (Some ex_point)"
    by (simp add: resolve_delivery_point_def scalar_one_or_none_def py_strip_def is_space_def)
qed

lemma ex_publication:
  "\<exists>s' z. publish_inventory_item ex_env ex_cfg (ex_flags\<lparr>AUTO_MATCHING_ENABLED := False\<rparr>) (\<lambda>_. 1000) None (ex_user 11 SUPPLIER 41) 21
     ex_shelf_db ex_shelf_db = Inr (s', Placed z) \<and> order_of (o_id z) s' = Some z"
proof -
  let ?u = "ex_user 11 SUPPLIER 41" and ?g = "ex_org 41 ''Supplier''" and ?k = "(ASK, p_id ex_product, Some (d_id ex_point), SPOT_WINDOW)"
  let ?fl = "ex_flags\<lparr>AUTO_MATCHING_ENABLED := False\<rparr>"
  have el: "execution_party_is_eligible ex_shelf_db (Some ?u) (Some ?g)" by (simp add: execution_party_is_eligible_def)
  have it: "own_item 21 41 ex_shelf_db = Inr ex_shelf" by (simp add: own_item_def)
  have none: "current_listing now 21 ex_shelf_db = None" for now by (simp add: current_listing_def)
  have pv: "publish_preview 1000 ?u 41 21 ex_shelf_db = Inr (Inr (ex_product, ex_point))"
    using el it none ex_shelf_catalog by (simp add: publish_preview_def)
  have lk: "acquire_market_slice_lock ex_env ?k = Inr ()" by (rule ex_slice_lock [OF canonical_SPOT])
  obtain orgs where orgs: "lock_and_load_market_organizations ex_shelf_db [41] [\<lparr>mo_user_id = 11, mo_organization_id = 41\<rparr>] False [41] = Inr orgs"
    "orgs 41 = Some ?g"
    using el by (simp add: lock_and_load_market_organizations_def Let_def ownership_by_user_def py_upper_def upper_char_def)
  have "expiry_rows ?k 1000 MAX_EXPIRY_ROWS_PER_TRANSACTION ex_shelf_db = []" by (simp add: expiry_rows_def)
  then have ex: "expire_market_slice_orders ex_env ?k 1000 MAX_EXPIRY_ROWS_PER_TRANSACTION [41] [\<lparr>mo_user_id = 11, mo_organization_id = 41\<rparr>] [41] ex_shelf_db =
      Inr (ex_shelf_db, [], orgs)"
    using lk orgs(1) by (simp add: expire_market_slice_orders_def MAX_EXPIRY_ROWS_PER_TRANSACTION_def lock_inventory_items_def enqueue_market_events_def List.map_filter_def)
  define listing where "listing = listing_row 1000 3 1000 ?u ?g ex_shelf ex_product ex_point 1000 900 None None"
  have lot: "require_minimum_order_quantity (stored_decimal 1000) ex_product = Inr 1000"
    by (simp add: require_minimum_order_quantity_def stored_decimal_def finite_decimal_def dec_value_def ex_product_def)
  have q: "supplier_product_metadata_error (Some (p_id ex_product)) (specification_standard (o_metadata listing))
      (carbon_intensity_method (o_metadata listing)) = None" "order_is_execution_qualified listing"
  proof -
    have "o_metadata listing = ex_metadata" "o_side listing = ASK" "o_product_id listing = p_id ex_product"
      by (simp_all add: listing_def listing_row_def ex_metadata_def)
    moreover have "BIOFUEL_SPECIFICATION_STANDARDS (p_id ex_product) = None"
      by (simp add: BIOFUEL_SPECIFICATION_STANDARDS_def ex_product_def B30_PRODUCT_ID_def B100_PRODUCT_ID_def)
    ultimately show "supplier_product_metadata_error (Some (p_id ex_product)) (specification_standard (o_metadata listing))
        (carbon_intensity_method (o_metadata listing)) = None" "order_is_execution_qualified listing"
      using ex_qualified(2) by (auto simp: supplier_product_metadata_error_def order_is_execution_qualified_def Let_def split: if_splits)
  qed
  obtain s2 where s2: "reserve_inventory 21 1000 (ex_shelf_db\<lparr>next_ordinal := 4\<rparr>) = Inr s2" "same_market ex_shelf_db s2"
    by (simp add: reserve_inventory_def same_market_def)
  have prep: "prepare_listing (\<lambda>_. 1000) ?u 41 ?g 21 ex_product ex_point None ex_shelf_db = Inr (Inr (s2, listing))"
    using it none ex_shelf_catalog lot q s2(1)
    by (simp add: prepare_listing_def expired_backlog_def next_order_acceptance_ordinal_def snapshot_organization_provenance_def listing_def)
  have "orders s2 = []" using s2(2) by (simp add: same_market_def)
  then have fit: "columns_fit listing" "\<not> insert_conflict (\<lambda>_. False) s2 listing"
    by (simp_all add: listing_def listing_row_def columns_fit_def insert_conflict_def pred_opt_def ex_metadata_def ORDER_DOMAIN_def
        ORDER_NUMERIC_VALUES_def ORDER_LIFECYCLE_def required_numeric_def optional_numeric_def snapshot_organization_provenance_def
        idempotency_all_or_none_def no_idempotency_def Let_def)
  have "\<exists>s' z. conclude_publication ex_env ex_cfg ?fl (\<lambda>_. 1000) ?u 21 listing s2 = Inr (s', z)"
    by (simp add: conclude_publication_def Let_def collect_auto_match_side_effects_def participant_market_event_def match_participants_def
        py_strip_def is_space_def)
  then obtain s' z where r: "conclude_publication ex_env ex_cfg ?fl (\<lambda>_. 1000) ?u 21 listing s2 = Inr (s', z)" by blast
  have "order_of (o_id listing) s' = Some z" by (rule concluded_listing(2) [OF ex_shelf_market_inv prep r])
  then have "order_of (o_id z) s' = Some z" using row_by_SomeD by fastforce
  then show ?thesis
    using el pv lk ex orgs(2) prep fit r
    by (auto simp: publish_inventory_item_def require_execution_eligible_user_def publish_idempotency_def truthy_header_def publish_replay_def
        run_publication_def)
qed

theorem publication_sound_witness:
  "\<exists>s' z. publish_inventory_item ex_env ex_cfg (ex_flags\<lparr>AUTO_MATCHING_ENABLED := False\<rparr>) (\<lambda>_. 1000) None (ex_user 11 SUPPLIER 41) 21
     ex_shelf_db ex_shelf_db = Inr (s', Placed z) \<and> market_inv s' \<and> 
     listings_on 21 s' = (if live_status (o_status z) then {o_id z} else {}) \<and> o_price_per_mt_usd z = 900 \<and> o_quantity_mt z \<le> 1000"
proof -
  obtain s' z where r: "publish_inventory_item ex_env ex_cfg (ex_flags\<lparr>AUTO_MATCHING_ENABLED := False\<rparr>) (\<lambda>_. 1000) None (ex_user 11 SUPPLIER 41) 21
     ex_shelf_db ex_shelf_db = Inr (s', Placed z)"
    using ex_publication by blast
  from publication_sound [OF ex_shelf_market_inv r] r show ?thesis
    by (auto simp: current_stock_def reserved_stock_def lapsed_listing_def)
qed

end
