(* ===== verification/Market_Invalidation.thy ===== *)
theory Market_Invalidation
  imports Market_Evidence Matching_Ledger
begin

section \<open>Revoking an organization's access to the market\<close>

text \<open>
  \<^verbatim>\<open>src/app/services/market_invalidation.py\<close> and its caller, \<open>reject_organization\<close> of
  \<^verbatim>\<open>src/app/routers/auth_simple.py\<close>: when an organization is rejected, its pending trades are cancelled, their
  quantities return to the orders they came from, its live orders are cancelled, and the
  stock behind all of that is released, in one transaction and at most a hundred rows of a kind.

  The rows to touch are read twice, before the advisory locks (\<open>pv\<close>) and under them (\<open>s\<close>); a difference makes
  the transaction start again. Writers of these rows hold the lock of their slice, so the second
  reading and the row locks that follow see the same database.
\<close>

definition MAX_INVALIDATION_ROWS_PER_TRANSACTION :: nat where
  "MAX_INVALIDATION_ROWS_PER_TRANSACTION = 100"

subsection \<open>The rows\<close>

type_synonym invalidation_identity = "uuid \<times> uuid \<times> OrderSide \<times> uuid \<times> uuid option \<times> string"

definition invalidation_identity :: "order \<Rightarrow> invalidation_identity" where
  "invalidation_identity x = (o_id x, o_organization_id x, o_side x, o_product_id x, o_delivery_point_id x, o_availability_window x)"

definition linked_ids :: "trade \<Rightarrow> uuid list" where
  "linked_ids t = List.map_filter id [t_bid_order_id t, t_ask_order_id t]"

definition party_pending :: "uuid \<Rightarrow> trade \<Rightarrow> bool" where
  "party_pending g t \<longleftrightarrow> t_status t = PENDING_CONFIRMATION \<and> (t_buyer_id t = g \<or> t_seller_id t = g)"

definition invalidation_preview :: "market_db \<Rightarrow> uuid \<Rightarrow> (trade list \<times> order list \<times> order list) result" where
  "invalidation_preview s g =
     (let n = MAX_INVALIDATION_ROWS_PER_TRANSACTION;
          ts = take (n + 1) (sort_key t_id (filter (party_pending g) (trades s)));
          owned = take (n + 1) (sort_key o_id (filter (\<lambda>x. o_organization_id x = g \<and> live_status (o_status x)) (orders s)));
          linked = sort_key o_id (filter (\<lambda>x. o_id x \<in> set (concat (map linked_ids ts))) (orders s)) in
      bindR (refuse (length ts > n \<or> length owned > n)
               (HTTPException 409 ''Market access invalidation exceeds the per-transaction bound; approval was not changed'')) (\<lambda>_.
      Inr (ts, owned, linked)))"

text \<open>The slices of the orders, and of old trades that have none.\<close>

definition invalidation_slices :: "trade list \<Rightarrow> order list \<Rightarrow> slice_key list" where
  "invalidation_slices ts xs =
     map (\<lambda>x. (o_side x, o_product_id x, o_delivery_point_id x, o_availability_window x)) xs
     @ List.map_filter (\<lambda>t.
         if t_bid_order_id t = None \<and> t_ask_order_id t = None
         then (case product_id (t_snapshot t) of None \<Rightarrow> None
               | Some pid \<Rightarrow> (case availability_window (t_snapshot t) of None \<Rightarrow> None
                   | Some w \<Rightarrow> if w = [] then None else Some (BID, pid, delivery_point_id (t_snapshot t), w)))
         else None) ts"

definition restored_by_order :: "trade list \<Rightarrow> uuid \<Rightarrow> dec" where
  "restored_by_order ts j = sum_list (map (\<lambda>t. sum_list (map (\<lambda>i. if i = j then t_quantity_mt t else 0) (linked_ids t))) ts)"

subsection \<open>One trade, one order, one item\<close>

definition invalidated_trade :: "trade \<Rightarrow> trade" where
  "invalidated_trade t = t\<lparr>t_status := TRADE_CANCELLED\<rparr>"

definition cancel_pending :: "uuid option \<Rightarrow> trade \<Rightarrow> market_db \<Rightarrow> market_db" where
  "cancel_pending actor t s = record_audit actor ''trade.cancelled'' ''trade'' (t_id t) (put_trade (invalidated_trade t) s)"

definition invalidated_status :: "time \<Rightarrow> uuid \<Rightarrow> dec \<Rightarrow> order \<Rightarrow> OrderBookStatus" where
  "invalidated_status now g restored x =
     (if withdrawn (o_status x) then o_status x
      else if o_organization_id x = g then CANCELLED
      else if order_expired now x then EXPIRED
      else if restored \<noteq> 0
      then (if o_remaining_quantity_mt x + restored = o_quantity_mt x then OPEN else PARTIALLY_FILLED)
      else o_status x)"

definition invalidation_release :: "time \<Rightarrow> uuid \<Rightarrow> dec \<Rightarrow> order \<Rightarrow> dec" where
  "invalidation_release now g restored x =
     (if withdrawn (o_status x) then restored
      else if o_organization_id x = g \<or> order_expired now x then o_remaining_quantity_mt x + restored
      else 0)"

definition invalidated_order :: "time \<Rightarrow> uuid \<Rightarrow> dec \<Rightarrow> order \<Rightarrow> order" where
  "invalidated_order now g restored x =
     (let y = x\<lparr>o_remaining_quantity_mt := o_remaining_quantity_mt x + restored, o_status := invalidated_status now g restored x\<rparr> in
      if restored \<noteq> 0 \<or> o_status y \<noteq> o_status x then bump_version y else y)"

fun add_release :: "uuid \<Rightarrow> dec \<Rightarrow> (uuid \<times> dec) list \<Rightarrow> (uuid \<times> dec) list" where
  "add_release i q [] = [(i, q)]"
| "add_release i q ((j, r) # rest) = (if j = i then (j, r + q) # rest else (j, r) # add_release i q rest)"

definition invalidation_audit :: "uuid \<Rightarrow> order \<Rightarrow> order \<Rightarrow> string" where
  "invalidation_audit g x y =
     (if o_organization_id x = g \<and> \<not> withdrawn (o_status x) then ''order.cancelled''
      else if o_status y = EXPIRED \<and> \<not> withdrawn (o_status x) then ''order.expired''
      else ''order.updated'')"

fun invalidate_orders ::
  "time \<Rightarrow> uuid \<Rightarrow> uuid option \<Rightarrow> (uuid \<Rightarrow> dec) \<Rightarrow> order list \<Rightarrow> market_db \<Rightarrow> (uuid \<times> dec) list
     \<Rightarrow> (market_db \<times> (uuid \<times> dec) list) result" where
  "invalidate_orders now g actor restored [] s releases = Inr (s, releases)"
| "invalidate_orders now g actor restored (x # xs) s releases =
     (let r = restored (o_id x);
          y = invalidated_order now g r x;
          release = invalidation_release now g r x in
      bindR (refuse (r \<noteq> 0 \<and> o_remaining_quantity_mt y > o_quantity_mt y)
               (HTTPException 409 ''Pending trade quantity exceeds its immutable order capacity'')) (\<lambda>_.
      let s1 = put_order y s;
          s2 = (if o_organization_id x = g \<or> r \<noteq> 0
                then record_audit actor (invalidation_audit g x y) ''order'' (o_id x) (project (EmitOrderUpdated (o_id x)) s1)
                else s1) in
      invalidate_orders now g actor restored xs s2
        (case o_inventory_item_id x of None \<Rightarrow> releases
         | Some i \<Rightarrow> if release > 0 then add_release i release releases else releases)))"

definition release_item :: "uuid \<times> dec \<Rightarrow> market_db \<Rightarrow> market_db result" where
  "release_item entry s = (case entry of (k, quantity) \<Rightarrow>
     case item_of k s of None \<Rightarrow> Inl KeyError
     | Some item \<Rightarrow>
         if i_reserved_stock_mt item < quantity
         then Inl (HTTPException 409 ''Inventory reservation is inconsistent; invalidation refused'')
         else Inr (put_item (item\<lparr>i_reserved_stock_mt := i_reserved_stock_mt item - quantity,
                               i_current_stock_mt := i_current_stock_mt item + quantity\<rparr>) s))"

subsection \<open>The invalidation\<close>

definition lock_invalidation ::
  "env \<Rightarrow> uuid \<Rightarrow> market_db \<Rightarrow> market_db \<Rightarrow> (trade list \<times> order list) result" where
  "lock_invalidation e g pv s =
     bindR (invalidation_preview pv g) (\<lambda>(ts0, owned0, linked0).
     let identities = set (map invalidation_identity (owned0 @ linked0));
         linked_order_ids = concat (map linked_ids ts0) in
     bindR (acquire_market_slice_locks e (invalidation_slices ts0 (owned0 @ linked0))) (\<lambda>_.
     bindR (invalidation_preview s g) (\<lambda>(ts1, owned1, linked1).
     bindR (refuse (set (map t_id ts1) \<noteq> set (map t_id ts0)
                    \<or> set (map invalidation_identity (owned1 @ linked1)) \<noteq> identities)
              (RetryableMarketTransactionError ''40001'')) (\<lambda>_.
     let ts = sort_key t_id (filter (\<lambda>t. t_id t \<in> set (map t_id ts0) \<and> party_pending g t) (trades s));
         ids = set (map o_id (owned0 @ linked0)) \<union> set linked_order_ids;
         xs = sort_key o_id (filter (\<lambda>x. o_id x \<in> ids) (orders s)) in
     bindR (refuse (set (map t_id ts) \<noteq> set (map t_id ts0)) (RetryableMarketTransactionError ''40001'')) (\<lambda>_.
     bindR (refuse (set (map o_id xs) \<noteq> ids) (RetryableMarketTransactionError ''40001'')) (\<lambda>_.
     Inr (ts, xs)))))))"

definition invalidate_organization_market_access ::
  "env \<Rightarrow> time \<Rightarrow> uuid \<Rightarrow> uuid option \<Rightarrow> string \<Rightarrow> string \<Rightarrow> bool \<Rightarrow> market_db \<Rightarrow> market_db \<Rightarrow> (market_db \<times> outbox_event list) result" where
  "invalidate_organization_market_access e now g actor reason reference public pv s =
     bindR (refuse (py_strip reason = [] \<or> py_strip reference = []) (ValueError ''market invalidation requires reason and reference'')) (\<lambda>_.
     bindR (lock_invalidation e g pv s) (\<lambda>(ts, xs).
     let organization_ids = remdups (g # map o_organization_id xs @ map t_buyer_id ts @ map t_seller_id ts) in
     bindR (lock_and_load_market_organizations s organization_ids [] False []) (\<lambda>_.
     bindR (invalidate_orders now g actor (restored_by_order ts) xs (fold (cancel_pending actor) ts s) []) (\<lambda>(s1, releases).
     bindR (lock_inventory_items s1 (map fst releases)) (\<lambda>_.
     bindR (mapR release_item releases s1) (\<lambda>s2.
     let s3 = fold (\<lambda>x. if o_organization_id x = g \<or> restored_by_order ts (o_id x) \<noteq> 0
                        then project (RebuildBenchmarks (o_id x)) else (\<lambda>s. s)) xs s2;
         s4 = record_audit actor ''market.access_invalidated'' ''organization'' g s3 in
     bindR (participant_market_event ''market_access_invalidated'' ''organization'' g organization_ids public) (\<lambda>ev.
     Inr (s4, [ev]))))))))"

subsection \<open>Rejecting an organization\<close>

definition invalidate_membership_bound_kyc :: "uuid \<Rightarrow> user \<Rightarrow> market_db \<Rightarrow> market_db" where
  "invalidate_membership_bound_kyc actor u s =
     (if u_kyc_organization_id u = None \<and> u_kyc_status u = ''PENDING'' then s
      else record_audit (Some actor) ''kyc.membership_invalidated'' ''kyc'' (u_id u) s)"

definition detached_member :: "user \<Rightarrow> user" where
  "detached_member u = u\<lparr>u_kyc_status := ''PENDING'', u_kyc_organization_id := None, u_organization_id := None\<rparr>"

definition reject_organization ::
  "env \<Rightarrow> time \<Rightarrow> time \<Rightarrow> user \<Rightarrow> uuid \<Rightarrow> market_db \<Rightarrow> market_db \<Rightarrow> market_db result" where
  "reject_organization e tx_now now cur g pv s =
     bindR (refuse (u_role cur \<noteq> Some ADMIN) (HTTPException 403 ''Forbidden'')) (\<lambda>_.
     case organization_of g s of None \<Rightarrow> Inl (HTTPException 404 ''Organization not found'')
     | Some org \<Rightarrow>
     let public_before = organization_has_public_market_projection s tx_now g;
         members = filter (\<lambda>u. u_organization_id u = Some g) (users s);
         s1 = fold (invalidate_membership_bound_kyc (u_id cur)) members s;
         s2 = s1\<lparr>organizations := put_row g_id (org\<lparr>g_verification_status := ''REJECTED''\<rparr>) (organizations s1),
                users := map (\<lambda>u. if u_organization_id u = Some g then detached_member u else u) (users s1)\<rparr> in
     bindR (invalidate_organization_market_access e now g (Some (u_id cur)) ''organization_rejected''
              (''organization:'' @ uuid_str g) public_before pv s2) (\<lambda>(s3, evs).
     Inr (record_audit (Some (u_id cur)) ''admin.organization_rejected'' ''organization'' g (enqueue_market_events evs s3))))"

subsection \<open>Cancelled trades and invalidated orders\<close>

lemma cancel_pending_effect:
  assumes "distinct (map t_id ts)" "\<forall>t\<in>set (trades s). t_id t \<in> t_id ` set ts \<longrightarrow> t \<in> set ts"
  shows "trades (fold (cancel_pending actor) ts s) = map (\<lambda>t. if t_id t \<in> t_id ` set ts then invalidated_trade t else t) (trades s)"
    "orders (fold (cancel_pending actor) ts s) = orders s" "inventory (fold (cancel_pending actor) ts s) = inventory s"
    "next_id (fold (cancel_pending actor) ts s) = next_id s"
proof -
  have "trades (fold (cancel_pending actor) ts s) = fold (\<lambda>t. put_row t_id (invalidated_trade t)) ts (trades s)"
    by (induction ts arbitrary: s) (simp_all add: cancel_pending_def put_trade_def)
  then show "trades (fold (cancel_pending actor) ts s) = map (\<lambda>t. if t_id t \<in> t_id ` set ts then invalidated_trade t else t) (trades s)"
    using put_rows_map [OF assms, where f = invalidated_trade] by (simp add: invalidated_trade_def)
  show "orders (fold (cancel_pending actor) ts s) = orders s" "inventory (fold (cancel_pending actor) ts s) = inventory s"
    "next_id (fold (cancel_pending actor) ts s) = next_id s"
    by (induction ts arbitrary: s) (simp_all add: cancel_pending_def)
qed

lemma invalidated_order_fields [simp]:
  "o_id (invalidated_order now g r x) = o_id x" "o_inventory_item_id (invalidated_order now g r x) = o_inventory_item_id x"
  "o_quantity_mt (invalidated_order now g r x) = o_quantity_mt x" "o_status (invalidated_order now g r x) = invalidated_status now g r x"
  "o_remaining_quantity_mt (invalidated_order now g r x) = o_remaining_quantity_mt x + r"
  "o_organization_id (invalidated_order now g r x) = o_organization_id x"
  by (simp_all add: invalidated_order_def Let_def bump_version_def)

lemma taken_add: "taken k (add_release i q xs) = taken k xs + (if i = k then q else 0)"
  by (induction i q xs rule: add_release.induct) (auto simp: taken_def)

lemma invalidate_orders_effect:
  assumes "invalidate_orders now g actor restored xs s rel = Inr (s', rel')"
  shows "orders s' = fold (\<lambda>x. put_row o_id (invalidated_order now g (restored (o_id x)) x)) xs (orders s)"
    "trades s' = trades s" "inventory s' = inventory s" "next_id s' = next_id s"
    "taken k rel' = taken k rel + sum_list (map (\<lambda>x. if o_inventory_item_id x = Some k \<and> invalidation_release now g (restored (o_id x)) x > 0
       then invalidation_release now g (restored (o_id x)) x else 0) xs)"
    "x \<in> set xs \<Longrightarrow> restored (o_id x) = 0 \<or> o_remaining_quantity_mt x + restored (o_id x) \<le> o_quantity_mt x"
  using assms
proof (atomize(full), induction xs arbitrary: s rel)
  case (Cons y ys)
  let ?r = "restored (o_id y)"
  define s2 where "s2 = (if o_organization_id y = g \<or> ?r \<noteq> 0
      then record_audit actor (invalidation_audit g y (invalidated_order now g ?r y)) ''order'' (o_id y)
        (project (EmitOrderUpdated (o_id y)) (put_order (invalidated_order now g ?r y) s))
      else put_order (invalidated_order now g ?r y) s)"
  define rel2 where "rel2 = (case o_inventory_item_id y of None \<Rightarrow> rel
      | Some i \<Rightarrow> if invalidation_release now g ?r y > 0 then add_release i (invalidation_release now g ?r y) rel else rel)"
  from Cons.prems have c: "?r = 0 \<or> o_remaining_quantity_mt y + ?r \<le> o_quantity_mt y"
    and n: "invalidate_orders now g actor restored ys s2 rel2 = Inr (s', rel')"
    by (auto simp: Let_def s2_def rel2_def)
  have s2: "orders s2 = put_row o_id (invalidated_order now g ?r y) (orders s)" "trades s2 = trades s" "inventory s2 = inventory s"
    "next_id s2 = next_id s"
    by (simp_all add: s2_def put_order_def)
  have "taken k rel2 = taken k rel + (if o_inventory_item_id y = Some k \<and> invalidation_release now g ?r y > 0
      then invalidation_release now g ?r y else 0)"
    by (simp add: rel2_def taken_add split: option.splits)
  then show ?case using Cons.IH [OF n] c by (auto simp: s2)
qed simp

lemma release_item_effect:
  assumes "release_item (i, q) s = Inr s1"
  shows "same_market s s1 \<and> current_stock s1 = (current_stock s)(i := current_stock s i + q) \<and>
    reserved_stock s1 = (reserved_stock s)(i := reserved_stock s i - q)"
  using assms
  by (auto simp: release_item_def stock_put_item current_stock_def [of s i] reserved_stock_def [of s i]
      fun_eq_iff split: option.splits if_splits)

lemma release_items_effect:
  assumes "mapR release_item es s = Inr s1"
  shows "same_market s s1" "current_stock s1 k = current_stock s k + taken k es" "reserved_stock s1 k = reserved_stock s k - taken k es"
  using assms
proof (atomize(full), induction es arbitrary: s)
  case (Cons e es)
  obtain i q where e: "e = (i, q)" by fastforce
  from Cons.prems obtain t where t: "release_item (i, q) s = Inr t" "mapR release_item es t = Inr s1"
    by (auto simp: e)
  from Cons.IH [OF t(2)] release_item_effect [OF t(1)] show ?case
    by (auto simp: e taken_def same_market_def)
qed (simp add: taken_def)

subsection \<open>The locked rows\<close>

lemma preview_complete:
  assumes "invalidation_preview s g = Inr (ts, owned, linked)"
  shows "set ts = {t \<in> set (trades s). party_pending g t}"
    "set owned = {x \<in> set (orders s). o_organization_id x = g \<and> live_status (o_status x)}"
    "set linked = {x \<in> set (orders s). o_id x \<in> (\<Union>t\<in>set ts. set (linked_ids t))}"
proof -
  let ?n = "MAX_INVALIDATION_ROWS_PER_TRANSACTION"
  let ?t = "filter (party_pending g) (trades s)" and ?o = "filter (\<lambda>x. o_organization_id x = g \<and> live_status (o_status x)) (orders s)"
  have r: "ts = take (?n + 1) (sort_key t_id ?t)" "owned = take (?n + 1) (sort_key o_id ?o)" "length ts \<le> ?n" "length owned \<le> ?n"
    "linked = sort_key o_id (filter (\<lambda>x. o_id x \<in> set (concat (map linked_ids ts))) (orders s))"
    using assms by (auto simp: invalidation_preview_def Let_def)
  then have "ts = sort_key t_id ?t" "owned = sort_key o_id ?o" by auto
  then show "set ts = {t \<in> set (trades s). party_pending g t}"
    "set owned = {x \<in> set (orders s). o_organization_id x = g \<and> live_status (o_status x)}" by auto
  show "set linked = {x \<in> set (orders s). o_id x \<in> (\<Union>t\<in>set ts. set (linked_ids t))}" using r(5) by auto
qed

lemma sort_key_distinct: "distinct (map pk rs) \<Longrightarrow> distinct (map pk (sort_key pk (filter P rs)))"
  by (metis distinct_map distinct_map_filter distinct_sort set_sort)

lemma invalidation_rows:
  assumes "keys_ok s" "refs_ok s" "lock_invalidation e g pv s = Inr (ts, xs)"
  shows "distinct (map t_id ts)" "set ts = {t \<in> set (trades s). party_pending g t}" "distinct (map o_id xs)"
    "set xs \<subseteq> set (orders s)" "\<And>y. y \<in> set (orders s) \<Longrightarrow> o_id y \<in> o_id ` set xs \<Longrightarrow> y \<in> set xs"
    "\<And>x. x \<in> set (orders s) \<Longrightarrow> o_organization_id x = g \<Longrightarrow> live_status (o_status x) \<Longrightarrow> x \<in> set xs"
    "\<And>t j. t \<in> set ts \<Longrightarrow> j \<in> set (linked_ids t) \<Longrightarrow> \<exists>x\<in>set xs. o_id x = j"
proof -
  note a = assms(3) [unfolded lock_invalidation_def Let_def]
  from a obtain ts0 owned0 linked0 where p0: "invalidation_preview pv g = Inr (ts0, owned0, linked0)" by auto
  note a1 = a [unfolded p0 bindR_simps prod.case]
  from a1 obtain ts1 owned1 linked1 where p1: "invalidation_preview s g = Inr (ts1, owned1, linked1)" by auto
  note a2 = a1 [unfolded p1 bindR_simps prod.case]
  note c = preview_complete [OF p1]
  define ids where "ids = set (map o_id (owned0 @ linked0)) \<union> set (concat (map linked_ids ts0))"
  from a2 have eq: "set (map t_id ts1) = set (map t_id ts0)"
    "set (map invalidation_identity (owned1 @ linked1)) = set (map invalidation_identity (owned0 @ linked0))"
    and ts: "ts = sort_key t_id (filter (\<lambda>t. t_id t \<in> set (map t_id ts0) \<and> party_pending g t) (trades s))"
    and xs: "xs = sort_key o_id (filter (\<lambda>x. o_id x \<in> ids) (orders s))"
    by (auto simp: ids_def)
  have d: "distinct (map t_id (trades s))" "distinct (map o_id (orders s))" using assms(1) by (simp_all add: keys_ok_def)
  show "distinct (map t_id ts)" "distinct (map o_id xs)" unfolding ts xs using d by (simp_all add: sort_key_distinct)
  show ts': "set ts = {t \<in> set (trades s). party_pending g t}"
    using c(1) eq(1) by (auto simp: ts)
  show "set xs \<subseteq> set (orders s)" "\<And>y. y \<in> set (orders s) \<Longrightarrow> o_id y \<in> o_id ` set xs \<Longrightarrow> y \<in> set xs"
    by (auto simp: xs)
  have "fst ` set (map invalidation_identity (owned1 @ linked1)) = fst ` set (map invalidation_identity (owned0 @ linked0))"
    by (simp only: eq(2))
  then have ids: "o_id ` (set owned1 \<union> set linked1) \<subseteq> ids"
    by (auto simp: image_Un image_image invalidation_identity_def ids_def)
  show "x \<in> set xs" if "x \<in> set (orders s)" "o_organization_id x = g" "live_status (o_status x)" for x
    using that ids c(2) by (auto simp: xs)
  show "\<exists>x\<in>set xs. o_id x = j" if t: "t \<in> set ts" "j \<in> set (linked_ids t)" for t j
  proof -
    have "t \<in> set (trades s)" "t \<in> set ts1" using t(1) ts' c(1) by auto
    moreover have "t_bid_order_id t = Some j \<or> t_ask_order_id t = Some j"
      using t(2) by (auto simp: linked_ids_def List.map_filter_def split: if_splits)
    ultimately obtain x where x: "x \<in> set (orders s)" "o_id x = j" using assms(2) by (fastforce simp: refs_ok_def)
    then have "x \<in> set linked1" using \<open>t \<in> set ts1\<close> t(2) c(3) by auto
    then show ?thesis using ids x by (auto simp: xs)
  qed
qed

subsection \<open>The ledgers\<close>

lemma pending_link:
  assumes "trade_row_ok t" "t_status t = PENDING_CONFIRMATION"
  shows "linked_ids t = (case linked_order_id t of None \<Rightarrow> [] | Some j \<Rightarrow> [j])"
    "(t_bid_order_id t = Some j \<or> t_ask_order_id t = Some j) \<longleftrightarrow> linked_order_id t = Some j"
  using assms by (auto simp: trade_row_ok_def linked_ids_def linked_order_id_def List.map_filter_def split: option.splits)

lemma restored_linked:
  assumes "\<And>t. t \<in> set ts \<Longrightarrow> trade_row_ok t \<and> t_status t = PENDING_CONFIRMATION"
  shows "restored_by_order ts j = sum_list (map (\<lambda>t. if linked_order_id t = Some j then t_quantity_mt t else 0) ts)"
  unfolding restored_by_order_def
  by (rule arg_cong [where f = sum_list], rule map_cong [OF refl]) (use assms pending_link(1) in \<open>auto split: option.splits\<close>)

lemma sum_list_update:
  fixes h :: "'a \<Rightarrow> dec"
  assumes "distinct (map pk rs)" "distinct (map pk xs)" "set xs \<subseteq> set rs" "\<And>y. y \<in> set rs \<Longrightarrow> pk y \<in> pk ` set xs \<Longrightarrow> y \<in> set xs"
  shows "sum_list (map (\<lambda>y. h (if pk y \<in> pk ` set xs then f y else y)) rs) =
    sum_list (map h rs) + sum_list (map (\<lambda>x. h (f x) - h x) xs)"
proof -
  have d: "distinct rs" "distinct xs" using assms(1,2) by (auto simp: distinct_map)
  have "(\<Sum>y\<in>set rs. h (if pk y \<in> pk ` set xs then f y else y)) = (\<Sum>y\<in>set rs. h y + (if y \<in> set xs then h (f y) - h y else 0))"
    using assms(4) by (intro sum.cong) auto
  also have "\<dots> = (\<Sum>y\<in>set rs. h y) + (\<Sum>y\<in>set xs. h (f y) - h y)"
    using assms(3) by (simp add: sum.distrib sum.inter_restrict [symmetric] Int_absorb1)
  finally show ?thesis using d by (simp add: sum_list_distinct_conv_sum_set)
qed

text \<open>One order of the batch: what its row, its fill account and its commitment become.\<close>

lemma invalidated_row:
  assumes "order_row_ok x" "0 \<le> r" "r = 0 \<or> o_remaining_quantity_mt x + r \<le> o_quantity_mt x"
  shows "order_row_ok (invalidated_order now g r x)"
    "order_filled f x \<Longrightarrow> order_filled (f - r) (invalidated_order now g r x)"
    "order_commitment k (invalidated_order now g r x) - order_commitment k x - (if o_inventory_item_id x = Some k then r else 0) =
     - (if o_inventory_item_id x = Some k \<and> invalidation_release now g r x > 0 then invalidation_release now g r x else 0)"
proof -
  have st: "o_status x = OPEN \<and> o_remaining_quantity_mt x = o_quantity_mt x
      \<or> o_status x = PARTIALLY_FILLED \<and> o_remaining_quantity_mt x < o_quantity_mt x
      \<or> o_status x = FILLED \<and> o_remaining_quantity_mt x = 0 \<or> withdrawn (o_status x)"
    and rem: "0 \<le> o_remaining_quantity_mt x" "o_remaining_quantity_mt x \<le> o_quantity_mt x" "0 < o_quantity_mt x"
    using assms(1) by (auto simp: order_row_ok_def ORDER_LIFECYCLE_def withdrawn_def)
  show "order_row_ok (invalidated_order now g r x)"
    using assms rem by (auto simp: order_row_ok_def ORDER_LIFECYCLE_def invalidated_status_def withdrawn_def)
  show "order_filled f x \<Longrightarrow> order_filled (f - r) (invalidated_order now g r x)"
    by (auto simp: order_filled_def invalidated_status_def withdrawn_def split: if_splits)
  show "order_commitment k (invalidated_order now g r x) - order_commitment k x - (if o_inventory_item_id x = Some k then r else 0) =
     - (if o_inventory_item_id x = Some k \<and> invalidation_release now g r x > 0 then invalidation_release now g r x else 0)"
    using st rem assms(2)
    by (auto simp: order_commitment_def invalidated_status_def invalidation_release_def withdrawn_def live_status_def)
qed

text \<open>The batch of one invalidation: all pending trades of the organization and orders that include every order they name.\<close>

definition invalidation_batch :: "market_db \<Rightarrow> uuid \<Rightarrow> trade list \<Rightarrow> order list \<Rightarrow> bool" where
  "invalidation_batch s g ts xs \<longleftrightarrow>
     distinct (map t_id ts) \<and> set ts = {t \<in> set (trades s). party_pending g t} \<and>
     distinct (map o_id xs) \<and> set xs \<subseteq> set (orders s) \<and> (\<forall>y\<in>set (orders s). o_id y \<in> o_id ` set xs \<longrightarrow> y \<in> set xs) \<and>
     (\<forall>t\<in>set ts. set (linked_ids t) \<subseteq> o_id ` set xs)"

lemma invalidation_ledgers:
  assumes inv: "market_inv_upto \<sigma> s"
    and batch: "invalidation_batch s g ts xs"
  defines "R \<equiv> restored_by_order ts"
  shows "0 \<le> R j" "j \<notin> o_id ` set xs \<Longrightarrow> R j = 0"
    "sum_list (map (trade_fill j) ts) = R j"
    "sum_list (map (trade_commitment (order_item s) k) ts) = sum_list (map (\<lambda>x. if o_inventory_item_id x = Some k then R (o_id x) else 0) xs)"
proof -
  have ts: "distinct (map t_id ts)" "set ts = {t \<in> set (trades s). party_pending g t}"
    and xs: "distinct (map o_id xs)" "set xs \<subseteq> set (orders s)" "\<And>y. y \<in> set (orders s) \<Longrightarrow> o_id y \<in> o_id ` set xs \<Longrightarrow> y \<in> set xs"
    using batch by (simp_all add: invalidation_batch_def)
  have ok: "trade_row_ok t \<and> t_status t = PENDING_CONFIRMATION" if "t \<in> set ts" for t
    using inv that ts(2) by (auto simp: market_inv_upto_def rows_ok_def party_pending_def)
  have R: "R i = sum_list (map (\<lambda>t. if linked_order_id t = Some i then t_quantity_mt t else 0) ts)" for i
    unfolding R_def by (rule restored_linked [OF ok])
  show "0 \<le> R j" unfolding R using ok by (intro sum_list_nonneg) (auto simp: trade_row_ok_def less_imp_le)
  have lk: "\<exists>x\<in>set xs. o_id x = i" if "t \<in> set ts" "linked_order_id t = Some i" for t i
    using batch that pending_link(1) [of t] ok [OF that(1)] by (fastforce simp: invalidation_batch_def)
  show "R j = 0" if j: "j \<notin> o_id ` set xs"
  proof -
    have "linked_order_id t \<noteq> Some j" if "t \<in> set ts" for t using lk [OF that] j by blast
    then show ?thesis unfolding R by (simp cong: map_cong)
  qed
  show "sum_list (map (trade_fill j) ts) = R j"
    unfolding R by (rule arg_cong [where f = sum_list], rule map_cong [OF refl])
      (use ok pending_link(2) in \<open>auto simp: trade_fill_def\<close>)
  have dx: "distinct xs" using xs(1) by (simp add: distinct_map)
  have dt: "distinct ts" using ts(1) by (simp add: distinct_map)
  have one: "trade_commitment (order_item s) k t =
      (\<Sum>x\<in>set xs. if o_inventory_item_id x = Some k then if linked_order_id t = Some (o_id x) then t_quantity_mt t else 0 else 0)" if t: "t \<in> set ts" for t
  proof (cases "linked_order_id t")
    case None
    then show ?thesis by (simp add: trade_commitment_def cong: if_cong)
  next
    case (Some i)
    obtain x0 where x0: "x0 \<in> set xs" "o_id x0 = i" using lk [OF t Some] by blast
    have "keys_ok s" using inv by (simp add: market_inv_upto_def)
    then have "order_of i s = Some x0" using order_unique [of s x0] x0 xs(2) by auto
    then have it: "order_item s i = o_inventory_item_id x0" by (simp add: order_item_def)
    have "i = o_id x \<longleftrightarrow> x = x0" if "x \<in> set xs" for x using that x0 xs(1) by (auto simp: distinct_map dest: inj_onD)
    then have "(\<Sum>x\<in>set xs. if o_inventory_item_id x = Some k then if linked_order_id t = Some (o_id x) then t_quantity_mt t else 0 else 0) =
        (\<Sum>x\<in>set xs. if x = x0 then (if o_inventory_item_id x0 = Some k then t_quantity_mt t else 0) else 0)"
      using Some by (intro sum.cong) (simp_all, metis)
    also have "\<dots> = (if o_inventory_item_id x0 = Some k then t_quantity_mt t else 0)" using x0(1) by (simp add: sum.delta')
    finally show ?thesis using ok [OF t] Some it by (simp add: trade_commitment_def)
  qed
  have "sum_list (map (trade_commitment (order_item s) k) ts) = (\<Sum>t\<in>set ts. trade_commitment (order_item s) k t)"
    by (rule sum_list_distinct_conv_sum_set [OF dt])
  also have "\<dots> = (\<Sum>t\<in>set ts. \<Sum>x\<in>set xs. if o_inventory_item_id x = Some k then if linked_order_id t = Some (o_id x) then t_quantity_mt t else 0 else 0)"
    using one by (intro sum.cong) simp_all
  also have "\<dots> = (\<Sum>x\<in>set xs. \<Sum>t\<in>set ts. if o_inventory_item_id x = Some k then if linked_order_id t = Some (o_id x) then t_quantity_mt t else 0 else 0)"
    by (rule sum.swap)
  also have "\<dots> = (\<Sum>x\<in>set xs. if o_inventory_item_id x = Some k then R (o_id x) else 0)"
    by (intro sum.cong) (simp_all add: R sum_list_distinct_conv_sum_set [OF dt])
  finally show "sum_list (map (trade_commitment (order_item s) k) ts) = sum_list (map (\<lambda>x. if o_inventory_item_id x = Some k then R (o_id x) else 0) xs)"
    by (simp add: sum_list_distinct_conv_sum_set [OF dx])
qed

subsection \<open>What the invalidation keeps and what it achieves\<close>

lemma invalidated_trade_simps [simp]:
  "t_id (invalidated_trade t) = t_id t" "t_status (invalidated_trade t) = TRADE_CANCELLED" "t_quantity_mt (invalidated_trade t) = t_quantity_mt t"
  "t_bid_order_id (invalidated_trade t) = t_bid_order_id t" "t_ask_order_id (invalidated_trade t) = t_ask_order_id t"
  by (simp_all add: invalidated_trade_def)

lemma invalidated_trade_row: "trade_row_ok t \<Longrightarrow> t_status t = PENDING_CONFIRMATION \<Longrightarrow> trade_row_ok (invalidated_trade t)"
  by (auto simp: trade_row_ok_def TRADE_LIFECYCLE_def invalidated_trade_def no_final_def split: option.splits)

lemma keys_ok_ids:
  "keys_ok s \<longleftrightarrow> (\<forall>ids\<in>{map o_id (orders s), map t_id (trades s), map i_id (inventory s)}. distinct ids \<and> (\<forall>i\<in>set ids. i < next_id s))"
  by (auto simp: keys_ok_def)

lemma invalidated_rows_inv:
  assumes inv: "market_inv_upto \<sigma> s"
    and batch: "invalidation_batch s g ts xs"
  defines "R \<equiv> restored_by_order ts"
  assumes cap: "\<And>x. x \<in> set xs \<Longrightarrow> R (o_id x) = 0 \<or> o_remaining_quantity_mt x + R (o_id x) \<le> o_quantity_mt x"
    and os: "orders s' = map (\<lambda>y. if o_id y \<in> o_id ` set xs then invalidated_order now g (R (o_id y)) y else y) (orders s)"
    and tr: "trades s' = map (\<lambda>t. if t_id t \<in> t_id ` set ts then invalidated_trade t else t) (trades s)"
    and ids: "map i_id (inventory s') = map i_id (inventory s)" "next_id s' = next_id s"
    and released: "\<And>k. reserved_stock s' k = reserved_stock s k - released k" "\<And>k. current_stock s' k = current_stock s k + released k"
    and rel: "\<And>k. released k = sum_list (map (\<lambda>x. if o_inventory_item_id x = Some k \<and> invalidation_release now g (R (o_id x)) x > 0
       then invalidation_release now g (R (o_id x)) x else 0) xs)"
  shows "market_inv_upto \<sigma> s'"
proof -
  have ts: "distinct (map t_id ts)" "set ts = {t \<in> set (trades s). party_pending g t}"
    and xs: "distinct (map o_id xs)" "set xs \<subseteq> set (orders s)" "\<And>y. y \<in> set (orders s) \<Longrightarrow> o_id y \<in> o_id ` set xs \<Longrightarrow> y \<in> set xs"
    using batch by (simp_all add: invalidation_batch_def)
  have k: "keys_ok s" "refs_ok s" "rows_ok s" "fills_ok s" "reserves_upto \<sigma> s" using inv by (simp_all add: market_inv_upto_def)
  note l = invalidation_ledgers [OF inv batch, folded R_def]
  have ok: "order_row_ok x" if "x \<in> set (orders s)" for x using k(3) that by (simp add: rows_ok_def)
  have cap': "R (o_id x) = 0 \<or> o_remaining_quantity_mt x + R (o_id x) \<le> o_quantity_mt x" if "x \<in> set (orders s)" for x
    using cap xs(3) [OF that] l(2) by blast
  note row = invalidated_row [OF ok l(1) cap']
  have pend: "t_status t = PENDING_CONFIRMATION" if "t \<in> set (trades s)" "t_id t \<in> t_id ` set ts" for t
  proof -
    from that(2) obtain u where "u \<in> set ts" "t_id u = t_id t" by auto
    then have "u = t" using that(1) ts(2) k(1) by (auto simp: keys_ok_def distinct_map dest: inj_onD)
    then show ?thesis using \<open>u \<in> set ts\<close> ts(2) by (auto simp: party_pending_def)
  qed
  have tback: "t \<in> set ts" if "t \<in> set (trades s)" "t_id t \<in> t_id ` set ts" for t
    using that ts(2) k(1) by (auto simp: keys_ok_def distinct_map dest: inj_onD)
  have dk: "distinct (map t_id (trades s))" "distinct (map o_id (orders s))" using k(1) by (simp_all add: keys_ok_def)
  have tsub: "set ts \<subseteq> set (trades s)" using ts(2) by auto
  have oid: "map o_id (orders s') = map o_id (orders s)" unfolding os by (simp add: o_def cong: if_cong)
  have tid: "map t_id (trades s') = map t_id (trades s)" unfolding tr by (simp add: o_def)
  have it: "order_item s' = order_item s"
    unfolding order_item_def os by (rule ext) (subst row_by_map, auto split: option.splits)
  have keys: "keys_ok s'" using k(1) unfolding keys_ok_ids oid tid ids .
  have refs: "refs_ok s'"
  proof -
    have e: "o_id ` set (orders s') = o_id ` set (orders s)" "i_id ` set (inventory s') = i_id ` set (inventory s)"
      using oid ids(1) by (metis list.set_map)+
    have "\<exists>y\<in>set (orders s). o_inventory_item_id y = o_inventory_item_id x" if "x \<in> set (orders s')" for x
      using that by (auto simp: os)
    moreover have "\<exists>u\<in>set (trades s). t_bid_order_id u = t_bid_order_id t \<and> t_ask_order_id u = t_ask_order_id t" if "t \<in> set (trades s')" for t
      using that by (auto simp: tr)
    ultimately show ?thesis using k(2) unfolding refs_ok_def e by metis
  qed
  have rows: "rows_ok s'"
    using k(3) row(1) pend by (auto simp: rows_ok_def os tr intro: invalidated_trade_row)
  have fill: "filled_quantity s' j = filled_quantity s j - R j" for j
  proof -
    have "filled_quantity s' j = filled_quantity s j + sum_list (map (\<lambda>t. trade_fill j (invalidated_trade t) - trade_fill j t) ts)"
      unfolding filled_quantity_def tr map_map o_def by (rule sum_list_update [OF dk(1) ts(1) tsub tback])
    also have "\<dots> = filled_quantity s j - sum_list (map (trade_fill j) ts)"
      by (simp add: trade_fill_def [of _ "invalidated_trade _"] uminus_sum_list_map o_def)
    finally show ?thesis by (simp add: l(3))
  qed
  have fills: "fills_ok s'"
    unfolding fills_ok_def
  proof
    fix y assume "y \<in> set (orders s')"
    then obtain x where x: "x \<in> set (orders s)" "y = (if o_id x \<in> o_id ` set xs then invalidated_order now g (R (o_id x)) x else x)"
      by (auto simp: os)
    have "order_filled (filled_quantity s (o_id x)) x" using k(4) x(1) by (simp add: fills_ok_def)
    then show "order_filled (filled_quantity s' (o_id y)) y"
      unfolding fill using row(2) [OF x(1) x(1)] l(2) by (auto simp: x(2))
  qed
  have "committed s' i = committed s i - released i" for i
  proof -
    let ?d = "\<lambda>x. order_commitment i (invalidated_order now g (R (o_id x)) x) - order_commitment i x"
    have t: "sum_list (map (trade_commitment (order_item s') i) (trades s')) =
        sum_list (map (trade_commitment (order_item s) i) (trades s)) - sum_list (map (trade_commitment (order_item s) i) ts)"
      unfolding it tr map_map o_def
      by (subst sum_list_update [OF dk(1) ts(1) tsub tback])
        (simp_all add: trade_commitment_def [of _ _ "invalidated_trade _"] uminus_sum_list_map o_def)
    have o: "sum_list (map (order_commitment i) (orders s')) = sum_list (map (order_commitment i) (orders s)) + sum_list (map ?d xs)"
      unfolding os map_map o_def by (rule sum_list_update [OF dk(2) xs])
    have "sum_list (map (\<lambda>x. ?d x - (if o_inventory_item_id x = Some i then R (o_id x) else 0)) xs) = - released i"
      unfolding rel uminus_sum_list_map o_def
      by (rule arg_cong [where f = sum_list], rule map_cong [OF refl], rule row(3)) (use xs(2) in auto)
    then have "sum_list (map ?d xs) - sum_list (map (trade_commitment (order_item s) i) ts) = - released i"
      unfolding l(4) sum_list_subtractf [symmetric] .
    then show ?thesis unfolding committed_def t o by simp
  qed
  moreover have "0 \<le> released i" for i unfolding rel by (intro sum_list_nonneg) auto
  ultimately have "reserves_upto \<sigma> s'" using k(5) by (simp add: reserves_upto_def released)
  then show ?thesis using keys refs rows fills by (simp add: market_inv_upto_def)
qed

lemma release_items_frame:
  assumes "mapR release_item es s = Inr s1"
  shows "organizations s1 = organizations s \<and> users s1 = users s"
  using assms
proof (induction es arbitrary: s)
  case (Cons e es)
  from Cons.prems obtain t where t: "release_item e s = Inr t" "mapR release_item es t = Inr s1" by auto
  from t(1) have "organizations t = organizations s \<and> users t = users s"
    by (auto simp: release_item_def put_item_def split: prod.splits option.splits if_splits)
  with Cons.IH [OF t(2)] show ?case by simp
qed simp

lemma invalidate_orders_frame:
  "invalidate_orders now g actor restored xs s rel = Inr (s', rel') \<Longrightarrow> organizations s' = organizations s \<and> users s' = users s"
proof (induction xs arbitrary: s rel)
  case (Cons x xs)
  then show ?case by (fastforce simp: Let_def put_order_def record_audit_def project_def split: if_splits)
qed simp

lemma cancel_pending_frame:
  "organizations (fold (cancel_pending actor) ts s) = organizations s" "users (fold (cancel_pending actor) ts s) = users s"
  by (induction ts arbitrary: s) (simp_all add: cancel_pending_def put_trade_def record_audit_def)

lemma project_fold_frame:
  "orders (fold (\<lambda>x. if P x then project (c x) else (\<lambda>s. s)) xs s) = orders s"
  "trades (fold (\<lambda>x. if P x then project (c x) else (\<lambda>s. s)) xs s) = trades s"
  "inventory (fold (\<lambda>x. if P x then project (c x) else (\<lambda>s. s)) xs s) = inventory s"
  "next_id (fold (\<lambda>x. if P x then project (c x) else (\<lambda>s. s)) xs s) = next_id s"
  "organizations (fold (\<lambda>x. if P x then project (c x) else (\<lambda>s. s)) xs s) = organizations s"
  "users (fold (\<lambda>x. if P x then project (c x) else (\<lambda>s. s)) xs s) = users s"
  by (induction xs arbitrary: s) (simp_all add: project_def)

lemma invalidated_not_live: "o_organization_id x = g \<Longrightarrow> \<not> live_status (invalidated_status now g r x)"
  by (auto simp: invalidated_status_def withdrawn_def live_status_def)

lemma invalidate_access_effect:
  assumes inv: "market_inv_upto \<sigma> s"
    and run: "invalidate_organization_market_access e now g actor reason reference public pv s = Inr (s', evs)"
  shows "market_inv_upto \<sigma> s'" "t \<in> set (trades s') \<Longrightarrow> \<not> party_pending g t"
    "x \<in> set (orders s') \<Longrightarrow> o_organization_id x = g \<Longrightarrow> \<not> live_status (o_status x)"
    "current_stock s' k + reserved_stock s' k = current_stock s k + reserved_stock s k"
    "organizations s' = organizations s" "users s' = users s"
proof -
  note a = run [unfolded invalidate_organization_market_access_def Let_def]
  from a obtain ts xs where l: "lock_invalidation e g pv s = Inr (ts, xs)" by auto
  note a1 = a [unfolded l bindR_simps prod.case]
  let ?R = "restored_by_order ts"
  let ?c = "fold (cancel_pending actor) ts s"
  from a1 obtain s1 releases s2 where o: "invalidate_orders now g actor ?R xs ?c [] = Inr (s1, releases)"
    and r: "mapR release_item releases s1 = Inr s2"
    and s': "s' = record_audit actor ''market.access_invalidated'' ''organization'' g
        (fold (\<lambda>x. if o_organization_id x = g \<or> ?R (o_id x) \<noteq> 0 then project (RebuildBenchmarks (o_id x)) else (\<lambda>s. s)) xs s2)"
    by auto
  have k: "keys_ok s" "refs_ok s" using inv by (simp_all add: market_inv_upto_def)
  note rows = invalidation_rows [OF k l]
  have batch: "invalidation_batch s g ts xs"
    unfolding invalidation_batch_def using rows(1-5) rows(7) by (simp add: subset_eq image_iff Bex_def) metis
  have tback: "\<forall>t\<in>set (trades s). t_id t \<in> t_id ` set ts \<longrightarrow> t \<in> set ts"
    using rows(2) k(1) by (auto simp: keys_ok_def distinct_map dest: inj_onD)
  have oback: "\<forall>y\<in>set (orders s). o_id y \<in> o_id ` set xs \<longrightarrow> y \<in> set xs" using rows(5) by blast
  note c = cancel_pending_effect [OF rows(1) tback, where actor = actor]
  note oe = invalidate_orders_effect [OF o]
  note re = release_items_effect [OF r]
  have same: "orders s' = orders s1" "trades s' = trades s1" "next_id s' = next_id s1" "inventory s' = inventory s2"
    "map i_id (inventory s2) = map i_id (inventory s1)"
    using re(1) by (simp_all add: s' project_fold_frame same_market_def)
  have os: "orders s' = map (\<lambda>y. if o_id y \<in> o_id ` set xs then invalidated_order now g (?R (o_id y)) y else y) (orders s)"
    unfolding same oe(1) c(2) using put_rows_map [OF rows(3) oback, where f = "\<lambda>x. invalidated_order now g (?R (o_id x)) x"] by simp
  have tr: "trades s' = map (\<lambda>t. if t_id t \<in> t_id ` set ts then invalidated_trade t else t) (trades s)"
    unfolding same oe(2) by (rule c(1))
  have stock: "reserved_stock s' i = reserved_stock s i - taken i releases" "current_stock s' i = current_stock s i + taken i releases" for i
  proof -
    have "reserved_stock s' i = reserved_stock s2 i" "current_stock s' i = current_stock s2 i" for i
      by (simp_all add: reserved_stock_def current_stock_def same)
    moreover have "reserved_stock s1 i = reserved_stock s i" "current_stock s1 i = current_stock s i" for i
      by (simp_all add: reserved_stock_def current_stock_def oe(3) c(3))
    ultimately show "reserved_stock s' i = reserved_stock s i - taken i releases" "current_stock s' i = current_stock s i + taken i releases"
      by (simp_all add: re)
  qed
  show "market_inv_upto \<sigma> s'"
  proof (rule invalidated_rows_inv [OF inv batch _ os tr])
    show "map i_id (inventory s') = map i_id (inventory s)" "next_id s' = next_id s" by (simp_all add: same oe(3,4) c(3,4))
  qed (use oe(5,6) stock in \<open>auto simp: taken_def\<close>)
  show "current_stock s' k + reserved_stock s' k = current_stock s k + reserved_stock s k" by (simp add: stock)
  show "\<not> party_pending g t" if "t \<in> set (trades s')"
    using that rows(2) by (auto simp: tr party_pending_def image_iff)
  show "\<not> live_status (o_status x)" if "x \<in> set (orders s')" "o_organization_id x = g"
  proof -
    from that(1) obtain y where y: "y \<in> set (orders s)" "x = (if o_id y \<in> o_id ` set xs then invalidated_order now g (?R (o_id y)) y else y)"
      by (auto simp: os)
    then have "o_organization_id y = g" using that(2) by (simp split: if_splits)
    then show ?thesis using y rows(6) by (auto simp: invalidated_not_live)
  qed
  show "organizations s' = organizations s" "users s' = users s"
    using release_items_frame [OF r] invalidate_orders_frame [OF o] by (simp_all add: s' project_fold_frame cancel_pending_frame record_audit_def)
qed

lemma kyc_fold_frame:
  "orders (fold (invalidate_membership_bound_kyc actor) us s) = orders s" "trades (fold (invalidate_membership_bound_kyc actor) us s) = trades s"
  "inventory (fold (invalidate_membership_bound_kyc actor) us s) = inventory s" "next_id (fold (invalidate_membership_bound_kyc actor) us s) = next_id s"
  by (induction us arbitrary: s) (simp_all add: invalidate_membership_bound_kyc_def)

lemma reject_organization_effect:
  assumes inv: "market_inv_upto \<sigma> s" and run: "reject_organization e tx_now now cur g pv s = Inr s'"
  shows "market_inv_upto \<sigma> s'" "t \<in> set (trades s') \<Longrightarrow> \<not> party_pending g t"
    "x \<in> set (orders s') \<Longrightarrow> o_organization_id x = g \<Longrightarrow> \<not> live_status (o_status x)"
    "current_stock s' k + reserved_stock s' k = current_stock s k + reserved_stock s k"
    "org \<in> set (organizations s') \<Longrightarrow> g_id org = g \<Longrightarrow> g_verification_status org = ''REJECTED''"
    "u \<in> set (users s') \<Longrightarrow> u_organization_id u \<noteq> Some g"
proof -
  note a = run [unfolded reject_organization_def Let_def]
  from a obtain org0 where g: "organization_of g s = Some org0" by (auto split: option.splits)
  let ?s1 = "fold (invalidate_membership_bound_kyc (u_id cur)) (filter (\<lambda>u. u_organization_id u = Some g) (users s)) s"
  define s2 where "s2 = ?s1\<lparr>organizations := put_row g_id (org0\<lparr>g_verification_status := ''REJECTED''\<rparr>) (organizations ?s1),
      users := map (\<lambda>u. if u_organization_id u = Some g then detached_member u else u) (users ?s1)\<rparr>"
  from a g obtain s3 evs where i: "invalidate_organization_market_access e now g (Some (u_id cur)) ''organization_rejected''
        (''organization:'' @ uuid_str g) (organization_has_public_market_projection s tx_now g) pv s2 = Inr (s3, evs)"
    and s': "s' = record_audit (Some (u_id cur)) ''admin.organization_rejected'' ''organization'' g (enqueue_market_events evs s3)"
    by (auto simp: s2_def)
  have m: "orders s2 = orders s" "trades s2 = trades s" "inventory s2 = inventory s" "next_id s2 = next_id s"
    by (simp_all add: s2_def kyc_fold_frame)
  have "market_inv_upto \<sigma> s2" using inv by (simp add: market_inv_cong [OF m])
  note e = invalidate_access_effect [OF this i]
  have same: "orders s' = orders s3" "trades s' = trades s3" "inventory s' = inventory s3" "next_id s' = next_id s3"
    "organizations s' = organizations s3" "users s' = users s3"
    by (simp_all add: s' enqueue_market_events_def record_audit_def)
  have "g_id org0 = g" using row_by_SomeD(1) [OF g] by auto
  then show "g_verification_status org = ''REJECTED''" if "org \<in> set (organizations s')" "g_id org = g"
    using that by (auto simp: same e(5) s2_def put_row_def split: if_splits)
  show "u_organization_id u \<noteq> Some g" if "u \<in> set (users s')"
    using that by (auto simp: same e(6) s2_def detached_member_def)
  show "market_inv_upto \<sigma> s'" using e(1) by (simp add: market_inv_cong [OF same(1-4)])
  show "t \<in> set (trades s') \<Longrightarrow> \<not> party_pending g t" using e(2) by (simp add: same)
  show "x \<in> set (orders s') \<Longrightarrow> o_organization_id x = g \<Longrightarrow> \<not> live_status (o_status x)" using e(3) by (simp add: same)
  show "current_stock s' k + reserved_stock s' k = current_stock s k + reserved_stock s k"
    using e(4) [of k] by (simp add: current_stock_def reserved_stock_def same m)
qed

end
