(* ===== verification/Market_System.thy ===== *)
theory Market_System
  imports Inventory_Routes Trade_Creation Trade_Commands Market_Invalidation
begin

section \<open>The market as a whole\<close>

text \<open>
  The state of the market and every request that can change it, as a step relation. A request reads the
  database in two places: before its locks, where it may see any state at all (\<open>pv\<close> is not
  constrained, so a stale or concurrent read is covered), and under its locks, where it
  sees the current one. Users, organizations, the catalogue, subscriptions and the other tables
  that the market routes only read may change in any way between two requests.

  A request that amends or publishes a stock-backed order runs the engine afterwards in the same transaction. If the order's expiry
  passes in between, the engine withdraws it without releasing its stock (\<open>lapsed_match_strands_stock\<close>). A step
  is therefore labelled with the items to which this happened, nearly always none, and a reachable state
  comes with the set of all of them.
\<close>

type_synonym market_state = "market_db \<times> support_db"

definition lapsed_publication :: "order_settings \<Rightarrow> (nat \<Rightarrow> time) \<Rightarrow> uuid \<Rightarrow> placed \<Rightarrow> uuid set" where
  "lapsed_publication fl clk k r =
     (case r of AlreadyPlaced x \<Rightarrow> {} | Placed z \<Rightarrow> if AUTO_MATCHING_ENABLED fl \<and> order_expired (clk 4) z then {k} else {})"

inductive market_step :: "env \<Rightarrow> Settings \<Rightarrow> order_settings \<Rightarrow> market_state \<Rightarrow> uuid set \<Rightarrow> market_state \<Rightarrow> bool"
  for e :: env and cfg :: Settings and fl :: order_settings where
  place: "create_order e up cfg fl dump cdump ve today clk rq cur raw pv s sd = (Inr (s', r), sd')
     \<Longrightarrow> market_step e cfg fl (s, sd) {} (s', sd')"
| place_refused: "create_order e up cfg fl dump cdump ve today clk rq cur raw pv s sd = (Inl err, sd')
     \<Longrightarrow> market_step e cfg fl (s, sd) {} (s, sd')"
| amend: "update_order e cfg fl enc clk rq cur k u pv s = Inr (s', ra)
     \<Longrightarrow> market_step e cfg fl (s, sd) (lapsed_amendment clk k u s) (s', sd)"
| cancel: "cancel_order e up fl clk rq cur k body pv s sd = (Inr (s', code), sd')
     \<Longrightarrow> market_step e cfg fl (s, sd) {} (s', sd')"
| cancel_refused: "cancel_order e up fl clk rq cur k body pv s sd = (Inl err, sd')
     \<Longrightarrow> market_step e cfg fl (s, sd) {} (s, sd')"
| add_item: "add_inventory now cur new_item pv s = Inr (s', i) \<Longrightarrow> market_step e cfg fl (s, sd) {} (s', sd)"
| edit_item: "update_inventory now cur k edit pv s = Inr (s', i) \<Longrightarrow> market_step e cfg fl (s, sd) {} (s', sd)"
| delete_item: "delete_inventory cur k pv s = Inr s' \<Longrightarrow> market_step e cfg fl (s, sd) {} (s', sd)"
| publish: "publish_inventory_item e cfg fl clk header cur k pv s = Inr (s', r)
     \<Longrightarrow> market_step e cfg fl (s, sd) (lapsed_publication fl clk k r) (s', sd)"
| hit: "create_trade e cfg clk h cur p pv s = Inr (s', rt) \<Longrightarrow> market_step e cfg fl (s, sd) {} (s', sd)"
| command: "run_trade_command e renc clk h cur k c pv s = Inr (s', rt) \<Longrightarrow> market_step e cfg fl (s, sd) {} (s', sd)"
| expiry: "expire_market_slice_orders e key now limit extra owns approved s = Inr (s', rows, orgs)
     \<Longrightarrow> market_step e cfg fl (s, sd) {} (s', sd)"
| reject: "reject_organization e tx_now now cur g pv s = Inr s' \<Longrightarrow> market_step e cfg fl (s, sd) {} (s', sd)"
| elsewhere: "orders s' = orders s \<Longrightarrow> trades s' = trades s \<Longrightarrow> inventory s' = inventory s \<Longrightarrow> next_id s \<le> next_id s'
     \<Longrightarrow> market_step e cfg fl (s, sd) {} (s', sd')"

inductive_cases market_stepE: "market_step e cfg fl p M q"

text \<open>A market starts with empty books.\<close>

inductive market_reachable :: "env \<Rightarrow> Settings \<Rightarrow> order_settings \<Rightarrow> market_state \<Rightarrow> uuid set \<Rightarrow> bool"
  for e :: env and cfg :: Settings and fl :: order_settings where
  start: "orders s = [] \<Longrightarrow> trades s = [] \<Longrightarrow> inventory s = [] \<Longrightarrow> market_reachable e cfg fl (s, sd) {}"
| step: "market_reachable e cfg fl p lapsed \<Longrightarrow> market_step e cfg fl p M q \<Longrightarrow> market_reachable e cfg fl q (lapsed \<union> M)"

subsection \<open>Every step keeps the ledgers\<close>

lemma cancel_order_inv:
  assumes "market_inv_upto \<sigma> s" "cancel_order e up fl clk rq cur k body pv s sd = (Inr (s', code), sd')"
  shows "market_inv_upto \<sigma> s'"
  using assms(2) by (cases rule: cancel_order_cases) (use assms(1) cancel_locked_inv in auto)

lemma elsewhere_inv:
  assumes "market_inv_upto \<sigma> s" "orders s' = orders s" "trades s' = trades s" "inventory s' = inventory s" "next_id s \<le> next_id s'"
  shows "market_inv_upto \<sigma> s'"
proof -
  have "market_inv_upto \<sigma> (s'\<lparr>next_id := next_id s\<rparr>)" using assms(1) by (subst market_inv_cong [where s = s]) (simp_all add: assms)
  then show ?thesis
    using assms(5)
    by (auto simp: market_inv_upto_def keys_ok_def refs_ok_def rows_ok_def fills_ok_def reserves_upto_def committed_def order_item_def
        filled_quantity_def reserved_stock_def current_stock_def)
qed

lemma start_inv: "orders s = [] \<Longrightarrow> trades s = [] \<Longrightarrow> inventory s = [] \<Longrightarrow> market_inv s"
  by (simp add: market_inv_upto_def keys_ok_def refs_ok_def rows_ok_def fills_ok_def reserves_upto_def committed_def reserved_stock_def current_stock_def)

lemma publish_strands_only:
  assumes "market_inv_upto \<sigma> s" "publish_inventory_item e cfg fl clk header cur k pv s = Inr (s', r)"
  shows "\<exists>\<tau>. market_inv_upto \<tau> s' \<and> (\<forall>j. \<tau> j \<noteq> \<sigma> j \<longrightarrow> j \<in> lapsed_publication fl clk k r)"
  using publish_strands [OF assms]
  by (intro exI [of _ "\<lambda>j. \<sigma> j + (case r of Placed z \<Rightarrow> lapsed_listing fl clk k z j | AlreadyPlaced x \<Rightarrow> 0)"])
    (auto simp: lapsed_publication_def lapsed_listing_def split: placed.splits if_splits)

lemma market_step_inv:
  "market_step e cfg fl p M q \<Longrightarrow> market_inv_upto \<sigma> (fst p) \<Longrightarrow>
     \<exists>\<tau>. market_inv_upto \<tau> (fst q) \<and> (\<forall>j. \<tau> j \<noteq> \<sigma> j \<longrightarrow> j \<in> M)"
proof (induction rule: market_step.induct)
  case (amend enc clk rq cur k u pv s s' ra sd)
  then show ?case using update_order_strands [of \<sigma> s] by fastforce
next
  case (publish clk header cur k pv s s' r sd)
  then show ?case using publish_strands_only [of \<sigma> s] by fastforce
next
  case (elsewhere s' s sd sd')
  then show ?case using elsewhere_inv [of \<sigma> s s'] by (intro exI [of _ \<sigma>]) simp
qed (auto intro!: exI [of _ \<sigma>] dest: create_order_inv(1) cancel_order_inv add_inventory_inv update_inventory_inv delete_inventory_inv create_trade_inv
    run_trade_command_inv expire_pass_inv(1) reject_organization_effect(1))

text \<open>The stranded stock of a reachable state is on the items of its label.\<close>

lemma market_reachable_inv:
  "market_reachable e cfg fl p lapsed \<Longrightarrow> \<exists>\<sigma>. market_inv_upto \<sigma> (fst p) \<and> (\<forall>j. \<sigma> j \<noteq> 0 \<longrightarrow> j \<in> lapsed)"
proof (induction rule: market_reachable.induct)
  case (start s sd)
  then show ?case using start_inv [of s] by (intro exI [of _ "\<lambda>_. 0"]) simp
next
  case (step p lapsed M q)
  then obtain \<sigma> where s: "market_inv_upto \<sigma> (fst p)" "\<forall>j. \<sigma> j \<noteq> 0 \<longrightarrow> j \<in> lapsed" by blast
  from market_step_inv [OF step(2) s(1)] obtain \<tau> where "market_inv_upto \<tau> (fst q)" "\<forall>j. \<tau> j \<noteq> \<sigma> j \<longrightarrow> j \<in> M" by blast
  moreover from this s(2) have "\<forall>j. \<tau> j \<noteq> 0 \<longrightarrow> j \<in> lapsed \<union> M" by (metis UnCI)
  ultimately show ?case by blast
qed

subsection \<open>A reachable market\<close>

text \<open>The supplier of the example adds an item to an empty market.\<close>

definition ex_new_item :: InventoryCreate where
  "ex_new_item = \<lparr>ic_port_id = ''nl-rtm'', ic_fuel_type = ''Methanol'', ic_product_name = Some ''Bio Methanol'',
     ic_current_stock_mt = Finite 1000 0, ic_incoming_stock_mt = Finite 0 0, ic_price_per_mt_usd = Some (Finite 900 0),
     ic_energy_density_mj_kg = None, ic_is_certified = True, ic_certification_declared = True,
     ic_certification_scheme = Some ''ISCC EU'', ic_specification_standard = Some ''iso 8217:2024 dfa'', ic_msds_available = True,
     ic_carbon_intensity_gco2_mj = Some (Finite 14 0), ic_carbon_intensity_method = Some ''RED II'',
     ic_feedstock = Some ''used cooking oil'', ic_origin = Some ''NL'', ic_off_spec = False, ic_off_spec_notes = None\<rparr>"

definition ex_empty_db :: market_db where
  "ex_empty_db = ex_db\<lparr>orders := [], inventory := [], next_id := 21\<rparr>"

lemma ex_item_added: "\<exists>s'. add_inventory 50 (ex_user 11 SUPPLIER 41) ex_new_item ex_empty_db ex_empty_db = Inr (s', ex_shelf) \<and>
    orders s' = [] \<and> trades s' = [] \<and> inventory s' = [ex_shelf] \<and> next_id s' = 22"
proof -
  have el: "execution_party_is_eligible ex_empty_db (Some (ex_user 11 SUPPLIER 41)) (Some (ex_org 41 ''Supplier''))"
    by (simp add: execution_party_is_eligible_def)
  have g: "manage_inventory_guard m (ex_user 11 SUPPLIER 41) ex_empty_db ex_empty_db = Inr 41" for m
    using el by (simp add: manage_inventory_guard_def require_execution_eligible_user_def lock_own_organization_def ex_empty_db_def
        lock_and_load_market_organizations_def Let_def ownership_by_user_def py_upper_def upper_char_def)
  have row: "new_item_row 21 50 (ex_user 11 SUPPLIER 41) 41 ex_new_item = ex_shelf"
    by (simp add: new_item_row_def ex_new_item_def ex_shelf_def ex_item_def ex_metadata_def dec_value_def)
  have sch: "inventory_create_schema ex_new_item = Inr ex_new_item"
    by (simp add: inventory_create_schema_def ex_new_item_def FUEL_TYPES_def valid_stock_def valid_amount_def finite_decimal_def dec_value_def
        pred_opt_def)
  have ok: "item_write_check ex_empty_db ex_shelf = Inr ()"
    by (simp add: item_write_check_def INVENTORY_NUMERIC_VALUES_def required_numeric_def optional_numeric_def ex_shelf_def ex_metadata_def
        pred_opt_def ex_empty_db_def Let_def)
  show ?thesis
    using sch g row ok
    by (simp add: add_inventory_def inventory_event_def participant_market_event_def py_strip_def is_space_def hide_create_failure_def
        ex_empty_db_def ins_item_def enqueue_market_events_def Let_def)
qed

lemma ex_shelf_reachable: "market_reachable e cfg fl (ex_shelf_db, sd) {}"
proof -
  obtain s' where s': "add_inventory 50 (ex_user 11 SUPPLIER 41) ex_new_item ex_empty_db ex_empty_db = Inr (s', ex_shelf)"
    "orders s' = []" "trades s' = []" "inventory s' = [ex_shelf]" "next_id s' = 22"
    using ex_item_added by blast
  have "market_reachable e cfg fl (ex_empty_db, sd) {}" by (rule market_reachable.start) (simp_all add: ex_empty_db_def)
  from market_reachable.step [OF this market_step.add_item [OF s'(1)]] have "market_reachable e cfg fl (s', sd) {}" by simp
  moreover have "market_step e cfg fl (s', sd) {} (ex_shelf_db, sd)" by (rule market_step.elsewhere) (simp_all add: s')
  ultimately show ?thesis using market_reachable.step by fastforce
qed

end
