(* ===== verification/Market_Support_Admin.thy ===== *)
theory Market_Support_Admin
  imports Order_Create
begin

section \<open>Administering Market Support\<close>

text \<open>
  \<^verbatim>\<open>src/app/routers/market_support.py\<close>: who may act for a customer. A bootstrap operator grants an administrator the
  two capabilities; with both, the administrator opens a context for one approved REAL organization, which ends
  when it is left, replaced, lapses, or when a capability is revoked. A route returns its answer and the tables
  afterwards, since a lapsed context is closed by the request that meets it. \<open>clk\<close> numbers the readings of the
  clock.

  The routes that once recorded authorizations and published listings outside a context are retired: their first
  statement refuses them whenever the feature is on, and the dependency before it refuses them when it is off.
\<close>

record support_settings = order_settings +
  MARKET_SUPPORT_CONTEXT_TTL_MINUTES :: int
  MARKET_SUPPORT_BOOTSTRAP_ADMIN_USER_IDS :: string

subsection \<open>Guards\<close>

fun py_split :: "char \<Rightarrow> string \<Rightarrow> string list" where
  "py_split c [] = [[]]"
| "py_split c (x # xs) =
     (if x = c then [] # py_split c xs
      else case py_split c xs of [] \<Rightarrow> [[x]] | p # ps \<Rightarrow> (x # p) # ps)"

definition bootstrap_ids :: "(string \<Rightarrow> uuid option) \<Rightarrow> support_settings \<Rightarrow> uuid list" where
  "bootstrap_ids uuid_parse fl = List.map_filter (\<lambda>raw. uuid_parse (py_strip raw)) (py_split (CHR '','') (MARKET_SUPPORT_BOOTSTRAP_ADMIN_USER_IDS fl))"

definition require_market_support_admin :: "support_settings \<Rightarrow> user \<Rightarrow> unit result" where
  "require_market_support_admin fl cur =
     bindR (refuse (\<not> MARKET_SUPPORT_ENABLED fl) (HTTPException 404 ''Not found'')) (\<lambda>_.
     refuse (u_role cur \<noteq> Some ADMIN \<or> u_status cur \<noteq> APPROVED) (HTTPException 403 ''Forbidden''))"

definition lock_capability :: "support_db \<Rightarrow> time \<Rightarrow> uuid \<Rightarrow> MarketSupportCapability \<Rightarrow> StaffCapabilityAssignment result" where
  "lock_capability sd now u c =
     (case find (\<lambda>a. sa_user_id a = u \<and> sa_capability a = c) (assignments sd) of
        Some a \<Rightarrow> if sa_revoked_at a \<noteq> None \<or> capability_expired now a
                  then Inl (HTTPException 403 ''MARKET_SUPPORT_CAPABILITY_REQUIRED: Forbidden'') else Inr a
      | None \<Rightarrow> Inl (HTTPException 403 ''MARKET_SUPPORT_CAPABILITY_REQUIRED: Forbidden''))"

definition active_capabilities :: "support_db \<Rightarrow> time \<Rightarrow> uuid \<Rightarrow> MarketSupportCapability list" where
  "active_capabilities sd now u =
     rev (remdups (rev (map sa_capability
       (filter (\<lambda>a. sa_user_id a = u \<and> sa_revoked_at a = None \<and> \<not> capability_expired now a) (assignments sd)))))"

definition require_both_capabilities :: "support_db \<Rightarrow> (nat \<Rightarrow> time) \<Rightarrow> uuid \<Rightarrow> unit result" where
  "require_both_capabilities sd clk u =
     bindR (lock_capability sd (clk 0) u MARKET_SUPPORT_AUTHORIZATIONS) (\<lambda>_.
     bindR (lock_capability sd (clk 1) u MARKET_SUPPORT_LISTINGS) (\<lambda>_. Inr ()))"

definition reject_legacy_workspace_mutation :: "support_settings \<Rightarrow> unit result" where
  "reject_legacy_workspace_mutation fl =
     refuse (MARKET_SUPPORT_ENABLED fl)
       (HTTPException 410 ''MARKET_SUPPORT_LEGACY_MUTATION_RETIRED: Use an active Market Support context and the normal customer route'')"

definition require_bootstrap_operator :: "(string \<Rightarrow> uuid option) \<Rightarrow> support_settings \<Rightarrow> user \<Rightarrow> unit result" where
  "require_bootstrap_operator uuid_parse fl cur = refuse (u_id cur \<notin> set (bootstrap_ids uuid_parse fl)) (HTTPException 403 ''Forbidden'')"

definition load_organization :: "market_db \<Rightarrow> uuid \<Rightarrow> organization result" where
  "load_organization s k =
     (case organization_of k s of None \<Rightarrow> Inl (HTTPException 404 ''Organization not found'')
      | Some g \<Rightarrow>
          bindR (refuse (py_upper (g_verification_status g) \<noteq> ''APPROVED'')
                   (HTTPException 409 ''ORGANIZATION_NOT_APPROVED: Organization is not approved'')) (\<lambda>_.
          bindR (refuse (g_provenance g \<noteq> REAL)
                   (HTTPException 409 ''ORGANIZATION_NOT_REAL: Market support is limited to real organizations'')) (\<lambda>_.
          Inr g)))"

subsection \<open>Capabilities\<close>

record CapabilityAssignmentCreate =
  cc_user_id :: uuid
  cc_capability :: MarketSupportCapability
  cc_reason :: string
  cc_expires_at :: "(time \<times> bool) option"

text \<open>The length is checked before the reason is stripped. The boolean of a time says that it carries a zone.\<close>

definition reason_schema :: "string \<Rightarrow> string result" where
  "reason_schema r = (if length r < 3 \<or> 500 < length r then Inl (HTTPException 422 ''reason'') else Inr (py_strip r))"

definition capability_create_schema :: "time \<Rightarrow> CapabilityAssignmentCreate \<Rightarrow> CapabilityAssignmentCreate result" where
  "capability_create_schema now d =
     bindR (reason_schema (cc_reason d)) (\<lambda>r.
     bindR (refuse (case cc_expires_at d of None \<Rightarrow> False | Some (t, aware) \<Rightarrow> \<not> aware \<or> t \<le> now) (HTTPException 422 ''expires_at'')) (\<lambda>_.
     Inr (d\<lparr>cc_reason := r\<rparr>)))"

definition assignment_of :: "uuid \<Rightarrow> support_db \<Rightarrow> StaffCapabilityAssignment option" where
  "assignment_of k sd = row_by sa_id k (assignments sd)"

definition granted_assignment :: "time \<Rightarrow> uuid \<Rightarrow> CapabilityAssignmentCreate \<Rightarrow> StaffCapabilityAssignment \<Rightarrow> StaffCapabilityAssignment" where
  "granted_assignment now operator d a =
     a\<lparr>sa_reason := cc_reason d, sa_granted_by_user_id := operator, sa_granted_at := now,
       sa_expires_at := map_option fst (cc_expires_at d), sa_revoked_at := None, sa_revoked_by_user_id := None,
       sa_revocation_reason := None\<rparr>"

definition new_assignment :: "uuid \<Rightarrow> time \<Rightarrow> uuid \<Rightarrow> CapabilityAssignmentCreate \<Rightarrow> StaffCapabilityAssignment" where
  "new_assignment k now operator d =
     \<lparr>sa_id = k, sa_user_id = cc_user_id d, sa_capability = cc_capability d, sa_expires_at = map_option fst (cc_expires_at d),
      sa_revoked_at = None, sa_reason = cc_reason d, sa_granted_by_user_id = operator, sa_granted_at = now,
      sa_revoked_by_user_id = None, sa_revocation_reason = None\<rparr>"

definition create_capability_assignment ::
  "(string \<Rightarrow> uuid option) \<Rightarrow> support_settings \<Rightarrow> (nat \<Rightarrow> time) \<Rightarrow> user \<Rightarrow> CapabilityAssignmentCreate \<Rightarrow> market_db \<Rightarrow> support_db
     \<Rightarrow> (StaffCapabilityAssignment \<times> market_db \<times> support_db) result" where
  "create_capability_assignment up fl clk cur raw s sd =
     bindR (require_market_support_admin fl cur) (\<lambda>_.
     bindR (capability_create_schema (clk 0) raw) (\<lambda>d.
     bindR (require_bootstrap_operator up fl cur) (\<lambda>_.
     bindR (refuse (case user_of (cc_user_id d) s of None \<Rightarrow> True | Some t \<Rightarrow> u_role t \<noteq> Some ADMIN \<or> u_status t \<noteq> APPROVED)
              (HTTPException 409 ''Capability target must be an approved administrator'')) (\<lambda>_.
     let (a, s1, sd1) =
       (case find (\<lambda>a. sa_user_id a = cc_user_id d \<and> sa_capability a = cc_capability d) (assignments sd) of
          None \<Rightarrow> let a = new_assignment (next_id s) (clk 1) (u_id cur) d in
                   (a, s\<lparr>next_id := next_id s + 1\<rparr>, sd\<lparr>assignments := assignments sd @ [a]\<rparr>)
        | Some x \<Rightarrow> let a = granted_assignment (clk 1) (u_id cur) d x in
                   (a, s, sd\<lparr>assignments := put_row sa_id a (assignments sd)\<rparr>)) in
     Inr (a, record_audit (Some (u_id cur)) ''market_support.capability_granted'' ''staff_capability_assignment'' (sa_id a) s1, sd1)))))"

definition revoked_assignment :: "time \<Rightarrow> uuid \<Rightarrow> string \<Rightarrow> StaffCapabilityAssignment \<Rightarrow> StaffCapabilityAssignment" where
  "revoked_assignment now operator reason a =
     (if sa_revoked_at a = None
      then a\<lparr>sa_revoked_at := Some now, sa_revoked_by_user_id := Some operator, sa_revocation_reason := Some reason\<rparr> else a)"

definition ended_context :: "MarketSupportContextStatus \<Rightarrow> time \<Rightarrow> MarketSupportContext \<Rightarrow> MarketSupportContext" where
  "ended_context st now x = x\<lparr>x_status := st, x_ended_at := Some now, x_version := x_version x + 1\<rparr>"

definition active_contexts :: "uuid \<Rightarrow> support_db \<Rightarrow> MarketSupportContext list" where
  "active_contexts u sd = filter (\<lambda>x. x_actor_user_id x = u \<and> x_status x = CTX_ACTIVE) (contexts sd)"

definition revoke_context :: "time \<Rightarrow> uuid \<Rightarrow> MarketSupportContext \<Rightarrow> market_db \<times> support_db \<Rightarrow> market_db \<times> support_db" where
  "revoke_context now operator x p = (case p of (s, sd) \<Rightarrow>
     (record_audit (Some operator) ''market_support.context_revoked'' ''market_support_context'' (x_id x) s,
      put_context (ended_context CTX_REVOKED now x) sd))"

definition revoke_capability_assignment ::
  "(string \<Rightarrow> uuid option) \<Rightarrow> support_settings \<Rightarrow> (nat \<Rightarrow> time) \<Rightarrow> user \<Rightarrow> uuid \<Rightarrow> string \<Rightarrow> market_db \<Rightarrow> support_db
     \<Rightarrow> (StaffCapabilityAssignment \<times> market_db \<times> support_db) result" where
  "revoke_capability_assignment up fl clk cur k raw_reason s sd =
     bindR (require_market_support_admin fl cur) (\<lambda>_.
     bindR (reason_schema raw_reason) (\<lambda>reason.
     bindR (require_bootstrap_operator up fl cur) (\<lambda>_.
     case assignment_of k sd of None \<Rightarrow> Inl (HTTPException 404 ''Capability assignment not found'')
     | Some x \<Rightarrow>
     let active = sort_key x_id (active_contexts (sa_user_id x) sd);
         a = revoked_assignment (clk 0) (u_id cur) reason x;
         s1 = record_audit (Some (u_id cur)) ''market_support.capability_revoked'' ''staff_capability_assignment'' (sa_id a) s;
         (s2, sd2) = fold (revoke_context (clk 1) (u_id cur)) active (s1, sd\<lparr>assignments := put_row sa_id a (assignments sd)\<rparr>) in
     Inr (a, s2, sd2))))"

subsection \<open>Contexts\<close>

record MarketSupportContextCreate =
  xc_organization_id :: uuid
  xc_support_reference :: string
  xc_confirm_replacement :: bool

definition context_create_schema :: "MarketSupportContextCreate \<Rightarrow> MarketSupportContextCreate result" where
  "context_create_schema d =
     (let r = xc_support_reference d in
      if length r < 3 \<or> 200 < length r \<or> py_strip r = [] then Inl (HTTPException 422 ''support_reference'')
      else Inr (d\<lparr>xc_support_reference := py_strip r\<rparr>))"

type_synonym context_response = "MarketSupportContext \<times> organization \<times> user"

definition context_response :: "market_db \<Rightarrow> MarketSupportContext \<Rightarrow> context_response result" where
  "context_response s x =
     (case (organization_of (x_organization_id x) s, user_of (x_actor_user_id x) s) of
        (Some g, Some u) \<Rightarrow> Inr (x, g, u)
      | _ \<Rightarrow> Inl (HTTPException 409 ''Support context identities are no longer available''))"

text \<open>The caller's active contexts, one after the other: a lapsed one is closed, one for the same organization is the answer
  (and nothing is committed), another one is replaced when the caller confirmed it.\<close>

fun close_active ::
  "time \<Rightarrow> uuid \<Rightarrow> uuid \<Rightarrow> bool \<Rightarrow> MarketSupportContext list \<Rightarrow> market_db \<times> support_db
     \<Rightarrow> (MarketSupportContext option \<times> market_db \<times> support_db) result" where
  "close_active now actor g confirm [] p = Inr (None, p)"
| "close_active now actor g confirm (x # xs) (s, sd) =
     (if x_expires_at x \<le> now
      then close_active now actor g confirm xs (s, put_context (ended_context CTX_EXPIRED now x) sd)
      else if x_organization_id x = g then Inr (Some x, s, sd)
      else if \<not> confirm
      then Inl (HTTPException 409 ''MARKET_SUPPORT_CONTEXT_REPLACEMENT_REQUIRED: Confirm replacement of the active support context'')
      else close_active now actor g confirm xs
             (record_audit (Some actor) ''market_support.context_exited'' ''market_support_context'' (x_id x) s,
              put_context (ended_context CTX_EXITED now x) sd))"

definition minute_us :: int where
  "minute_us = 60 * 1000000"

definition new_context :: "uuid \<Rightarrow> support_settings \<Rightarrow> time \<Rightarrow> user \<Rightarrow> MarketSupportContextCreate \<Rightarrow> MarketSupportContext" where
  "new_context k fl now cur d =
     \<lparr>x_id = k, x_actor_user_id = u_id cur, x_organization_id = xc_organization_id d, x_accountable_user_id = u_id cur,
      x_support_reference = xc_support_reference d, x_scope = ASSISTED_ORDER_ENTRY, x_started_at = now,
      x_expires_at = now + MARKET_SUPPORT_CONTEXT_TTL_MINUTES fl * minute_us, x_ended_at = None, x_status = CTX_ACTIVE, x_version = 1\<rparr>"

definition create_context ::
  "support_settings \<Rightarrow> (nat \<Rightarrow> time) \<Rightarrow> user \<Rightarrow> MarketSupportContextCreate \<Rightarrow> market_db \<Rightarrow> support_db
     \<Rightarrow> (context_response \<times> market_db \<times> support_db) result" where
  "create_context fl clk cur raw s sd =
     bindR (require_market_support_admin fl cur) (\<lambda>_.
     bindR (context_create_schema raw) (\<lambda>d.
     bindR (require_both_capabilities sd clk (u_id cur)) (\<lambda>_.
     bindR (load_organization s (xc_organization_id d)) (\<lambda>g.
     bindR (close_active (clk 2) (u_id cur) (g_id g) (xc_confirm_replacement d) (active_contexts (u_id cur) sd) (s, sd)) (\<lambda>(kept, s1, sd1).
     case kept of
       Some x \<Rightarrow> bindR (context_response s x) (\<lambda>r. Inr (r, s, sd))
     | None \<Rightarrow>
         let x = new_context (next_id s1) fl (clk 2) cur d;
             s2 = record_audit (Some (u_id cur)) ''market_support.context_started'' ''market_support_context'' (x_id x) (s1\<lparr>next_id := next_id s1 + 1\<rparr>) in
         bindR (context_response s2 x) (\<lambda>r. Inr (r, s2, ins_context x sd1)))))))"

definition load_owned_context :: "support_db \<Rightarrow> uuid \<Rightarrow> uuid \<Rightarrow> MarketSupportContext result" where
  "load_owned_context sd actor k =
     (case find (\<lambda>x. x_id x = k \<and> x_actor_user_id x = actor) (contexts sd) of
        None \<Rightarrow> Inl (HTTPException 404 ''Not found'') | Some x \<Rightarrow> Inr x)"

definition active_context :: "support_settings \<Rightarrow> (nat \<Rightarrow> time) \<Rightarrow> user \<Rightarrow> market_db \<Rightarrow> support_db \<Rightarrow> context_response option result \<times> support_db" where
  "active_context fl clk cur s sd =
     (case bindR (require_market_support_admin fl cur) (\<lambda>_. require_both_capabilities sd clk (u_id cur)) of
        Inl err \<Rightarrow> (Inl err, sd)
      | Inr _ \<Rightarrow>
          (case sort_key (\<lambda>x. - x_started_at x) (active_contexts (u_id cur) sd) of
             [] \<Rightarrow> (Inr None, sd)
           | x # _ \<Rightarrow>
               if x_expires_at x \<le> clk 2 then (Inr None, put_context (ended_context CTX_EXPIRED (clk 3) x) sd)
               else (bindR (context_response s x) (\<lambda>r. Inr (Some r)), sd)))"

definition get_context :: "support_settings \<Rightarrow> (nat \<Rightarrow> time) \<Rightarrow> user \<Rightarrow> uuid \<Rightarrow> market_db \<Rightarrow> support_db \<Rightarrow> context_response result \<times> support_db" where
  "get_context fl clk cur k s sd =
     (case bindR (require_market_support_admin fl cur) (\<lambda>_.
           bindR (require_both_capabilities sd clk (u_id cur)) (\<lambda>_. load_owned_context sd (u_id cur) k)) of
        Inl err \<Rightarrow> (Inl err, sd)
      | Inr x \<Rightarrow>
          if x_status x = CTX_ACTIVE \<and> x_expires_at x \<le> clk 2
          then let y = ended_context CTX_EXPIRED (clk 3) x in (context_response s y, put_context y sd)
          else (context_response s x, sd))"

definition exit_context ::
  "support_settings \<Rightarrow> (nat \<Rightarrow> time) \<Rightarrow> user \<Rightarrow> uuid \<Rightarrow> market_db \<Rightarrow> support_db \<Rightarrow> context_response result \<times> market_db \<times> support_db" where
  "exit_context fl clk cur k s sd =
     (case bindR (require_market_support_admin fl cur) (\<lambda>_.
           bindR (require_both_capabilities sd clk (u_id cur)) (\<lambda>_. load_owned_context sd (u_id cur) k)) of
        Inl err \<Rightarrow> (Inl err, s, sd)
      | Inr x \<Rightarrow>
          if x_status x = CTX_ACTIVE
          then let y = ended_context (if x_expires_at x \<le> clk 2 then CTX_EXPIRED else CTX_EXITED) (clk 3) x;
                   s1 = record_audit (Some (u_id cur)) ''market_support.context_exited'' ''market_support_context'' (x_id x) s in
               (context_response s1 y, s1, put_context y sd)
          else (context_response s x, s, sd))"

definition organization_entry :: "support_settings \<Rightarrow> (nat \<Rightarrow> time) \<Rightarrow> user \<Rightarrow> uuid \<Rightarrow> market_db \<Rightarrow> support_db \<Rightarrow> organization result" where
  "organization_entry fl clk cur k s sd =
     bindR (require_market_support_admin fl cur) (\<lambda>_.
     bindR (require_both_capabilities sd clk (u_id cur)) (\<lambda>_. load_organization s k))"

text \<open>A retired route: whatever its body does, it is not reached.\<close>

definition retired_route :: "support_settings \<Rightarrow> user \<Rightarrow> 'a result \<Rightarrow> 'a result" where
  "retired_route fl cur body =
     bindR (require_market_support_admin fl cur) (\<lambda>_. bindR (reject_legacy_workspace_mutation fl) (\<lambda>_. body))"

lemma retired_route_refuses: "\<exists>code detail. retired_route fl cur body = Inl (HTTPException code detail) \<and> code \<in> {403, 404, 410}"
  by (simp add: retired_route_def require_market_support_admin_def reject_legacy_workspace_mutation_def)
    (auto simp: refuse_def)

subsection \<open>The tables' invariant\<close>

text \<open>\<^verbatim>\<open>Field(default=60, ge=1, le=1440)\<close>\<close>

definition support_settings_ok :: "support_settings \<Rightarrow> bool" where
  "support_settings_ok fl \<longleftrightarrow> 1 \<le> MARKET_SUPPORT_CONTEXT_TTL_MINUTES fl \<and> MARKET_SUPPORT_CONTEXT_TTL_MINUTES fl \<le> 1440"

definition context_row_ok :: "MarketSupportContext \<Rightarrow> bool" where
  "context_row_ok x \<longleftrightarrow> x_started_at x < x_expires_at x \<and> x_expires_at x \<le> x_started_at x + 1440 * minute_us \<and> 1 \<le> x_version x
     \<and> (x_status x = CTX_ACTIVE \<longleftrightarrow> x_ended_at x = None)"

definition contexts_ok :: "uuid \<Rightarrow> MarketSupportContext list \<Rightarrow> bool" where
  "contexts_ok n xs \<longleftrightarrow> distinct (map x_id xs) \<and> (\<forall>x\<in>set xs. x_id x < n \<and> context_row_ok x)
     \<and> distinct (map x_actor_user_id (filter (\<lambda>x. x_status x = CTX_ACTIVE) xs))"

definition assignments_ok :: "uuid \<Rightarrow> StaffCapabilityAssignment list \<Rightarrow> bool" where
  "assignments_ok n xs \<longleftrightarrow> distinct (map sa_id xs) \<and> (\<forall>a\<in>set xs. sa_id a < n)
     \<and> distinct (map (\<lambda>a. (sa_user_id a, sa_capability a)) xs)"

definition support_inv :: "uuid \<Rightarrow> support_db \<Rightarrow> bool" where
  "support_inv n sd \<longleftrightarrow> contexts_ok n (contexts sd) \<and> assignments_ok n (assignments sd)"

lemma support_inv_mono: "support_inv n sd \<Longrightarrow> n \<le> m \<Longrightarrow> support_inv m sd"
  by (auto simp: support_inv_def contexts_ok_def assignments_ok_def)

lemma one_assignment:
  assumes "support_inv n sd" "a \<in> set (assignments sd)" "b \<in> set (assignments sd)" "sa_user_id a = sa_user_id b" "sa_capability a = sa_capability b"
  shows "a = b"
proof -
  have "inj_on (\<lambda>a. (sa_user_id a, sa_capability a)) (set (assignments sd))"
    using assms(1) by (simp add: support_inv_def assignments_ok_def distinct_map)
  then show ?thesis using assms(2-5) by (auto dest: inj_onD)
qed

lemma ended_context_fields [simp]:
  "x_id (ended_context st now x) = x_id x" "x_status (ended_context st now x) = st" "x_ended_at (ended_context st now x) = Some now"
  "x_actor_user_id (ended_context st now x) = x_actor_user_id x" "x_started_at (ended_context st now x) = x_started_at x"
  "x_expires_at (ended_context st now x) = x_expires_at x" "x_version (ended_context st now x) = x_version x + 1"
  by (simp_all add: ended_context_def)

text \<open>Ending any of the contexts keeps the table legal.\<close>

lemma end_contexts_ok:
  assumes ok: "contexts_ok n xs" and st: "st \<noteq> CTX_ACTIVE"
  shows "contexts_ok n (map (\<lambda>y. if P y then ended_context st now y else y) xs)" (is "contexts_ok n ?ys")
proof -
  have "map x_id ?ys = map x_id xs" by simp
  then have "distinct (map x_id ?ys)" using ok by (simp only: contexts_ok_def)
  moreover have "map x_actor_user_id (filter (\<lambda>x. x_status x = CTX_ACTIVE) ?ys) =
      map x_actor_user_id (filter (\<lambda>x. \<not> P x) (filter (\<lambda>x. x_status x = CTX_ACTIVE) xs))"
    using st by (induction xs) auto
  then have "distinct (map x_actor_user_id (filter (\<lambda>x. x_status x = CTX_ACTIVE) ?ys))"
    using ok by (simp only: contexts_ok_def distinct_map_filter)
  moreover have "x_id y < n \<and> context_row_ok y" if "y \<in> set ?ys" for y
    using that ok st by (auto simp: contexts_ok_def context_row_ok_def)
  ultimately show ?thesis unfolding contexts_ok_def by blast
qed

lemma put_ended:
  assumes "contexts_ok n xs" "x \<in> set xs"
  shows "put_row x_id (ended_context st now x) xs = map (\<lambda>y. if x_id y = x_id x then ended_context st now y else y) xs"
  unfolding put_row_def using assms by (intro map_cong) (auto simp: contexts_ok_def distinct_map dest: inj_onD)

lemma end_context_inv:
  assumes "support_inv n sd" "x \<in> set (contexts sd)" "st \<noteq> CTX_ACTIVE"
  shows "support_inv n (put_context (ended_context st now x) sd)"
proof -
  have "contexts_ok n (contexts sd)" using assms(1) by (simp add: support_inv_def)
  then show ?thesis
    using assms(1) end_contexts_ok [OF _ assms(3)] by (simp add: support_inv_def put_context_def put_ended [OF _ assms(2)])
qed

lemma put_context_assignments [simp]: "assignments (put_context x sd) = assignments sd"
  by (simp add: put_context_def)

lemma ended_not_active:
  assumes "support_inv n sd" "x \<in> set (contexts sd)" "st \<noteq> CTX_ACTIVE"
  shows "active_contexts u (put_context (ended_context st now x) sd) = filter (\<lambda>y. x_id y \<noteq> x_id x) (active_contexts u sd)"
proof -
  have ok: "contexts_ok n (contexts sd)" using assms(1) by (simp add: support_inv_def)
  have "filter (\<lambda>y. x_actor_user_id y = u \<and> x_status y = CTX_ACTIVE) (map (\<lambda>y. if x_id y = k then ended_context st now y else y) xs) =
      filter (\<lambda>y. x_id y \<noteq> k) (filter (\<lambda>y. x_actor_user_id y = u \<and> x_status y = CTX_ACTIVE) xs)" for k xs
    using assms(3) by (induction xs) auto
  then show ?thesis by (simp add: active_contexts_def put_context_def put_ended [OF ok assms(2)])
qed

lemma one_active:
  assumes "support_inv n sd"
  shows "active_contexts u sd = [] \<or> (\<exists>x. active_contexts u sd = [x])"
proof -
  let ?a = "filter (\<lambda>x. x_status x = CTX_ACTIVE) (contexts sd)"
  have e: "active_contexts u sd = filter (\<lambda>x. x_actor_user_id x = u) ?a" by (simp add: active_contexts_def conj_commute)
  have "distinct (map x_actor_user_id (active_contexts u sd))"
    unfolding e by (rule distinct_map_filter) (use assms in \<open>simp add: support_inv_def contexts_ok_def\<close>)
  moreover have "\<forall>x\<in>set (active_contexts u sd). x_actor_user_id x = u" by (simp add: active_contexts_def)
  ultimately show ?thesis
  proof (cases "active_contexts u sd")
    case (Cons x xs)
    with \<open>distinct _\<close> \<open>\<forall>x\<in>_. _\<close> show ?thesis by (cases xs) auto
  qed simp
qed

lemma ins_context_inv:
  assumes "support_inv n sd" "x_id x = n" "context_row_ok x" "active_contexts (x_actor_user_id x) sd = []"
  shows "support_inv (n + 1) (ins_context x sd)"
proof -
  have "x_actor_user_id y \<noteq> x_actor_user_id x" if "y \<in> set (contexts sd)" "x_status y = CTX_ACTIVE" for y
    using assms(4) that by (auto simp: active_contexts_def filter_empty_conv)
  then have "contexts_ok (n + 1) (contexts sd @ [x])"
    using assms(1-3) by (fastforce simp: support_inv_def contexts_ok_def)
  then show ?thesis using support_inv_mono [OF assms(1), of "n + 1"] by (simp add: support_inv_def ins_context_def)
qed

subsection \<open>Every route keeps it\<close>

lemma close_active_one:
  assumes inv: "support_inv n sd" and run: "close_active now u g confirm (active_contexts u sd) (s, sd) = Inr (kept, s1, sd1)"
  obtains (same) x where "kept = Some x" "x \<in> set (contexts sd)" "x_actor_user_id x = u" "x_status x = CTX_ACTIVE"
      "now < x_expires_at x" "x_organization_id x = g"
    | (closed) "kept = None" "support_inv n sd1" "active_contexts u sd1 = []" "next_id s1 = next_id s" "users s1 = users s"
      "organizations s1 = organizations s" "assignments sd1 = assignments sd"
proof (cases "active_contexts u sd")
  case Nil
  then show thesis using run inv closed by simp
next
  case (Cons x xs)
  then have a: "active_contexts u sd = [x]" using one_active [OF inv, of u] by auto
  then have x: "x \<in> set (contexts sd)" "x_actor_user_id x = u" "x_status x = CTX_ACTIVE"
    using Cons by (auto simp: active_contexts_def filter_eq_Cons_iff)
  note e = end_context_inv [OF inv x(1)] ended_not_active [OF inv x(1), of _ u, unfolded a, simplified]
  show thesis
    using run e x same [of x] closed
    by (auto simp: a record_audit_def split: if_splits)
qed

lemma create_context_cases:
  assumes inv: "support_inv (next_id s) sd" and ok: "support_settings_ok fl"
    and run: "create_context fl clk cur raw s sd = Inr ((x, g, v), s', sd')"
  shows "support_inv (next_id s') sd' \<and> x \<in> set (contexts sd') \<and> x_actor_user_id x = u_id cur \<and> x_status x = CTX_ACTIVE \<and>
    clk 2 < x_expires_at x \<and> x_organization_id x = xc_organization_id raw \<and> x_scope x = ASSISTED_ORDER_ENTRY \<and>
    assignments sd' = assignments sd \<and> organizations s' = organizations s \<and> MARKET_SUPPORT_ENABLED fl \<and> u_role cur = Some ADMIN \<and>
    u_status cur = APPROVED \<and> (\<exists>g. organization_of (xc_organization_id raw) s = Some g \<and> py_upper (g_verification_status g) = ''APPROVED'' \<and> g_provenance g = REAL)"
proof -
  note a = run [unfolded create_context_def Let_def]
  from a obtain d where d: "context_create_schema raw = Inr d" by auto
  then have dx: "xc_organization_id d = xc_organization_id raw" by (auto simp: context_create_schema_def Let_def split: if_splits)
  from a d obtain g0 where g0: "load_organization s (xc_organization_id raw) = Inr g0" by (auto simp: dx)
  then have g: "organization_of (xc_organization_id raw) s = Some g0" "py_upper (g_verification_status g0) = ''APPROVED''" "g_provenance g0 = REAL"
    by (auto simp: load_organization_def split: option.splits)
  then have gid: "g_id g0 = xc_organization_id raw" using row_by_SomeD(1) by fastforce
  have adm: "MARKET_SUPPORT_ENABLED fl" "u_role cur = Some ADMIN" "u_status cur = APPROVED"
    using a by (auto simp: require_market_support_admin_def)
  from a d g0 obtain kept s1 sd1 where
    c: "close_active (clk 2) (u_id cur) (g_id g0) (xc_confirm_replacement d) (active_contexts (u_id cur) sd) (s, sd) = Inr (kept, s1, sd1)"
    by (auto simp: dx)
  let ?x = "new_context (next_id s1) fl (clk 2) cur d"
  let ?s2 = "record_audit (Some (u_id cur)) ''market_support.context_started'' ''market_support_context'' (x_id ?x) (s1\<lparr>next_id := next_id s1 + 1\<rparr>)"
  from a d g0 c have r: "(case kept of Some x \<Rightarrow> bindR (context_response s x) (\<lambda>r. Inr (r, s, sd))
      | None \<Rightarrow> bindR (context_response ?s2 ?x) (\<lambda>r. Inr (r, ?s2, ins_context ?x sd1))) = Inr ((x, g, v), s', sd')"
    by (auto simp: dx)
  from inv c show ?thesis
  proof (cases rule: close_active_one)
    case (same y)
    then have "x = y" "s' = s" "sd' = sd" using r by (auto simp: context_response_def split: option.splits)
    then show ?thesis using same inv g gid adm by (cases "x_scope y") auto
  next
    case closed
    have row: "context_row_ok ?x" "x_actor_user_id ?x = u_id cur" "x_id ?x = next_id s"
      using ok closed by (simp_all add: context_row_ok_def new_context_def support_settings_ok_def minute_us_def)
    have "support_inv (next_id s + 1) (ins_context ?x sd1)"
      by (rule ins_context_inv) (use closed row in simp_all)
    moreover have "x = ?x" "s' = ?s2" "sd' = ins_context ?x sd1" using r closed(1) by (auto simp: context_response_def split: option.splits)
    ultimately show ?thesis
      using ok closed g adm
      by (simp add: ins_context_def dx new_context_def support_settings_ok_def minute_us_def record_audit_def)
  qed
qed

text \<open>Requests of a support party only ever close the context they meet.\<close>

definition support_lapse :: "support_db \<Rightarrow> support_db \<Rightarrow> bool" where
  "support_lapse sd sd' \<longleftrightarrow> assignments sd' = assignments sd \<and>
     (contexts sd' = contexts sd \<or>
      (\<exists>x\<in>set (contexts sd). \<exists>now. contexts sd' = contexts (put_context (ended_context CTX_EXPIRED now x) sd)))"

lemma support_lapse_refl [simp]: "support_lapse sd sd"
  by (simp add: support_lapse_def)

lemma support_lapse_inv:
  assumes "support_inv n sd" "support_lapse sd sd'"
  shows "support_inv n sd'"
proof -
  from assms(2) consider "contexts sd' = contexts sd"
    | x now where "x \<in> set (contexts sd)" "contexts sd' = contexts (put_context (ended_context CTX_EXPIRED now x) sd)"
    by (auto simp: support_lapse_def)
  then have "contexts_ok n (contexts sd')"
  proof cases
    case 2
    then show ?thesis using end_context_inv [OF assms(1) 2(1), of CTX_EXPIRED] by (simp add: support_inv_def)
  qed (use assms(1) in \<open>simp add: support_inv_def\<close>)
  then show ?thesis using assms by (simp add: support_inv_def support_lapse_def)
qed

lemma expire_context_lapse: "x \<in> set (contexts sd) \<Longrightarrow> support_lapse sd (expire_context now x sd)"
  by (auto simp: support_lapse_def expire_context_def ended_context_def put_context_def)

lemma resolve_lapse:
  assumes "resolve_request_party up en clk h s sd cur = (r, sd')"
  shows "support_lapse sd sd'" "r = Inr p \<Longrightarrow> sd' = sd"
  using assms
  by (auto simp: resolve_request_party_def intro: expire_context_lapse dest: row_by_SomeD split: sum.splits option.splits if_splits)

lemma lock_context_lapse: "lock_request_party_context clk sd party = (r, sd') \<Longrightarrow> support_lapse sd sd'"
  by (auto simp: lock_request_party_context_def intro: expire_context_lapse dest: find_mem split: sum.splits option.splits if_splits)

lemma create_locked_support:
  assumes "create_locked e cfg fl ve clk party g pr d idem s sd = Inr (s', r, sd')"
  shows "support_lapse sd sd'"
  using assms
proof (cases rule: create_locked_cases)
  case (placed org new s1 z)
  from placed(3) show ?thesis by (cases rule: authorize_support_cases) (auto simp: support_lapse_def)
qed simp

lemma create_order_lapse:
  assumes "create_order e up cfg fl dump cdump ve today clk rq cur raw pv s sd = (r, sd')"
  shows "support_lapse sd sd'"
proof -
  obtain p sd1 where p: "resolve_request_party up (MARKET_SUPPORT_ENABLED fl) (\<lambda>i. clk (i + 2)) (rq_context rq) pv sd cur = (p, sd1)"
    by fastforce
  note q = resolve_lapse [OF p]
  show ?thesis
    using assms q unfolding create_order_def p
    by (auto intro: lock_context_lapse create_locked_support dest: lock_context_unchanged
        split: sum.splits prod.splits option.splits)
qed

lemma cancel_order_lapse:
  assumes "cancel_order e up fl clk rq cur k body pv s sd = (r, sd')"
  shows "support_lapse sd sd'"
proof -
  obtain p sd1 where p: "cancel_party up fl (\<lambda>i. clk (i + 1)) rq pv sd cur = (p, sd1)" by fastforce
  have q: "support_lapse sd sd1" "\<And>party. p = Inr party \<Longrightarrow> sd1 = sd"
    using p unfolding cancel_party_def by (auto intro: resolve_lapse(1) dest: resolve_lapse(2) split: prod.splits sum.splits if_splits)
  show ?thesis
    using assms q unfolding cancel_order_def p run_cancel_def
    by (auto intro: lock_context_lapse split: sum.splits prod.splits option.splits)
qed

lemma assignments_put:
  assumes "assignments_ok n xs" "row_by sa_id k xs = Some x" "sa_id a = k" "sa_user_id a = sa_user_id x" "sa_capability a = sa_capability x"
  shows "assignments_ok n (put_row sa_id a xs)" "row_by sa_id k (put_row sa_id a xs) = Some a"
proof -
  have x: "x \<in> set xs" "sa_id x = k" using row_by_SomeD [OF assms(2)] by auto
  have "y = x" if "y \<in> set xs" "sa_id y = k" for y
    using that x assms(1) by (auto simp: assignments_ok_def distinct_map dest: inj_onD)
  then have "map (\<lambda>a. (sa_user_id a, sa_capability a)) (put_row sa_id a xs) = map (\<lambda>a. (sa_user_id a, sa_capability a)) xs"
    using assms(3-5) by (auto simp: put_row_def)
  then have "distinct (map (\<lambda>a. (sa_user_id a, sa_capability a)) (put_row sa_id a xs))" using assms(1) by (simp only: assignments_ok_def)
  moreover have "distinct (map sa_id (put_row sa_id a xs))" unfolding map_pk_put_row using assms(1) by (simp add: assignments_ok_def)
  moreover have "sa_id y < n" if "y \<in> set (put_row sa_id a xs)" for y
    using that assms(1,3) x by (auto simp: put_row_def assignments_ok_def split: if_splits)
  ultimately show "assignments_ok n (put_row sa_id a xs)" unfolding assignments_ok_def by blast
  show "row_by sa_id k (put_row sa_id a xs) = Some a" using assms(3) x by (simp add: row_by_put_row) (metis image_eqI)
qed

lemma revoke_effect:
  assumes inv: "support_inv (next_id s) sd" and run: "revoke_capability_assignment up fl clk cur k reason s sd = Inr (a, s', sd')"
  shows "support_inv (next_id s') sd'" "active_contexts (sa_user_id a) sd' = []" "assignment_of k sd' = Some a" "sa_revoked_at a \<noteq> None"
proof -
  note r = run [unfolded revoke_capability_assignment_def Let_def]
  from r obtain reason' x where x: "assignment_of k sd = Some x" and re: "reason_schema reason = Inr reason'"
    by (auto split: option.splits)
  let ?a = "revoked_assignment (clk 0) (u_id cur) reason' x"
  let ?sd = "sd\<lparr>assignments := put_row sa_id ?a (assignments sd)\<rparr>"
  have f: "sa_id ?a = k" "sa_user_id ?a = sa_user_id x" "sa_capability ?a = sa_capability x" "sa_revoked_at ?a \<noteq> None"
    using row_by_SomeD [OF x [unfolded assignment_of_def]] by (simp_all add: revoked_assignment_def)
  note p = assignments_put [OF _ x [unfolded assignment_of_def] f(1-3), of "next_id s"]
  have inv': "support_inv (next_id s) ?sd" using inv p(1) by (simp add: support_inv_def)
  have act: "active_contexts u ?sd = active_contexts u sd" for u by (simp add: active_contexts_def)
  have g: "row_by sa_id k (put_row sa_id ?a (assignments sd)) = Some ?a" using inv p(2) by (simp add: support_inv_def)
  have "a = ?a \<and> support_inv (next_id s') sd' \<and> active_contexts (sa_user_id x) sd' = [] \<and> assignments sd' = put_row sa_id ?a (assignments sd)"
  proof (cases "active_contexts (sa_user_id x) sd")
    case Nil
    then show ?thesis using r x re inv' by (auto simp: act)
  next
    case (Cons y ys)
    then have y: "active_contexts (sa_user_id x) sd = [y]" using one_active [OF inv, of "sa_user_id x"] by auto
    then have "y \<in> set (contexts ?sd)" by (auto simp: active_contexts_def filter_eq_Cons_iff)
    note e = end_context_inv [OF inv' this] ended_not_active [OF inv' this, of _ "sa_user_id x", unfolded act y, simplified]
    show ?thesis using r x re e by (auto simp: y revoke_context_def)
  qed
  then show "support_inv (next_id s') sd'" "active_contexts (sa_user_id a) sd' = []" "assignment_of k sd' = Some a" "sa_revoked_at a \<noteq> None"
    using f g by (simp_all add: assignment_of_def)
qed

lemma grant_inv:
  assumes inv: "support_inv (next_id s) sd" and run: "create_capability_assignment up fl clk cur raw s sd = Inr (a, s', sd')"
  shows "support_inv (next_id s') sd'"
proof -
  from run obtain d where d: "capability_create_schema (clk 0) raw = Inr d" by (auto simp: create_capability_assignment_def)
  let ?P = "\<lambda>a. sa_user_id a = cc_user_id d \<and> sa_capability a = cc_capability d"
  show ?thesis
  proof (cases "find ?P (assignments sd)")
    case None
    then have "assignments_ok (next_id s + 1) (assignments sd @ [new_assignment (next_id s) (clk 1) (u_id cur) d])"
      using inv by (fastforce simp: support_inv_def assignments_ok_def new_assignment_def find_None_iff)
    then show ?thesis using run d None support_inv_mono [OF inv, of "next_id s + 1"]
      by (auto simp: create_capability_assignment_def Let_def support_inv_def)
  next
    case (Some x)
    then have "x \<in> set (assignments sd)" using find_mem by fastforce
    then have "row_by sa_id (sa_id x) (assignments sd) = Some x"
      using inv by (intro row_by_distinct) (simp_all add: support_inv_def assignments_ok_def)
    note p = assignments_put(1) [OF _ this, of "next_id s" "granted_assignment (clk 1) (u_id cur) d x"]
    show ?thesis using run d Some inv p
      by (auto simp: create_capability_assignment_def Let_def support_inv_def granted_assignment_def)
  qed
qed

subsection \<open>Reachable support tables\<close>

inductive support_step ::
  "(string \<Rightarrow> uuid option) \<Rightarrow> support_settings \<Rightarrow> market_db \<times> support_db \<Rightarrow> market_db \<times> support_db \<Rightarrow> bool"
  for up :: "string \<Rightarrow> uuid option" and fl :: support_settings where
  grant: "create_capability_assignment up fl clk cur raw s sd = Inr (a, s', sd') \<Longrightarrow> support_step up fl (s, sd) (s', sd')"
| revoke: "revoke_capability_assignment up fl clk cur k reason s sd = Inr (a, s', sd') \<Longrightarrow> support_step up fl (s, sd) (s', sd')"
| enter: "create_context fl clk cur xc s sd = Inr (r, s', sd') \<Longrightarrow> support_step up fl (s, sd) (s', sd')"
| look: "active_context fl clk cur s sd = (ro, sd') \<Longrightarrow> support_step up fl (s, sd) (s, sd')"
| view: "get_context fl clk cur k s sd = (rr, sd') \<Longrightarrow> support_step up fl (s, sd) (s, sd')"
| leave: "exit_context fl clk cur k s sd = (rr, s', sd') \<Longrightarrow> support_step up fl (s, sd) (s', sd')"
| order_entry: "create_order e up cfg (order_settings.truncate fl) dump cdump ve today clk rq cur oc pv s sd = (p, sd') \<Longrightarrow> next_id s \<le> next_id s'
     \<Longrightarrow> support_step up fl (s, sd) (s', sd')"
| order_cancel: "cancel_order e up (order_settings.truncate fl) clk rq cur k body pv s sd = (c, sd') \<Longrightarrow> next_id s \<le> next_id s'
     \<Longrightarrow> support_step up fl (s, sd) (s', sd')"
| elsewhere: "next_id s \<le> next_id s' \<Longrightarrow> support_step up fl (s, sd) (s', sd)"

inductive support_reachable :: "(string \<Rightarrow> uuid option) \<Rightarrow> support_settings \<Rightarrow> market_db \<times> support_db \<Rightarrow> bool"
  for up :: "string \<Rightarrow> uuid option" and fl :: support_settings where
  start: "contexts sd = [] \<Longrightarrow> assignments sd = [] \<Longrightarrow> support_reachable up fl (s, sd)"
| step: "support_reachable up fl p \<Longrightarrow> support_step up fl p q \<Longrightarrow> support_reachable up fl q"

lemma owned_context_mem: "load_owned_context sd u k = Inr x \<Longrightarrow> x \<in> set (contexts sd)"
  by (auto simp: load_owned_context_def dest: find_mem split: option.splits)

lemma active_context_inv:
  assumes "support_inv n sd" "active_context fl clk cur s sd = (r, sd')"
  shows "support_inv n sd'"
proof -
  have "x \<in> set (contexts sd)" if "sort_key (\<lambda>x. - x_started_at x) (active_contexts (u_id cur) sd) = x # xs" for x xs
    using arg_cong [OF that, of set] by (auto simp: active_contexts_def)
  then show ?thesis
    using assms(2) assms(1) end_context_inv [OF assms(1)]
    by (auto simp: active_context_def split: sum.splits list.splits if_splits)
qed

lemma get_context_inv: "support_inv n sd \<Longrightarrow> get_context fl clk cur k s sd = (r, sd') \<Longrightarrow> support_inv n sd'"
  by (auto simp: get_context_def Let_def intro!: end_context_inv dest: owned_context_mem split: sum.splits if_splits)

lemma exit_context_inv: "support_inv (next_id s) sd \<Longrightarrow> exit_context fl clk cur k s sd = (r, s', sd') \<Longrightarrow> support_inv (next_id s') sd'"
  by (auto simp: exit_context_def Let_def intro!: end_context_inv dest: owned_context_mem split: sum.splits if_splits)

lemma support_step_inv:
  "support_step up fl p q \<Longrightarrow> support_settings_ok fl \<Longrightarrow> support_inv (next_id (fst p)) (snd p) \<Longrightarrow> support_inv (next_id (fst q)) (snd q)"
proof (induction rule: support_step.induct)
  case (enter clk cur xc s sd r s' sd')
  then show ?case using create_context_cases by (cases r) auto
next
  case (order_entry e cfg dump cdump ve today clk rq cur oc pv s sd p sd' s')
  then show ?case using support_lapse_inv [OF _ create_order_lapse] support_inv_mono by (metis fst_conv snd_conv)
next
  case (order_cancel e clk rq cur k body pv s sd c sd' s')
  then show ?case using support_lapse_inv [OF _ cancel_order_lapse] support_inv_mono by (metis fst_conv snd_conv)
next
  case (elsewhere s s' sd)
  then show ?case using support_inv_mono by simp
qed (auto intro: grant_inv revoke_effect(1) active_context_inv get_context_inv exit_context_inv)

lemma support_reachable_inv:
  "support_reachable up fl p \<Longrightarrow> support_settings_ok fl \<Longrightarrow> support_inv (next_id (fst p)) (snd p)"
proof (induction rule: support_reachable.induct)
  case (start sd s)
  then show ?case by (simp add: support_inv_def contexts_ok_def assignments_ok_def)
qed (use support_step_inv in blast)

subsection \<open>Where authority comes from and how it ends\<close>

definition granted_by_operators :: "(string \<Rightarrow> uuid option) \<Rightarrow> support_settings \<Rightarrow> support_db \<Rightarrow> bool" where
  "granted_by_operators up fl sd \<longleftrightarrow> (\<forall>a\<in>set (assignments sd). sa_granted_by_user_id a \<in> set (bootstrap_ids up fl))"

lemma grant_traced:
  assumes "granted_by_operators up fl sd" "create_capability_assignment up fl clk cur raw s sd = Inr (a, s', sd')"
  shows "granted_by_operators up fl sd'"
proof -
  have "u_id cur \<in> set (bootstrap_ids up fl)"
    using assms(2) by (auto simp: create_capability_assignment_def require_bootstrap_operator_def)
  then show ?thesis
    using assms
    by (auto simp: create_capability_assignment_def granted_by_operators_def new_assignment_def granted_assignment_def put_row_def Let_def
        split: option.splits if_splits)
qed

lemma revoke_context_assignments: "assignments (snd (fold (revoke_context now u) xs p)) = assignments (snd p)"
  by (induction xs arbitrary: p) (auto simp: revoke_context_def split: prod.splits)

lemma revoke_traced:
  assumes "granted_by_operators up fl sd" "revoke_capability_assignment up fl clk cur k reason s sd = Inr (a, s', sd')"
  shows "granted_by_operators up fl sd'"
proof -
  note r = assms(2) [unfolded revoke_capability_assignment_def Let_def]
  from r obtain reason' x where x: "row_by sa_id k (assignments sd) = Some x" and re: "reason_schema reason = Inr reason'"
    by (auto simp: assignment_of_def split: option.splits)
  let ?a = "revoked_assignment (clk 0) (u_id cur) reason' x"
  obtain s1 where "sd' = snd (fold (revoke_context (clk 1) (u_id cur)) (sort_key x_id (active_contexts (sa_user_id x) sd))
      (s1, sd\<lparr>assignments := put_row sa_id ?a (assignments sd)\<rparr>))"
    using r x re by (auto simp: assignment_of_def split: prod.splits) (metis snd_conv)
  then have "assignments sd' = put_row sa_id ?a (assignments sd)" by (simp add: revoke_context_assignments)
  then show ?thesis
    using assms(1) row_by_SomeD [OF x] by (auto simp: granted_by_operators_def put_row_def revoked_assignment_def split: if_splits)
qed

lemma close_active_assignments:
  "close_active now u g confirm xs (s, sd) = Inr (kept, s1, sd1) \<Longrightarrow> assignments sd1 = assignments sd"
  by (induction xs arbitrary: s sd) (auto split: if_splits)

lemma lookups_keep_assignments:
  "active_context fl clk cur s sd = (ro, sd') \<Longrightarrow> assignments sd' = assignments sd"
  "get_context fl clk cur k s sd = (rr, sd') \<Longrightarrow> assignments sd' = assignments sd"
  "exit_context fl clk cur k s sd = (rr, s', sd') \<Longrightarrow> assignments sd' = assignments sd"
  by (auto simp: active_context_def get_context_def exit_context_def Let_def split: sum.splits list.splits if_splits)

lemma support_reachable_traced: "support_reachable up fl p \<Longrightarrow> granted_by_operators up fl (snd p)"
proof (induction rule: support_reachable.induct)
  case (step p q)
  have same: "assignments sd' = assignments sd \<Longrightarrow> granted_by_operators up fl sd \<Longrightarrow> granted_by_operators up fl sd'" for sd sd'
    by (simp add: granted_by_operators_def)
  from step(2) step(3) show ?case
  proof (induction rule: support_step.induct)
    case (enter clk cur xc s sd r s' sd')
    then have "assignments sd' = assignments sd"
      by (auto simp: create_context_def Let_def ins_context_def split: option.splits dest: close_active_assignments)
    then show ?case using enter(2) same by simp
  next
    case (order_entry e cfg dump cdump ve today clk rq cur oc pv s sd p sd' s')
    have "assignments sd' = assignments sd" using create_order_lapse [OF order_entry(1)] by (simp add: support_lapse_def)
    then show ?case using order_entry same by simp
  next
    case (order_cancel e clk rq cur k body pv s sd c sd' s')
    have "assignments sd' = assignments sd" using cancel_order_lapse [OF order_cancel(1)] by (simp add: support_lapse_def)
    then show ?case using order_cancel same by simp
  next
    case (look clk cur s sd ro sd')
    then show ?case using lookups_keep_assignments(1) same by simp
  next
    case (view clk cur k s sd rr sd')
    then show ?case using lookups_keep_assignments(2) same by simp
  next
    case (leave clk cur k s sd rr s' sd')
    then show ?case using lookups_keep_assignments(3) same by simp
  next
    case (grant clk cur raw s sd a s' sd')
    then show ?case using grant_traced by simp
  next
    case (revoke clk cur k reason s sd a s' sd')
    then show ?case using revoke_traced by simp
  next
    case (elsewhere s s' sd)
    then show ?case by simp
  qed
qed (simp add: granted_by_operators_def)

text \<open>C21: support authority is bounded and traceable in every reachable state. Every capability was granted by a bootstrap
  operator and is held in one row per user and capability; an administrator has at most one active context; every context lives for
  a positive time of at most a day, and is active exactly while it has no end.\<close>

theorem support_access_bounded:
  assumes "support_reachable up fl (s, sd)" "support_settings_ok fl"
  shows "(\<forall>x\<in>set (contexts sd). \<forall>y\<in>set (contexts sd).
       x_status x = CTX_ACTIVE \<and> x_status y = CTX_ACTIVE \<and> x_actor_user_id x = x_actor_user_id y \<longrightarrow> x = y) \<and>
    (\<forall>x\<in>set (contexts sd). x_started_at x < x_expires_at x \<and> x_expires_at x \<le> x_started_at x + 1440 * minute_us \<and>
       (x_status x = CTX_ACTIVE \<longleftrightarrow> x_ended_at x = None)) \<and>
    (\<forall>a\<in>set (assignments sd). sa_granted_by_user_id a \<in> set (bootstrap_ids up fl) \<and>
       (\<forall>b\<in>set (assignments sd). sa_user_id a = sa_user_id b \<and> sa_capability a = sa_capability b \<longrightarrow> a = b))"
proof -
  have inv: "support_inv (next_id s) sd" using support_reachable_inv [OF assms] by simp
  have tr: "granted_by_operators up fl sd" using support_reachable_traced [OF assms(1)] by simp
  have "x = y" if "x \<in> set (contexts sd)" "y \<in> set (contexts sd)" "x_status x = CTX_ACTIVE" "x_status y = CTX_ACTIVE"
    "x_actor_user_id x = x_actor_user_id y" for x y
    using inv that by (auto simp: support_inv_def contexts_ok_def distinct_map dest: inj_onD)
  moreover have "a = b" if "a \<in> set (assignments sd)" "b \<in> set (assignments sd)" "sa_user_id a = sa_user_id b" "sa_capability a = sa_capability b" for a b
    using one_assignment [OF inv that] .
  ultimately show ?thesis using inv tr by (auto simp: support_inv_def contexts_ok_def context_row_ok_def granted_by_operators_def)
qed

text \<open>C20: revoking a capability takes effect at once. After the operator's request no context of the administrator is
  active, no request of that administrator is resolved to a support party whatever header it
  carries, and no new context can be opened on the tables as they are.\<close>

theorem revocation_cuts_access:
  assumes "support_reachable up fl (s, sd)" "support_settings_ok fl"
    and "revoke_capability_assignment up fl clk op k reason s sd = Inr (a, s', sd')" "u_id cur = sa_user_id a"
  shows "(\<forall>x\<in>set (contexts sd'). x_actor_user_id x = u_id cur \<longrightarrow> x_status x \<noteq> CTX_ACTIVE) \<and>
    (case resolve_request_party up en clk1 h pv sd' cur of (Inl err, _) \<Rightarrow> True | (Inr p, _) \<Rightarrow> rp_mode p = MODE_SELF_SERVICE) \<and>
    (\<exists>err. create_context fl clk2 cur raw s2 sd' = Inl err)"
proof -
  have inv: "support_inv (next_id s) sd" using support_reachable_inv [OF assms(1,2)] by simp
  note e = revoke_effect [OF inv assms(3)]
  have none: "x_status x \<noteq> CTX_ACTIVE" if "x \<in> set (contexts sd')" "x_actor_user_id x = u_id cur" for x
    using e(2) that assms(4) by (auto simp: active_contexts_def filter_empty_conv)
  have "rp_mode p = MODE_SELF_SERVICE" if r: "resolve_request_party up en clk1 h pv sd' cur = (Inr p, sd2)" for p sd2
  proof (rule ccontr)
    assume "rp_mode p \<noteq> MODE_SELF_SERVICE"
    then have "rp_mode p = MODE_MARKET_SUPPORT" by (cases "rp_mode p") simp_all
    then obtain x where "context_of (x_id x) sd' = Some x" "x_actor_user_id x = u_id cur" "x_status x = CTX_ACTIVE"
      by (rule support_party_cases [OF r])
    then show False using none row_by_SomeD by fastforce
  qed
  moreover have "\<exists>err. create_context fl clk2 cur raw s2 sd' = Inl err"
  proof (rule ccontr)
    assume "\<nexists>err. create_context fl clk2 cur raw s2 sd' = Inl err"
    then obtain r where "create_context fl clk2 cur raw s2 sd' = Inr r" by (cases "create_context fl clk2 cur raw s2 sd'") auto
    then have "\<exists>t b. lock_capability sd' t (u_id cur) (sa_capability a) = Inr b"
      by (cases "sa_capability a") (auto simp: create_context_def require_both_capabilities_def)
    then obtain t b where b: "b \<in> set (assignments sd')" "sa_user_id b = sa_user_id a" "sa_capability b = sa_capability a" "sa_revoked_at b = None"
      using assms(4) by (auto simp: lock_capability_def dest: find_mem split: option.splits if_splits)
    have "a \<in> set (assignments sd')" using e(3) row_by_SomeD by (fastforce simp: assignment_of_def)
    then have "b = a" using one_assignment [OF e(1) b(1)] b(2,3) by blast
    then show False using b(4) e(4) by simp
  qed
  ultimately show ?thesis using none by (auto split: prod.splits sum.splits)
qed

text \<open>C22: a context works once it is open. Take the state right after \<open>create_context\<close> has answered a context, new or
  already there, so that it has been neither left nor revoked. A request of the same administrator that names the context is then
  resolved to a support party for its organization, at any time before the context expires at which both of the
  administrator's capabilities are live and the organization is APPROVED.\<close>

theorem opened_context_usable:
  assumes "support_reachable up fl (s, sd)" "support_settings_ok fl"
    and "create_context fl clk cur raw s sd = Inr ((x, g, v), s', sd')"
    and "up (py_strip h) = Some (x_id x)" "py_strip h \<noteq> []" "clk1 1 < x_expires_at x"
    and "\<forall>c. capability_live sd' (clk1 0) (u_id cur) c"
    and "organization_of (xc_organization_id raw) s' = Some org" "g_verification_status org = ''APPROVED''"
  shows "\<exists>p. resolve_request_party up (MARKET_SUPPORT_ENABLED fl) clk1 (Some h) s' sd' cur = (Inr p, sd') \<and>
    rp_mode p = MODE_MARKET_SUPPORT \<and> rp_effective_organization p = Some org \<and> rp_support_context_id p = Some (x_id x)"
proof -
  have inv: "support_inv (next_id s) sd" using support_reachable_inv [OF assms(1,2)] by simp
  note c = create_context_cases [OF inv assms(2,3)]
  have x: "context_of (x_id x) sd' = Some x" using c by (intro row_by_distinct) (auto simp: support_inv_def contexts_ok_def)
  have "g_provenance org = REAL" using c assms(8) by auto
  moreover have "require_context_capabilities sd' (clk1 0) (u_id cur) = Inr ()"
  proof -
    let ?rows = "rev (filter (\<lambda>a. sa_user_id a = u_id cur \<and> sa_revoked_at a = None) (assignments sd'))"
    have "\<exists>a. find (\<lambda>a. sa_capability a = d) ?rows = Some a \<and> \<not> capability_expired (clk1 0) a" for d
    proof -
      obtain a where a: "a \<in> set (assignments sd')" "sa_user_id a = u_id cur" "sa_capability a = d" "sa_revoked_at a = None"
        "\<not> capability_expired (clk1 0) a"
        using assms(7) by (auto simp: capability_live_def)
      then obtain b where b: "find (\<lambda>a. sa_capability a = d) ?rows = Some b"
        by (cases "find (\<lambda>a. sa_capability a = d) ?rows") (auto simp: find_None_iff)
      then have "b \<in> set ?rows \<and> sa_capability b = d" by (rule find_mem)
      then have "b = a" using a c one_assignment [of "next_id s'" sd' b a] by simp
      then show ?thesis using a b by blast
    qed
    from this [of MARKET_SUPPORT_LISTINGS] this [of MARKET_SUPPORT_AUTHORIZATIONS] show ?thesis
      by (auto simp: require_context_capabilities_def Let_def)
  qed
  ultimately show ?thesis using assms(4-6,8,9) c x by (simp add: resolve_request_party_def context_locator_def)
qed

subsection \<open>An example\<close>

text \<open>Operator 14 grants administrator 13 both capabilities; the administrator opens a context for organization 41.\<close>

definition ex_operator :: user where
  "ex_operator = ex_admin\<lparr>u_id := 14\<rparr>"

definition ex_support_flags :: support_settings where
  "ex_support_flags = \<lparr>AUTO_MATCHING_ENABLED = True, MARKET_SUPPORT_ENABLED = True, MARKET_SUPPORT_CONSENT_VERSION = ''v1'',
     MARKET_SUPPORT_CONSENT_REFERENCE = ''market-support/v1'', MARKET_SUPPORT_CONTEXT_TTL_MINUTES = 60,
     MARKET_SUPPORT_BOOTSTRAP_ADMIN_USER_IDS = ''op, nobody''\<rparr>"

definition ex_parse :: "string \<Rightarrow> uuid option" where
  "ex_parse t = (if t = ''op'' then Some 14 else if t = ''ctx'' then Some 1002 else None)"

definition ex_staff_db :: market_db where
  "ex_staff_db = ex_db\<lparr>users := [ex_admin, ex_operator]\<rparr>"

definition ex_grant :: "MarketSupportCapability \<Rightarrow> CapabilityAssignmentCreate" where
  "ex_grant c = \<lparr>cc_user_id = 13, cc_capability = c, cc_reason = ''pilot'', cc_expires_at = None\<rparr>"

definition ex_entry_context :: MarketSupportContextCreate where
  "ex_entry_context = \<lparr>xc_organization_id = 41, xc_support_reference = ''CASE-1'', xc_confirm_replacement = False\<rparr>"

definition ex_granted :: support_db where
  "ex_granted = \<lparr>assignments = [new_assignment 1000 100 14 (ex_grant MARKET_SUPPORT_LISTINGS),
       new_assignment 1001 100 14 (ex_grant MARKET_SUPPORT_AUTHORIZATIONS)], contexts = [], authorizations = []\<rparr>"

lemma ex_settings_ok: "support_settings_ok ex_support_flags"
  by (simp add: support_settings_ok_def ex_support_flags_def)

lemma ex_grants:
  "\<exists>s. support_reachable ex_parse ex_support_flags (s, ex_granted) \<and> users s = [ex_admin, ex_operator] \<and>
     organizations s = [ex_org 41 ''Supplier'', ex_org 42 ''Buyer''] \<and> next_id s = 1002"
proof -
  have adm: "require_market_support_admin ex_support_flags ex_operator = Inr ()"
    and op: "require_bootstrap_operator ex_parse ex_support_flags ex_operator = Inr ()"
    by (simp_all add: require_market_support_admin_def ex_support_flags_def ex_operator_def ex_admin_def require_bootstrap_operator_def
        bootstrap_ids_def List.map_filter_def ex_parse_def py_strip_def is_space_def)
  have sch: "capability_create_schema 100 (ex_grant c) = Inr (ex_grant c)" for c
    by (simp add: capability_create_schema_def reason_schema_def ex_grant_def py_strip_def is_space_def)
  let ?sd1 = "\<lparr>assignments = [new_assignment 1000 100 14 (ex_grant MARKET_SUPPORT_LISTINGS)], contexts = [], authorizations = []\<rparr>"
  let ?g = "\<lambda>c. create_capability_assignment ex_parse ex_support_flags (\<lambda>_. 100) ex_operator (ex_grant c)"
  have id: "u_id ex_operator = 14" by (simp add: ex_operator_def)
  have t: "cc_user_id (ex_grant c) = 13" "cc_capability (ex_grant c) = c" for c by (simp_all add: ex_grant_def)
  have n: "sa_user_id (new_assignment k now u d) = cc_user_id d" "sa_capability (new_assignment k now u d) = cc_capability d"
    "sa_id (new_assignment k now u d) = k" for k now u d by (simp_all add: new_assignment_def)
  have u: "user_of 13 s = Some ex_admin" "u_role ex_admin = Some ADMIN" "u_status ex_admin = APPROVED" if "users s = [ex_admin, ex_operator]" for s
    using that by (simp_all add: ex_admin_def)
  have r: "\<exists>a s'. ?g c s sd = Inr (a, s', sd\<lparr>assignments := assignments sd @ [new_assignment (next_id s) 100 14 (ex_grant c)]\<rparr>) \<and>
      users s' = users s \<and> organizations s' = organizations s \<and> next_id s' = next_id s + 1"
    if "users s = [ex_admin, ex_operator]" "\<And>a. a \<in> set (assignments sd) \<Longrightarrow> sa_capability a \<noteq> c" for s sd c
  proof -
    have "find (\<lambda>a. sa_user_id a = 13 \<and> sa_capability a = c) (assignments sd) = None" using that(2) by (auto simp: find_None_iff)
    then show ?thesis
      unfolding create_capability_assignment_def adm sch op bindR_simps t
      using u [OF that(1)] by (simp add: id record_audit_def Let_def)
  qed
  obtain a1 s1 where g1: "?g MARKET_SUPPORT_LISTINGS ex_staff_db \<lparr>assignments = [], contexts = [], authorizations = []\<rparr> = Inr (a1, s1, ?sd1)"
    "users s1 = [ex_admin, ex_operator]" "organizations s1 = organizations ex_staff_db" "next_id s1 = 1001"
    using r [of ex_staff_db "\<lparr>assignments = [], contexts = [], authorizations = []\<rparr>" MARKET_SUPPORT_LISTINGS] by (auto simp: ex_staff_db_def)
  obtain a2 s2 where g2: "?g MARKET_SUPPORT_AUTHORIZATIONS s1 ?sd1 = Inr (a2, s2, ex_granted)"
    "users s2 = [ex_admin, ex_operator]" "organizations s2 = organizations ex_staff_db" "next_id s2 = 1002"
    using r [of s1 ?sd1 MARKET_SUPPORT_AUTHORIZATIONS] g1 by (auto simp: n t ex_granted_def)
  have "support_reachable ex_parse ex_support_flags (ex_staff_db, \<lparr>assignments = [], contexts = [], authorizations = []\<rparr>)"
    by (rule support_reachable.start) simp_all
  then have "support_reachable ex_parse ex_support_flags (s2, ex_granted)"
    using support_reachable.step support_step.grant [OF g1(1)] support_step.grant [OF g2(1)] by metis
  then show ?thesis using g2 by (auto simp: ex_staff_db_def)
qed

lemma ex_opened:
  assumes "users s = [ex_admin, ex_operator]" "organizations s = [ex_org 41 ''Supplier'', ex_org 42 ''Buyer'']" "next_id s = 1002"
  shows "\<exists>x g v s'. create_context ex_support_flags (\<lambda>_. 200) ex_admin ex_entry_context s ex_granted = Inr ((x, g, v), s', ex_granted\<lparr>contexts := [x]\<rparr>) \<and>
    x_id x = 1002 \<and> x_expires_at x = 3600000200 \<and> x_status x = CTX_ACTIVE \<and> organizations s' = organizations s"
  using assms
  by (simp add: create_context_def require_market_support_admin_def ex_support_flags_def ex_admin_def context_create_schema_def ex_entry_context_def
      require_both_capabilities_def lock_capability_def ex_granted_def new_assignment_def ex_grant_def capability_expired_def load_organization_def
      active_contexts_def context_response_def new_context_def ins_context_def minute_us_def py_strip_def is_space_def py_upper_def upper_char_def
      record_audit_def Let_def)

theorem support_access_bounded_witness:
  "\<exists>s. support_reachable ex_parse ex_support_flags (s, ex_granted) \<and>
     (\<forall>a\<in>set (assignments ex_granted). sa_granted_by_user_id a \<in> set (bootstrap_ids ex_parse ex_support_flags))"
proof -
  obtain s where s: "support_reachable ex_parse ex_support_flags (s, ex_granted)" using ex_grants by blast
  from support_access_bounded [OF s ex_settings_ok] s show ?thesis by blast
qed

theorem opened_context_usable_witness:
  "\<exists>p s' sd'. resolve_request_party ex_parse True (\<lambda>_. 300) (Some ''ctx'') s' sd' ex_admin = (Inr p, sd') \<and> rp_mode p = MODE_MARKET_SUPPORT"
proof -
  obtain s where s: "support_reachable ex_parse ex_support_flags (s, ex_granted)" "users s = [ex_admin, ex_operator]"
    "organizations s = [ex_org 41 ''Supplier'', ex_org 42 ''Buyer'']" "next_id s = 1002"
    using ex_grants by blast
  obtain x g v s' where c: "create_context ex_support_flags (\<lambda>_. 200) ex_admin ex_entry_context s ex_granted =
      Inr ((x, g, v), s', ex_granted\<lparr>contexts := [x]\<rparr>)" "x_id x = 1002" "x_expires_at x = 3600000200" "organizations s' = organizations s"
    using ex_opened [OF s(2-4)] by blast
  have live: "\<forall>c. capability_live (ex_granted\<lparr>contexts := [x]\<rparr>) 300 (u_id ex_admin) c"
    by (rule allI, case_tac c)
      (simp_all add: capability_live_def ex_granted_def new_assignment_def ex_grant_def capability_expired_def ex_admin_def)
  have "ex_parse (py_strip ''ctx'') = Some (x_id x)" "py_strip ''ctx'' \<noteq> []" by (simp_all add: ex_parse_def py_strip_def is_space_def c(2))
  moreover have "organization_of (xc_organization_id ex_entry_context) s' = Some (ex_org 41 ''Supplier'')"
    by (simp add: c(4) s(3) ex_entry_context_def)
  ultimately show ?thesis
    using opened_context_usable [OF s(1) ex_settings_ok c(1), of "''ctx''" "\<lambda>_. 300" "ex_org 41 ''Supplier''"] live c(3)
    by (auto simp: ex_support_flags_def)
qed

theorem revocation_cuts_access_witness:
  "\<exists>s a s' sd'. revoke_capability_assignment ex_parse ex_support_flags (\<lambda>_. 400) ex_operator 1000 ''misuse'' s ex_granted = Inr (a, s', sd') \<and>
     sa_user_id a = 13 \<and> (\<exists>err. create_context ex_support_flags (\<lambda>_. 500) ex_admin ex_entry_context s' sd' = Inl err)"
proof -
  obtain s where s: "support_reachable ex_parse ex_support_flags (s, ex_granted)" using ex_grants by blast
  have "\<exists>a s' sd'. revoke_capability_assignment ex_parse ex_support_flags (\<lambda>_. 400) ex_operator 1000 ''misuse'' s ex_granted = Inr (a, s', sd') \<and> sa_user_id a = 13"
    by (simp add: revoke_capability_assignment_def require_market_support_admin_def ex_support_flags_def ex_operator_def ex_admin_def
        require_bootstrap_operator_def bootstrap_ids_def List.map_filter_def ex_parse_def py_strip_def is_space_def reason_schema_def
        assignment_of_def ex_granted_def new_assignment_def ex_grant_def active_contexts_def revoked_assignment_def Let_def)
  then obtain a s' sd' where r: "revoke_capability_assignment ex_parse ex_support_flags (\<lambda>_. 400) ex_operator 1000 ''misuse'' s ex_granted = Inr (a, s', sd')"
    "sa_user_id a = 13" by blast
  have "u_id ex_admin = sa_user_id a" by (simp add: ex_admin_def r(2))
  from revocation_cuts_access [OF s ex_settings_ok r(1) this] r show ?thesis by blast
qed

end
