(* ===== verification/Negotiations.thy ===== *)
theory Negotiations
  imports Order_Create
begin

section \<open>Negotiations\<close>

text \<open>
  \<^verbatim>\<open>src/app/routers/negotiations.py\<close>, \<^verbatim>\<open>schemas/negotiation.py\<close> and \<^verbatim>\<open>models/negotiation.py\<close>: a conversation about a price between a buyer and a
  supplier over at least one standing order. A proposal opens it, the parties counter in turn, either declines it; acceptance
  is disabled, so a negotiation never trades. The table is a list beside the market database; a route reads both before
  its locks (\<open>pv\<close>, \<open>pn\<close>) and under them (\<open>s\<close>, \<open>ns\<close>).
\<close>

subsection \<open>Rows\<close>

datatype NegotiationStatus = NEG_OPEN | NEG_COUNTERED | NEG_AGREED | NEG_DECLINED | NEG_EXPIRED

record NegotiationRound =
  nr_id :: uuid
  nr_round_number :: nat
  nr_proposer_org_id :: uuid
  nr_proposer_user_id :: "uuid option"
  nr_proposed_price :: dec
  nr_notes :: "string option"
  nr_created_at :: time

record Negotiation =
  ng_id :: uuid
  ng_bid_order_id :: "uuid option"
  ng_ask_order_id :: "uuid option"
  ng_initiator_org_id :: uuid
  ng_counterparty_org_id :: uuid
  ng_initiator_user_id :: "uuid option"
  ng_counterparty_user_id :: "uuid option"
  ng_accepted_by_user_id :: "uuid option"
  ng_initiator_side :: string
  ng_product_id :: uuid
  ng_delivery_point_id :: "uuid option"
  ng_availability_window :: string
  ng_quantity_mt :: dec
  ng_current_price :: dec
  ng_status :: NegotiationStatus
  ng_last_actor_org_id :: uuid
  ng_trade_id :: "uuid option"
  ng_expires_at :: time
  ng_created_at :: time
  ng_rounds :: "NegotiationRound list"

type_synonym neg_state = "market_db \<times> Negotiation list"

definition MAX_ROUNDS :: nat where
  "MAX_ROUNDS = 10"

definition NEGOTIATION_DOMAIN :: "Negotiation \<Rightarrow> bool" where
  "NEGOTIATION_DOMAIN n \<longleftrightarrow> ng_initiator_side n \<in> {''BUYER'', ''SELLER''} \<and> ng_initiator_org_id n \<noteq> ng_counterparty_org_id n"

definition NEGOTIATION_NUMERIC_VALUES :: "Negotiation \<Rightarrow> bool" where
  "NEGOTIATION_NUMERIC_VALUES n \<longleftrightarrow>
     required_numeric (ng_quantity_mt n) (1 / 100) 100000 2 \<and> required_numeric (ng_current_price n) (1 / 100) 1000000 2"

definition NEGOTIATION_LIFECYCLE :: "Negotiation \<Rightarrow> bool" where
  "NEGOTIATION_LIFECYCLE n \<longleftrightarrow> (ng_status n = NEG_AGREED \<longleftrightarrow> ng_trade_id n \<noteq> None)"

definition NEGOTIATION_ROUND_NUMERIC_VALUES :: "NegotiationRound \<Rightarrow> bool" where
  "NEGOTIATION_ROUND_NUMERIC_VALUES r \<longleftrightarrow> required_numeric (nr_proposed_price r) (1 / 100) 1000000 2"

subsection \<open>Requests\<close>

record NegotiationCreateRequest =
  nc_bid_order_id :: "uuid option"
  nc_ask_order_id :: "uuid option"
  nc_counterparty_org_id :: uuid
  nc_product_id :: uuid
  nc_delivery_point_id :: uuid
  nc_availability_window :: string
  nc_quantity_mt :: pydecimal
  nc_proposed_price :: pydecimal
  nc_notes :: "string option"
  nc_expires_in_hours :: int

definition negotiation_create_schema :: "NegotiationCreateRequest \<Rightarrow> NegotiationCreateRequest result" where
  "negotiation_create_schema d =
     bindR (case normalize_availability_window (nc_availability_window d) of
              Inl _ \<Rightarrow> Inl (HTTPException 422 ''NegotiationCreateRequest'') | Inr w \<Rightarrow> Inr w) (\<lambda>w.
     bindR (refuse (\<not> (valid_amount 100000 (nc_quantity_mt d) \<and> valid_amount 1000000 (nc_proposed_price d)
              \<and> pred_opt (\<lambda>x. length x \<le> 500) (nc_notes d) \<and> 1 \<le> nc_expires_in_hours d \<and> nc_expires_in_hours d \<le> 72
              \<and> (nc_bid_order_id d \<noteq> None \<or> nc_ask_order_id d \<noteq> None)))
       (HTTPException 422 ''NegotiationCreateRequest'')) (\<lambda>_.
     Inr (d\<lparr>nc_availability_window := w\<rparr>)))"

record NegotiationCounterRequest =
  nk_proposed_price :: pydecimal
  nk_notes :: "string option"

definition negotiation_counter_schema :: "NegotiationCounterRequest \<Rightarrow> unit result" where
  "negotiation_counter_schema d =
     refuse (\<not> (valid_amount 1000000 (nk_proposed_price d) \<and> pred_opt (\<lambda>x. length x \<le> 500) (nk_notes d)))
       (HTTPException 422 ''NegotiationCounterRequest'')"

subsection \<open>Checks on a negotiation\<close>

definition load_negotiation :: "uuid \<Rightarrow> uuid \<Rightarrow> Negotiation list \<Rightarrow> Negotiation result" where
  "load_negotiation k g ns =
     (case find (\<lambda>n. ng_id n = k \<and> (ng_initiator_org_id n = g \<or> ng_counterparty_org_id n = g)) ns of
        None \<Rightarrow> Inl (HTTPException 404 ''Negotiation not found'') | Some n \<Rightarrow> Inr n)"

definition neg_active :: "Negotiation \<Rightarrow> bool" where
  "neg_active n \<longleftrightarrow> ng_status n = NEG_OPEN \<or> ng_status n = NEG_COUNTERED"

definition assert_active :: "time \<Rightarrow> Negotiation \<Rightarrow> unit result" where
  "assert_active now n =
     bindR (refuse (\<not> neg_active n) (HTTPException 400 ''Negotiation is closed; no further actions allowed'')) (\<lambda>_.
     refuse (ng_expires_at n \<le> now) (HTTPException 400 ''Negotiation has expired''))"

definition assert_counterparty_turn :: "Negotiation \<Rightarrow> uuid \<Rightarrow> unit result" where
  "assert_counterparty_turn n g = refuse (ng_last_actor_org_id n = g) (HTTPException 400 ''Waiting for the other party to respond'')"

definition resolve_trade_roles :: "Negotiation \<Rightarrow> uuid \<times> uuid" where
  "resolve_trade_roles n =
     (if ng_initiator_side n = ''BUYER'' then (ng_initiator_org_id n, ng_counterparty_org_id n)
      else (ng_counterparty_org_id n, ng_initiator_org_id n))"

definition resolve_trade_users :: "Negotiation \<Rightarrow> (uuid \<times> uuid) result" where
  "resolve_trade_users n =
     (case (ng_initiator_user_id n, ng_counterparty_user_id n) of
        (Some i, Some c) \<Rightarrow>
          if ng_initiator_side n = ''BUYER'' then Inr (i, c)
          else if ng_initiator_side n = ''SELLER'' then Inr (c, i)
          else Inl (HTTPException 409 ''Negotiation party roles are invalid'')
      | _ \<Rightarrow> Inl (HTTPException 409 ''NEGOTIATION_PROVENANCE_REQUIRED: Legacy negotiation requires an explicit audited provenance decision''))"

text \<open>\<open>{initiator_user: initiator_org, counterparty_user: counterparty_org}.get(current_user.id)\<close>; the later key wins.\<close>

definition assert_concrete_party :: "Negotiation \<Rightarrow> user \<Rightarrow> unit result" where
  "assert_concrete_party n cur =
     (let expected = (if ng_counterparty_user_id n = Some (u_id cur) then Some (ng_counterparty_org_id n)
                      else if ng_initiator_user_id n = Some (u_id cur) then Some (ng_initiator_org_id n) else None) in
      refuse (expected = None \<or> u_organization_id cur \<noteq> expected) (HTTPException 404 ''Negotiation not found''))"

definition revalidate_negotiation_parties :: "market_db \<Rightarrow> Negotiation \<Rightarrow> unit result" where
  "revalidate_negotiation_parties s n =
     bindR (resolve_trade_users n) (\<lambda>(bu, su).
     let (bg, sg) = resolve_trade_roles n; buyer = user_of bu s; seller = user_of su s in
     refuse (Option.bind buyer u_role \<noteq> Some BUYER \<or> Option.bind seller u_role \<noteq> Some SUPPLIER
             \<or> \<not> execution_party_is_eligible s buyer (organization_of bg s) \<or> \<not> execution_party_is_eligible s seller (organization_of sg s))
       (HTTPException 409 ''NEGOTIATION_PARTY_INELIGIBLE: One or more negotiation parties are no longer execution-qualified''))"

definition order_lock_identity :: "order \<Rightarrow> uuid \<times> uuid \<times> OrderSide \<times> uuid \<times> uuid option \<times> string" where
  "order_lock_identity x = (o_id x, o_organization_id x, o_side x, o_product_id x, o_delivery_point_id x, o_availability_window x)"

definition negotiation_lock_identity :: "Negotiation \<Rightarrow> uuid \<times> uuid \<times> uuid \<times> uuid option \<times> string" where
  "negotiation_lock_identity n =
     (ng_initiator_org_id n, ng_counterparty_org_id n, ng_product_id n, ng_delivery_point_id n, ng_availability_window n)"

subsection \<open>The orders behind a negotiation\<close>

definition order_field :: "OrderSide \<Rightarrow> string" where
  "order_field side = (case side of BID \<Rightarrow> ''bid_order_id'' | ASK \<Rightarrow> ''ask_order_id'')"

definition validate_negotiation_order :: "time \<Rightarrow> OrderSide \<Rightarrow> uuid set \<Rightarrow> dec \<Rightarrow> order option \<Rightarrow> order result" where
  "validate_negotiation_order now side orgs quantity row =
     (case row of None \<Rightarrow> Inl (HTTPException 400 (''Invalid '' @ order_field side))
      | Some x \<Rightarrow>
          bindR (refuse (o_side x \<noteq> side) (HTTPException 400 (order_field side @ '' must reference a '' @ side_value side @ '' order''))) (\<lambda>_.
          bindR (refuse (o_organization_id x \<notin> orgs)
                   (HTTPException 400 (order_field side @ '' does not belong to either negotiating party''))) (\<lambda>_.
          bindR (refuse (\<not> live_status (o_status x)) (HTTPException 409 (order_field side @ '' is not executable''))) (\<lambda>_.
          bindR (refuse (order_expired now x) (HTTPException 409 (order_field side @ '' has expired''))) (\<lambda>_.
          bindR (refuse (o_remaining_quantity_mt x < quantity) (HTTPException 409 (''Negotiation quantity exceeds '' @ side_value side @ '' capacity''))) (\<lambda>_.
          bindR (refuse (\<not> order_is_execution_qualified x) (HTTPException 409 (order_field side @ '' is not execution-qualified''))) (\<lambda>_.
          Inr x)))))))"

definition validated_order :: "time \<Rightarrow> OrderSide \<Rightarrow> uuid set \<Rightarrow> dec \<Rightarrow> market_db \<Rightarrow> uuid option \<Rightarrow> order option result" where
  "validated_order now side orgs quantity s oid =
     (case oid of None \<Rightarrow> Inr None
      | Some k \<Rightarrow> bindR (validate_negotiation_order now side orgs quantity (order_of k s)) (\<lambda>x. Inr (Some x)))"

definition load_and_validate_negotiation_orders ::
  "time \<Rightarrow> time \<Rightarrow> NegotiationCreateRequest \<Rightarrow> uuid \<Rightarrow> market_db \<Rightarrow> (order option \<times> order option \<times> order) result" where
  "load_and_validate_negotiation_orders t1 t2 d g s =
     (let parties = {g, nc_counterparty_org_id d}; q = pydec_val (nc_quantity_mt d) in
      bindR (validated_order t1 BID parties q s (nc_bid_order_id d)) (\<lambda>bid.
      bindR (validated_order t2 ASK parties q s (nc_ask_order_id d)) (\<lambda>ask.
      case (case bid of Some x \<Rightarrow> Some x | None \<Rightarrow> ask) of None \<Rightarrow> Inl (HTTPException 400 ''A negotiation requires an order'')
      | Some canonical \<Rightarrow>
      bindR (refuse (o_product_id canonical \<noteq> nc_product_id d) (HTTPException 400 ''Negotiation product must match its canonical order'')) (\<lambda>_.
      bindR (normalize_availability_window (nc_availability_window d)) (\<lambda>w.
      bindR (refuse (o_delivery_point_id canonical \<noteq> Some (nc_delivery_point_id d) \<or> o_availability_window canonical \<noteq> w)
               (HTTPException 400 ''Negotiation market slice must match its canonical order'')) (\<lambda>_.
      bindR (case (bid, ask) of
               (Some b, Some a) \<Rightarrow>
                 bindR (refuse (o_product_id b \<noteq> o_product_id a \<or> o_delivery_point_id b \<noteq> o_delivery_point_id a
                                \<or> o_availability_window b \<noteq> o_availability_window a)
                          (HTTPException 400 ''Negotiation orders must share one canonical market slice'')) (\<lambda>_.
                 refuse ({o_organization_id b, o_organization_id a} \<noteq> parties)
                   (HTTPException 400 ''Negotiation orders must be owned by opposite negotiating parties''))
             | _ \<Rightarrow> refuse (o_organization_id canonical \<noteq> nc_counterparty_org_id d)
                     (HTTPException 400 ''A one-sided negotiation must reference the counterparty's order'')) (\<lambda>_.
      Inr (bid, ask, canonical))))))))"

definition require_canonical_market_slice :: "market_db \<Rightarrow> uuid \<Rightarrow> uuid option \<Rightarrow> unit result" where
  "require_canonical_market_slice s pid dp =
     (case dp of None \<Rightarrow> Inl (HTTPException 400 ''delivery_point_id is required'')
      | Some did \<Rightarrow>
          bindR (refuse (\<not> list_ex (\<lambda>p. p_id p = pid \<and> canonical_product_clause p) (products s)) (HTTPException 400 ''Invalid product_id'')) (\<lambda>_.
          refuse (\<not> list_ex (\<lambda>d. d_id d = did \<and> canonical_delivery_point_clause d) (delivery_points s))
            (HTTPException 400 ''Invalid delivery_point_id'')))"

subsection \<open>Locks\<close>

definition lock_negotiation_for_mutation ::
  "env \<Rightarrow> uuid \<Rightarrow> uuid \<Rightarrow> uuid \<Rightarrow> Negotiation list \<Rightarrow> market_db \<Rightarrow> Negotiation list \<Rightarrow> Negotiation result" where
  "lock_negotiation_for_mutation e k g u pn s ns =
     bindR (load_negotiation k g pn) (\<lambda>seen.
     bindR (acquire_market_slice_lock e (BID, ng_product_id seen, ng_delivery_point_id seen, ng_availability_window seen)) (\<lambda>_.
     bindR (load_negotiation k g ns) (\<lambda>n.
     bindR (refuse (negotiation_lock_identity n \<noteq> negotiation_lock_identity seen)
              (HTTPException 409 ''Negotiation market slice changed; retry the request'')) (\<lambda>_.
     bindR (lock_and_load_market_organizations s [ng_initiator_org_id n, ng_counterparty_org_id n]
              [\<lparr>mo_user_id = u, mo_organization_id = g\<rparr>] True []) (\<lambda>orgs.
     case (orgs (ng_initiator_org_id n), orgs (ng_counterparty_org_id n)) of
       (Some a, Some b) \<Rightarrow> bindR (assert_market_pair_provenance a b) (\<lambda>_. Inr n)
     | _ \<Rightarrow> Inl KeyError)))))"

subsection \<open>The routes\<close>

definition negotiation_effects :: "string \<Rightarrow> string \<Rightarrow> NotificationType \<Rightarrow> user \<Rightarrow> uuid \<Rightarrow> Negotiation \<Rightarrow> market_db \<Rightarrow> market_db result" where
  "negotiation_effects action event kind cur recipient n s =
     bindR (participant_market_event event ''negotiation'' (ng_id n) [ng_initiator_org_id n, ng_counterparty_org_id n] False) (\<lambda>ev.
     Inr (enqueue_market_events [ev] (record_audit (Some (u_id cur)) action ''negotiation'' (ng_id n) (notify_org_users recipient kind (ng_id n) s))))"

definition new_negotiation ::
  "uuid \<Rightarrow> time \<Rightarrow> user \<Rightarrow> uuid \<Rightarrow> string \<Rightarrow> uuid \<Rightarrow> NegotiationCreateRequest \<Rightarrow> order \<Rightarrow> Negotiation" where
  "new_negotiation k now cur g side counterparty_user d canonical =
     \<lparr>ng_id = k, ng_bid_order_id = nc_bid_order_id d, ng_ask_order_id = nc_ask_order_id d, ng_initiator_org_id = g,
      ng_counterparty_org_id = nc_counterparty_org_id d, ng_initiator_user_id = Some (u_id cur),
      ng_counterparty_user_id = Some counterparty_user, ng_accepted_by_user_id = None, ng_initiator_side = side,
      ng_product_id = nc_product_id d, ng_delivery_point_id = o_delivery_point_id canonical,
      ng_availability_window = o_availability_window canonical, ng_quantity_mt = pydec_val (nc_quantity_mt d),
      ng_current_price = pydec_val (nc_proposed_price d), ng_status = NEG_OPEN, ng_last_actor_org_id = g, ng_trade_id = None,
      ng_expires_at = now + nc_expires_in_hours d * 3600 * 1000000, ng_created_at = now,
      ng_rounds = [\<lparr>nr_id = k + 1, nr_round_number = 1, nr_proposer_org_id = g, nr_proposer_user_id = Some (u_id cur),
        nr_proposed_price = pydec_val (nc_proposed_price d), nr_notes = nc_notes d, nr_created_at = now\<rparr>]\<rparr>"

definition same_pair_product :: "uuid \<Rightarrow> uuid \<Rightarrow> uuid \<Rightarrow> Negotiation \<Rightarrow> bool" where
  "same_pair_product g h pid n \<longleftrightarrow>
     (ng_initiator_org_id n = g \<and> ng_counterparty_org_id n = h \<or> ng_initiator_org_id n = h \<and> ng_counterparty_org_id n = g)
     \<and> ng_product_id n = pid"

text \<open>The counterparty's user and the role expected of it, from the orders.\<close>

definition counterparty_of_orders :: "string \<Rightarrow> user \<Rightarrow> uuid \<Rightarrow> uuid \<Rightarrow> order option \<Rightarrow> order option \<Rightarrow> (uuid \<times> UserRole) result" where
  "counterparty_of_orders side cur g h bid ask =
     (let (theirs, ours, role, their_side, our_side) =
        (if side = ''BUYER'' then (ask, bid, SUPPLIER, ''ASK'', ''BID'') else (bid, ask, BUYER, ''BID'', ''ASK'')) in
      case theirs of None \<Rightarrow> Inl (RuntimeError ''AttributeError'')
      | Some x \<Rightarrow>
          (case o_owner_user_id x of None \<Rightarrow> Inl (HTTPException 400 (their_side @ '' order does not identify the declared counterparty''))
           | Some u \<Rightarrow>
               bindR (refuse (o_organization_id x \<noteq> h) (HTTPException 400 (their_side @ '' order does not identify the declared counterparty''))) (\<lambda>_.
               bindR (refuse (case ours of None \<Rightarrow> False | Some y \<Rightarrow> o_organization_id y \<noteq> g \<or> o_owner_user_id y \<noteq> Some (u_id cur))
                        (HTTPException 400 (our_side @ '' order must be owned by the initiating user''))) (\<lambda>_.
               Inr (u, role)))))"

definition create_negotiation ::
  "env \<Rightarrow> nat \<times> nat \<Rightarrow> (nat \<Rightarrow> time) \<Rightarrow> user \<Rightarrow> NegotiationCreateRequest \<Rightarrow> market_db \<Rightarrow> market_db \<Rightarrow> Negotiation list
     \<Rightarrow> (Negotiation \<times> market_db \<times> Negotiation list) result" where
  "create_negotiation e today clk cur raw pv s ns =
     bindR (require_execution_eligible_user pv cur) (\<lambda>_.
     bindR (negotiation_create_schema raw) (\<lambda>d.
     case u_organization_id cur of None \<Rightarrow> Inl (HTTPException 403 ''User must belong to an organization'')
     | Some g \<Rightarrow>
     let h = nc_counterparty_org_id d; side = (if u_role cur = Some BUYER then ''BUYER'' else ''SELLER'') in
     bindR (refuse (h = g) (HTTPException 400 ''Cannot negotiate with yourself'')) (\<lambda>_.
     bindR (refuse (u_role cur \<noteq> Some BUYER \<and> u_role cur \<noteq> Some SUPPLIER) (HTTPException 403 ''User is not a market participant'')) (\<lambda>_.
     bindR (refuse (side = ''BUYER'' \<and> nc_ask_order_id d = None)
              (HTTPException 400 ''Buyer negotiations require a counterparty ASK order'')) (\<lambda>_.
     bindR (refuse (side = ''SELLER'' \<and> nc_bid_order_id d = None)
              (HTTPException 400 ''Supplier negotiations require a counterparty BID order'')) (\<lambda>_.
     bindR (is_tradable_availability_window (nc_availability_window d) (fst today) (snd today) FORWARD_QUARTER_COUNT) (\<lambda>tradable.
     bindR (refuse (\<not> tradable) (HTTPException 400 ''Availability window is not tradable'')) (\<lambda>_.
     bindR (load_and_validate_negotiation_orders (clk 0) (clk 1) d g pv) (\<lambda>(bid0, ask0, _).
     bindR (require_canonical_market_slice pv (nc_product_id d) (Some (nc_delivery_point_id d))) (\<lambda>_.
     let seen = List.map_filter id [bid0, ask0] in
     bindR (acquire_market_slice_locks e (map (\<lambda>x. (o_side x, o_product_id x, o_delivery_point_id x, o_availability_window x)) seen)) (\<lambda>_.
     bindR (load_and_validate_negotiation_orders (clk 2) (clk 3) d g s) (\<lambda>(bid, ask, canonical).
     let locked = List.map_filter id [bid, ask] in
     bindR (refuse (map order_lock_identity locked \<noteq> map order_lock_identity seen)
              (HTTPException 409 ''Negotiation order slice changed; retry the request'')) (\<lambda>_.
     bindR (lock_and_load_market_organizations s [g, h] [\<lparr>mo_user_id = u_id cur, mo_organization_id = g\<rparr>] True []) (\<lambda>orgs.
     case (orgs g, orgs h) of
       (Some own, Some other) \<Rightarrow>
     bindR (assert_market_pair_provenance own other) (\<lambda>_.
     bindR (refuse (list_ex (\<lambda>x. map_option g_provenance (orgs (o_organization_id x)) \<noteq> Some (o_provenance x)) locked)
              (HTTPException 409 ''Negotiation order provenance is stale'')) (\<lambda>_.
     bindR (require_canonical_market_slice s (o_product_id canonical) (o_delivery_point_id canonical)) (\<lambda>_.
     bindR (counterparty_of_orders side cur g h bid ask) (\<lambda>(counterparty, role).
     bindR (refuse (Option.bind (user_of (u_id cur) s) u_role \<noteq> u_role cur \<or> Option.bind (user_of counterparty s) u_role \<noteq> Some role
              \<or> \<not> execution_party_is_eligible s (user_of (u_id cur) s) (Some own)
              \<or> \<not> execution_party_is_eligible s (user_of counterparty s) (Some other))
              (HTTPException 409 ''Negotiation party is not execution-qualified'')) (\<lambda>_.
     bindR (refuse (list_ex (\<lambda>n. same_pair_product g h (nc_product_id d) n \<and> neg_active n) ns)
              (HTTPException 409 ''An active negotiation already exists for this product with this counterparty'')) (\<lambda>_.
     let n = new_negotiation (next_id s) (clk 4) cur g side counterparty d canonical in
     bindR (negotiation_effects ''negotiation.created'' ''negotiation_created'' NEGOTIATION_RECEIVED cur h n (s\<lparr>next_id := next_id s + 2\<rparr>)) (\<lambda>s1.
     Inr (n, s1, ns @ [n]))))))))
     | _ \<Rightarrow> Inl KeyError))))))))))))))"

definition other_party :: "Negotiation \<Rightarrow> uuid \<Rightarrow> uuid" where
  "other_party n g = (if g = ng_initiator_org_id n then ng_counterparty_org_id n else ng_initiator_org_id n)"

definition countered :: "uuid \<Rightarrow> time \<Rightarrow> user \<Rightarrow> uuid \<Rightarrow> NegotiationCounterRequest \<Rightarrow> Negotiation \<Rightarrow> Negotiation" where
  "countered k now cur g d n =
     n\<lparr>ng_rounds := ng_rounds n @ [\<lparr>nr_id = k, nr_round_number = length (ng_rounds n) + 1, nr_proposer_org_id = g,
         nr_proposer_user_id = Some (u_id cur), nr_proposed_price = pydec_val (nk_proposed_price d), nr_notes = nk_notes d, nr_created_at = now\<rparr>],
       ng_current_price := pydec_val (nk_proposed_price d), ng_last_actor_org_id := g, ng_status := NEG_COUNTERED\<rparr>"

definition counter_negotiation ::
  "env \<Rightarrow> (nat \<Rightarrow> time) \<Rightarrow> user \<Rightarrow> uuid \<Rightarrow> NegotiationCounterRequest \<Rightarrow> market_db \<Rightarrow> Negotiation list \<Rightarrow> market_db \<Rightarrow> Negotiation list
     \<Rightarrow> (Negotiation \<times> market_db \<times> Negotiation list) result" where
  "counter_negotiation e clk cur k d pv pn s ns =
     bindR (require_execution_eligible_user pv cur) (\<lambda>_.
     bindR (negotiation_counter_schema d) (\<lambda>_.
     case u_organization_id cur of None \<Rightarrow> Inl (HTTPException 403 ''User must belong to an organization'')
     | Some g \<Rightarrow>
     bindR (lock_negotiation_for_mutation e k g (u_id cur) pn s ns) (\<lambda>n.
     bindR (assert_concrete_party n cur) (\<lambda>_.
     bindR (revalidate_negotiation_parties s n) (\<lambda>_.
     bindR (assert_active (clk 0) n) (\<lambda>_.
     bindR (assert_counterparty_turn n g) (\<lambda>_.
     bindR (refuse (MAX_ROUNDS \<le> length (ng_rounds n)) (HTTPException 400 ''Maximum 10 rounds reached'')) (\<lambda>_.
     let n1 = countered (next_id s) (clk 1) cur g d n in
     bindR (negotiation_effects ''negotiation.countered'' ''negotiation_countered'' NEGOTIATION_COUNTERED cur (other_party n g) n1
              (s\<lparr>next_id := next_id s + 1\<rparr>)) (\<lambda>s1.
     Inr (n1, s1, put_row ng_id n1 ns))))))))))"

definition accept_negotiation :: "market_db \<Rightarrow> user \<Rightarrow> 'a result" where
  "accept_negotiation pv cur =
     bindR (require_execution_eligible_user pv cur) (\<lambda>_.
     Inl (HTTPException 409 ''Negotiation acceptance is disabled; negotiations are non-executable in this release''))"

definition decline_negotiation ::
  "env \<Rightarrow> (nat \<Rightarrow> time) \<Rightarrow> user \<Rightarrow> uuid \<Rightarrow> Negotiation list \<Rightarrow> market_db \<Rightarrow> Negotiation list
     \<Rightarrow> (Negotiation \<times> market_db \<times> Negotiation list) result" where
  "decline_negotiation e clk cur k pn s ns =
     (case u_organization_id cur of None \<Rightarrow> Inl (HTTPException 403 ''User must belong to an organization'')
      | Some g \<Rightarrow>
      bindR (lock_negotiation_for_mutation e k g (u_id cur) pn s ns) (\<lambda>n.
      bindR (refuse (Some (u_id cur) \<noteq> ng_initiator_user_id n \<and> Some (u_id cur) \<noteq> ng_counterparty_user_id n)
               (HTTPException 404 ''Negotiation not found'')) (\<lambda>_.
      bindR (assert_active (clk 0) n) (\<lambda>_.
      let n1 = n\<lparr>ng_status := NEG_DECLINED\<rparr> in
      bindR (negotiation_effects ''negotiation.declined'' ''negotiation_declined'' NEGOTIATION_DECLINED cur (other_party n g) n1 s) (\<lambda>s1.
      Inr (n1, s1, put_row ng_id n1 ns))))))"

text \<open>The list leaves out what timed out without having been closed.\<close>

definition list_negotiations ::
  "time \<Rightarrow> user \<Rightarrow> NegotiationStatus option \<Rightarrow> nat \<Rightarrow> nat \<Rightarrow> Negotiation list \<Rightarrow> (Negotiation list \<times> nat) result" where
  "list_negotiations now cur wanted skip limit ns =
     bindR (refuse (limit < 1 \<or> 100 < limit) (HTTPException 422 ''Query'')) (\<lambda>_.
     case u_organization_id cur of None \<Rightarrow> Inl (HTTPException 403 ''User must belong to an organization'')
     | Some g \<Rightarrow>
     let rows = filter (\<lambda>n. (ng_initiator_org_id n = g \<or> ng_counterparty_org_id n = g) \<and> (\<not> neg_active n \<or> now < ng_expires_at n)
                  \<and> (case wanted of None \<Rightarrow> True | Some st \<Rightarrow> ng_status n = st)) ns in
     Inr (take limit (drop skip (sort_key (\<lambda>n. - ng_created_at n) rows)), length rows))"

definition get_negotiation :: "user \<Rightarrow> uuid \<Rightarrow> Negotiation list \<Rightarrow> Negotiation result" where
  "get_negotiation cur k ns =
     (case u_organization_id cur of None \<Rightarrow> Inl (HTTPException 403 ''User must belong to an organization'')
      | Some g \<Rightarrow> load_negotiation k g ns)"

subsection \<open>What a route that succeeds has checked\<close>

lemma negotiation_effects_frame:
  assumes "negotiation_effects action event kind cur h n s = Inr s1"
  shows "orders s1 = orders s" "trades s1 = trades s" "inventory s1 = inventory s" "next_id s1 = next_id s"
  using assms
  by (auto simp: negotiation_effects_def enqueue_market_events_def record_audit_def notify_org_users_def notify_org_users_batched_def)

lemma schema_facts:
  assumes "negotiation_create_schema raw = Inr d"
  shows "valid_amount 100000 (nc_quantity_mt d)" "valid_amount 1000000 (nc_proposed_price d)" "1 \<le> nc_expires_in_hours d"
    "nc_counterparty_org_id d = nc_counterparty_org_id raw" "nc_product_id d = nc_product_id raw" "nc_expires_in_hours d \<le> 72"
  using assms by (auto simp: negotiation_create_schema_def)

lemma create_negotiation_cases:
  assumes "create_negotiation e today clk cur raw pv s ns = Inr (n, s', ns')"
  obtains d g side counterparty canonical where "negotiation_create_schema raw = Inr d" "u_organization_id cur = Some g"
    "nc_counterparty_org_id raw \<noteq> g" "side \<in> {''BUYER'', ''SELLER''}"
    "n = new_negotiation (next_id s) (clk 4) cur g side counterparty d canonical" "ns' = ns @ [n]"
    "\<not> list_ex (\<lambda>n. same_pair_product g (nc_counterparty_org_id raw) (nc_product_id raw) n \<and> neg_active n) ns"
    "orders s' = orders s" "trades s' = trades s" "inventory s' = inventory s" "next_id s' = next_id s + 2"
proof -
  note a = assms [unfolded create_negotiation_def Let_def]
  from a obtain d where d: "negotiation_create_schema raw = Inr d" by auto
  note a1 = a [unfolded d bindR_simps]
  from a1 obtain g where g: "u_organization_id cur = Some g" by (auto split: option.splits)
  note a2 = a1 [unfolded g option.case]
  let ?h = "nc_counterparty_org_id d"
  let ?side = "if u_role cur = Some BUYER then ''BUYER'' else ''SELLER''"
  from a2 have h: "?h \<noteq> g" by auto
  from a2 obtain bid0 ask0 c0 where l0: "load_and_validate_negotiation_orders (clk 0) (clk 1) d g pv = Inr (bid0, ask0, c0)" by auto
  note a3 = a2 [unfolded l0 bindR_simps prod.case]
  from a3 obtain bid ask c where l1: "load_and_validate_negotiation_orders (clk 2) (clk 3) d g s = Inr (bid, ask, c)" by auto
  note a4 = a3 [unfolded l1 bindR_simps prod.case]
  from a4 obtain orgs where o: "lock_and_load_market_organizations s [g, ?h] [\<lparr>mo_user_id = u_id cur, mo_organization_id = g\<rparr>] True [] = Inr orgs"
    by auto
  note a5 = a4 [unfolded o bindR_simps]
  from a5 obtain own other where oo: "orgs g = Some own" "orgs ?h = Some other" by (auto split: option.splits)
  note a6 = a5 [unfolded oo prod.case option.case]
  from a6 obtain cp role where cp: "counterparty_of_orders ?side cur g ?h bid ask = Inr (cp, role)" by auto
  note a7 = a6 [unfolded cp bindR_simps prod.case]
  let ?n = "new_negotiation (next_id s) (clk 4) cur g ?side cp d c"
  from a7 obtain s1 where f: "negotiation_effects ''negotiation.created'' ''negotiation_created'' NEGOTIATION_RECEIVED cur ?h ?n (s\<lparr>next_id := next_id s + 2\<rparr>) = Inr s1"
    "n = ?n" "s' = s1" "ns' = ns @ [?n]" and dup: "\<not> list_ex (\<lambda>n. same_pair_product g ?h (nc_product_id d) n \<and> neg_active n) ns"
    by auto
  show thesis
    by (rule that [OF d g _ _ f(2)])
      (use h f dup negotiation_effects_frame [OF f(1)] schema_facts [OF d] in auto)
qed

lemma lock_negotiation_row:
  assumes "lock_negotiation_for_mutation e k g u pn s ns = Inr n"
  shows "n \<in> set ns" "ng_id n = k" "ng_initiator_org_id n = g \<or> ng_counterparty_org_id n = g"
    "\<exists>orgs. lock_and_load_market_organizations s [ng_initiator_org_id n, ng_counterparty_org_id n]
        [\<lparr>mo_user_id = u, mo_organization_id = g\<rparr>] True [] = Inr orgs"
proof -
  from assms have "load_negotiation k g ns = Inr n" "\<exists>orgs. lock_and_load_market_organizations s [ng_initiator_org_id n, ng_counterparty_org_id n]
        [\<lparr>mo_user_id = u, mo_organization_id = g\<rparr>] True [] = Inr orgs"
    by (auto simp: lock_negotiation_for_mutation_def split: option.splits)
  then show "n \<in> set ns" "ng_id n = k" "ng_initiator_org_id n = g \<or> ng_counterparty_org_id n = g"
    "\<exists>orgs. lock_and_load_market_organizations s [ng_initiator_org_id n, ng_counterparty_org_id n]
        [\<lparr>mo_user_id = u, mo_organization_id = g\<rparr>] True [] = Inr orgs"
    by (auto simp: load_negotiation_def dest: find_mem split: option.splits)
qed

lemma counter_negotiation_cases:
  assumes "counter_negotiation e clk cur k d pv pn s ns = Inr (n1, s', ns')"
  obtains g n where "u_organization_id cur = Some g" "n \<in> set ns" "ng_id n = k" "ng_initiator_org_id n = g \<or> ng_counterparty_org_id n = g"
    "neg_active n" "clk 0 < ng_expires_at n" "ng_last_actor_org_id n \<noteq> g" "length (ng_rounds n) < MAX_ROUNDS"
    "valid_amount 1000000 (nk_proposed_price d)" "n1 = countered (next_id s) (clk 1) cur g d n" "ns' = put_row ng_id n1 ns"
    "orders s' = orders s" "trades s' = trades s" "inventory s' = inventory s" "next_id s' = next_id s + 1"
proof -
  note a = assms [unfolded counter_negotiation_def Let_def]
  from a obtain g where g: "u_organization_id cur = Some g" by (auto split: option.splits)
  note a1 = a [unfolded g option.case]
  from a1 obtain n where n: "lock_negotiation_for_mutation e k g (u_id cur) pn s ns = Inr n" by auto
  note a2 = a1 [unfolded n bindR_simps]
  note r = lock_negotiation_row [OF n]
  let ?n1 = "countered (next_id s) (clk 1) cur g d n"
  from a2 have g1: "assert_active (clk 0) n = Inr ()" "assert_counterparty_turn n g = Inr ()" "negotiation_counter_schema d = Inr ()"
    "length (ng_rounds n) < MAX_ROUNDS"
    by simp_all
  from a2 obtain s1 where f: "negotiation_effects ''negotiation.countered'' ''negotiation_countered'' NEGOTIATION_COUNTERED cur (other_party n g) ?n1
      (s\<lparr>next_id := next_id s + 1\<rparr>) = Inr s1" "n1 = ?n1" "s' = s1" "ns' = put_row ng_id n1 ns"
    unfolding bindR_Inr by clarify blast
  have c: "neg_active n" "clk 0 < ng_expires_at n" "ng_last_actor_org_id n \<noteq> g" "length (ng_rounds n) < MAX_ROUNDS"
      "valid_amount 1000000 (nk_proposed_price d)"
    using g1 by (auto simp: assert_active_def assert_counterparty_turn_def negotiation_counter_schema_def)
  show thesis
    by (rule that [OF g r(1-3) c f(2,4)]) (simp_all add: f(3) negotiation_effects_frame [OF f(1)])
qed

lemma decline_negotiation_cases:
  assumes "decline_negotiation e clk cur k pn s ns = Inr (n1, s', ns')"
  obtains g n where "u_organization_id cur = Some g" "n \<in> set ns" "ng_id n = k" "neg_active n" "clk 0 < ng_expires_at n"
    "n1 = n\<lparr>ng_status := NEG_DECLINED\<rparr>" "ns' = put_row ng_id n1 ns"
    "\<exists>orgs. lock_and_load_market_organizations s [ng_initiator_org_id n, ng_counterparty_org_id n]
       [\<lparr>mo_user_id = u_id cur, mo_organization_id = g\<rparr>] True [] = Inr orgs"
    "orders s' = orders s" "trades s' = trades s" "inventory s' = inventory s" "next_id s' = next_id s"
proof -
  note a = assms [unfolded decline_negotiation_def Let_def]
  from a obtain g where g: "u_organization_id cur = Some g" by (auto split: option.splits)
  note a1 = a [unfolded g option.case]
  from a1 obtain n where n: "lock_negotiation_for_mutation e k g (u_id cur) pn s ns = Inr n" by auto
  note a2 = a1 [unfolded n bindR_simps]
  note r = lock_negotiation_row [OF n]
  from a2 have g1: "assert_active (clk 0) n = Inr ()" by simp
  from a2 obtain s1 where f: "negotiation_effects ''negotiation.declined'' ''negotiation_declined'' NEGOTIATION_DECLINED cur (other_party n g)
      (n\<lparr>ng_status := NEG_DECLINED\<rparr>) s = Inr s1" "n1 = n\<lparr>ng_status := NEG_DECLINED\<rparr>" "s' = s1" "ns' = put_row ng_id n1 ns"
    unfolding bindR_Inr by clarify blast
  have c: "neg_active n" "clk 0 < ng_expires_at n" using g1 by (auto simp: assert_active_def)
  show thesis
    by (rule that [OF g r(1,2) c f(2,4) r(4)]) (simp_all add: f(3) negotiation_effects_frame [OF f(1)])
qed

subsection \<open>The table's invariant\<close>

text \<open>The proposals alternate, the initiator's first; the price on the table and the last actor are those of the last one.\<close>

definition rounds_ok :: "Negotiation \<Rightarrow> bool" where
  "rounds_ok n \<longleftrightarrow> ng_rounds n \<noteq> [] \<and> length (ng_rounds n) \<le> MAX_ROUNDS \<and>
     (\<forall>i<length (ng_rounds n). nr_round_number (ng_rounds n ! i) = i + 1 \<and> NEGOTIATION_ROUND_NUMERIC_VALUES (ng_rounds n ! i) \<and>
        nr_proposer_org_id (ng_rounds n ! i) = (if even i then ng_initiator_org_id n else ng_counterparty_org_id n)) \<and>
     ng_current_price n = nr_proposed_price (last (ng_rounds n)) \<and> ng_last_actor_org_id n = nr_proposer_org_id (last (ng_rounds n))"

definition neg_row_ok :: "Negotiation \<Rightarrow> bool" where
  "neg_row_ok n \<longleftrightarrow> NEGOTIATION_DOMAIN n \<and> NEGOTIATION_NUMERIC_VALUES n \<and> ng_trade_id n = None \<and>
     ng_status n \<in> {NEG_OPEN, NEG_COUNTERED, NEG_DECLINED} \<and> rounds_ok n"

definition neg_inv :: "uuid \<Rightarrow> Negotiation list \<Rightarrow> bool" where
  "neg_inv m ns \<longleftrightarrow> distinct (map ng_id ns) \<and> (\<forall>n\<in>set ns. ng_id n < m \<and> neg_row_ok n) \<and>
     (\<forall>a\<in>set ns. \<forall>b\<in>set ns. neg_active a \<and> neg_active b \<and>
        same_pair_product (ng_initiator_org_id a) (ng_counterparty_org_id a) (ng_product_id a) b \<longrightarrow> a = b)"

lemma neg_inv_mono: "neg_inv m ns \<Longrightarrow> m \<le> k \<Longrightarrow> neg_inv k ns"
  by (auto simp: neg_inv_def)

lemma valid_amount_numeric: "valid_amount m v \<Longrightarrow> required_numeric (pydec_val v) (1 / 100) m 2"
proof -
  assume "valid_amount m v"
  then have v: "scale2 (pydec_val v)" "0 < pydec_val v" "pydec_val v \<le> m"
    by (auto simp: valid_amount_def dest: finite_decimal_Inr split: sum.splits)
  then obtain k :: int where k: "pydec_val v = of_int k / 100" by (auto simp: scale2_iff)
  then have "1 \<le> k" using v(2) by simp
  then have "1 / 100 \<le> pydec_val v" unfolding k by simp
  with v show ?thesis by (simp add: required_numeric_scale2)
qed

lemma new_negotiation_ok:
  assumes "negotiation_create_schema raw = Inr d" "nc_counterparty_org_id raw \<noteq> g" "side \<in> {''BUYER'', ''SELLER''}"
  shows "neg_row_ok (new_negotiation k now cur g side cp d c)"
  using assms(2,3) schema_facts [OF assms(1)] valid_amount_numeric
  by (auto simp: neg_row_ok_def new_negotiation_def NEGOTIATION_DOMAIN_def NEGOTIATION_NUMERIC_VALUES_def rounds_ok_def MAX_ROUNDS_def
      NEGOTIATION_ROUND_NUMERIC_VALUES_def)

lemma countered_ok:
  assumes ok: "neg_row_ok n" and g: "ng_initiator_org_id n = g \<or> ng_counterparty_org_id n = g" "ng_last_actor_org_id n \<noteq> g"
    and len: "length (ng_rounds n) < MAX_ROUNDS" and price: "valid_amount 1000000 (nk_proposed_price d)"
  shows "neg_row_ok (countered k now cur g d n)"
proof -
  let ?rs = "ng_rounds n"
  have r: "?rs \<noteq> []" "\<And>i. i < length ?rs \<Longrightarrow> nr_round_number (?rs ! i) = i + 1 \<and> NEGOTIATION_ROUND_NUMERIC_VALUES (?rs ! i) \<and>
      nr_proposer_org_id (?rs ! i) = (if even i then ng_initiator_org_id n else ng_counterparty_org_id n)"
    "ng_last_actor_org_id n = nr_proposer_org_id (last ?rs)"
    using ok by (auto simp: neg_row_ok_def rounds_ok_def)
  have "last ?rs = ?rs ! (length ?rs - 1)" using r(1) by (rule last_conv_nth)
  then have "ng_last_actor_org_id n = (if even (length ?rs - 1) then ng_initiator_org_id n else ng_counterparty_org_id n)"
    using r by simp
  then have turn: "g = (if even (length ?rs) then ng_initiator_org_id n else ng_counterparty_org_id n)"
    using g r(1) by (cases "length ?rs") auto
  have p: "required_numeric (pydec_val (nk_proposed_price d)) (1 / 100) 1000000 2" by (rule valid_amount_numeric [OF price])
  have "rounds_ok (countered k now cur g d n)"
    unfolding rounds_ok_def
  proof (intro conjI allI impI)
    fix i assume "i < length (ng_rounds (countered k now cur g d n))"
    then consider "i < length ?rs" | "i = length ?rs" by (auto simp: countered_def less_Suc_eq)
    then show "nr_round_number (ng_rounds (countered k now cur g d n) ! i) = i + 1"
      "NEGOTIATION_ROUND_NUMERIC_VALUES (ng_rounds (countered k now cur g d n) ! i)"
      "nr_proposer_org_id (ng_rounds (countered k now cur g d n) ! i) =
        (if even i then ng_initiator_org_id (countered k now cur g d n) else ng_counterparty_org_id (countered k now cur g d n))"
      by (cases; use r turn p in \<open>simp add: countered_def nth_append NEGOTIATION_ROUND_NUMERIC_VALUES_def\<close>)+
  qed (use len in \<open>auto simp: countered_def\<close>)
  then show ?thesis
    using ok p by (simp add: neg_row_ok_def NEGOTIATION_DOMAIN_def NEGOTIATION_NUMERIC_VALUES_def) (simp add: countered_def)
qed

lemma declined_ok: "neg_row_ok n \<Longrightarrow> neg_row_ok (n\<lparr>ng_status := NEG_DECLINED\<rparr>)"
proof -
  assume ok: "neg_row_ok n"
  have "rounds_ok (n\<lparr>ng_status := NEG_DECLINED\<rparr>) = rounds_ok n"
    "NEGOTIATION_NUMERIC_VALUES (n\<lparr>ng_status := NEG_DECLINED\<rparr>) = NEGOTIATION_NUMERIC_VALUES n"
    "NEGOTIATION_DOMAIN (n\<lparr>ng_status := NEG_DECLINED\<rparr>) = NEGOTIATION_DOMAIN n"
    by (simp_all add: rounds_ok_def NEGOTIATION_NUMERIC_VALUES_def NEGOTIATION_DOMAIN_def)
  then show ?thesis using ok by (simp add: neg_row_ok_def)
qed

text \<open>Replacing a row by one of the same parties and product, active only if the old one was.\<close>

lemma neg_put:
  assumes inv: "neg_inv m ns" and n: "n \<in> set ns" "ng_id n1 = ng_id n" "neg_row_ok n1"
    and same: "ng_initiator_org_id n1 = ng_initiator_org_id n" "ng_counterparty_org_id n1 = ng_counterparty_org_id n"
      "ng_product_id n1 = ng_product_id n" "neg_active n"
  shows "neg_inv m (put_row ng_id n1 ns)"
proof -
  have uniq: "x = n" if "x \<in> set ns" "ng_id x = ng_id n" for x
    using inv that n(1) by (auto simp: neg_inv_def distinct_map dest: inj_onD)
  have mem: "\<exists>y\<in>set ns. x = (if y = n then n1 else y) \<and> ng_id x = ng_id y" if "x \<in> set (put_row ng_id n1 ns)" for x
  proof (cases "ng_id x = ng_id n")
    case True
    then show ?thesis using that uniq n by (intro bexI [of _ n]) (auto simp: put_row_def split: if_splits)
  next
    case False
    then show ?thesis using that n(2) by (intro bexI [of _ x]) (auto simp: put_row_def split: if_splits)
  qed
  have one: "a = b" if "a \<in> set ns" "b \<in> set ns" "neg_active a" "neg_active b"
      "same_pair_product (ng_initiator_org_id a) (ng_counterparty_org_id a) (ng_product_id a) b" for a b
    using inv that by (auto simp: neg_inv_def)
  have "x = y" if x: "x \<in> set (put_row ng_id n1 ns)" "y \<in> set (put_row ng_id n1 ns)" "neg_active x" "neg_active y"
      "same_pair_product (ng_initiator_org_id x) (ng_counterparty_org_id x) (ng_product_id x) y" for x y
  proof -
    obtain a b where ab: "a \<in> set ns" "x = (if a = n then n1 else a)" "b \<in> set ns" "y = (if b = n then n1 else b)"
      using mem [OF x(1)] mem [OF x(2)] by blast
    have "neg_active a" "neg_active b" using x(3,4) ab same(4) by (auto split: if_splits)
    moreover have "same_pair_product (ng_initiator_org_id a) (ng_counterparty_org_id a) (ng_product_id a) b"
      using x(5) ab same by (auto simp: same_pair_product_def split: if_splits)
    ultimately show ?thesis using one [of a b] ab by auto
  qed
  moreover have "distinct (map ng_id (put_row ng_id n1 ns))" unfolding map_pk_put_row using inv by (simp add: neg_inv_def)
  moreover have "ng_id x < m \<and> neg_row_ok x" if "x \<in> set (put_row ng_id n1 ns)" for x
    using mem [OF that] inv n by (auto simp: neg_inv_def split: if_splits)
  ultimately show ?thesis unfolding neg_inv_def by blast
qed

subsection \<open>Steps\<close>

text \<open>All requests whose clock readings are not before \<open>t0\<close>.\<close>

inductive neg_step :: "env \<Rightarrow> time \<Rightarrow> neg_state \<Rightarrow> neg_state \<Rightarrow> bool" for e :: env and t0 :: time where
  propose: "(\<And>i. t0 \<le> clk i) \<Longrightarrow> create_negotiation e today clk cur raw pv s ns = Inr (n, s', ns') \<Longrightarrow> neg_step e t0 (s, ns) (s', ns')"
| counter: "(\<And>i. t0 \<le> clk i) \<Longrightarrow> counter_negotiation e clk cur k d pv pn s ns = Inr (n, s', ns') \<Longrightarrow> neg_step e t0 (s, ns) (s', ns')"
| decline: "(\<And>i. t0 \<le> clk i) \<Longrightarrow> decline_negotiation e clk cur k pn s ns = Inr (n, s', ns') \<Longrightarrow> neg_step e t0 (s, ns) (s', ns')"
| elsewhere: "next_id s \<le> next_id s' \<Longrightarrow> neg_step e t0 (s, ns) (s', ns)"

inductive neg_reachable :: "env \<Rightarrow> time \<Rightarrow> neg_state \<Rightarrow> bool" for e :: env and t0 :: time where
  start: "neg_reachable e t0 (s, [])"
| step: "neg_reachable e t0 p \<Longrightarrow> neg_step e t0 p q \<Longrightarrow> neg_reachable e t0 q"

lemma create_negotiation_inv:
  assumes inv: "neg_inv (next_id s) ns" and run: "create_negotiation e today clk cur raw pv s ns = Inr (n, s', ns')"
  shows "neg_inv (next_id s') ns'"
  using run
proof (cases rule: create_negotiation_cases)
  case (1 d g side cp c)
  have ok: "neg_row_ok n" using new_negotiation_ok [OF 1(1,3,4)] 1(5) by simp
  have f: "ng_id n = next_id s" "ng_initiator_org_id n = g" "ng_counterparty_org_id n = nc_counterparty_org_id raw" "ng_product_id n = nc_product_id raw"
    using 1(5) schema_facts [OF 1(1)] by (simp_all add: new_negotiation_def)
  have "\<not> same_pair_product g (nc_counterparty_org_id raw) (nc_product_id raw) x" if "x \<in> set ns" "neg_active x" for x
    using 1(7) that by (auto simp: list_ex_iff)
  then have "a = b" if "a \<in> set (ns @ [n])" "b \<in> set (ns @ [n])" "neg_active a" "neg_active b"
      "same_pair_product (ng_initiator_org_id a) (ng_counterparty_org_id a) (ng_product_id a) b" for a b
    using inv that f by (fastforce simp: neg_inv_def same_pair_product_def)
  moreover have "distinct (map ng_id (ns @ [n]))" "\<forall>x\<in>set (ns @ [n]). ng_id x < next_id s + 2 \<and> neg_row_ok x"
    using inv f ok by (auto simp: neg_inv_def)
  ultimately show ?thesis unfolding neg_inv_def 1(6) 1(11) by blast
qed

lemma counter_negotiation_inv:
  assumes inv: "neg_inv (next_id s) ns" and run: "counter_negotiation e clk cur k d pv pn s ns = Inr (n1, s', ns')"
  shows "neg_inv (next_id s') ns'"
  using run
proof (cases rule: counter_negotiation_cases)
  case (1 g n)
  have "neg_row_ok n" using inv 1(2) by (simp add: neg_inv_def)
  then have "neg_row_ok n1" unfolding 1(10) by (rule countered_ok) (rule 1)+
  have "neg_inv (next_id s) ns'" unfolding 1(11)
    by (rule neg_put [OF inv 1(2) _ \<open>neg_row_ok n1\<close>]) (simp_all add: 1(5,10) countered_def)
  then show ?thesis by (rule neg_inv_mono) (simp add: 1(15))
qed

lemma decline_negotiation_inv:
  assumes inv: "neg_inv (next_id s) ns" and run: "decline_negotiation e clk cur k pn s ns = Inr (n1, s', ns')"
  shows "neg_inv (next_id s') ns'"
  using run
proof (cases rule: decline_negotiation_cases)
  case (1 g n)
  have "neg_row_ok n" using inv 1(2) by (simp add: neg_inv_def)
  then have "neg_row_ok n1" unfolding 1(6) by (rule declined_ok)
  show ?thesis unfolding 1(7) 1(12) by (rule neg_put [OF inv 1(2) _ \<open>neg_row_ok n1\<close>]) (simp_all add: 1(4,6))
qed

lemma neg_step_inv: "neg_step e t0 p q \<Longrightarrow> neg_inv (next_id (fst p)) (snd p) \<Longrightarrow> neg_inv (next_id (fst q)) (snd q)"
  by (induction rule: neg_step.induct) (auto intro: create_negotiation_inv counter_negotiation_inv decline_negotiation_inv neg_inv_mono)

lemma neg_reachable_inv: "neg_reachable e t0 p \<Longrightarrow> neg_inv (next_id (fst p)) (snd p)"
proof (induction rule: neg_reachable.induct)
  case (start s)
  then show ?case by (simp add: neg_inv_def)
next
  case (step p q)
  then show ?case using neg_step_inv by blast
qed

subsection \<open>Examples\<close>

definition ex_proposal :: NegotiationCreateRequest where
  "ex_proposal = \<lparr>nc_bid_order_id = None, nc_ask_order_id = Some 31, nc_counterparty_org_id = 41, nc_product_id = p_id ex_product,
     nc_delivery_point_id = d_id ex_point, nc_availability_window = ''SPOT'', nc_quantity_mt = Finite 300 0,
     nc_proposed_price = Finite 850 0, nc_notes = None, nc_expires_in_hours = 24\<rparr>"

definition ex_negotiation :: Negotiation where
  "ex_negotiation = new_negotiation 1000 1000 (ex_user 12 BUYER 42) 42 ''BUYER'' 11 ex_proposal ex_ask"

lemma ex_proposal_simps [simp]:
  "nc_bid_order_id ex_proposal = None" "nc_ask_order_id ex_proposal = Some 31" "nc_counterparty_org_id ex_proposal = 41"
  "nc_product_id ex_proposal = p_id ex_product" "nc_delivery_point_id ex_proposal = d_id ex_point"
  "nc_availability_window ex_proposal = ''SPOT''"
  by (simp_all add: ex_proposal_def)

lemma ex_proposal_made:
  "\<exists>s'. create_negotiation ex_env (2026, 2) (\<lambda>_. 1000) (ex_user 12 BUYER 42) ex_proposal ex_ask_db ex_ask_db [] =
     Inr (ex_negotiation, s', [ex_negotiation])"
proof -
  have sch: "negotiation_create_schema ex_proposal = Inr ex_proposal"
    using normalize_canonical [OF canonical_SPOT]
    by (simp add: negotiation_create_schema_def ex_proposal_def valid_amount_def finite_decimal_def dec_value_def pred_opt_def SPOT_WINDOW_def)
  have w: "is_tradable_availability_window ''SPOT'' 2026 2 n = Inr True" for n
    using normalize_canonical [OF canonical_SPOT]
    by (simp add: is_tradable_availability_window_def tradable_availability_windows_def SPOT_WINDOW_def Let_def)
  have el: "execution_party_is_eligible ex_ask_db (Some (ex_user 12 BUYER 42)) (Some (ex_org 42 ''Buyer''))"
    "execution_party_is_eligible ex_ask_db (Some (ex_user 11 SUPPLIER 41)) (Some (ex_org 41 ''Supplier''))"
    by (simp_all add: execution_party_is_eligible_def ex_ask_db_def)
  have q: "order_is_execution_qualified ex_ask" 
    by (simp add: order_is_execution_qualified_def ex_metadata_def ex_product_def normalize_certification_scheme_def py_strip_def py_upper_def
        upper_char_def is_space_def BIOFUEL_SPECIFICATION_STANDARDS_def B30_PRODUCT_ID_def B100_PRODUCT_ID_def Let_def)
  have ords: "load_and_validate_negotiation_orders 1000 1000 ex_proposal 42 ex_ask_db = Inr (None, Some ex_ask, ex_ask)"
    using normalize_canonical [OF canonical_SPOT] q
    by (simp add: load_and_validate_negotiation_orders_def validated_order_def validate_negotiation_order_def ex_proposal_def ex_ask_db_def
        order_expired_def live_status_def dec_value_def SPOT_WINDOW_def Let_def)
  have cat: "require_canonical_market_slice ex_ask_db (p_id ex_product) (Some (d_id ex_point)) = Inr ()"
    by (simp add: require_canonical_market_slice_def ex_ask_db_def canonical_product_clause_def canonical_delivery_point_clause_def
        ex_product_def ex_point_def CANONICAL_PRODUCTS_def CANONICAL_DELIVERY_POINTS_def)
  have lk: "acquire_market_slice_locks ex_env [(ASK, p_id ex_product, Some (d_id ex_point), ''SPOT'')] = Inr ()"
    using ex_slice_lock [OF canonical_SPOT] normalize_canonical [OF canonical_SPOT]
    by (simp add: acquire_market_slice_locks_def slice_lock_order_def SPOT_WINDOW_def)
  have ld: "\<exists>orgs. lock_and_load_market_organizations ex_ask_db [42, 41] [\<lparr>mo_user_id = 12, mo_organization_id = 42\<rparr>] True [] = Inr orgs \<and>
      orgs 42 = Some (ex_org 42 ''Buyer'') \<and> orgs 41 = Some (ex_org 41 ''Supplier'')"
    using el(1) by (simp add: lock_and_load_market_organizations_def Let_def ownership_by_user_def py_upper_def upper_char_def ex_ask_db_def)
  have ad: "require_execution_eligible_user ex_ask_db (ex_user 12 BUYER 42) = Inr (ex_user 12 BUYER 42)"
    using el(1) by (simp add: require_execution_eligible_user_def ex_ask_db_def)
  have ef: "\<exists>s1. negotiation_effects ''negotiation.created'' ''negotiation_created'' NEGOTIATION_RECEIVED cur h n t = Inr s1" for cur h n t
    by (simp add: negotiation_effects_def participant_market_event_def py_strip_def is_space_def)
  have us: "user_of 12 ex_ask_db = Some (ex_user 12 BUYER 42)" "user_of 11 ex_ask_db = Some (ex_user 11 SUPPLIER 41)" "next_id ex_ask_db = 1000"
    by (simp_all add: ex_ask_db_def)
  have ap: "assert_market_pair_provenance (ex_org 42 ''Buyer'') (ex_org 41 ''Supplier'') = Inr ()"
    by (simp add: assert_market_pair_provenance_def execution_provenance_compatible_def)
  have cp: "counterparty_of_orders ''BUYER'' (ex_user 12 BUYER 42) 42 41 None (Some ex_ask) = Inr (11, SUPPLIER)"
    by (simp add: counterparty_of_orders_def)
  show ?thesis using sch w el ords cat lk ld ad ap cp us ef
    by (auto simp: create_negotiation_def Let_def List.map_filter_simps ex_negotiation_def)
qed

lemma ex_negotiation_reachable: "\<exists>s'. neg_reachable ex_env 1000 (s', [ex_negotiation])"
proof -
  obtain s' where "create_negotiation ex_env (2026, 2) (\<lambda>_. 1000) (ex_user 12 BUYER 42) ex_proposal ex_ask_db ex_ask_db [] =
     Inr (ex_negotiation, s', [ex_negotiation])"
    using ex_proposal_made by blast
  then have "neg_step ex_env 1000 (ex_ask_db, []) (s', [ex_negotiation])" by (intro neg_step.propose) simp_all
  then show ?thesis using neg_reachable.start neg_reachable.step by blast
qed

subsection \<open>Properties\<close>

text \<open>C32: negotiations are orderly and never execute. In every reachable state the proposals of a negotiation are numbered from
  one, at most ten, and alternate between its two different organizations beginning with the initiator; the price on the
  table is the last proposal's and every price is legal; no negotiation is agreed or has a trade; and two active
  negotiations never concern the same pair of organizations and the same product.\<close>

theorem negotiations_orderly:
  assumes "neg_reachable e t0 (s, ns)"
  shows "(\<forall>n\<in>set ns. 0 < length (ng_rounds n) \<and> length (ng_rounds n) \<le> 10 \<and> ng_initiator_org_id n \<noteq> ng_counterparty_org_id n \<and>
       (\<forall>i<length (ng_rounds n). nr_round_number (ng_rounds n ! i) = i + 1 \<and>
          nr_proposer_org_id (ng_rounds n ! i) = (if even i then ng_initiator_org_id n else ng_counterparty_org_id n) \<and>
          NEGOTIATION_ROUND_NUMERIC_VALUES (ng_rounds n ! i)) \<and>
       ng_current_price n = nr_proposed_price (last (ng_rounds n)) \<and> ng_last_actor_org_id n = nr_proposer_org_id (last (ng_rounds n)) \<and>
       ng_status n \<noteq> NEG_AGREED \<and> ng_trade_id n = None \<and> NEGOTIATION_LIFECYCLE n \<and> NEGOTIATION_NUMERIC_VALUES n \<and> NEGOTIATION_DOMAIN n) \<and>
    (\<forall>a\<in>set ns. \<forall>b\<in>set ns. neg_active a \<and> neg_active b \<and>
       same_pair_product (ng_initiator_org_id a) (ng_counterparty_org_id a) (ng_product_id a) b \<longrightarrow> a = b)"
proof -
  have inv: "neg_inv (next_id s) ns" using neg_reachable_inv [OF assms] by simp
  have row: "neg_row_ok n" if "n \<in> set ns" for n using inv that by (simp add: neg_inv_def)
  have pair: "\<forall>a\<in>set ns. \<forall>b\<in>set ns. neg_active a \<and> neg_active b \<and>
       same_pair_product (ng_initiator_org_id a) (ng_counterparty_org_id a) (ng_product_id a) b \<longrightarrow> a = b"
    using inv by (simp add: neg_inv_def)
  show ?thesis
  proof (intro conjI ballI)
    fix n assume "n \<in> set ns"
    note ok = row [OF this, unfolded neg_row_ok_def rounds_ok_def MAX_ROUNDS_def]
    show "ng_status n \<noteq> NEG_AGREED" "NEGOTIATION_LIFECYCLE n" "ng_initiator_org_id n \<noteq> ng_counterparty_org_id n" "0 < length (ng_rounds n)"
      using ok by (auto simp: NEGOTIATION_LIFECYCLE_def NEGOTIATION_DOMAIN_def)
    show "length (ng_rounds n) \<le> 10" "ng_current_price n = nr_proposed_price (last (ng_rounds n))" "ng_trade_id n = None"
      "ng_last_actor_org_id n = nr_proposer_org_id (last (ng_rounds n))" "NEGOTIATION_NUMERIC_VALUES n" "NEGOTIATION_DOMAIN n"
      using ok by blast+
    show "\<forall>i<length (ng_rounds n). nr_round_number (ng_rounds n ! i) = i + 1 \<and>
        nr_proposer_org_id (ng_rounds n ! i) = (if even i then ng_initiator_org_id n else ng_counterparty_org_id n) \<and>
        NEGOTIATION_ROUND_NUMERIC_VALUES (ng_rounds n ! i)"
      using ok by blast
  qed (use pair in blast)
qed

theorem negotiations_orderly_witness:
  "(\<exists>s'. neg_reachable ex_env 1000 (s', [ex_negotiation])) \<and> length (ng_rounds ex_negotiation) \<le> 10 \<and>
   nr_proposer_org_id (ng_rounds ex_negotiation ! 0) = ng_initiator_org_id ex_negotiation \<and> ng_trade_id ex_negotiation = None"
proof -
  obtain s' where r: "neg_reachable ex_env 1000 (s', [ex_negotiation])" using ex_negotiation_reachable by blast
  have "length (ng_rounds ex_negotiation) \<le> 10 \<and>
     nr_proposer_org_id (ng_rounds ex_negotiation ! 0) = ng_initiator_org_id ex_negotiation \<and> ng_trade_id ex_negotiation = None"
    using negotiations_orderly [OF r] by (metis even_zero list.set_intros(1))
  then show ?thesis using r by blast
qed

lemma neg_step_keeps_expired:
  assumes "neg_step e t0 p q" "neg_inv (next_id (fst p)) (snd p)" "n \<in> set (snd p)" "ng_expires_at n \<le> t0"
  shows "n \<in> set (snd q)"
  using assms
proof (induction rule: neg_step.induct)
  case (propose clk today cur raw pv s ns n1 s' ns')
  from propose(2) have "ns' = ns @ [n1]" by (rule create_negotiation_cases)
  then show ?case using propose by simp
next
  case (counter clk cur k d pv pn s ns n1 s' ns')
  from counter(2) show ?case
  proof (cases rule: counter_negotiation_cases)
    case (1 g m)
    have "t0 \<le> clk 0" by (rule counter(1))
    then have "m \<noteq> n" using 1(6) counter(5) by auto
    then have "ng_id n \<noteq> ng_id m" using counter(3,4) 1(2) by (auto simp: neg_inv_def distinct_map dest: inj_onD)
    then show ?thesis using counter(4) in_put_row_other by (fastforce simp: 1(10,11) countered_def)
  qed
next
  case (decline clk cur k pn s ns n1 s' ns')
  from decline(2) show ?case
  proof (cases rule: decline_negotiation_cases)
    case (1 g m)
    have "t0 \<le> clk 0" by (rule decline(1))
    then have "m \<noteq> n" using 1(5) decline(5) by auto
    then have "ng_id n \<noteq> ng_id m" using decline(3,4) 1(2) by (auto simp: neg_inv_def distinct_map dest: inj_onD)
    then show ?thesis using decline(4) in_put_row_other by (fastforce simp: 1(6,7))
  qed
qed simp

text \<open>C33: a negotiation that lapses blocks its parties for good. Once an open or countered negotiation has passed its expiry, then in
  every later state it is still stored as it was, it can neither be countered nor declined, and every attempt of either
  organization to open a negotiation with the other on the same product is refused. (No code moves a
  negotiation to the status EXPIRED.)\<close>

theorem lapsed_negotiation_blocks_pair:
  assumes "neg_reachable e t (s, ns)" "n \<in> set ns" "neg_active n" "ng_expires_at n \<le> t0"
    and "(neg_step e t0)\<^sup>*\<^sup>* (s, ns) (s', ns')" "\<And>i. t0 \<le> clk i"
  shows "n \<in> set ns' \<and>
    (\<exists>err. counter_negotiation e clk cur (ng_id n) d pv pn s' ns' = Inl err) \<and>
    (\<exists>err. decline_negotiation e clk cur (ng_id n) pn s' ns' = Inl err) \<and>
    (u_organization_id cur = Some g \<and> same_pair_product g (nc_counterparty_org_id raw) (nc_product_id raw) n \<longrightarrow>
       (\<exists>err. create_negotiation e today clk cur raw pv s' ns' = Inl err))"
proof -
  have "neg_inv (next_id (fst q)) (snd q) \<and> n \<in> set (snd q)" if "(neg_step e t0)\<^sup>*\<^sup>* (s, ns) q" for q
    using that
  proof (induction rule: rtranclp_induct)
    case base
    then show ?case using neg_reachable_inv [OF assms(1)] assms(2) by simp
  next
    case (step p q)
    then show ?case using neg_step_inv neg_step_keeps_expired assms(4) by blast
  qed
  from this [OF assms(5)] have inv: "neg_inv (next_id s') ns'" and n: "n \<in> set ns'" by simp_all
  have same: "m = n" if "m \<in> set ns'" "ng_id m = ng_id n" for m
    using inv n that by (auto simp: neg_inv_def distinct_map dest: inj_onD)
  have t: "t0 \<le> clk 0" by (rule assms(6))
  have "counter_negotiation e clk cur (ng_id n) d pv pn s' ns' \<noteq> Inr r" for r
  proof
    assume "counter_negotiation e clk cur (ng_id n) d pv pn s' ns' = Inr r"
    moreover obtain x y z where "r = (x, y, z)" by (cases r)
    ultimately have "counter_negotiation e clk cur (ng_id n) d pv pn s' ns' = Inr (x, y, z)" by simp
    then show False using same t assms(4) by (cases rule: counter_negotiation_cases) force
  qed
  moreover have "decline_negotiation e clk cur (ng_id n) pn s' ns' \<noteq> Inr r" for r
  proof
    assume "decline_negotiation e clk cur (ng_id n) pn s' ns' = Inr r"
    moreover obtain x y z where "r = (x, y, z)" by (cases r)
    ultimately have "decline_negotiation e clk cur (ng_id n) pn s' ns' = Inr (x, y, z)" by simp
    then show False using same t assms(4) by (cases rule: decline_negotiation_cases) force
  qed
  moreover have "create_negotiation e today clk cur raw pv s' ns' \<noteq> Inr r"
    if "u_organization_id cur = Some g" "same_pair_product g (nc_counterparty_org_id raw) (nc_product_id raw) n" for r
  proof
    assume "create_negotiation e today clk cur raw pv s' ns' = Inr r"
    moreover obtain x y z where "r = (x, y, z)" by (cases r)
    ultimately have "create_negotiation e today clk cur raw pv s' ns' = Inr (x, y, z)" by simp
    then show False using that n assms(3) by (cases rule: create_negotiation_cases) (auto simp: list_ex_iff)
  qed
  ultimately show ?thesis using n by (metis sumE)
qed

theorem lapsed_negotiation_blocks_pair_witness:
  "\<exists>s. neg_reachable ex_env 1000 (s, [ex_negotiation]) \<and>
     (\<exists>err. decline_negotiation ex_env (\<lambda>_. 86400001000) (ex_user 11 SUPPLIER 41) 1000 [ex_negotiation] s [ex_negotiation] = Inl err) \<and>
     (\<exists>err. create_negotiation ex_env (2026, 2) (\<lambda>_. 86400001000) (ex_user 12 BUYER 42) ex_proposal ex_ask_db s [ex_negotiation] = Inl err)"
proof -
  obtain s where r: "neg_reachable ex_env 1000 (s, [ex_negotiation])" using ex_negotiation_reachable by blast
  have n: "neg_active ex_negotiation" "ng_expires_at ex_negotiation \<le> 86400001000" "ng_id ex_negotiation = 1000"
    "same_pair_product 42 (nc_counterparty_org_id ex_proposal) (nc_product_id ex_proposal) ex_negotiation"
    by (simp_all add: ex_negotiation_def new_negotiation_def neg_active_def ex_proposal_def same_pair_product_def)
  have m: "ex_negotiation \<in> set [ex_negotiation]" by simp
  have c: "(neg_step ex_env 86400001000)\<^sup>*\<^sup>* (s, [ex_negotiation]) (s, [ex_negotiation])" by simp
  have l: "\<And>i::nat. (86400001000 :: time) \<le> 86400001000" by simp
  note b = lapsed_negotiation_blocks_pair [OF r m n(1,2) c l]
  have "\<exists>err. decline_negotiation ex_env (\<lambda>_. 86400001000) (ex_user 11 SUPPLIER 41) 1000 [ex_negotiation] s [ex_negotiation] = Inl err"
    using b n(3) by auto
  moreover have "\<exists>err. create_negotiation ex_env (2026, 2) (\<lambda>_. 86400001000) (ex_user 12 BUYER 42) ex_proposal ex_ask_db s [ex_negotiation] = Inl err"
    using b n(4) by auto
  ultimately show ?thesis using r by blast
qed

text \<open>A party whose organization lost its approval cannot decline, whatever the negotiation.\<close>

lemma unapproved_party_cannot_decline:
  assumes "u_organization_id cur = Some g" "organization_of g s = Some org" "py_upper (g_verification_status org) \<noteq> ''APPROVED''"
  shows "\<exists>err. decline_negotiation e clk cur k pn s ns = Inl err"
proof (rule ccontr)
  assume "\<nexists>err. decline_negotiation e clk cur k pn s ns = Inl err"
  then obtain r where "decline_negotiation e clk cur k pn s ns = Inr r" by (cases "decline_negotiation e clk cur k pn s ns") auto
  moreover obtain x y z where "r = (x, y, z)" by (cases r)
  ultimately have run: "decline_negotiation e clk cur k pn s ns = Inr (x, y, z)" by simp
  then obtain n where n: "lock_negotiation_for_mutation e k g (u_id cur) pn s ns = Inr n"
    using assms(1) by (auto simp: decline_negotiation_def)
  from lock_negotiation_row [OF n] assms(2,3) show False
    by (auto simp: lock_and_load_market_organizations_def Let_def)
qed

end
