(* ===== verification/Rfq.thy ===== *)
theory Rfq
  imports Negotiations
begin

section \<open>Requests for quotes\<close>

text \<open>
  \<^verbatim>\<open>src/app/routers/rfq.py\<close>, \<^verbatim>\<open>schemas/rfq.py\<close> and \<^verbatim>\<open>models/rfq.py\<close>: a buyer asks the suppliers for a price, each supplier
  may answer once, the buyer may cancel; acceptance is disabled. The rows carry their quotes in the order of insertion. Creating a request returns
  its row, from which \<open>build_rfq_response\<close> makes the answer. As in \<^verbatim>\<open>Negotiations\<close>, \<open>pv\<close> and \<open>pn\<close> are what a route reads before its locks, \<open>s\<close> and \<open>rs\<close> what it sees under them.
\<close>

subsection \<open>Rows\<close>

datatype RFQStatus = RFQ_OPEN | RFQ_QUOTED | RFQ_ACCEPTED | RFQ_EXPIRED | RFQ_CANCELLED

datatype QuoteStatus = QUOTE_PENDING | QUOTE_ACCEPTED | QUOTE_DECLINED | QUOTE_WITHDRAWN

record RFQQuote =
  qt_id :: uuid
  qt_seller_org_id :: uuid
  qt_seller_user_id :: "uuid option"
  qt_price_per_mt_usd :: dec
  qt_notes :: "string option"
  qt_status :: QuoteStatus
  qt_created_at :: time

record RFQ =
  rf_id :: uuid
  rf_buyer_org_id :: uuid
  rf_buyer_user_id :: "uuid option"
  rf_product_id :: uuid
  rf_delivery_point_id :: "uuid option"
  rf_quantity_mt :: dec
  rf_target_price_per_mt :: "dec option"
  rf_availability_window :: string
  rf_notes :: "string option"
  rf_is_anonymous :: bool
  rf_status :: RFQStatus
  rf_accepted_quote_id :: "uuid option"
  rf_trade_id :: "uuid option"
  rf_expires_at :: time
  rf_created_at :: time
  rf_quotes :: "RFQQuote list"

type_synonym rfq_state = "market_db \<times> RFQ list"

definition RFQ_NUMERIC_VALUES :: "RFQ \<Rightarrow> bool" where
  "RFQ_NUMERIC_VALUES r \<longleftrightarrow>
     required_numeric (rf_quantity_mt r) (1 / 100) 100000 2 \<and> optional_numeric (rf_target_price_per_mt r) (1 / 100) 1000000 2"

definition RFQ_LIFECYCLE :: "RFQ \<Rightarrow> bool" where
  "RFQ_LIFECYCLE r \<longleftrightarrow>
     (rf_status r = RFQ_ACCEPTED \<and> rf_accepted_quote_id r \<noteq> None \<and> rf_trade_id r \<noteq> None)
     \<or> (rf_status r \<noteq> RFQ_ACCEPTED \<and> rf_accepted_quote_id r = None \<and> rf_trade_id r = None)"

definition RFQ_QUOTE_NUMERIC_VALUES :: "RFQQuote \<Rightarrow> bool" where
  "RFQ_QUOTE_NUMERIC_VALUES q \<longleftrightarrow> required_numeric (qt_price_per_mt_usd q) (1 / 100) 1000000 2"

subsection \<open>Requests\<close>

record RFQCreateRequest =
  rc_product_id :: uuid
  rc_delivery_point_id :: uuid
  rc_quantity_mt :: pydecimal
  rc_target_price_per_mt :: "pydecimal option"
  rc_availability_window :: string
  rc_notes :: "string option"
  rc_is_anonymous :: bool
  rc_expires_in_hours :: int

definition rfq_create_schema :: "RFQCreateRequest \<Rightarrow> RFQCreateRequest result" where
  "rfq_create_schema d =
     bindR (case normalize_availability_window (rc_availability_window d) of
              Inl _ \<Rightarrow> Inl (HTTPException 422 ''RFQCreateRequest'') | Inr w \<Rightarrow> Inr w) (\<lambda>w.
     bindR (refuse (\<not> (valid_amount 100000 (rc_quantity_mt d) \<and> pred_opt (valid_amount 1000000) (rc_target_price_per_mt d)
              \<and> pred_opt (\<lambda>x. length x \<le> 500) (rc_notes d) \<and> 1 \<le> rc_expires_in_hours d \<and> rc_expires_in_hours d \<le> 168))
       (HTTPException 422 ''RFQCreateRequest'')) (\<lambda>_.
     Inr (d\<lparr>rc_availability_window := w\<rparr>)))"

record RFQQuoteRequest =
  qr_price_per_mt_usd :: pydecimal
  qr_notes :: "string option"

definition rfq_quote_schema :: "RFQQuoteRequest \<Rightarrow> unit result" where
  "rfq_quote_schema d =
     refuse (\<not> (valid_amount 1000000 (qr_price_per_mt_usd d) \<and> pred_opt (\<lambda>x. length x \<le> 500) (qr_notes d)))
       (HTTPException 422 ''RFQQuoteRequest'')"

subsection \<open>Loading and visibility\<close>

definition load_rfq :: "uuid \<Rightarrow> (RFQ \<Rightarrow> bool) \<Rightarrow> RFQ list \<Rightarrow> RFQ result" where
  "load_rfq k visible rs =
     (case find (\<lambda>r. rf_id r = k \<and> visible r) rs of None \<Rightarrow> Inl (HTTPException 404 ''RFQ not found'') | Some r \<Rightarrow> Inr r)"

definition rfq_lock_identity :: "RFQ \<Rightarrow> uuid \<times> uuid \<times> uuid option \<times> string" where
  "rfq_lock_identity r = (rf_buyer_org_id r, rf_product_id r, rf_delivery_point_id r, rf_availability_window r)"

definition SUPPLIER_VISIBLE_STATUSES :: "RFQStatus list" where
  "SUPPLIER_VISIBLE_STATUSES = [RFQ_OPEN, RFQ_QUOTED]"

definition rfq_visible :: "bool \<Rightarrow> uuid \<Rightarrow> time \<Rightarrow> RFQ \<Rightarrow> bool" where
  "rfq_visible supplier g now r \<longleftrightarrow>
     (if supplier then rf_buyer_org_id r \<noteq> g \<and> rf_status r \<in> set SUPPLIER_VISIBLE_STATUSES \<and> now < rf_expires_at r
      else rf_buyer_org_id r = g)"

definition rfq_visibility_filters :: "user \<Rightarrow> time \<Rightarrow> (RFQ \<Rightarrow> bool) result" where
  "rfq_visibility_filters cur now =
     (case u_organization_id cur of None \<Rightarrow> Inl (HTTPException 403 ''User must belong to an organization'')
      | Some g \<Rightarrow> Inr (rfq_visible (u_role cur = Some SUPPLIER) g now))"

definition ensure_rfq_detail_visible :: "RFQ \<Rightarrow> user \<Rightarrow> time \<Rightarrow> unit result" where
  "ensure_rfq_detail_visible r cur now =
     (case u_organization_id cur of None \<Rightarrow> Inl (HTTPException 403 ''User must belong to an organization'')
      | Some g \<Rightarrow> refuse (\<not> rfq_visible (u_role cur = Some SUPPLIER) g now r) (HTTPException 404 ''RFQ not found''))"

subsection \<open>Responses\<close>

record RFQQuoteResponse =
  qv_id :: uuid
  qv_seller_org_id :: uuid
  qv_seller_org_name :: "string option"
  qv_price_per_mt_usd :: dec
  qv_notes :: "string option"
  qv_status :: QuoteStatus
  qv_created_at :: time

record RFQResponse =
  rv_id :: uuid
  rv_buyer_org_id :: "uuid option"
  rv_buyer_org_name :: "string option"
  rv_product_id :: uuid
  rv_product_name :: "string option"
  rv_delivery_point_id :: "uuid option"
  rv_delivery_point_name :: "string option"
  rv_quantity_mt :: dec
  rv_target_price_per_mt :: "dec option"
  rv_availability_window :: string
  rv_notes :: "string option"
  rv_is_anonymous :: bool
  rv_status :: RFQStatus
  rv_expires_at :: time
  rv_created_at :: time
  rv_quote_count :: nat
  rv_quotes :: "RFQQuoteResponse list"

text \<open>\<open>if row: name = row\<close>: an empty name is shown as no name.\<close>

definition shown_name :: "string option \<Rightarrow> string option" where
  "shown_name n = (if n = Some [] then None else n)"

definition quote_response :: "market_db \<Rightarrow> RFQQuote \<Rightarrow> RFQQuoteResponse" where
  "quote_response s q =
     \<lparr>qv_id = qt_id q, qv_seller_org_id = qt_seller_org_id q,
      qv_seller_org_name = shown_name (map_option g_name (organization_of (qt_seller_org_id q) s)),
      qv_price_per_mt_usd = qt_price_per_mt_usd q, qv_notes = qt_notes q, qv_status = qt_status q, qv_created_at = qt_created_at q\<rparr>"

definition build_rfq_response :: "market_db \<Rightarrow> uuid option \<Rightarrow> RFQ \<Rightarrow> RFQResponse result" where
  "build_rfq_response s viewer r =
     (let is_owner = (viewer = Some (rf_buyer_org_id r));
          buyer_name = (if rf_is_anonymous r \<and> \<not> is_owner then Some ''Anonymous''
                        else shown_name (map_option g_name (organization_of (rf_buyer_org_id r) s))) in
      bindR (normalize_availability_window (rf_availability_window r)) (\<lambda>w.
      Inr \<lparr>rv_id = rf_id r, rv_buyer_org_id = (if is_owner \<or> \<not> rf_is_anonymous r then Some (rf_buyer_org_id r) else None),
        rv_buyer_org_name = buyer_name, rv_product_id = rf_product_id r,
        rv_product_name = shown_name (map_option p_name (product_of (rf_product_id r) s)),
        rv_delivery_point_id = rf_delivery_point_id r,
        rv_delivery_point_name = Option.bind (rf_delivery_point_id r) (\<lambda>k. shown_name (map_option d_name (delivery_point_of k s))),
        rv_quantity_mt = rf_quantity_mt r, rv_target_price_per_mt = rf_target_price_per_mt r, rv_availability_window = w,
        rv_notes = rf_notes r, rv_is_anonymous = rf_is_anonymous r, rv_status = rf_status r, rv_expires_at = rf_expires_at r,
        rv_created_at = rf_created_at r, rv_quote_count = length (rf_quotes r),
        rv_quotes = map (quote_response s) (filter (\<lambda>q. is_owner \<or> viewer = Some (qt_seller_org_id q)) (rf_quotes r))\<rparr>))"

subsection \<open>The routes\<close>

definition new_rfq :: "uuid \<Rightarrow> time \<Rightarrow> user \<Rightarrow> uuid \<Rightarrow> RFQCreateRequest \<Rightarrow> RFQ" where
  "new_rfq k now cur g d =
     \<lparr>rf_id = k, rf_buyer_org_id = g, rf_buyer_user_id = Some (u_id cur), rf_product_id = rc_product_id d,
      rf_delivery_point_id = Some (rc_delivery_point_id d), rf_quantity_mt = pydec_val (rc_quantity_mt d),
      rf_target_price_per_mt = map_option pydec_val (rc_target_price_per_mt d), rf_availability_window = rc_availability_window d,
      rf_notes = rc_notes d, rf_is_anonymous = rc_is_anonymous d, rf_status = RFQ_OPEN, rf_accepted_quote_id = None, rf_trade_id = None,
      rf_expires_at = now + rc_expires_in_hours d * 3600 * 1000000, rf_created_at = now, rf_quotes = []\<rparr>"

definition create_rfq ::
  "env \<Rightarrow> nat \<times> nat \<Rightarrow> (nat \<Rightarrow> time) \<Rightarrow> user \<Rightarrow> RFQCreateRequest \<Rightarrow> market_db \<Rightarrow> market_db \<Rightarrow> RFQ list
     \<Rightarrow> (RFQ \<times> market_db \<times> RFQ list) result" where
  "create_rfq e today clk cur raw pv s rs =
     bindR (require_execution_eligible_user pv cur) (\<lambda>_.
     bindR (rfq_create_schema raw) (\<lambda>d.
     case u_organization_id cur of None \<Rightarrow> Inl (HTTPException 403 ''User must belong to an organization'')
     | Some g \<Rightarrow>
     bindR (refuse (u_role cur \<noteq> Some BUYER) (HTTPException 403 ''Only buyers can create RFQs'')) (\<lambda>_.
     bindR (is_tradable_availability_window (rc_availability_window d) (fst today) (snd today) FORWARD_QUARTER_COUNT) (\<lambda>tradable.
     bindR (refuse (\<not> tradable) (HTTPException 400 ''Availability window is not tradable'')) (\<lambda>_.
     bindR (require_canonical_market_slice pv (rc_product_id d) (Some (rc_delivery_point_id d))) (\<lambda>_.
     bindR (acquire_market_slice_lock e (BID, rc_product_id d, Some (rc_delivery_point_id d), rc_availability_window d)) (\<lambda>_.
     bindR (lock_and_load_market_organizations s [g] [\<lparr>mo_user_id = u_id cur, mo_organization_id = g\<rparr>] True []) (\<lambda>orgs.
     case orgs g of None \<Rightarrow> Inl KeyError
     | Some own \<Rightarrow>
     bindR (assert_market_participant_provenance own) (\<lambda>_.
     bindR (require_canonical_market_slice s (rc_product_id d) (Some (rc_delivery_point_id d))) (\<lambda>_.
     let r = new_rfq (next_id s) (clk 0) cur g d;
         s1 = record_audit (Some (u_id cur)) ''rfq.created'' ''rfq'' (rf_id r) (s\<lparr>next_id := next_id s + 1\<rparr>) in
     bindR (participant_market_event ''rfq_created'' ''rfq'' (rf_id r) [rf_buyer_org_id r] False) (\<lambda>ev.
     Inr (r, enqueue_market_events [ev] s1, rs @ [r]))))))))))))"

definition list_rfqs ::
  "time \<Rightarrow> user \<Rightarrow> RFQStatus option \<Rightarrow> uuid option \<Rightarrow> nat \<Rightarrow> nat \<Rightarrow> market_db \<Rightarrow> RFQ list \<Rightarrow> (RFQResponse list \<times> nat) result" where
  "list_rfqs now cur wanted product skip limit s rs =
     bindR (refuse (limit < 1 \<or> 100 < limit) (HTTPException 422 ''Query'')) (\<lambda>_.
     bindR (rfq_visibility_filters cur now) (\<lambda>visible.
     let rows = filter (\<lambda>r. visible r \<and> (case wanted of None \<Rightarrow> True | Some st \<Rightarrow> rf_status r = st)
                  \<and> (case product of None \<Rightarrow> True | Some p \<Rightarrow> rf_product_id r = p)) rs in
     bindR (collectR (build_rfq_response s (u_organization_id cur)) (take limit (drop skip (sort_key (\<lambda>r. - rf_created_at r) rows)))) (\<lambda>items.
     Inr (items, length rows))))"

definition get_rfq :: "(nat \<Rightarrow> time) \<Rightarrow> user \<Rightarrow> uuid \<Rightarrow> market_db \<Rightarrow> RFQ list \<Rightarrow> RFQResponse result" where
  "get_rfq clk cur k s rs =
     bindR (rfq_visibility_filters cur (clk 0)) (\<lambda>visible.
     bindR (load_rfq k visible rs) (\<lambda>r.
     bindR (ensure_rfq_detail_visible r cur (clk 1)) (\<lambda>_.
     build_rfq_response s (u_organization_id cur) r)))"

definition new_quote :: "uuid \<Rightarrow> time \<Rightarrow> user \<Rightarrow> uuid \<Rightarrow> RFQQuoteRequest \<Rightarrow> RFQQuote" where
  "new_quote k now cur g d =
     \<lparr>qt_id = k, qt_seller_org_id = g, qt_seller_user_id = Some (u_id cur), qt_price_per_mt_usd = pydec_val (qr_price_per_mt_usd d),
      qt_notes = qr_notes d, qt_status = QUOTE_PENDING, qt_created_at = now\<rparr>"

definition quoted :: "RFQQuote \<Rightarrow> RFQ \<Rightarrow> RFQ" where
  "quoted q r = r\<lparr>rf_quotes := rf_quotes r @ [q], rf_status := (if rf_status r = RFQ_OPEN then RFQ_QUOTED else rf_status r)\<rparr>"

definition rfq_quotable :: "RFQ \<Rightarrow> bool" where
  "rfq_quotable r \<longleftrightarrow> rf_status r = RFQ_OPEN \<or> rf_status r = RFQ_QUOTED"

definition submit_quote ::
  "env \<Rightarrow> (nat \<Rightarrow> time) \<Rightarrow> user \<Rightarrow> uuid \<Rightarrow> RFQQuoteRequest \<Rightarrow> market_db \<Rightarrow> RFQ list \<Rightarrow> market_db \<Rightarrow> RFQ list
     \<Rightarrow> (RFQQuoteResponse \<times> market_db \<times> RFQ list) result" where
  "submit_quote e clk cur k d pv pn s rs =
     bindR (require_execution_eligible_user pv cur) (\<lambda>_.
     bindR (rfq_quote_schema d) (\<lambda>_.
     case u_organization_id cur of None \<Rightarrow> Inl (HTTPException 403 ''User must belong to an organization'')
     | Some g \<Rightarrow>
     bindR (refuse (u_role cur \<noteq> Some SUPPLIER) (HTTPException 403 ''Only suppliers can submit quotes'')) (\<lambda>_.
     bindR (rfq_visibility_filters cur (clk 0)) (\<lambda>visible.
     bindR (load_rfq k visible pn) (\<lambda>seen.
     bindR (acquire_market_slice_lock e (BID, rf_product_id seen, rf_delivery_point_id seen, rf_availability_window seen)) (\<lambda>_.
     bindR (load_rfq k visible rs) (\<lambda>r.
     bindR (refuse (rfq_lock_identity r \<noteq> rfq_lock_identity seen)
              (HTTPException 409 ''RFQ market slice changed; retry the request'')) (\<lambda>_.
     bindR (lock_and_load_market_organizations s [rf_buyer_org_id r, g] [\<lparr>mo_user_id = u_id cur, mo_organization_id = g\<rparr>] True []) (\<lambda>orgs.
     case (orgs (rf_buyer_org_id r), orgs g) of
       (Some buyer, Some own) \<Rightarrow>
     bindR (assert_market_pair_provenance buyer own) (\<lambda>_.
     bindR (require_canonical_market_slice s (rf_product_id r) (rf_delivery_point_id r)) (\<lambda>_.
     bindR (refuse (\<not> rfq_quotable r) (HTTPException 400 ''RFQ is not open for quoting'')) (\<lambda>_.
     bindR (refuse (rf_expires_at r \<le> clk 1) (HTTPException 400 ''RFQ has expired'')) (\<lambda>_.
     bindR (refuse (rf_buyer_org_id r = g) (HTTPException 400 ''Cannot quote your own RFQ'')) (\<lambda>_.
     bindR (refuse (list_ex (\<lambda>q. qt_seller_org_id q = g) (rf_quotes r)) (HTTPException 409 ''You have already quoted this RFQ'')) (\<lambda>_.
     let q = new_quote (next_id s) (clk 2) cur g d; r1 = quoted q r;
         s1 = record_audit (Some (u_id cur)) ''rfq.quote_submitted'' ''rfq_quote'' (qt_id q)
                (notify_org_users (rf_buyer_org_id r) ORDER_UPDATE (rf_id r) (s\<lparr>next_id := next_id s + 1\<rparr>)) in
     bindR (participant_market_event ''rfq_quote_submitted'' ''rfq_quote'' (qt_id q) [rf_buyer_org_id r, qt_seller_org_id q] False) (\<lambda>ev.
     Inr (quote_response s q, enqueue_market_events [ev] s1, put_row rf_id r1 rs))))))))
     | _ \<Rightarrow> Inl KeyError)))))))))"

definition accept_quote :: "market_db \<Rightarrow> user \<Rightarrow> 'a result" where
  "accept_quote pv cur =
     bindR (require_execution_eligible_user pv cur) (\<lambda>_.
     Inl (HTTPException 409 ''RFQ acceptance is disabled; RFQs are non-executable in this release''))"

text \<open>\<open>lock_and_load_market_organizations\<close> on the buyer's organization alone, with the caller as the only actor. The
  ownership record holds the caller's organization even when there is none.\<close>

definition lock_buyer_organization :: "market_db \<Rightarrow> uuid \<Rightarrow> uuid \<Rightarrow> uuid option \<Rightarrow> unit result" where
  "lock_buyer_organization s buyer u g =
     (case g of
        Some k \<Rightarrow> bindR (lock_and_load_market_organizations s [buyer] [\<lparr>mo_user_id = u, mo_organization_id = k\<rparr>] True []) (\<lambda>_. Inr ())
      | None \<Rightarrow>
          (case user_of u s of None \<Rightarrow> Inl (HTTPException 409 ''Market user no longer exists'')
           | Some x \<Rightarrow>
               bindR (refuse (u_organization_id x \<noteq> None) (HTTPException 409 ''Market user organization ownership changed'')) (\<lambda>_.
               bindR (lock_and_load_market_organizations s [buyer] [] True []) (\<lambda>_. Inl KeyError))))"

definition owns_rfq :: "RFQ \<Rightarrow> user \<Rightarrow> bool" where
  "owns_rfq r cur \<longleftrightarrow>
     (case rf_buyer_user_id r of Some u \<Rightarrow> u = u_id cur | None \<Rightarrow> u_organization_id cur = Some (rf_buyer_org_id r))"

definition withdraw :: "RFQQuote \<Rightarrow> RFQQuote" where
  "withdraw q = (if qt_status q = QUOTE_PENDING then q\<lparr>qt_status := QUOTE_WITHDRAWN\<rparr> else q)"

definition cancelled_rfq :: "RFQ \<Rightarrow> RFQ" where
  "cancelled_rfq r = r\<lparr>rf_status := RFQ_CANCELLED, rf_quotes := map withdraw (rf_quotes r)\<rparr>"

definition cancel_rfq ::
  "env \<Rightarrow> user \<Rightarrow> uuid \<Rightarrow> RFQ list \<Rightarrow> market_db \<Rightarrow> RFQ list \<Rightarrow> (market_db \<times> RFQ list) result" where
  "cancel_rfq e cur k pn s rs =
     bindR (load_rfq k (\<lambda>_. True) pn) (\<lambda>seen.
     bindR (acquire_market_slice_lock e (BID, rf_product_id seen, rf_delivery_point_id seen, rf_availability_window seen)) (\<lambda>_.
     bindR (load_rfq k (\<lambda>_. True) rs) (\<lambda>r.
     bindR (refuse (rfq_lock_identity r \<noteq> rfq_lock_identity seen)
              (HTTPException 409 ''RFQ market slice changed; retry the request'')) (\<lambda>_.
     bindR (lock_buyer_organization s (rf_buyer_org_id r) (u_id cur) (u_organization_id cur)) (\<lambda>_.
     bindR (refuse (\<not> owns_rfq r cur) (HTTPException 403 ''Only the RFQ owner can cancel'')) (\<lambda>_.
     bindR (refuse (\<not> rfq_quotable r) (HTTPException 400 ''RFQ cannot be cancelled in its current state'')) (\<lambda>_.
     let r1 = cancelled_rfq r;
         s1 = fold (\<lambda>q. record_audit (Some (u_id cur)) ''rfq.quote_withdrawn'' ''rfq_quote'' (qt_id q))
                (filter (\<lambda>q. qt_status q = QUOTE_PENDING) (rf_quotes r)) s;
         s2 = record_audit (Some (u_id cur)) ''rfq.cancelled'' ''rfq'' (rf_id r) s1 in
     bindR (participant_market_event ''rfq_cancelled'' ''rfq'' (rf_id r) (rf_buyer_org_id r # map qt_seller_org_id (rf_quotes r)) False) (\<lambda>ev.
     Inr (enqueue_market_events [ev] s2, put_row rf_id r1 rs)))))))))"

subsection \<open>What a route that succeeds has checked\<close>

lemma fold_audit_frame:
  fixes s :: market_db
  shows "orders (fold (\<lambda>q. record_audit u a ty (f q)) qs s) = orders s" "trades (fold (\<lambda>q. record_audit u a ty (f q)) qs s) = trades s"
    "inventory (fold (\<lambda>q. record_audit u a ty (f q)) qs s) = inventory s" "next_id (fold (\<lambda>q. record_audit u a ty (f q)) qs s) = next_id s"
  by (induction qs arbitrary: s) (simp_all add: record_audit_def)

lemma load_rfq_row: "load_rfq k vis rs = Inr r \<Longrightarrow> r \<in> set rs \<and> rf_id r = k \<and> vis r"
  by (auto simp: load_rfq_def dest: find_mem split: option.splits)

lemma rfq_schema_facts:
  assumes "rfq_create_schema raw = Inr d"
  shows "valid_amount 100000 (rc_quantity_mt d)" "pred_opt (valid_amount 1000000) (rc_target_price_per_mt d)"
    "canonical_window (rc_availability_window d)"
  using assms normalize_result_canonical by (auto simp: rfq_create_schema_def split: sum.splits)

lemma create_rfq_cases:
  assumes "create_rfq e today clk cur raw pv s rs = Inr (r, s', rs')"
  obtains d g where "rfq_create_schema raw = Inr d" "u_organization_id cur = Some g" "u_role cur = Some BUYER"
    "r = new_rfq (next_id s) (clk 0) cur g d" "rs' = rs @ [r]"
    "orders s' = orders s" "trades s' = trades s" "inventory s' = inventory s" "next_id s' = next_id s + 1"
proof -
  note a = assms [unfolded create_rfq_def Let_def]
  from a obtain d where d: "rfq_create_schema raw = Inr d" by auto
  note a1 = a [unfolded d bindR_simps]
  from a1 obtain g where g: "u_organization_id cur = Some g" by (auto split: option.splits)
  note a2 = a1 [unfolded g option.case]
  from a2 obtain orgs where o: "lock_and_load_market_organizations s [g] [\<lparr>mo_user_id = u_id cur, mo_organization_id = g\<rparr>] True [] = Inr orgs"
    by auto
  note a3 = a2 [unfolded o bindR_simps]
  from a3 obtain own where oo: "orgs g = Some own" by (auto split: option.splits)
  note a4 = a3 [unfolded oo option.case]
  from a4 obtain ev where f: "r = new_rfq (next_id s) (clk 0) cur g d" "rs' = rs @ [r]"
    "s' = enqueue_market_events [ev] (record_audit (Some (u_id cur)) ''rfq.created'' ''rfq'' (rf_id r) (s\<lparr>next_id := next_id s + 1\<rparr>))"
    by auto
  show thesis
    by (rule that [OF d g _ f(1,2)]) (use a2 in \<open>auto simp: f(3) enqueue_market_events_def record_audit_def\<close>)
qed

lemma submit_quote_cases:
  assumes "submit_quote e clk cur k d pv pn s rs = Inr (v, s', rs')"
  obtains g r where "u_organization_id cur = Some g" "u_role cur = Some SUPPLIER" "r \<in> set rs" "rf_id r = k" "rfq_quotable r"
    "clk 1 < rf_expires_at r" "rf_buyer_org_id r \<noteq> g" "g \<notin> qt_seller_org_id ` set (rf_quotes r)"
    "valid_amount 1000000 (qr_price_per_mt_usd d)"
    "rs' = put_row rf_id (quoted (new_quote (next_id s) (clk 2) cur g d) r) rs"
    "orders s' = orders s" "trades s' = trades s" "inventory s' = inventory s" "next_id s' = next_id s + 1"
proof -
  note a = assms [unfolded submit_quote_def Let_def]
  from a have sc: "rfq_quote_schema d = Inr ()" by simp
  from a obtain g where g: "u_organization_id cur = Some g" by (auto split: option.splits)
  note a1 = a [unfolded g option.case]
  from a1 obtain vis where vis: "rfq_visibility_filters cur (clk 0) = Inr vis" by auto
  note a2 = a1 [unfolded vis bindR_simps]
  from a2 obtain r where r: "load_rfq k vis rs = Inr r" by auto
  note a3 = a2 [unfolded r bindR_simps]
  from a3 obtain orgs where o: "lock_and_load_market_organizations s [rf_buyer_org_id r, g] [\<lparr>mo_user_id = u_id cur, mo_organization_id = g\<rparr>] True [] =
      Inr orgs" by auto
  note a4 = a3 [unfolded o bindR_simps]
  from a4 obtain buyer own where oo: "orgs (rf_buyer_org_id r) = Some buyer" "orgs g = Some own" by (auto split: option.splits)
  note a5 = a4 [unfolded oo prod.case option.case]
  from a5 obtain ev where f: "rs' = put_row rf_id (quoted (new_quote (next_id s) (clk 2) cur g d) r) rs"
    "s' = enqueue_market_events [ev] (record_audit (Some (u_id cur)) ''rfq.quote_submitted'' ''rfq_quote'' (qt_id (new_quote (next_id s) (clk 2) cur g d))
       (notify_org_users (rf_buyer_org_id r) ORDER_UPDATE (rf_id r) (s\<lparr>next_id := next_id s + 1\<rparr>)))"
    unfolding bindR_Inr by clarify blast
  have fr: "orders s' = orders s" "trades s' = trades s" "inventory s' = inventory s" "next_id s' = next_id s + 1"
    by (simp_all add: f(2) enqueue_market_events_def record_audit_def notify_org_users_def notify_org_users_batched_def)
  have c: "u_role cur = Some SUPPLIER" "rfq_quotable r" "clk 1 < rf_expires_at r" "rf_buyer_org_id r \<noteq> g"
    "\<not> list_ex (\<lambda>q. qt_seller_org_id q = g) (rf_quotes r)"
    using a5 by auto
  show thesis
    by (rule that [OF g c(1) _ _ c(2-4) _ _ f(1) fr])
      (use load_rfq_row [OF r] c(5) sc in \<open>auto simp: list_ex_iff rfq_quote_schema_def\<close>)
qed

lemma cancel_rfq_cases:
  assumes "cancel_rfq e cur k pn s rs = Inr (s', rs')"
  obtains r where "r \<in> set rs" "rf_id r = k" "rfq_quotable r" "owns_rfq r cur" "rs' = put_row rf_id (cancelled_rfq r) rs"
    "lock_buyer_organization s (rf_buyer_org_id r) (u_id cur) (u_organization_id cur) = Inr ()"
    "orders s' = orders s" "trades s' = trades s" "inventory s' = inventory s" "next_id s' = next_id s"
proof -
  note a = assms [unfolded cancel_rfq_def Let_def]
  from a obtain r where r: "load_rfq k (\<lambda>_. True) rs = Inr r" by auto
  note a1 = a [unfolded r bindR_simps]
  from a1 have c: "rfq_quotable r" "owns_rfq r cur" "rs' = put_row rf_id (cancelled_rfq r) rs"
    "lock_buyer_organization s (rf_buyer_org_id r) (u_id cur) (u_organization_id cur) = Inr ()"
    by auto
  from a1 have fr: "orders s' = orders s" "trades s' = trades s" "inventory s' = inventory s" "next_id s' = next_id s"
    by (auto simp: enqueue_market_events_def fold_audit_frame record_audit_def [of "Some (u_id cur)" "''rfq.cancelled''"])
  show thesis by (rule that [OF _ _ c fr]) (use load_rfq_row [OF r] in auto)
qed

subsection \<open>The table's invariant\<close>

definition rfq_row_ok :: "RFQ \<Rightarrow> bool" where
  "rfq_row_ok r \<longleftrightarrow> RFQ_NUMERIC_VALUES r \<and> canonical_window (rf_availability_window r) \<and> rf_accepted_quote_id r = None \<and> rf_trade_id r = None \<and>
     distinct (map qt_seller_org_id (rf_quotes r)) \<and> rf_buyer_org_id r \<notin> qt_seller_org_id ` set (rf_quotes r) \<and>
     list_all RFQ_QUOTE_NUMERIC_VALUES (rf_quotes r) \<and>
     (case rf_status r of RFQ_OPEN \<Rightarrow> rf_quotes r = []
      | RFQ_QUOTED \<Rightarrow> rf_quotes r \<noteq> [] \<and> list_all (\<lambda>q. qt_status q = QUOTE_PENDING) (rf_quotes r)
      | RFQ_CANCELLED \<Rightarrow> list_all (\<lambda>q. qt_status q = QUOTE_WITHDRAWN) (rf_quotes r)
      | _ \<Rightarrow> False)"

definition rfq_inv :: "uuid \<Rightarrow> RFQ list \<Rightarrow> bool" where
  "rfq_inv m rs \<longleftrightarrow> distinct (map rf_id rs) \<and> (\<forall>r\<in>set rs. rf_id r < m \<and> rfq_row_ok r)"

lemma rfq_inv_mono: "rfq_inv m rs \<Longrightarrow> m \<le> k \<Longrightarrow> rfq_inv k rs"
  by (auto simp: rfq_inv_def)

lemma rfq_put: "rfq_inv m rs \<Longrightarrow> r \<in> set rs \<Longrightarrow> rf_id r1 = rf_id r \<Longrightarrow> rfq_row_ok r1 \<Longrightarrow> rfq_inv m (put_row rf_id r1 rs)"
  by (auto simp: rfq_inv_def dest!: set_put_row)

lemma new_rfq_ok:
  assumes "rfq_create_schema raw = Inr d"
  shows "rfq_row_ok (new_rfq k now cur g d)"
  using rfq_schema_facts [OF assms] valid_amount_numeric
  by (auto simp: rfq_row_ok_def new_rfq_def RFQ_NUMERIC_VALUES_def pred_opt_def optional_numeric_def split: option.splits)

lemma quoted_ok:
  assumes ok: "rfq_row_ok r" and q: "rfq_quotable r" "rf_buyer_org_id r \<noteq> g" "g \<notin> qt_seller_org_id ` set (rf_quotes r)"
    and v: "valid_amount 1000000 (qr_price_per_mt_usd d)"
  shows "rfq_row_ok (quoted (new_quote k now cur g d) r)"
proof -
  have "RFQ_QUOTE_NUMERIC_VALUES (new_quote k now cur g d)"
    by (simp add: RFQ_QUOTE_NUMERIC_VALUES_def new_quote_def valid_amount_numeric [OF v])
  moreover have "RFQ_NUMERIC_VALUES (quoted (new_quote k now cur g d) r) = RFQ_NUMERIC_VALUES r" by (simp add: RFQ_NUMERIC_VALUES_def quoted_def)
  ultimately show ?thesis
    using ok q by (auto simp: rfq_row_ok_def rfq_quotable_def) (auto simp: quoted_def new_quote_def)
qed

lemma cancelled_rfq_ok:
  assumes ok: "rfq_row_ok r" and q: "rfq_quotable r"
  shows "rfq_row_ok (cancelled_rfq r)"
proof -
  have w: "qt_seller_org_id (withdraw x) = qt_seller_org_id x" "RFQ_QUOTE_NUMERIC_VALUES (withdraw x) = RFQ_QUOTE_NUMERIC_VALUES x" for x
    by (simp_all add: withdraw_def RFQ_QUOTE_NUMERIC_VALUES_def)
  have "list_all (\<lambda>x. qt_status x = QUOTE_PENDING) (rf_quotes r)" using ok q by (auto simp: rfq_row_ok_def rfq_quotable_def)
  then have "list_all (\<lambda>x. qt_status x = QUOTE_WITHDRAWN) (map withdraw (rf_quotes r))" by (auto simp: list_all_iff withdraw_def)
  moreover have "RFQ_NUMERIC_VALUES (cancelled_rfq r) = RFQ_NUMERIC_VALUES r" by (simp add: RFQ_NUMERIC_VALUES_def cancelled_rfq_def)
  moreover have "qt_seller_org_id \<circ> withdraw = qt_seller_org_id"
    "list_all RFQ_QUOTE_NUMERIC_VALUES (map withdraw (rf_quotes r)) = list_all RFQ_QUOTE_NUMERIC_VALUES (rf_quotes r)"
    "qt_seller_org_id ` set (map withdraw (rf_quotes r)) = qt_seller_org_id ` set (rf_quotes r)"
    using w by (simp_all add: list_all_iff image_image fun_eq_iff)
  ultimately show ?thesis using ok by (simp add: rfq_row_ok_def) (simp add: cancelled_rfq_def)
qed

subsection \<open>Steps\<close>

inductive rfq_step :: "env \<Rightarrow> rfq_state \<Rightarrow> rfq_state \<Rightarrow> bool" for e :: env where
  ask: "create_rfq e today clk cur raw pv s rs = Inr (r, s', rs') \<Longrightarrow> rfq_step e (s, rs) (s', rs')"
| answer: "submit_quote e clk cur k d pv pn s rs = Inr (v, s', rs') \<Longrightarrow> rfq_step e (s, rs) (s', rs')"
| cancel: "cancel_rfq e cur k pn s rs = Inr (s', rs') \<Longrightarrow> rfq_step e (s, rs) (s', rs')"
| elsewhere: "next_id s \<le> next_id s' \<Longrightarrow> rfq_step e (s, rs) (s', rs)"

inductive rfq_reachable :: "env \<Rightarrow> rfq_state \<Rightarrow> bool" for e :: env where
  start: "rfq_reachable e (s, [])"
| step: "rfq_reachable e p \<Longrightarrow> rfq_step e p q \<Longrightarrow> rfq_reachable e q"

lemma rfq_step_inv: "rfq_step e p q \<Longrightarrow> rfq_inv (next_id (fst p)) (snd p) \<Longrightarrow> rfq_inv (next_id (fst q)) (snd q)"
proof (induction rule: rfq_step.induct)
  case (ask today clk cur raw pv s rs r s' rs')
  from ask(1) show ?case
  proof (cases rule: create_rfq_cases)
    case (1 d g)
    have "rfq_row_ok r" using new_rfq_ok [OF 1(1)] 1(4) by simp
    moreover have "rf_id r = next_id s" by (simp add: 1(4) new_rfq_def)
    ultimately show ?thesis using ask(2) 1(5,9) by (auto simp: rfq_inv_def)
  qed
next
  case (answer clk cur k d pv pn s rs v s' rs')
  from answer(1) show ?case
  proof (cases rule: submit_quote_cases)
    case (1 g r)
    have "rfq_row_ok r" using answer(2) 1(3) by (simp add: rfq_inv_def)
    from quoted_ok [OF this 1(5,7,8,9)] have "rfq_inv (next_id s) rs'"
      unfolding 1(10) using answer(2) 1(3) by (intro rfq_put) (auto simp: quoted_def)
    then show ?thesis using rfq_inv_mono 1(14) by simp
  qed
next
  case (cancel cur k pn s rs s' rs')
  from cancel(1) show ?case
  proof (cases rule: cancel_rfq_cases)
    case (1 r)
    have "rfq_row_ok r" using cancel(2) 1(1) by (simp add: rfq_inv_def)
    from cancelled_rfq_ok [OF this 1(3)] have "rfq_inv (next_id s) rs'"
      unfolding 1(5) using cancel(2) 1(1) by (intro rfq_put) (auto simp: cancelled_rfq_def)
    then show ?thesis using 1(10) by simp
  qed
qed (auto intro: rfq_inv_mono)

lemma rfq_reachable_inv: "rfq_reachable e p \<Longrightarrow> rfq_inv (next_id (fst p)) (snd p)"
proof (induction rule: rfq_reachable.induct)
  case (start s)
  then show ?case by (simp add: rfq_inv_def)
next
  case (step p q)
  then show ?case using rfq_step_inv by blast
qed

subsection \<open>What an organization may learn\<close>

text \<open>What is left of a request when the things hidden from organization \<open>g\<close> are blanked out: unless it is the buyer,
  the buyer's user, the quotes of others (their number stays), and for an anonymous request also the buyer.\<close>

definition blank_quote :: "uuid \<Rightarrow> RFQQuote" where
  "blank_quote g = \<lparr>qt_id = 0, qt_seller_org_id = g + 1, qt_seller_user_id = None, qt_price_per_mt_usd = 0, qt_notes = None,
     qt_status = QUOTE_PENDING, qt_created_at = 0\<rparr>"

definition rfq_low :: "uuid \<Rightarrow> RFQ \<Rightarrow> RFQ" where
  "rfq_low g r =
     (if rf_buyer_org_id r = g then r
      else r\<lparr>rf_buyer_org_id := (if rf_is_anonymous r then g + 1 else rf_buyer_org_id r), rf_buyer_user_id := None,
             rf_accepted_quote_id := None, rf_trade_id := None,
             rf_quotes := map (\<lambda>q. if qt_seller_org_id q = g then q\<lparr>qt_seller_user_id := None\<rparr> else blank_quote g) (rf_quotes r)\<rparr>)"

lemma rfq_low_simps [simp]:
  "rf_id (rfq_low g r) = rf_id r" "rf_product_id (rfq_low g r) = rf_product_id r" "rf_delivery_point_id (rfq_low g r) = rf_delivery_point_id r"
  "rf_status (rfq_low g r) = rf_status r" "rf_created_at (rfq_low g r) = rf_created_at r" "rf_expires_at (rfq_low g r) = rf_expires_at r"
  "rf_buyer_org_id (rfq_low g r) = g \<longleftrightarrow> rf_buyer_org_id r = g" "g = rf_buyer_org_id (rfq_low g r) \<longleftrightarrow> rf_buyer_org_id r = g"
  by (auto simp: rfq_low_def)

lemma low_visible: "rfq_visible b g now (rfq_low g r) = rfq_visible b g now r"
  by (simp add: rfq_visible_def)

lemma low_quotes:
  "map (quote_response s) (filter (\<lambda>q. g = qt_seller_org_id q)
     (map (\<lambda>q. if qt_seller_org_id q = g then q\<lparr>qt_seller_user_id := None\<rparr> else blank_quote g) qs)) =
   map (quote_response s) (filter (\<lambda>q. g = qt_seller_org_id q) qs)"
  by (induction qs) (auto simp: blank_quote_def quote_response_def)

lemma low_response: "build_rfq_response s (Some g) (rfq_low g r) = build_rfq_response s (Some g) r"
proof (cases "rf_buyer_org_id r = g")
  case True
  then show ?thesis by (simp add: rfq_low_def)
next
  case False
  then have "g \<noteq> rf_buyer_org_id r" by simp
  then show ?thesis using low_quotes [of s g "rf_quotes r"]
    by (simp add: build_rfq_response_def Let_def) (simp add: rfq_low_def)
qed

definition alike :: "uuid \<Rightarrow> RFQ \<Rightarrow> RFQ \<Rightarrow> bool" where
  "alike g r r' \<longleftrightarrow> rfq_low g r = rfq_low g r'"

lemma alike_eqs:
  assumes "alike g r r'"
  shows "rf_id r = rf_id r'" "rf_product_id r = rf_product_id r'" "rf_status r = rf_status r'" "rf_created_at r = rf_created_at r'"
    "rfq_visible b g now r = rfq_visible b g now r'" "build_rfq_response s (Some g) r = build_rfq_response s (Some g) r'"
  using assms rfq_low_simps(1,2,4,5) [of g r] rfq_low_simps(1,2,4,5) [of g r'] low_visible [of b g now r] low_visible [of b g now r']
    low_response [of s g r] low_response [of s g r'] by (simp_all add: alike_def)

lemma list_all2_filter:
  "list_all2 R xs ys \<Longrightarrow> (\<And>x y. R x y \<Longrightarrow> P x = Q y) \<Longrightarrow> list_all2 R (filter P xs) (filter Q ys)"
  by (induction rule: list_all2_induct) auto

lemma list_all2_sort_key:
  assumes "list_all2 R xs ys" "\<And>x y. R x y \<Longrightarrow> f x = f y"
  shows "list_all2 R (sort_key f xs) (sort_key f ys)"
proof -
  have ins: "list_all2 R (insort_key f x xs) (insort_key f y ys)" if "list_all2 R xs ys" "R x y" for x y xs ys
    using that(1)
  proof (induction rule: list_all2_induct)
    case Nil
    then show ?case using that(2) by simp
  next
    case (Cons a as b bs)
    then show ?case using assms(2) [OF that(2)] assms(2) [OF Cons.hyps(1)] that(2) by simp
  qed
  show ?thesis using assms(1)
    by (induction rule: list_all2_induct) (simp_all add: ins)
qed

lemma collectR_alike: "list_all2 R xs ys \<Longrightarrow> (\<And>x y. R x y \<Longrightarrow> f x = f y) \<Longrightarrow> collectR f xs = collectR f ys"
  by (induction rule: list_all2_induct) auto

lemma load_rfq_alike:
  assumes "list_all2 (alike g) rs rs'"
  shows "(\<exists>err. load_rfq k (rfq_visible b g now) rs = Inl err \<and> load_rfq k (rfq_visible b g now) rs' = Inl err) \<or>
    (\<exists>r r'. alike g r r' \<and> load_rfq k (rfq_visible b g now) rs = Inr r \<and> load_rfq k (rfq_visible b g now) rs' = Inr r')"
  using assms
proof (induction rule: list_all2_induct)
  case Nil
  then show ?case by (simp add: load_rfq_def)
next
  case (Cons r rs r' rs')
  show ?case
  proof (cases "rf_id r = k \<and> rfq_visible b g now r")
    case True
    then have "rf_id r' = k \<and> rfq_visible b g now r'" using alike_eqs [OF Cons.hyps(1)] by metis
    then show ?thesis using True Cons.hyps(1) by (auto simp: load_rfq_def)
  next
    case False
    then have "\<not> (rf_id r' = k \<and> rfq_visible b g now r')" using alike_eqs [OF Cons.hyps(1)] by metis
    with False have "load_rfq k (rfq_visible b g now) (r # rs) = load_rfq k (rfq_visible b g now) rs"
      "load_rfq k (rfq_visible b g now) (r' # rs') = load_rfq k (rfq_visible b g now) rs'"
      by (auto simp: load_rfq_def)
    then show ?thesis using Cons.IH by (simp only:)
  qed
qed

subsection \<open>Examples\<close>

definition ex_rfq_request :: RFQCreateRequest where
  "ex_rfq_request = \<lparr>rc_product_id = p_id ex_product, rc_delivery_point_id = d_id ex_point, rc_quantity_mt = Finite 300 0,
     rc_target_price_per_mt = Some (Finite 850 0), rc_availability_window = ''SPOT'', rc_notes = None, rc_is_anonymous = True,
     rc_expires_in_hours = 24\<rparr>"

definition ex_rfq :: RFQ where
  "ex_rfq = new_rfq 1000 1000 (ex_user 12 BUYER 42) 42 ex_rfq_request"

definition ex_quote_request :: RFQQuoteRequest where
  "ex_quote_request = \<lparr>qr_price_per_mt_usd = Finite 875 0, qr_notes = None\<rparr>"

definition ex_quoted :: RFQ where
  "ex_quoted = quoted (new_quote 1001 1000 (ex_user 11 SUPPLIER 41) 41 ex_quote_request) ex_rfq"

lemma ex_market_facts:
  "execution_party_is_eligible (ex_ask_db\<lparr>next_id := n\<rparr>) (Some (ex_user 12 BUYER 42)) (Some (ex_org 42 ''Buyer''))"
  "execution_party_is_eligible (ex_ask_db\<lparr>next_id := n\<rparr>) (Some (ex_user 11 SUPPLIER 41)) (Some (ex_org 41 ''Supplier''))"
  "require_canonical_market_slice (ex_ask_db\<lparr>next_id := n\<rparr>) (p_id ex_product) (Some (d_id ex_point)) = Inr ()"
  "acquire_market_slice_lock ex_env (BID, p_id ex_product, Some (d_id ex_point), ''SPOT'') = Inr ()"
  "is_tradable_availability_window ''SPOT'' 2026 2 m = Inr True"
  using normalize_canonical [OF canonical_SPOT] ex_slice_lock [OF canonical_SPOT]
  by (simp_all add: execution_party_is_eligible_def ex_ask_db_def require_canonical_market_slice_def canonical_product_clause_def
      canonical_delivery_point_clause_def ex_product_def ex_point_def CANONICAL_PRODUCTS_def CANONICAL_DELIVERY_POINTS_def SPOT_WINDOW_def
      is_tradable_availability_window_def tradable_availability_windows_def Let_def)

lemma ex_rfq_made:
  "\<exists>s'. create_rfq ex_env (2026, 2) (\<lambda>_. 1000) (ex_user 12 BUYER 42) ex_rfq_request ex_ask_db ex_ask_db [] = Inr (ex_rfq, s', [ex_rfq]) \<and>
     next_id s' = 1001"
proof -
  have i: "ex_ask_db\<lparr>next_id := 1000\<rparr> = ex_ask_db" by (simp add: ex_ask_db_def)
  note m = ex_market_facts(1-3) [where n = 1000, unfolded i] ex_market_facts(4,5)
  have sch: "rfq_create_schema ex_rfq_request = Inr ex_rfq_request"
    using normalize_canonical [OF canonical_SPOT]
    by (simp add: rfq_create_schema_def ex_rfq_request_def valid_amount_def finite_decimal_def dec_value_def pred_opt_def SPOT_WINDOW_def)
  have ld: "\<exists>orgs. lock_and_load_market_organizations ex_ask_db [42] [\<lparr>mo_user_id = 12, mo_organization_id = 42\<rparr>] True [] = Inr orgs \<and>
      orgs 42 = Some (ex_org 42 ''Buyer'')"
    using m(1) by (simp add: lock_and_load_market_organizations_def Let_def ownership_by_user_def py_upper_def upper_char_def ex_ask_db_def)
  have ad: "require_execution_eligible_user ex_ask_db (ex_user 12 BUYER 42) = Inr (ex_user 12 BUYER 42)"
    using m(1) by (simp add: require_execution_eligible_user_def ex_ask_db_def)
  have rq: "rc_product_id ex_rfq_request = p_id ex_product" "rc_delivery_point_id ex_rfq_request = d_id ex_point"
    "rc_availability_window ex_rfq_request = ''SPOT''" by (simp_all add: ex_rfq_request_def)
  have nx: "next_id ex_ask_db = 1000" by (simp add: ex_ask_db_def)
  obtain orgs where orgs: "lock_and_load_market_organizations ex_ask_db [42] [\<lparr>mo_user_id = 12, mo_organization_id = 42\<rparr>] True [] = Inr orgs"
    "orgs 42 = Some (ex_org 42 ''Buyer'')" using ld by blast
  show ?thesis using sch orgs ad m rq nx
    by (simp add: create_rfq_def Let_def assert_market_participant_provenance_def participant_market_event_def py_strip_def is_space_def
        enqueue_market_events_def record_audit_def ex_rfq_def)
qed

lemma ex_quote_made:
  "\<exists>v s'. submit_quote ex_env (\<lambda>_. 1000) (ex_user 11 SUPPLIER 41) 1000 ex_quote_request (ex_ask_db\<lparr>next_id := 1001\<rparr>) [ex_rfq]
     (ex_ask_db\<lparr>next_id := 1001\<rparr>) [ex_rfq] = Inr (v, s', [ex_quoted])"
proof -
  let ?s = "ex_ask_db\<lparr>next_id := 1001\<rparr>"
  note m = ex_market_facts(1-3) [where n = 1001] ex_market_facts(4,5)
  have f: "rf_id ex_rfq = 1000" "rf_product_id ex_rfq = p_id ex_product" "rf_delivery_point_id ex_rfq = Some (d_id ex_point)"
    "rf_availability_window ex_rfq = ''SPOT''" "rf_buyer_org_id ex_rfq = 42" "rf_status ex_rfq = RFQ_OPEN" "rf_quotes ex_rfq = []"
    "(1000::time) < rf_expires_at ex_rfq"
    by (simp_all add: ex_rfq_def new_rfq_def ex_rfq_request_def)
  have ad: "require_execution_eligible_user ?s (ex_user 11 SUPPLIER 41) = Inr (ex_user 11 SUPPLIER 41)"
    using m(2) by (simp add: require_execution_eligible_user_def ex_ask_db_def)
  have sch: "rfq_quote_schema ex_quote_request = Inr ()"
    by (simp add: rfq_quote_schema_def ex_quote_request_def valid_amount_def finite_decimal_def dec_value_def pred_opt_def)
  have ld: "load_rfq 1000 (rfq_visible True 41 1000) [ex_rfq] = Inr ex_rfq"
    using f by (simp add: load_rfq_def rfq_visible_def SUPPLIER_VISIBLE_STATUSES_def)
  have "\<exists>orgs. lock_and_load_market_organizations ?s [42, 41] [\<lparr>mo_user_id = 11, mo_organization_id = 41\<rparr>] True [] = Inr orgs \<and>
      orgs 42 = Some (ex_org 42 ''Buyer'') \<and> orgs 41 = Some (ex_org 41 ''Supplier'')"
    using m(2) by (simp add: lock_and_load_market_organizations_def Let_def ownership_by_user_def py_upper_def upper_char_def ex_ask_db_def)
  then obtain orgs where orgs: "lock_and_load_market_organizations ?s [42, 41] [\<lparr>mo_user_id = 11, mo_organization_id = 41\<rparr>] True [] = Inr orgs"
    "orgs 42 = Some (ex_org 42 ''Buyer'')" "orgs 41 = Some (ex_org 41 ''Supplier'')" by blast
  have ap: "assert_market_pair_provenance (ex_org 42 ''Buyer'') (ex_org 41 ''Supplier'') = Inr ()"
    by (simp add: assert_market_pair_provenance_def execution_provenance_compatible_def)
  have q: "rfq_quotable ex_rfq" "rf_id (quoted x ex_rfq) = 1000" for x using f by (simp_all add: rfq_quotable_def quoted_def)
  show ?thesis using ad sch ld orgs ap m f q
    by (simp add: submit_quote_def Let_def rfq_visibility_filters_def participant_market_event_def py_strip_def is_space_def put_row_def ex_quoted_def)
qed

lemma ex_quoted_reachable: "\<exists>s. rfq_reachable ex_env (s, [ex_quoted])"
proof -
  obtain s' where "create_rfq ex_env (2026, 2) (\<lambda>_. 1000) (ex_user 12 BUYER 42) ex_rfq_request ex_ask_db ex_ask_db [] = Inr (ex_rfq, s', [ex_rfq])"
    "next_id s' = 1001"
    using ex_rfq_made by blast
  then have "rfq_step ex_env (ex_ask_db, []) (s', [ex_rfq])" "rfq_step ex_env (s', [ex_rfq]) (ex_ask_db\<lparr>next_id := 1001\<rparr>, [ex_rfq])"
    by (auto intro: rfq_step.ask rfq_step.elsewhere)
  moreover obtain v s2 where "submit_quote ex_env (\<lambda>_. 1000) (ex_user 11 SUPPLIER 41) 1000 ex_quote_request (ex_ask_db\<lparr>next_id := 1001\<rparr>) [ex_rfq]
     (ex_ask_db\<lparr>next_id := 1001\<rparr>) [ex_rfq] = Inr (v, s2, [ex_quoted])"
    using ex_quote_made by blast
  then have "rfq_step ex_env (ex_ask_db\<lparr>next_id := 1001\<rparr>, [ex_rfq]) (s2, [ex_quoted])" by (rule rfq_step.answer)
  ultimately show ?thesis using rfq_reachable.start rfq_reachable.step by blast
qed

subsection \<open>Properties\<close>

text \<open>C34: requests for quotes are orderly and never execute. In every reachable state a request has at most one quote per supplier
  organization and none of its own buyer, an open one has no quotes, a quoted one only pending ones, a cancelled one only
  withdrawn ones; no request is accepted or has a trade, all amounts are legal, and the view of a request can always
  be built.\<close>

theorem rfqs_orderly:
  assumes "rfq_reachable e (s, rs)" "r \<in> set rs"
  shows "distinct (map qt_seller_org_id (rf_quotes r)) \<and> rf_buyer_org_id r \<notin> qt_seller_org_id ` set (rf_quotes r) \<and>
    (rf_status r = RFQ_OPEN \<and> rf_quotes r = [] \<or>
     rf_status r = RFQ_QUOTED \<and> rf_quotes r \<noteq> [] \<and> list_all (\<lambda>q. qt_status q = QUOTE_PENDING) (rf_quotes r) \<or>
     rf_status r = RFQ_CANCELLED \<and> list_all (\<lambda>q. qt_status q = QUOTE_WITHDRAWN) (rf_quotes r)) \<and>
    rf_trade_id r = None \<and> RFQ_LIFECYCLE r \<and> RFQ_NUMERIC_VALUES r \<and> list_all RFQ_QUOTE_NUMERIC_VALUES (rf_quotes r) \<and>
    (\<exists>v. build_rfq_response s viewer r = Inr v)"
proof -
  have ok: "rfq_row_ok r" using rfq_reachable_inv [OF assms(1)] assms(2) by (simp add: rfq_inv_def)
  then have "\<exists>v. build_rfq_response s viewer r = Inr v"
    using normalize_canonical [of "rf_availability_window r"] by (simp add: rfq_row_ok_def build_rfq_response_def Let_def)
  then show ?thesis using ok by (auto simp: rfq_row_ok_def RFQ_LIFECYCLE_def split: RFQStatus.splits)
qed

theorem rfqs_orderly_witness:
  "\<exists>s. rfq_reachable ex_env (s, [ex_quoted]) \<and> distinct (map qt_seller_org_id (rf_quotes ex_quoted)) \<and> rf_quotes ex_quoted \<noteq> [] \<and>
     rf_trade_id ex_quoted = None \<and> (\<exists>v. build_rfq_response s (Some 41) ex_quoted = Inr v)"
proof -
  obtain s where r: "rfq_reachable ex_env (s, [ex_quoted])" using ex_quoted_reachable by blast
  have m: "ex_quoted \<in> set [ex_quoted]" by simp
  have "rf_quotes ex_quoted \<noteq> []" by (simp add: ex_quoted_def quoted_def)
  then show ?thesis using rfqs_orderly [OF r m, of "Some 41"] r by blast
qed

text \<open>C35: the RFQ views leak nothing. Two tables that differ only in what is hidden from an organization (the buyers of anonymous
  requests of others, the buyers' users, and the contents of the quotes of others on requests that are not its own)
  give every user of that organization the same list and the same details, errors included.\<close>

theorem rfq_views_leak_nothing:
  assumes "u_organization_id cur = Some g" "map (rfq_low g) rs = map (rfq_low g) rs'"
  shows "list_rfqs now cur wanted product skip limit s rs = list_rfqs now cur wanted product skip limit s rs' \<and>
    get_rfq clk cur k s rs = get_rfq clk cur k s rs'"
proof
  let ?b = "u_role cur = Some SUPPLIER"
  have all: "list_all2 (alike g) rs rs'"
    using assms(2) by (simp add: list_all2_conv_all_nth list_eq_iff_nth_eq alike_def)
  define P where "P = (\<lambda>r. rfq_visible ?b g now r \<and> (case wanted of None \<Rightarrow> True | Some st \<Rightarrow> rf_status r = st)
                  \<and> (case product of None \<Rightarrow> True | Some p \<Rightarrow> rf_product_id r = p))"
  have "P r = P r'" if "alike g r r'" for r r'
    using alike_eqs(2,3) [OF that] alike_eqs(5) [OF that, of ?b now] by (auto simp: P_def split: option.splits)
  with all have fl: "list_all2 (alike g) (filter P rs) (filter P rs')" by (rule list_all2_filter)
  then have "list_all2 (alike g) (sort_key (\<lambda>r. - rf_created_at r) (filter P rs)) (sort_key (\<lambda>r. - rf_created_at r) (filter P rs'))"
    by (rule list_all2_sort_key) (simp add: alike_eqs)
  then have "collectR (build_rfq_response s (Some g)) (take limit (drop skip (sort_key (\<lambda>r. - rf_created_at r) (filter P rs)))) =
      collectR (build_rfq_response s (Some g)) (take limit (drop skip (sort_key (\<lambda>r. - rf_created_at r) (filter P rs'))))"
    by (intro collectR_alike [of "alike g"] list_all2_takeI list_all2_dropI) (simp_all add: alike_eqs)
  then show "list_rfqs now cur wanted product skip limit s rs = list_rfqs now cur wanted product skip limit s rs'"
    using list_all2_lengthD [OF fl] assms(1) by (simp add: list_rfqs_def rfq_visibility_filters_def P_def Let_def)
  have ens: "ensure_rfq_detail_visible r cur t = ensure_rfq_detail_visible r' cur t" if "alike g r r'" for r r' t
    using alike_eqs(5) [OF that, of ?b t] assms(1) by (simp add: ensure_rfq_detail_visible_def)
  show "get_rfq clk cur k s rs = get_rfq clk cur k s rs'"
    using load_rfq_alike [OF all, of k ?b "clk 0"] ens alike_eqs(6) assms(1)
    by (auto simp: get_rfq_def rfq_visibility_filters_def)
qed

theorem rfq_views_leak_nothing_witness:
  "get_rfq (\<lambda>_. 1000) (ex_user 13 SUPPLIER 43) 1000 ex_ask_db [ex_quoted] =
   get_rfq (\<lambda>_. 1000) (ex_user 13 SUPPLIER 43) 1000 ex_ask_db
     [ex_quoted\<lparr>rf_buyer_org_id := 44, rf_quotes := [new_quote 1002 1000 (ex_user 15 SUPPLIER 45) 45 ex_quote_request]\<rparr>]"
proof -
  let ?r = "ex_quoted\<lparr>rf_buyer_org_id := 44, rf_quotes := [new_quote 1002 1000 (ex_user 15 SUPPLIER 45) 45 ex_quote_request]\<rparr>"
  have "u_organization_id (ex_user 13 SUPPLIER 43) = Some 43" by simp
  moreover have "map (rfq_low 43) [ex_quoted] = map (rfq_low 43) [?r]"
    by (simp add: rfq_low_def ex_quoted_def quoted_def ex_rfq_def new_rfq_def new_quote_def ex_rfq_request_def)
  ultimately show ?thesis by (rule rfq_views_leak_nothing [THEN conjunct2])
qed

text \<open>The answer 403 to a stranger's cancellation is never given: the lock of the buyer's organization fails first.\<close>

lemma stranger_cancel_key_error:
  assumes "u_organization_id cur = Some g" "user_of (u_id cur) s = Some cur" "load_rfq k (\<lambda>_. True) rs = Inr r" "rf_buyer_org_id r \<noteq> g"
    and "organization_of (rf_buyer_org_id r) s = Some org" "py_upper (g_verification_status org) = ''APPROVED''"
    and "acquire_market_slice_lock e (BID, rf_product_id r, rf_delivery_point_id r, rf_availability_window r) = Inr ()"
  shows "cancel_rfq e cur k rs s rs = Inl KeyError"
  using assms by (simp add: cancel_rfq_def lock_buyer_organization_def lock_and_load_market_organizations_def ownership_by_user_def Let_def)

lemma unapproved_owner_cannot_cancel:
  assumes "load_rfq k (\<lambda>_. True) rs = Inr r" "organization_of (rf_buyer_org_id r) s = Some org" "py_upper (g_verification_status org) \<noteq> ''APPROVED''"
  shows "\<exists>err. cancel_rfq e cur k pn s rs = Inl err"
proof (rule ccontr)
  assume "\<nexists>err. cancel_rfq e cur k pn s rs = Inl err"
  then obtain x where "cancel_rfq e cur k pn s rs = Inr x" by (cases "cancel_rfq e cur k pn s rs") auto
  then have "lock_buyer_organization s (rf_buyer_org_id r) (u_id cur) (u_organization_id cur) = Inr ()"
    using assms(1) by (auto simp: cancel_rfq_def)
  then show False using assms(2,3)
    by (auto simp: lock_buyer_organization_def lock_and_load_market_organizations_def Let_def split: option.splits)
qed

end
