(* ===== verification/Event_Dispatch.thy ===== *)
theory Event_Dispatch
  imports Effects Locks "HOL-Library.Product_Lexorder"
begin

section \<open>Dispatching committed events\<close>

text \<open>
  \<^verbatim>\<open>src/app/services/market_event_dispatch.py\<close>, \<^verbatim>\<open>services/event_bus.py\<close> and \<^verbatim>\<open>models/market_event.py\<close>. Market transactions commit event
  rows to the outbox. One worker, the holder of an advisory lock, numbers them; every worker's hub reads the numbered
  rows behind its cursor and publishes them on the in-process bus, one channel per organization. The event itself stands for
  its payload.
\<close>

subsection \<open>Rows and messages\<close>

record event_row =
  er_id :: uuid
  er_event :: outbox_event
  er_created_at :: time
  er_dispatched_at :: "time option"
  er_stream_seq :: "nat option"
  er_delivery_attempts :: nat

datatype payload = EventPayload outbox_event | InvalidationPayload | ResetPayload | LocalPayload string

datatype message = Message (m_seq: "nat option") (m_event: string) (m_data: payload) (m_terminal: bool)

definition BATCH_SIZE :: nat where
  "BATCH_SIZE = 500"

definition MAX_SUBSCRIBERS_PER_CHANNEL :: nat where
  "MAX_SUBSCRIBERS_PER_CHANNEL = 200"

definition SUBSCRIBER_QUEUE_SIZE :: nat where
  "SUBSCRIBER_QUEUE_SIZE = 100"

definition PUBLIC_STREAM_CHANNELS :: "string list" where
  "PUBLIC_STREAM_CHANNELS = [''prices'', ''orderbook'']"

definition stream_channel_for_org :: "uuid \<Rightarrow> string" where
  "stream_channel_for_org g = ''trades:'' @ uuid_str g"

subsection \<open>The bus\<close>

text \<open>A queue is registered while it is in the set of its channel.\<close>

record SubscriberQueue =
  qu_id :: uuid
  qu_channel :: string
  qu_messages :: "message list"
  qu_terminal :: "message option"
  qu_registered :: bool

definition reset_message :: message where
  "reset_message = Message None ''reset'' ResetPayload True"

definition terminate_for_overflow :: "SubscriberQueue \<Rightarrow> SubscriberQueue" where
  "terminate_for_overflow q =
     (if qu_terminal q \<noteq> None then q else q\<lparr>qu_terminal := Some reset_message, qu_messages := [reset_message]\<rparr>)"

definition put_message :: "string \<Rightarrow> message \<Rightarrow> SubscriberQueue \<Rightarrow> SubscriberQueue" where
  "put_message channel m q =
     (if \<not> (qu_registered q \<and> qu_channel q = channel) then q
      else if length (qu_messages q) < SUBSCRIBER_QUEUE_SIZE then q\<lparr>qu_messages := qu_messages q @ [m]\<rparr>
      else (terminate_for_overflow q)\<lparr>qu_registered := False\<rparr>)"

definition publish :: "string \<Rightarrow> message \<Rightarrow> SubscriberQueue list \<Rightarrow> SubscriberQueue list" where
  "publish channel m bus = map (put_message channel m) bus"

definition subscribe :: "uuid \<Rightarrow> string \<Rightarrow> SubscriberQueue list \<Rightarrow> SubscriberQueue list option" where
  "subscribe k channel bus =
     (if MAX_SUBSCRIBERS_PER_CHANNEL \<le> length (filter (\<lambda>q. qu_registered q \<and> qu_channel q = channel) bus) then None
      else Some (bus @ [\<lparr>qu_id = k, qu_channel = channel, qu_messages = [], qu_terminal = None, qu_registered = True\<rparr>]))"

definition unsubscribe :: "uuid \<Rightarrow> SubscriberQueue list \<Rightarrow> SubscriberQueue list" where
  "unsubscribe k bus = map (\<lambda>q. if qu_id q = k then q\<lparr>qu_registered := False\<rparr> else q) bus"

definition broadcast :: "message \<Rightarrow> SubscriberQueue list \<Rightarrow> SubscriberQueue list" where
  "broadcast m bus = fold (\<lambda>c. publish c m) (remdups (map qu_channel (filter qu_registered bus))) bus"

subsection \<open>The sequencer\<close>

text \<open>\<open>locked\<close> are the rows other transactions hold locks on (\<open>SKIP LOCKED\<close>).\<close>

definition pending_batch :: "nat \<Rightarrow> uuid set \<Rightarrow> event_row list \<Rightarrow> uuid list" where
  "pending_batch n locked rows =
     take n (map er_id (sort_key (\<lambda>r. (er_created_at r, er_id r)) (filter (\<lambda>r. er_stream_seq r = None \<and> er_id r \<notin> locked) rows)))"

definition assign_sequences :: "time \<Rightarrow> (uuid \<times> nat) list \<Rightarrow> event_row list \<Rightarrow> event_row list" where
  "assign_sequences now asg rows =
     map (\<lambda>r. case map_of asg (er_id r) of None \<Rightarrow> r
       | Some n \<Rightarrow> r\<lparr>er_stream_seq := Some n, er_dispatched_at := Some now, er_delivery_attempts := er_delivery_attempts r + 1\<rparr>) rows"

text \<open>The database as the workers share it: the rows, the sequence, the holder of the advisory lock, and the statement that is
  executing on the holder's session.\<close>

record dispatch_db =
  dd_rows :: "event_row list"
  dd_next_seq :: nat
  dd_leader :: "nat option"
  dd_inflight :: "(uuid \<times> nat) list option"

definition enqueued_row :: "uuid \<Rightarrow> time \<Rightarrow> outbox_event \<Rightarrow> event_row" where
  "enqueued_row k now ev =
     \<lparr>er_id = k, er_event = ev, er_created_at = now, er_dispatched_at = None, er_stream_seq = None, er_delivery_attempts = 0\<rparr>"

definition try_acquire_leadership :: "nat \<Rightarrow> dispatch_db \<Rightarrow> bool \<times> dispatch_db" where
  "try_acquire_leadership w d =
     (case dd_leader d of None \<Rightarrow> (True, d\<lparr>dd_leader := Some w\<rparr>) | Some v \<Rightarrow> (v = w, d))"

text \<open>Losing the session aborts its statement and releases the lock; numbers drawn from the sequence stay drawn.\<close>

definition lose_session :: "nat \<Rightarrow> dispatch_db \<Rightarrow> dispatch_db" where
  "lose_session w d = (if dd_leader d = Some w then d\<lparr>dd_leader := None, dd_inflight := None\<rparr> else d)"

inductive dispatch_step :: "dispatch_db \<Rightarrow> dispatch_db \<Rightarrow> bool" where
  produce: "distinct ks \<Longrightarrow> set ks \<inter> er_id ` set (dd_rows d) = {} \<Longrightarrow> length evs = length ks \<Longrightarrow>
    dispatch_step d (d\<lparr>dd_rows := dd_rows d @ map2 (\<lambda>k ev. enqueued_row k now ev) ks evs\<rparr>)"
| acquire: "try_acquire_leadership w d = (b, d') \<Longrightarrow> dispatch_step d d'"
| lose: "dispatch_step d (lose_session w d)"
| begin_assignment: "dd_leader d = Some w \<Longrightarrow> dd_inflight d = None \<Longrightarrow>
    distinct picked \<Longrightarrow> set picked = set (pending_batch n locked (dd_rows d)) \<Longrightarrow>
    dispatch_step d (d\<lparr>dd_inflight := Some (zip picked [dd_next_seq d..<dd_next_seq d + length picked]),
                       dd_next_seq := dd_next_seq d + length picked\<rparr>)"
| commit_assignment: "dd_leader d = Some w \<Longrightarrow> dd_inflight d = Some asg \<Longrightarrow>
    dispatch_step d (d\<lparr>dd_rows := assign_sequences now asg (dd_rows d), dd_inflight := None\<rparr>)"

inductive dispatch_reachable :: "dispatch_db \<Rightarrow> bool" where
  start: "dispatch_reachable \<lparr>dd_rows = [], dd_next_seq = 1, dd_leader = None, dd_inflight = None\<rparr>"
| step: "dispatch_reachable d \<Longrightarrow> dispatch_step d d' \<Longrightarrow> dispatch_reachable d'"

subsection \<open>The hub\<close>

definition seq_of :: "event_row \<Rightarrow> nat" where
  "seq_of r = (case er_stream_seq r of None \<Rightarrow> 0 | Some n \<Rightarrow> n)"

definition sequenced_after :: "nat \<Rightarrow> event_row list \<Rightarrow> event_row list" where
  "sequenced_after c rows = sort_key seq_of (filter (\<lambda>r. er_stream_seq r \<noteq> None \<and> c < seq_of r) rows)"

definition high_water :: "event_row list \<Rightarrow> nat" where
  "high_water rows = fold max (map seq_of rows) 0"

definition fetch_events_for_org :: "uuid \<Rightarrow> nat \<Rightarrow> nat option \<Rightarrow> nat \<Rightarrow> event_row list \<Rightarrow> event_row list" where
  "fetch_events_for_org g after through limit rows =
     take limit (filter (\<lambda>r. g \<in> set (e_participant_org_ids (er_event r))
       \<and> (case through of None \<Rightarrow> True | Some t \<Rightarrow> seq_of r \<le> t)) (sequenced_after after rows))"

definition event_message :: "event_row \<Rightarrow> message" where
  "event_message r = Message (er_stream_seq r) (e_event_type (er_event r)) (EventPayload (er_event r)) False"

definition fan_out :: "event_row \<Rightarrow> SubscriberQueue list \<Rightarrow> SubscriberQueue list" where
  "fan_out r bus = fold (\<lambda>g. publish (stream_channel_for_org g) (event_message r)) (e_participant_org_ids (er_event r)) bus"

record hub =
  hb_cursor :: nat
  hb_bus :: "SubscriberQueue list"
  hb_invalidated :: bool

definition hub_event :: "event_row \<Rightarrow> hub \<Rightarrow> hub" where
  "hub_event r h = \<lparr>hb_cursor = seq_of r, hb_bus = fan_out r (hb_bus h),
     hb_invalidated = (hb_invalidated h \<or> e_public_market_invalidation (er_event r))\<rparr>"

definition invalidation_message :: message where
  "invalidation_message = Message None ''market_invalidated'' InvalidationPayload False"

definition publish_invalidation :: "hub \<Rightarrow> hub" where
  "publish_invalidation h =
     (if hb_invalidated h
      then h\<lparr>hb_bus := fold (\<lambda>c. publish c invalidation_message) PUBLIC_STREAM_CHANNELS (hb_bus h)\<rparr> else h)"

text \<open>One run of the drain loop. Each read of the database is an element of \<open>reads\<close>: the rows it saw, or \<open>None\<close> for a
  database error. The result is \<open>None\<close> while the loop still wants to read; the flag tells whether it ended without an error.\<close>

fun drain_loop :: "nat \<Rightarrow> event_row list option list \<Rightarrow> hub \<Rightarrow> (bool \<times> hub) option" where
  "drain_loop n [] h = None"
| "drain_loop n (None # _) h = Some (False, h)"
| "drain_loop n (Some rows # reads) h =
     (let batch = take n (sequenced_after (hb_cursor h) rows); h' = fold hub_event batch h in
      if length batch < n then Some (True, publish_invalidation h') else drain_loop n reads h')"

definition drain_new_events :: "nat \<Rightarrow> event_row list option list \<Rightarrow> hub \<Rightarrow> (bool \<times> hub) option" where
  "drain_new_events n reads h = drain_loop n reads (h\<lparr>hb_invalidated := False\<rparr>)"

subsection \<open>Invariant of the numbering\<close>

definition visible_seqs :: "event_row list \<Rightarrow> nat set" where
  "visible_seqs rows = {n. \<exists>r\<in>set rows. er_stream_seq r = Some n}"

definition seqs_unique :: "event_row list \<Rightarrow> bool" where
  "seqs_unique rows \<longleftrightarrow> (\<forall>a\<in>set rows. \<forall>b\<in>set rows. er_stream_seq a \<noteq> None \<longrightarrow> er_stream_seq a = er_stream_seq b \<longrightarrow> a = b)"

definition inflight_ok :: "event_row list \<Rightarrow> nat \<Rightarrow> (uuid \<times> nat) list \<Rightarrow> bool" where
  "inflight_ok rows next asg \<longleftrightarrow> distinct (map snd asg) \<and> distinct (map fst asg) \<and>
     (\<forall>k n. (k, n) \<in> set asg \<longrightarrow> 0 < n \<and> n < next \<and> (\<forall>m\<in>visible_seqs rows. m < n) \<and>
        (\<forall>r\<in>set rows. er_id r = k \<longrightarrow> er_stream_seq r = None))"

definition dispatch_inv :: "dispatch_db \<Rightarrow> bool" where
  "dispatch_inv d \<longleftrightarrow> distinct (map er_id (dd_rows d)) \<and> (\<forall>n\<in>visible_seqs (dd_rows d). 0 < n \<and> n < dd_next_seq d) \<and> 0 < dd_next_seq d \<and>
     seqs_unique (dd_rows d) \<and> pred_option (inflight_ok (dd_rows d) (dd_next_seq d)) (dd_inflight d)"

lemma seqs_uniqueD: "seqs_unique rows \<Longrightarrow> a \<in> set rows \<Longrightarrow> b \<in> set rows \<Longrightarrow> er_stream_seq a = Some n \<Longrightarrow> er_stream_seq b = Some n \<Longrightarrow> a = b"
  by (simp add: seqs_unique_def)

lemma seqs_uniqueI:
  "(\<And>a b n. a \<in> set rows \<Longrightarrow> b \<in> set rows \<Longrightarrow> er_stream_seq a = Some n \<Longrightarrow> er_stream_seq b = Some n \<Longrightarrow> a = b) \<Longrightarrow> seqs_unique rows"
  by (metis not_None_eq seqs_unique_def)

lemma visible_append: "visible_seqs (xs @ ys) = visible_seqs xs \<union> visible_seqs ys"
  by (auto simp: visible_seqs_def)

lemma enqueued_visible [simp]: "visible_seqs (map2 (\<lambda>k ev. enqueued_row k now ev) ks evs) = {}"
  by (auto simp: visible_seqs_def enqueued_row_def dest!: set_zip_leftD)

lemma enqueued_rows:
  assumes "r \<in> set (map2 (\<lambda>k ev. enqueued_row k now ev) ks evs)"
  shows "er_stream_seq r = None" "er_id r \<in> set ks"
  using assms by (auto simp: enqueued_row_def dest: set_zip_leftD)

lemma map_er_id_enqueued: "length evs = length ks \<Longrightarrow> map er_id (map2 (\<lambda>k ev. enqueued_row k now ev) ks evs) = ks"
  by (simp add: comp_def case_prod_unfold enqueued_row_def)

text \<open>Committing an assignment: an old row, or a row of the assignment that gets its number.\<close>

lemma assign_sequences_row:
  assumes "r \<in> set (assign_sequences now asg rows)"
  obtains r0 where "r0 \<in> set rows" "er_id r = er_id r0" "er_event r = er_event r0" "map_of asg (er_id r0) = None \<and> r = r0"
  | r0 n where "r0 \<in> set rows" "er_id r = er_id r0" "er_event r = er_event r0" "map_of asg (er_id r0) = Some n" "er_stream_seq r = Some n"
  using assms by (auto simp: assign_sequences_def split: option.splits)

lemma assign_sequences_ids [simp]: "map er_id (assign_sequences now asg rows) = map er_id rows"
  by (auto simp: assign_sequences_def split: option.splits)

lemma visible_assigned:
  assumes "dispatch_inv d" "dd_inflight d = Some asg" "n \<in> visible_seqs (assign_sequences now asg (dd_rows d))"
  shows "n \<in> visible_seqs (dd_rows d) \<or> (\<exists>k. (k, n) \<in> set asg)"
proof -
  from assms(3) obtain r where r: "r \<in> set (assign_sequences now asg (dd_rows d))" "er_stream_seq r = Some n"
    by (auto simp: visible_seqs_def)
  from r(1) show ?thesis
    by (cases rule: assign_sequences_row) (use r(2) in \<open>auto simp: visible_seqs_def dest: map_of_SomeD\<close>)
qed

lemma inflight_facts:
  assumes "dispatch_inv d" "dd_inflight d = Some asg"
  shows "distinct (map snd asg)" "distinct (map fst asg)" "\<And>k n. (k, n) \<in> set asg \<Longrightarrow> n < dd_next_seq d \<and> 0 < n"
    "\<And>k n m. (k, n) \<in> set asg \<Longrightarrow> m \<in> visible_seqs (dd_rows d) \<Longrightarrow> m < n"
    "\<And>k n r. (k, n) \<in> set asg \<Longrightarrow> r \<in> set (dd_rows d) \<Longrightarrow> er_id r = k \<Longrightarrow> er_stream_seq r = None"
  using assms by (auto simp: dispatch_inv_def inflight_ok_def)

lemma visibleI: "r \<in> set rows \<Longrightarrow> er_stream_seq r = Some n \<Longrightarrow> n \<in> visible_seqs rows"
  by (auto simp: visible_seqs_def)

lemma commit_assignment_unique:
  assumes inv: "dispatch_inv d" and fl: "dd_inflight d = Some asg"
  shows "seqs_unique (assign_sequences now asg (dd_rows d))"
proof (rule seqs_uniqueI)
  note f = inflight_facts [OF inv fl]
  let ?rows = "assign_sequences now asg (dd_rows d)"
  have old: "m < n" if "r \<in> set (dd_rows d)" "er_stream_seq r = Some m" "map_of asg k = Some n" for r m k n
    using f(4) [OF map_of_SomeD [OF that(3)] visibleI [OF that(1,2)]] .
  have uniq: "k = k'" if "map_of asg k = Some n" "map_of asg k' = Some n" for k k' n
    using f(1) map_of_SomeD [OF that(1)] map_of_SomeD [OF that(2)] by (force simp: distinct_map inj_on_def)
  have seqs: "seqs_unique (dd_rows d)" using inv by (simp add: dispatch_inv_def)
  fix a b n assume ab: "a \<in> set ?rows" "b \<in> set ?rows" "er_stream_seq a = Some n" "er_stream_seq b = Some n"
  have ids: "er_id a = er_id b"
    using ab(1)
  proof (cases rule: assign_sequences_row)
    case a: (1 a0)
    show ?thesis using ab(2)
    proof (cases rule: assign_sequences_row)
      case b: (1 b0)
      then show ?thesis using a(1,4) ab(3,4) seqs_uniqueD [OF seqs, of a0 b0 n] by simp
    next
      case b: (2 b0 m)
      then show ?thesis using a(1,4) ab(3,4) old [of a0 n "er_id b0" m] by simp
    qed
  next
    case a: (2 a0 m)
    show ?thesis using ab(2)
    proof (cases rule: assign_sequences_row)
      case b: (1 b0)
      then show ?thesis using a(4,5) ab(3,4) old [of b0 n "er_id a0" m] by simp
    next
      case b: (2 b0 l)
      then show ?thesis using a(2,4,5) ab(3,4) uniq [of "er_id a0" n "er_id b0"] by simp
    qed
  qed
  have "distinct (map er_id ?rows)" using inv by (simp add: dispatch_inv_def)
  then have "inj_on er_id (set ?rows)" by (simp only: distinct_map)
  then show "a = b" using ids ab(1,2) by (rule inj_onD)
qed

lemma commit_assignment_inv:
  assumes inv: "dispatch_inv d" and fl: "dd_inflight d = Some asg"
  shows "dispatch_inv (d\<lparr>dd_rows := assign_sequences now asg (dd_rows d), dd_inflight := None\<rparr>)"
proof -
  have "0 < n \<and> n < dd_next_seq d" if "n \<in> visible_seqs (assign_sequences now asg (dd_rows d))" for n
    using visible_assigned [OF inv fl that] inv inflight_facts(3) [OF inv fl] by (auto simp: dispatch_inv_def)
  then show ?thesis using inv commit_assignment_unique [OF inv fl] by (simp add: dispatch_inv_def)
qed

lemma pending_rows: "k \<in> set (pending_batch n locked rows) \<Longrightarrow> \<exists>r\<in>set rows. er_id r = k \<and> er_stream_seq r = None"
  by (auto simp: pending_batch_def dest!: in_set_takeD)

lemma begin_assignment_inv:
  assumes inv: "dispatch_inv d" and picked: "distinct picked" "set picked = set (pending_batch n locked (dd_rows d))"
  shows "dispatch_inv (d\<lparr>dd_inflight := Some (zip picked [dd_next_seq d..<dd_next_seq d + length picked]), dd_next_seq := dd_next_seq d + length picked\<rparr>)"
proof -
  let ?asg = "zip picked [dd_next_seq d..<dd_next_seq d + length picked]"
  have ns: "\<And>m. m \<in> visible_seqs (dd_rows d) \<Longrightarrow> 0 < m \<and> m < dd_next_seq d" "0 < dd_next_seq d" using inv by (auto simp: dispatch_inv_def)
  have un: "er_stream_seq r = None" if k: "er_id r \<in> set picked" and rw: "r \<in> set (dd_rows d)" for r
  proof -
    obtain r0 where "r0 \<in> set (dd_rows d)" "er_id r0 = er_id r" "er_stream_seq r0 = None"
      using pending_rows [of "er_id r" n locked "dd_rows d"] k picked(2) by auto
    moreover have "inj_on er_id (set (dd_rows d))" using inv by (simp add: dispatch_inv_def distinct_map)
    ultimately show ?thesis using rw by (metis inj_onD)
  qed
  have p: "0 < m \<and> m < dd_next_seq d + length picked \<and> (\<forall>v\<in>visible_seqs (dd_rows d). v < m) \<and> (\<forall>r\<in>set (dd_rows d). er_id r = k \<longrightarrow> er_stream_seq r = None)"
    if "(k, m) \<in> set ?asg" for k m
  proof -
    have "k \<in> set picked" "dd_next_seq d \<le> m" "m < dd_next_seq d + length picked"
      using set_zip_leftD [OF that] set_zip_rightD [OF that] by auto
    then show ?thesis using ns un by force
  qed
  have "distinct (map fst ?asg)" "distinct (map snd ?asg)" using picked(1) by simp_all
  with p have "inflight_ok (dd_rows d) (dd_next_seq d + length picked) ?asg" unfolding inflight_ok_def by blast
  then show ?thesis using inv ns by (auto simp: dispatch_inv_def trans_less_add1)
qed

lemma produce_inv:
  assumes inv: "dispatch_inv d" and ks: "distinct ks" "set ks \<inter> er_id ` set (dd_rows d) = {}" "length evs = length ks"
  shows "dispatch_inv (d\<lparr>dd_rows := dd_rows d @ map2 (\<lambda>k ev. enqueued_row k now ev) ks evs\<rparr>)"
proof -
  define new where "new = map2 (\<lambda>k ev. enqueued_row k now ev) ks evs"
  have none: "er_stream_seq r = None" if "r \<in> set new" for r using enqueued_rows(1) that by (simp add: new_def)
  have vis: "visible_seqs (dd_rows d @ new) = visible_seqs (dd_rows d)" by (simp add: visible_append new_def)
  have ids: "map er_id new = ks" unfolding new_def by (rule map_er_id_enqueued [OF ks(3)])
  have dist: "distinct (map er_id (dd_rows d @ new))" using inv ks(1,2) ids by (auto simp: dispatch_inv_def)
  have uni: "seqs_unique (dd_rows d @ new)"
  proof (rule seqs_uniqueI)
    fix a b n assume "a \<in> set (dd_rows d @ new)" "b \<in> set (dd_rows d @ new)" "er_stream_seq a = Some n" "er_stream_seq b = Some n"
    moreover from this have "a \<in> set (dd_rows d)" "b \<in> set (dd_rows d)" using none by auto
    ultimately show "a = b" using inv seqs_uniqueD by (auto simp: dispatch_inv_def)
  qed
  have fl: "inflight_ok (dd_rows d @ new) (dd_next_seq d) asg" if "dd_inflight d = Some asg" for asg
    using inv that none unfolding dispatch_inv_def inflight_ok_def vis by auto
  have "\<forall>n\<in>visible_seqs (dd_rows d). 0 < n \<and> n < dd_next_seq d" "0 < dd_next_seq d" using inv by (simp_all add: dispatch_inv_def)
  then show ?thesis unfolding dispatch_inv_def using dist uni fl by (simp add: new_def [symmetric] vis pred_option_def del: map_append)
qed

lemma leader_irrelevant: "dispatch_inv (d\<lparr>dd_leader := x\<rparr>) = dispatch_inv d"
  by (simp add: dispatch_inv_def)

lemma abort_inv: "dispatch_inv d \<Longrightarrow> dispatch_inv (d\<lparr>dd_leader := None, dd_inflight := None\<rparr>)"
  by (simp add: dispatch_inv_def)

lemma dispatch_step_inv: "dispatch_step d d' \<Longrightarrow> dispatch_inv d \<Longrightarrow> dispatch_inv d'"
proof (induction rule: dispatch_step.induct)
  case (produce ks d evs now)
  then show ?case by (intro produce_inv)
next
  case (acquire w d b d')
  then show ?case using leader_irrelevant by (auto simp: try_acquire_leadership_def split: option.splits)
next
  case (lose d w)
  then show ?case using abort_inv by (simp add: lose_session_def)
next
  case (begin_assignment d w picked n locked)
  then show ?case by (intro begin_assignment_inv)
next
  case (commit_assignment d w asg now)
  then show ?case by (intro commit_assignment_inv)
qed

lemma dispatch_reachable_inv: "dispatch_reachable d \<Longrightarrow> dispatch_inv d"
proof (induction rule: dispatch_reachable.induct)
  case start
  then show ?case by (simp add: dispatch_inv_def visible_seqs_def seqs_unique_def)
next
  case (step d d')
  then show ?case using dispatch_step_inv by blast
qed

text \<open>What a step changes in the numbered rows: nothing that is visible, and what becomes visible comes behind it.\<close>

lemma dispatch_step_visible:
  assumes "dispatch_step d d'" "dispatch_inv d"
  shows "(\<forall>r\<in>set (dd_rows d). er_stream_seq r \<noteq> None \<longrightarrow> r \<in> set (dd_rows d')) \<and>
    (\<forall>r\<in>set (dd_rows d'). er_stream_seq r \<noteq> None \<longrightarrow> r \<in> set (dd_rows d) \<or> (\<forall>m\<in>visible_seqs (dd_rows d). m < seq_of r))"
  using assms
proof (induction rule: dispatch_step.induct)
  case (produce ks d evs now)
  then show ?case by (auto simp: enqueued_row_def)
next
  case (acquire w d b d')
  then show ?case by (auto simp: try_acquire_leadership_def split: option.splits)
next
  case (lose d w)
  then show ?case by (simp add: lose_session_def)
next
  case (begin_assignment d w picked n locked)
  then show ?case by simp
next
  case (commit_assignment d w asg now)
  note f = inflight_facts [OF commit_assignment.prems commit_assignment.hyps(2)]
  have "r \<in> set (assign_sequences now asg (dd_rows d))" if r: "r \<in> set (dd_rows d)" "er_stream_seq r \<noteq> None" for r
  proof -
    have "map_of asg (er_id r) = None" using f(5) r by (metis map_of_SomeD not_Some_eq)
    then show ?thesis using r(1) by (force simp: assign_sequences_def)
  qed
  moreover have "r \<in> set (dd_rows d) \<or> (\<forall>m\<in>visible_seqs (dd_rows d). m < seq_of r)" if "r \<in> set (assign_sequences now asg (dd_rows d))" for r
    using that by (cases rule: assign_sequences_row) (use f(4) in \<open>auto simp: seq_of_def dest!: map_of_SomeD\<close>)
  ultimately show ?case by simp
qed

subsection \<open>Reading behind a cursor\<close>

definition outbox_ok :: "event_row list \<Rightarrow> bool" where
  "outbox_ok rows \<longleftrightarrow> distinct rows \<and> seqs_unique rows \<and> 0 \<notin> visible_seqs rows"

lemma dispatch_outbox_ok: "dispatch_inv d \<Longrightarrow> outbox_ok (dd_rows d)"
  by (auto simp: dispatch_inv_def outbox_ok_def distinct_map)

lemma set_sequenced_after: "set (sequenced_after c rows) = {r \<in> set rows. er_stream_seq r \<noteq> None \<and> c < seq_of r}"
  by (auto simp: sequenced_after_def)

lemma sequenced_after_strict:
  assumes "outbox_ok rows"
  shows "sorted_wrt (\<lambda>a b. seq_of a < seq_of b) (sequenced_after c rows)"
proof -
  let ?xs = "sequenced_after c rows"
  have srt: "sorted (map seq_of ?xs)" by (simp add: sequenced_after_def)
  have "inj_on seq_of (set ?xs)"
  proof (rule inj_onI)
    fix a b assume "a \<in> set ?xs" "b \<in> set ?xs" "seq_of a = seq_of b"
    moreover from this obtain n m where "er_stream_seq a = Some n" "er_stream_seq b = Some m" by (auto simp: set_sequenced_after)
    ultimately show "a = b" using assms seqs_uniqueD [of rows a b n] by (simp add: set_sequenced_after outbox_ok_def seq_of_def)
  qed
  moreover have "distinct ?xs" using assms by (simp add: sequenced_after_def outbox_ok_def)
  ultimately have "distinct (map seq_of ?xs)" by (simp add: distinct_map)
  with srt have "sorted_wrt (<) (map seq_of ?xs)" by (simp add: strict_sorted_iff)
  then show ?thesis by (simp add: sorted_wrt_map)
qed

lemma strict_filter_drop:
  assumes "sorted_wrt (\<lambda>a b. f a < (f b :: nat)) xs" "k < length xs"
  shows "filter (\<lambda>x. f (xs ! k) < f x) xs = drop (Suc k) xs"
proof -
  have "xs = take (Suc k) xs @ drop (Suc k) xs" by simp
  moreover have "filter (\<lambda>x. f (xs ! k) < f x) (take (Suc k) xs) = []"
  proof (rule filter_False, rule ballI)
    fix x assume "x \<in> set (take (Suc k) xs)"
    then obtain i where "i \<le> k" "x = xs ! i" using assms(2) by (auto simp: in_set_conv_nth less_Suc_eq_le)
    then show "\<not> f (xs ! k) < f x" using sorted_wrt_nth_less [OF assms(1), of i k] assms(2) by (cases "i = k") auto
  qed
  moreover have "filter (\<lambda>x. f (xs ! k) < f x) (drop (Suc k) xs) = drop (Suc k) xs"
  proof (rule filter_True, rule ballI)
    fix x assume "x \<in> set (drop (Suc k) xs)"
    then obtain i where "i < length xs - Suc k" "x = xs ! (Suc k + i)" by (auto simp: in_set_conv_nth)
    then show "f (xs ! k) < f x" using sorted_wrt_nth_less [OF assms(1), of k "Suc k + i"] by auto
  qed
  ultimately show ?thesis by (metis append_Nil filter_append)
qed

lemma sequenced_after_later: "c \<le> c' \<Longrightarrow> sequenced_after c' rows = filter (\<lambda>r. c' < seq_of r) (sequenced_after c rows)"
  unfolding sequenced_after_def filter_sort by (rule arg_cong [where f = "sort_key seq_of"]) (auto intro!: filter_cong)

lemma sequenced_after_drop:
  assumes "outbox_ok rows" "0 < k" "k \<le> length (sequenced_after c rows)"
  shows "sequenced_after (seq_of (last (take k (sequenced_after c rows)))) rows = drop k (sequenced_after c rows)"
proof -
  let ?xs = "sequenced_after c rows"
  have k: "k - 1 < length ?xs" "Suc (k - 1) = k" using assms(2,3) by auto
  have "take k ?xs \<noteq> []" using assms(2,3) by auto
  then have l: "last (take k ?xs) = ?xs ! (k - 1)" using assms(3) by (simp add: last_conv_nth)
  have "?xs ! (k - 1) \<in> set ?xs" using k(1) by simp
  then have "c \<le> seq_of (?xs ! (k - 1))" by (simp add: set_sequenced_after)
  from sequenced_after_later [OF this] show ?thesis
    using strict_filter_drop [OF sequenced_after_strict [OF assms(1)] k(1)] k(2) l by simp
qed

subsection \<open>The drain loop\<close>

lemma hub_fold:
  "fold hub_event es h = (if es = [] then h else
     \<lparr>hb_cursor = seq_of (last es), hb_bus = fold fan_out es (hb_bus h),
      hb_invalidated = (hb_invalidated h \<or> (\<exists>r\<in>set es. e_public_market_invalidation (er_event r)))\<rparr>)"
  by (induction es arbitrary: h) (auto simp: hub_event_def)

text \<open>A database error between two batches: the cursor has moved, but the public invalidation of the first batch was only
  remembered in the loop, and the next run publishes none.\<close>

lemma interrupted_drain_forgets_invalidation:
  assumes ok: "outbox_ok rows" and n: "0 < n" "n \<le> length (sequenced_after (hb_cursor h) rows)" "length (drop n (sequenced_after (hb_cursor h) rows)) < n"
    and quiet: "\<forall>r\<in>set (drop n (sequenced_after (hb_cursor h) rows)). \<not> e_public_market_invalidation (er_event r)"
  shows "\<exists>h1 h2. drain_new_events n [Some rows, None] h = Some (False, h1) \<and> drain_new_events n [Some rows] h1 = Some (True, h2) \<and>
    hb_bus h2 = fold fan_out (sequenced_after (hb_cursor h) rows) (hb_bus h)"
proof -
  let ?xs = "sequenced_after (hb_cursor h) rows"
  let ?h1 = "fold hub_event (take n ?xs) (h\<lparr>hb_invalidated := False\<rparr>)"
  let ?h2 = "fold hub_event (drop n ?xs) (?h1\<lparr>hb_invalidated := False\<rparr>)"
  have ne: "take n ?xs \<noteq> []" using n by auto
  then have c: "hb_cursor ?h1 = seq_of (last (take n ?xs))" unfolding hub_fold by simp
  have one: "drain_new_events n [Some rows, None] h = Some (False, ?h1)" using n(2) by (simp add: drain_new_events_def Let_def)
  have two: "drain_new_events n [Some rows] ?h1 = Some (True, publish_invalidation ?h2)"
    using sequenced_after_drop [OF ok n(1,2)] n(3) c by (simp add: drain_new_events_def Let_def)
  have "\<not> hb_invalidated ?h2" unfolding hub_fold [of "drop n ?xs"] using quiet by auto
  moreover have "hb_bus ?h2 = fold fan_out (drop n ?xs) (fold fan_out (take n ?xs) (hb_bus h))"
    unfolding hub_fold [of "drop n ?xs"] hub_fold [of "take n ?xs"] using ne by simp
  moreover have "fold fan_out (drop n ?xs) (fold fan_out (take n ?xs) (hb_bus h)) = fold fan_out ?xs (hb_bus h)"
    using fold_append [of fan_out "take n ?xs" "drop n ?xs"] by (simp add: fun_eq_iff)
  ultimately have "hb_bus (publish_invalidation ?h2) = fold fan_out ?xs (hb_bus h)" by (simp add: publish_invalidation_def)
  then show ?thesis using one two by blast
qed

subsection \<open>The stream grows at its end\<close>

lemma strict_same_set:
  assumes "sorted_wrt (\<lambda>a b. f a < (f b :: nat)) xs" "sorted_wrt (\<lambda>a b. f a < f b) ys" "set xs = set ys"
  shows "xs = ys"
proof -
  have "sorted_wrt (<) (map f xs)" "sorted_wrt (<) (map f ys)" using assms(1,2) by (simp_all add: sorted_wrt_map)
  moreover have "set (map f xs) = set (map f ys)" using assms(3) by simp
  ultimately have m: "map f xs = map f ys" by (metis strict_sorted_equal)
  have "inj_on f (set xs \<union> set ys)" using \<open>sorted_wrt (<) (map f xs)\<close> assms(3) by (simp add: strict_sorted_iff distinct_map)
  then show ?thesis using m inj_on_map_eq_map by blast
qed

lemma strict_split: "sorted_wrt (\<lambda>a b. f a < (f b :: nat)) xs \<Longrightarrow> xs = filter (\<lambda>x. f x \<le> h) xs @ filter (\<lambda>x. h < f x) xs"
proof (induction xs)
  case (Cons x xs)
  have "filter (\<lambda>y. f y \<le> h) xs = []" if "h < f x" using Cons.prems that by (auto simp: filter_empty_conv)
  then show ?case using Cons by (cases "f x \<le> h") (auto simp: filter_id_conv)
qed simp

lemma high_water_iff: "high_water rows \<le> h \<longleftrightarrow> (\<forall>n\<in>visible_seqs rows. n \<le> h)"
proof -
  have "fold max xs b \<le> h \<longleftrightarrow> b \<le> h \<and> (\<forall>x\<in>set xs. x \<le> h)" for xs and b :: nat by (induction xs arbitrary: b) auto
  then show ?thesis by (auto simp: high_water_def visible_seqs_def seq_of_def split: option.splits)
qed

lemma visible_seq_of: "r \<in> set rows \<Longrightarrow> er_stream_seq r \<noteq> None \<Longrightarrow> seq_of r \<in> visible_seqs rows"
  by (auto simp: visible_seqs_def seq_of_def)

lemma step_extends_stream:
  assumes "dispatch_step d d'" "dispatch_inv d"
  shows "\<exists>ns. sequenced_after 0 (dd_rows d') = sequenced_after 0 (dd_rows d) @ ns"
proof -
  let ?xs = "sequenced_after 0 (dd_rows d)" and ?ys = "sequenced_after 0 (dd_rows d')" and ?h = "high_water (dd_rows d)"
  have inv': "dispatch_inv d'" by (rule dispatch_step_inv [OF assms])
  note st = sequenced_after_strict [OF dispatch_outbox_ok [OF assms(2)], of 0] sequenced_after_strict [OF dispatch_outbox_ok [OF inv'], of 0]
  note v = dispatch_step_visible [OF assms]
  have "set (filter (\<lambda>r. seq_of r \<le> ?h) ?ys) = set ?xs"
  proof (intro set_eqI iffI)
    fix r assume "r \<in> set (filter (\<lambda>r. seq_of r \<le> ?h) ?ys)"
    then have r: "r \<in> set (dd_rows d')" "er_stream_seq r \<noteq> None" "0 < seq_of r" "seq_of r \<le> ?h" by (auto simp: set_sequenced_after)
    have "\<not> (\<forall>m\<in>visible_seqs (dd_rows d). m < seq_of r)"
    proof
      assume "\<forall>m\<in>visible_seqs (dd_rows d). m < seq_of r"
      then have "?h \<le> seq_of r - 1" unfolding high_water_iff by auto
      then show False using r(3,4) by linarith
    qed
    then have "r \<in> set (dd_rows d)" using v r(1,2) by blast
    then show "r \<in> set ?xs" using r by (simp add: set_sequenced_after)
  next
    fix r assume "r \<in> set ?xs"
    then have r: "r \<in> set (dd_rows d)" "er_stream_seq r \<noteq> None" "0 < seq_of r" by (auto simp: set_sequenced_after)
    then have "seq_of r \<le> ?h" using high_water_iff [of "dd_rows d" ?h] visible_seq_of by blast
    then show "r \<in> set (filter (\<lambda>r. seq_of r \<le> ?h) ?ys)" using v r by (simp add: set_sequenced_after)
  qed
  then have "filter (\<lambda>r. seq_of r \<le> ?h) ?ys = ?xs"
    using strict_same_set [OF sorted_wrt_filter [OF st(2)] st(1)] by blast
  then show ?thesis using strict_split [OF st(2), of ?h] by metis
qed

subsection \<open>Draining while the stream grows\<close>

text \<open>The reads of one drain: between any two of them, and before the first, the dispatcher may take any number of steps;
  each read sees the rows of the current state or fails.\<close>

inductive observes :: "dispatch_db \<Rightarrow> event_row list option list \<Rightarrow> dispatch_db \<Rightarrow> bool" where
  finish: "observes d [] d"
| progress: "dispatch_step d d1 \<Longrightarrow> observes d1 reads d' \<Longrightarrow> observes d reads d'"
| read_rows: "observes d reads d' \<Longrightarrow> observes d (Some (dd_rows d) # reads) d'"
| read_fails: "observes d reads d' \<Longrightarrow> observes d (None # reads) d'"

lemma step_extends_after:
  assumes "dispatch_step d d'" "dispatch_inv d"
  shows "\<exists>ns. sequenced_after c (dd_rows d') = sequenced_after c (dd_rows d) @ ns"
proof -
  obtain ns where "sequenced_after 0 (dd_rows d') = sequenced_after 0 (dd_rows d) @ ns" using step_extends_stream [OF assms] by blast
  then show ?thesis using sequenced_after_later [of 0 c] by simp
qed

lemma observes_extends:
  "observes d reads d' \<Longrightarrow> dispatch_inv d \<Longrightarrow> dispatch_inv d' \<and> (\<exists>ns. sequenced_after c (dd_rows d') = sequenced_after c (dd_rows d) @ ns)"
proof (induction rule: observes.induct)
  case (progress d d1 reads d')
  obtain ns where "sequenced_after c (dd_rows d1) = sequenced_after c (dd_rows d) @ ns" using step_extends_after [OF progress(1,4)] by blast
  then show ?case using progress.IH dispatch_step_inv [OF progress(1,4)] by auto
qed auto

lemma drain_loop_observes:
  assumes "observes d reads d'" "dispatch_inv d" "0 < n"
  shows "case drain_loop n reads h of
      None \<Rightarrow> length reads \<le> length (sequenced_after (hb_cursor h) (dd_rows d')) div n
    | Some (finished, h') \<Rightarrow> \<exists>es rest. sequenced_after (hb_cursor h) (dd_rows d') = es @ rest \<and>
        (if finished then \<exists>more. es = sequenced_after (hb_cursor h) (dd_rows d) @ more else None \<in> set reads) \<and>
        h' = (if finished then publish_invalidation else id) (fold hub_event es h)"
  using assms
proof (induction arbitrary: h rule: observes.induct)
  case (progress d d1 reads d')
  have "dispatch_inv d1" by (rule dispatch_step_inv [OF progress(1,4)])
  note ih = progress.IH [OF this progress.prems(2), of h]
  obtain ns where "sequenced_after (hb_cursor h) (dd_rows d1) = sequenced_after (hb_cursor h) (dd_rows d) @ ns"
    using step_extends_after [OF progress(1,4)] by blast
  then have later: "\<exists>more'. sequenced_after (hb_cursor h) (dd_rows d1) @ more = sequenced_after (hb_cursor h) (dd_rows d) @ more'" for more
    by simp
  show ?case
  proof (cases "drain_loop n reads h")
    case None
    then show ?thesis using ih by simp
  next
    case (Some r)
    obtain finished h' where r: "r = (finished, h')" by fastforce
    from ih Some r obtain es rest where e: "sequenced_after (hb_cursor h) (dd_rows d') = es @ rest"
      "h' = (if finished then publish_invalidation else id) (fold hub_event es h)"
      "if finished then \<exists>more. es = sequenced_after (hb_cursor h) (dd_rows d1) @ more else None \<in> set reads"
      by auto
    have "if finished then \<exists>more. es = sequenced_after (hb_cursor h) (dd_rows d) @ more else None \<in> set reads"
      using e(3) later by (cases finished) auto
    with e(1,2) show ?thesis unfolding Some r option.case prod.case by blast
  qed
next
  case (read_rows d reads d')
  let ?xs = "sequenced_after (hb_cursor h) (dd_rows d)" and ?ys = "sequenced_after (hb_cursor h) (dd_rows d')"
  let ?h = "fold hub_event (take n ?xs) h"
  obtain ns where inv': "dispatch_inv d'" and ys: "?ys = ?xs @ ns" using observes_extends [OF read_rows(1,3)] by blast
  show ?case
  proof (cases "length ?xs < n")
    case True
    then show ?thesis using ys by (fastforce simp: Let_def)
  next
    case False
    then have ne: "take n ?xs \<noteq> []" and tk: "take n ?ys = take n ?xs" using read_rows.prems(2) ys by auto
    have c: "hb_cursor ?h = seq_of (last (take n ?xs))" unfolding hub_fold using ne by simp
    have x: "sequenced_after (hb_cursor ?h) (dd_rows d) = drop n ?xs"
      using sequenced_after_drop [OF dispatch_outbox_ok [OF read_rows.prems(1)] read_rows.prems(2)] False c by simp
    have y: "sequenced_after (hb_cursor ?h) (dd_rows d') = drop n ?ys"
      using sequenced_after_drop [OF dispatch_outbox_ok [OF inv'] read_rows.prems(2), of "hb_cursor h"] False c tk ys by simp
    have step: "drain_loop n (Some (dd_rows d) # reads) h = drain_loop n reads ?h" using False by (simp add: Let_def)
    note ih = read_rows.IH [OF read_rows.prems, of ?h, unfolded x y]
    show ?thesis
    proof (cases "drain_loop n reads ?h")
      case None
      then have "length reads \<le> (length ?ys - n) div n" using ih by simp
      then show ?thesis using None step False ys read_rows.prems(2) by (simp add: le_div_geq)
    next
      case (Some r)
      obtain finished h' where r: "r = (finished, h')" by fastforce
      from ih Some r obtain es rest where e: "drop n ?ys = es @ rest" "h' = (if finished then publish_invalidation else id) (fold hub_event es ?h)"
        "if finished then \<exists>more. es = drop n ?xs @ more else None \<in> set reads"
        by auto
      have "?ys = (take n ?xs @ es) @ rest" using e(1) tk by (metis append.assoc append_take_drop_id)
      moreover have "if finished then \<exists>more. take n ?xs @ es = ?xs @ more else None \<in> set (Some (dd_rows d) # reads)"
        using e(3) by (cases finished) (auto simp: append_assoc [symmetric] simp del: append_assoc)
      moreover have "h' = (if finished then publish_invalidation else id) (fold hub_event (take n ?xs @ es) h)" using e(2) by simp
      ultimately show ?thesis unfolding step Some r option.case prod.case by blast
    qed
  qed
qed (simp_all add: exI [of _ "[]"])

subsection \<open>Examples\<close>

definition ex_event :: "uuid \<Rightarrow> outbox_event" where
  "ex_event g = \<lparr>e_event_type = ''order_created'', e_aggregate_type = ''order'', e_aggregate_id = 31, e_participant_org_ids = [g],
     e_public_market_invalidation = True\<rparr>"

definition ex_dispatch :: dispatch_db where
  "ex_dispatch = \<lparr>dd_rows = [enqueued_row 7 100 (ex_event 41), enqueued_row 8 100 (ex_event 42)], dd_next_seq = 1, dd_leader = Some 0, dd_inflight = None\<rparr>"

definition ex_numbered :: dispatch_db where
  "ex_numbered = \<lparr>dd_rows = assign_sequences 101 [(7, 1), (8, 2)] (dd_rows ex_dispatch), dd_next_seq = 3, dd_leader = Some 0, dd_inflight = None\<rparr>"

lemma ex_numbered_reachable: "dispatch_reachable ex_numbered"
proof -
  let ?d0 = "\<lparr>dd_rows = [], dd_next_seq = 1, dd_leader = None, dd_inflight = None\<rparr>"
  let ?d1 = "?d0\<lparr>dd_rows := [] @ map2 (\<lambda>k ev. enqueued_row k 100 ev) [7, 8] [ex_event 41, ex_event 42]\<rparr>"
  have "dispatch_step ?d0 ?d1" using dispatch_step.produce [of "[7, 8]" ?d0 "[ex_event 41, ex_event 42]" 100] by simp
  then have r1: "dispatch_reachable ?d1" by (rule dispatch_reachable.step [OF dispatch_reachable.start])
  have "dispatch_step ?d1 ex_dispatch"
    by (rule dispatch_step.acquire [of 0 _ True]) (simp add: try_acquire_leadership_def ex_dispatch_def)
  then have r2: "dispatch_reachable ex_dispatch" by (rule dispatch_reachable.step [OF r1])
  let ?d3 = "ex_dispatch\<lparr>dd_inflight := Some (zip [7, 8] [dd_next_seq ex_dispatch..<dd_next_seq ex_dispatch + length [7, 8 :: uuid]]),
     dd_next_seq := dd_next_seq ex_dispatch + length [7, 8 :: uuid]\<rparr>"
  have "dispatch_step ex_dispatch ?d3"
    by (rule dispatch_step.begin_assignment [of _ 0 _ BATCH_SIZE "{}"])
      (simp_all add: ex_dispatch_def pending_batch_def enqueued_row_def BATCH_SIZE_def)
  then have r3: "dispatch_reachable ?d3" by (rule dispatch_reachable.step [OF r2])
  have up: "[Suc 0..<3] = [Suc 0, 2]" by (simp add: upt_rec)
  have "dispatch_step ?d3 (?d3\<lparr>dd_rows := assign_sequences 101 [(7, 1), (8, 2)] (dd_rows ?d3), dd_inflight := None\<rparr>)"
    by (rule dispatch_step.commit_assignment [of _ 0]) (simp_all add: ex_dispatch_def up)
  moreover have "?d3\<lparr>dd_rows := assign_sequences 101 [(7, 1), (8, 2)] (dd_rows ?d3), dd_inflight := None\<rparr> = ex_numbered"
    by (simp add: ex_numbered_def ex_dispatch_def)
  ultimately show ?thesis using dispatch_reachable.step [OF r3] by metis
qed

lemma ex_numbered_stream: "map seq_of (sequenced_after 0 (dd_rows ex_numbered)) = [1, 2]"
  by (simp add: sequenced_after_def ex_numbered_def ex_dispatch_def assign_sequences_def enqueued_row_def seq_of_def)

subsection \<open>Properties\<close>

text \<open>C36: the event stream is append-only. Whatever transactions commit, whichever workers take and lose the lead, and wherever an
  assignment is interrupted, the numbered events of an earlier state are an initial segment of those of every later state: a
  reader that has seen everything up to its cursor never misses an event that appears later.\<close>

theorem stream_is_append_only:
  assumes "dispatch_reachable d" "dispatch_step\<^sup>*\<^sup>* d d'"
  shows "\<exists>ns. sequenced_after 0 (dd_rows d') = sequenced_after 0 (dd_rows d) @ ns"
proof -
  have "dispatch_inv q \<and> (\<exists>ns. sequenced_after 0 (dd_rows q) = sequenced_after 0 (dd_rows d) @ ns)" if "dispatch_step\<^sup>*\<^sup>* d q" for q
    using that
  proof (induction rule: rtranclp_induct)
    case base
    then show ?case using dispatch_reachable_inv [OF assms(1)] by simp
  next
    case (step p q)
    then obtain ns ms where "sequenced_after 0 (dd_rows p) = sequenced_after 0 (dd_rows d) @ ns" "sequenced_after 0 (dd_rows q) = sequenced_after 0 (dd_rows p) @ ms"
      using step_extends_stream by blast
    then show ?case using step dispatch_step_inv by auto
  qed
  from this [OF assms(2)] show ?thesis by blast
qed

theorem stream_is_append_only_witness:
  "\<exists>ns. sequenced_after 0 (dd_rows ex_numbered @ [enqueued_row 9 102 (ex_event 43)]) = sequenced_after 0 (dd_rows ex_numbered) @ ns"
proof -
  let ?d = "ex_numbered\<lparr>dd_rows := dd_rows ex_numbered @ map2 (\<lambda>k ev. enqueued_row k 102 ev) [9] [ex_event 43]\<rparr>"
  have "dispatch_step ex_numbered ?d"
    by (rule dispatch_step.produce)
      (simp_all add: ex_numbered_def ex_dispatch_def assign_sequences_def enqueued_row_def)
  then have "dispatch_step\<^sup>*\<^sup>* ex_numbered ?d" by blast
  from stream_is_append_only [OF ex_numbered_reachable this] show ?thesis by simp
qed

text \<open>C37: the drain loop publishes the stream. While a drain reads in batches of any positive size, the dispatcher may go on
  numbering events and any read may fail. The drain publishes, exactly once and in the order of the stream, the events between its
  old cursor and its new one. If it finishes, these include every event that was numbered when it began, and one public
  invalidation follows if one of them asks for it. It ends early only when a read has failed, and then no invalidation
  follows. It has ended as soon as the number of its reads exceeds the number of full batches behind the old cursor.\<close>

theorem drain_publishes_stream:
  assumes "dispatch_reachable d" "observes d reads d'" "0 < n"
  shows "case drain_new_events n reads h of
      None \<Rightarrow> length reads \<le> length (sequenced_after (hb_cursor h) (dd_rows d')) div n
    | Some (finished, h') \<Rightarrow> \<exists>es rest. sequenced_after (hb_cursor h) (dd_rows d') = es @ rest \<and>
        (if finished then \<exists>more. es = sequenced_after (hb_cursor h) (dd_rows d) @ more else None \<in> set reads) \<and>
        h' = (if finished then publish_invalidation else id)
          \<lparr>hb_cursor = (if es = [] then hb_cursor h else seq_of (last es)), hb_bus = fold fan_out es (hb_bus h),
           hb_invalidated = (\<exists>r\<in>set es. e_public_market_invalidation (er_event r))\<rparr>"
proof -
  have c: "hb_cursor (h\<lparr>hb_invalidated := False\<rparr>) = hb_cursor h" by simp
  have f: "fold hub_event es (h\<lparr>hb_invalidated := False\<rparr>) =
      \<lparr>hb_cursor = (if es = [] then hb_cursor h else seq_of (last es)), hb_bus = fold fan_out es (hb_bus h),
       hb_invalidated = (\<exists>r\<in>set es. e_public_market_invalidation (er_event r))\<rparr>" for es
    unfolding hub_fold by (cases h) auto
  show ?thesis
    unfolding drain_new_events_def
    by (rule drain_loop_observes [OF assms(2) dispatch_reachable_inv [OF assms(1)] assms(3), of "h\<lparr>hb_invalidated := False\<rparr>", unfolded c f])
qed

text \<open>Two batches of one event each are read and the third read fails: both events are out, their invalidation is not.\<close>

theorem drain_publishes_stream_witness:
  "\<exists>h. drain_new_events 1 [Some (dd_rows ex_numbered), Some (dd_rows ex_numbered), None]
      \<lparr>hb_cursor = 0, hb_bus = [], hb_invalidated = False\<rparr> = Some (False, h) \<and>
    (\<exists>es rest. sequenced_after 0 (dd_rows ex_numbered) = es @ rest \<and> hb_bus h = fold fan_out es [])"
proof -
  let ?h = "\<lparr>hb_cursor = 0, hb_bus = [], hb_invalidated = False\<rparr>" and ?r = "Some (dd_rows ex_numbered)"
  have o: "observes ex_numbered [?r, ?r, None] ex_numbered" by (intro observes.read_rows observes.read_fails observes.finish)
  obtain a b where ab: "sequenced_after 0 (dd_rows ex_numbered) = [a, b]" "seq_of a = 1" "seq_of b = 2"
    using ex_numbered_stream unfolding map_eq_Cons_conv by blast
  have "sequenced_after (seq_of a) (dd_rows ex_numbered) = [b]"
    using sequenced_after_drop [OF dispatch_outbox_ok [OF dispatch_reachable_inv [OF ex_numbered_reachable]], of 1 0] ab by simp
  then have "\<exists>h. drain_new_events 1 [?r, ?r, None] ?h = Some (False, h)" using ab(1) by (simp add: drain_new_events_def hub_event_def Let_def)
  then show ?thesis using drain_publishes_stream [OF ex_numbered_reachable o, of 1 ?h] by fastforce
qed

end
