(* ===== verification/Event_Stream.thy ===== *)
theory Event_Stream
  imports Event_Dispatch Order_Terms
begin

section \<open>Streaming events to clients\<close>

text \<open>
  \<^verbatim>\<open>src/app/routers/stream.py\<close> with the account checks of \<^verbatim>\<open>routers/auth_simple.py\<close> it calls: admission to the private stream, the
  generator that replays missed events from the outbox and then follows the bus, and the whole pipeline from commit to
  client as one step relation. Decoding a signed token and parsing numbers and identifiers are parameters; a client is a
  list of the frames it was sent.
\<close>

subsection \<open>Admission\<close>

record token_claims =
  tk_type :: "string option"
  tk_environment :: "string option"
  tk_sub :: string
  tk_org_id :: string
  tk_exp :: time
  tk_iat_us :: "int option"
  tk_iat :: "time option"

text \<open>The columns of an account that only authentication reads.\<close>

record account_state =
  ac_password_changed_at :: "time option"
  ac_authentication_revoked_at :: "time option"

definition token_issued_at :: "token_claims \<Rightarrow> time option" where
  "token_issued_at c = (case tk_iat_us c of Some n \<Rightarrow> if 0 \<le> n then Some n else tk_iat c | None \<Rightarrow> tk_iat c)"

definition token_is_cut_off :: "token_claims \<Rightarrow> time \<Rightarrow> bool" where
  "token_is_cut_off c cutoff = (case token_issued_at c of None \<Rightarrow> True | Some t \<Rightarrow> t \<le> cutoff)"

definition PASSWORD_CHANGE_ALLOWED_PATHS :: "string list" where
  "PASSWORD_CHANGE_ALLOWED_PATHS = [''/api/auth/me'', ''/api/auth/me/password'']"

definition validate_authenticated_user_state :: "account_state \<Rightarrow> user \<Rightarrow> token_claims \<Rightarrow> string \<Rightarrow> unit result" where
  "validate_authenticated_user_state ac u c path =
     bindR (refuse (case ac_password_changed_at ac of None \<Rightarrow> False | Some t \<Rightarrow> token_is_cut_off c t)
              (HTTPException 401 ''AUTH_PASSWORD_CHANGED: Password was changed; sign in again'')) (\<lambda>_.
     bindR (refuse (case ac_authentication_revoked_at ac of None \<Rightarrow> False | Some t \<Rightarrow> token_is_cut_off c t)
              (HTTPException 401 ''AUTH_SESSION_REVOKED: Session was revoked; sign in again'')) (\<lambda>_.
     bindR (refuse (u_status u \<noteq> APPROVED) (HTTPException 403 ''Account is not approved. Please wait for admin approval.'')) (\<lambda>_.
     refuse (u_must_change_password u \<and> path \<notin> set PASSWORD_CHANGE_ALLOWED_PATHS) (HTTPException 403 ''Password change required.''))))"

definition validate_private_stream_authorization ::
  "market_db \<Rightarrow> (uuid \<Rightarrow> account_state) \<Rightarrow> uuid \<Rightarrow> uuid \<Rightarrow> token_claims \<Rightarrow> unit result" where
  "validate_private_stream_authorization s acs u g c =
     (case user_of u s of None \<Rightarrow> Inl (ValueError ''stream organization changed'')
      | Some x \<Rightarrow>
          bindR (refuse (u_organization_id x \<noteq> Some g) (ValueError ''stream organization changed'')) (\<lambda>_.
          bindR (validate_authenticated_user_state (acs u) x c ''/api/stream/trades'') (\<lambda>_.
          refuse (map_option g_verification_status (organization_of g s) \<noteq> Some ''APPROVED'') (ValueError ''organization is no longer approved''))))"

text \<open>\<open>int\<close> of Python is the parameter \<open>py_int\<close>.\<close>

definition parse_last_event_id :: "(string \<Rightarrow> int option) \<Rightarrow> string option \<Rightarrow> string option \<Rightarrow> nat option result" where
  "parse_last_event_id py_int header query =
     (case (case header of Some (x # xs) \<Rightarrow> Some (x # xs) | _ \<Rightarrow> query) of None \<Rightarrow> Inr None
      | Some raw \<Rightarrow>
          (case py_int raw of
             Some n \<Rightarrow> if n < 0 then Inl (HTTPException 400 ''STREAM_CURSOR_INVALID: Last-Event-ID must be a non-negative integer'') else Inr (Some (nat n))
           | None \<Rightarrow> Inl (HTTPException 400 ''STREAM_CURSOR_INVALID: Last-Event-ID must be a non-negative integer'')))"

definition stream_trades ::
  "(string \<Rightarrow> int option) \<Rightarrow> (string \<Rightarrow> token_claims option) \<Rightarrow> (string \<Rightarrow> uuid option) \<Rightarrow> string \<Rightarrow> market_db \<Rightarrow> (uuid \<Rightarrow> account_state)
     \<Rightarrow> string option \<Rightarrow> string option \<Rightarrow> string option \<Rightarrow> string option \<Rightarrow> (uuid \<times> uuid \<times> token_claims \<times> nat option) result" where
  "stream_trades py_int decode parse environment s acs last_event_header authorization stream_token last_event_id =
     bindR (parse_last_event_id py_int last_event_header last_event_id) (\<lambda>replay_after.
     bindR (refuse (or_empty authorization \<noteq> [])
              (HTTPException 400 ''STREAM_AUTH_CONFLICT: Authorization headers are not accepted by SSE; use only stream_token'')) (\<lambda>_.
     bindR (refuse (or_empty stream_token = []) (HTTPException 401 ''STREAM_TOKEN_REQUIRED: A stream token is required'')) (\<lambda>_.
     let invalid = Inl (HTTPException 401 ''STREAM_TOKEN_INVALID: Stream token is invalid or expired'') in
     case decode (or_empty stream_token) of None \<Rightarrow> invalid
     | Some c \<Rightarrow>
         if tk_type c \<noteq> Some ''stream'' \<or> tk_environment c \<noteq> Some environment then invalid
         else (case (parse (tk_sub c), parse (tk_org_id c)) of
                 (Some u, Some g) \<Rightarrow>
                   (case user_of u s of None \<Rightarrow> invalid
                    | Some x \<Rightarrow>
                        (case validate_authenticated_user_state (acs u) x c ''/api/stream/trades'' of Inl _ \<Rightarrow> invalid
                         | Inr _ \<Rightarrow>
                             if u_organization_id x \<noteq> Some g \<or> map_option g_verification_status (organization_of g s) \<noteq> Some ''APPROVED'' then invalid
                             else Inr (u, g, c, replay_after)))
               | _ \<Rightarrow> invalid))))"

text \<open>Who is admitted is a member of the approved organization whose channel it will follow.\<close>

lemma valid_account:
  "validate_authenticated_user_state ac x c ''/api/stream/trades'' = Inr r \<Longrightarrow> u_status x = APPROVED \<and> \<not> u_must_change_password x"
  by (simp add: validate_authenticated_user_state_def PASSWORD_CHANGE_ALLOWED_PATHS_def)

lemma stream_admission_sound:
  assumes "stream_trades py_int decode parse environment s acs hdr authorization tok since = Inr (u, g, c, n)"
  shows "\<exists>x. user_of u s = Some x \<and> u_organization_id x = Some g \<and> u_status x = APPROVED \<and> \<not> u_must_change_password x"
    "map_option g_verification_status (organization_of g s) = Some ''APPROVED''" "tk_type c = Some ''stream''"
    "parse (tk_sub c) = Some u \<and> parse (tk_org_id c) = Some g"
proof -
  note a = assms [unfolded stream_trades_def Let_def]
  from a obtain c' where dec: "decode (or_empty tok) = Some c'" by (cases "decode (or_empty tok)") auto
  note a1 = a [unfolded dec option.case]
  have ty: "tk_type c' = Some ''stream'' \<and> tk_environment c' = Some environment" using a1 by (auto split: if_splits)
  then have f: "(tk_type c' \<noteq> Some ''stream'' \<or> tk_environment c' \<noteq> Some environment) = False" by simp
  note a2 = a1 [unfolded f if_False]
  obtain u' where u: "parse (tk_sub c') = Some u'" using a2 by (cases "parse (tk_sub c')") auto
  obtain g' where g: "parse (tk_org_id c') = Some g'" using a2 u by (cases "parse (tk_org_id c')") auto
  note a3 = a2 [unfolded u g prod.case option.case]
  obtain x where x: "user_of u' s = Some x" using a3 by (cases "user_of u' s") auto
  note a4 = a3 [unfolded x option.case]
  obtain r where v: "validate_authenticated_user_state (acs u') x c' ''/api/stream/trades'' = Inr r"
    using a4 by (cases "validate_authenticated_user_state (acs u') x c' ''/api/stream/trades''") auto
  note a5 = a4 [unfolded v sum.case]
  have e: "u_organization_id x = Some g'" "map_option g_verification_status (organization_of g' s) = Some ''APPROVED''" "u = u'" "g = g'" "c = c'"
    using a5 by (auto split: if_splits)
  show "\<exists>x. user_of u s = Some x \<and> u_organization_id x = Some g \<and> u_status x = APPROVED \<and> \<not> u_must_change_password x"
    "map_option g_verification_status (organization_of g s) = Some ''APPROVED''" "tk_type c = Some ''stream''"
    "parse (tk_sub c) = Some u \<and> parse (tk_org_id c) = Some g"
    using valid_account [OF v] x e ty u g by auto
qed

subsection \<open>The generator\<close>

datatype frame = OriginFrame | EventFrame message | KeepaliveFrame | AuthExpired | AuthRevoked | AuthUnavailable | ReplayUnavailable | TooManyConnections

definition STREAM_REVALIDATION :: time where
  "STREAM_REVALIDATION = 15 * 1000000"

text \<open>Reading the clock, then revalidating when it is due: the frame that ends the stream, if any, and the time of the next check.\<close>

definition control_frame :: "time \<Rightarrow> time \<Rightarrow> time \<Rightarrow> unit result \<Rightarrow> frame option \<times> time" where
  "control_frame now expires next validation =
     (if expires \<le> now then (Some AuthExpired, next)
      else if now < next then (None, next)
      else case validation of Inr _ \<Rightarrow> (None, now + STREAM_REVALIDATION)
           | Inl (DBAPIError _) \<Rightarrow> (Some AuthUnavailable, next)
           | Inl _ \<Rightarrow> (Some AuthRevoked, next))"

datatype phase = Starting | Replay nat | ReplayBatch nat "event_row list" | Live "message list" | Ended

record session =
  sn_queue_id :: uuid
  sn_org :: uuid
  sn_last :: "nat option"
  sn_cursor :: int
  sn_phase :: phase
  sn_sent :: "frame list"

definition start_cursor :: "nat option \<Rightarrow> int" where
  "start_cursor since = (case since of None \<Rightarrow> -1 | Some n \<Rightarrow> int n)"

definition open_session :: "uuid \<Rightarrow> uuid \<Rightarrow> nat option \<Rightarrow> SubscriberQueue list \<Rightarrow> SubscriberQueue list \<times> session" where
  "open_session k g since bus =
     (case subscribe k (stream_channel_for_org g) bus of
        None \<Rightarrow> (bus, \<lparr>sn_queue_id = k, sn_org = g, sn_last = since, sn_cursor = start_cursor since, sn_phase = Ended, sn_sent = [TooManyConnections]\<rparr>)
      | Some bus' \<Rightarrow> (bus', \<lparr>sn_queue_id = k, sn_org = g, sn_last = since, sn_cursor = start_cursor since, sn_phase = Starting, sn_sent = [OriginFrame]\<rparr>))"

definition send :: "frame \<Rightarrow> session \<Rightarrow> session" where
  "send f sn = sn\<lparr>sn_sent := sn_sent sn @ [f]\<rparr>"

definition stop :: "frame \<Rightarrow> session \<Rightarrow> session" where
  "stop f sn = (send f sn)\<lparr>sn_phase := Ended\<rparr>"

definition queued_messages :: "message list \<Rightarrow> message list" where
  "queued_messages ms = sort_key (\<lambda>m. (m_seq m = None, case m_seq m of None \<Rightarrow> 0 | Some n \<Rightarrow> n)) ms"

definition go_live :: "SubscriberQueue \<Rightarrow> session \<Rightarrow> SubscriberQueue \<times> session" where
  "go_live q sn = (q\<lparr>qu_messages := []\<rparr>, sn\<lparr>sn_phase := Live (queued_messages (qu_messages q))\<rparr>)"

definition deliver :: "message \<Rightarrow> message list \<Rightarrow> session \<Rightarrow> session" where
  "deliver m rest sn =
     (case m_seq m of
        Some n \<Rightarrow> if int n \<le> sn_cursor sn then sn\<lparr>sn_phase := Live rest\<rparr>
                  else (send (EventFrame m) sn)\<lparr>sn_cursor := int n, sn_phase := (if m_terminal m then Ended else Live rest)\<rparr>
      | None \<Rightarrow> (send (EventFrame m) sn)\<lparr>sn_phase := (if m_terminal m then Ended else Live rest)\<rparr>)"

text \<open>What the environment does to one step: the control frame that is due, a database error, a disconnected client, and an overflow of the
  queue that happens after the step looked for it.\<close>

record sse_input =
  si_control :: "frame option"
  si_db_error :: bool
  si_disconnected :: bool
  si_late_overflow :: bool

definition overflow_frame :: "sse_input \<Rightarrow> SubscriberQueue \<Rightarrow> frame option" where
  "overflow_frame inp q = (if si_late_overflow inp then None else map_option EventFrame (qu_terminal q))"

text \<open>One step of the generator: up to the next read of the database, the next event of a batch, or the next message.\<close>

definition sse_step :: "sse_input \<Rightarrow> event_row list \<Rightarrow> SubscriberQueue \<Rightarrow> session \<Rightarrow> SubscriberQueue \<times> session" where
  "sse_step inp rows q sn =
     (case sn_phase sn of
        Starting \<Rightarrow>
          if sn_last sn = None then go_live q sn
          else if si_db_error inp then (q, stop ReplayUnavailable sn)
          else (q, sn\<lparr>sn_phase := Replay (high_water rows)\<rparr>)
      | Replay hw \<Rightarrow>
          if int hw \<le> sn_cursor sn then go_live q sn
          else (case overflow_frame inp q of Some f \<Rightarrow> (q, stop f sn)
           | None \<Rightarrow>
          (case si_control inp of Some f \<Rightarrow> (q, stop f sn)
           | None \<Rightarrow>
               if si_db_error inp then (q, stop ReplayUnavailable sn)
               else let missed = fetch_events_for_org (sn_org sn) (nat (sn_cursor sn)) (Some hw) BATCH_SIZE rows in
                 if missed = [] then go_live q sn else (q, sn\<lparr>sn_phase := ReplayBatch hw missed\<rparr>)))
      | ReplayBatch hw [] \<Rightarrow> (q, sn\<lparr>sn_phase := Replay hw\<rparr>)
      | ReplayBatch hw (r # rs) \<Rightarrow>
          (case overflow_frame inp q of Some f \<Rightarrow> (q, stop f sn)
           | None \<Rightarrow>
          (case si_control inp of Some f \<Rightarrow> (q, stop f sn)
           | None \<Rightarrow> (q, (send (EventFrame (event_message r)) sn)\<lparr>sn_cursor := int (seq_of r), sn_phase := ReplayBatch hw rs\<rparr>)))
      | Live ms \<Rightarrow>
          (case si_control inp of Some f \<Rightarrow> (q, stop f sn)
           | None \<Rightarrow>
               if si_disconnected inp then (q, sn\<lparr>sn_phase := Ended\<rparr>)
               else (case ms of m # rest \<Rightarrow> (q, deliver m rest sn)
                     | [] \<Rightarrow> (case qu_messages q of [] \<Rightarrow> (q, send KeepaliveFrame sn)
                              | m # rest \<Rightarrow> (q\<lparr>qu_messages := rest\<rparr>, deliver m [] sn))))
      | Ended \<Rightarrow> (q, sn))"

text \<open>The generator of the public streams: it ends when the client is gone or after a terminal message.\<close>

definition sse_generator_step :: "bool \<Rightarrow> SubscriberQueue \<Rightarrow> frame list \<Rightarrow> SubscriberQueue \<times> frame list \<times> bool" where
  "sse_generator_step disconnected q sent =
     (if disconnected then (q, sent, True)
      else case qu_messages q of [] \<Rightarrow> (q, sent @ [KeepaliveFrame], False)
           | m # rest \<Rightarrow> (q\<lparr>qu_messages := rest\<rparr>, sent @ [EventFrame m], m_terminal m))"

subsection \<open>The pipeline\<close>

record stream_sys =
  ss_db :: dispatch_db
  ss_hub :: hub
  ss_sessions :: "session list"

definition participants_ok :: "event_row list \<Rightarrow> bool" where
  "participants_ok rows \<longleftrightarrow> list_all (\<lambda>r. distinct (e_participant_org_ids (er_event r)) \<and> list_all uuid_range (e_participant_org_ids (er_event r))) rows"

text \<open>One worker among any number: its hub and its sessions, and the shared database, which all workers change.\<close>

inductive stream_step :: "stream_sys \<Rightarrow> stream_sys \<Rightarrow> bool" where
  database: "dispatch_step (ss_db y) d \<Longrightarrow> participants_ok (dd_rows d) \<Longrightarrow> stream_step y (y\<lparr>ss_db := d\<rparr>)"
| hub: "sequenced_after (hb_cursor (ss_hub y)) (dd_rows (ss_db y)) = r # rest \<Longrightarrow> stream_step y (y\<lparr>ss_hub := hub_event r (ss_hub y)\<rparr>)"
| local_message: "m_seq m = None \<Longrightarrow> stream_step y (y\<lparr>ss_hub := (ss_hub y)\<lparr>hb_bus := publish channel m (hb_bus (ss_hub y))\<rparr>\<rparr>)"
| invalidation: "stream_step y (y\<lparr>ss_hub := publish_invalidation (ss_hub y)\<rparr>)"
| connect: "k \<notin> qu_id ` set (hb_bus (ss_hub y)) \<Longrightarrow> k \<notin> sn_queue_id ` set (ss_sessions y) \<Longrightarrow> uuid_range g \<Longrightarrow>
    open_session k g since (hb_bus (ss_hub y)) = (bus, sn) \<Longrightarrow>
    stream_step y (y\<lparr>ss_hub := (ss_hub y)\<lparr>hb_bus := bus\<rparr>, ss_sessions := ss_sessions y @ [sn]\<rparr>)"
| run: "sn \<in> set (ss_sessions y) \<Longrightarrow> row_by qu_id (sn_queue_id sn) (hb_bus (ss_hub y)) = Some q \<Longrightarrow>
    si_control inp = fst (control_frame now expires next validation) \<Longrightarrow> sse_step inp (dd_rows (ss_db y)) q sn = (q', sn') \<Longrightarrow>
    stream_step y (y\<lparr>ss_hub := (ss_hub y)\<lparr>hb_bus := put_row qu_id q' (hb_bus (ss_hub y))\<rparr>,
                     ss_sessions := put_row sn_queue_id sn' (ss_sessions y)\<rparr>)"
| leave: "sn \<in> set (ss_sessions y) \<Longrightarrow>
    stream_step y (y\<lparr>ss_hub := (ss_hub y)\<lparr>hb_bus := unsubscribe (sn_queue_id sn) (hb_bus (ss_hub y))\<rparr>,
                     ss_sessions := put_row sn_queue_id (sn\<lparr>sn_phase := Ended\<rparr>) (ss_sessions y)\<rparr>)"

inductive stream_reachable :: "stream_sys \<Rightarrow> bool" where
  start: "dispatch_reachable d \<Longrightarrow> participants_ok (dd_rows d) \<Longrightarrow>
    stream_reachable \<lparr>ss_db = d, ss_hub = \<lparr>hb_cursor = high_water (dd_rows d), hb_bus = [], hb_invalidated = False\<rparr>, ss_sessions = []\<rparr>"
| step: "stream_reachable y \<Longrightarrow> stream_step y y' \<Longrightarrow> stream_reachable y'"

subsection \<open>What a session has been sent and what it is owed\<close>

definition mseq :: "message \<Rightarrow> nat" where
  "mseq m = (case m_seq m of None \<Rightarrow> 0 | Some n \<Rightarrow> n)"

definition numbered :: "message list \<Rightarrow> message list" where
  "numbered ms = filter (\<lambda>m. m_seq m \<noteq> None) ms"

definition sent_messages :: "session \<Rightarrow> message list" where
  "sent_messages sn = numbered (List.map_filter (\<lambda>f. case f of EventFrame m \<Rightarrow> Some m | _ \<Rightarrow> None) (sn_sent sn))"

definition for_org :: "uuid \<Rightarrow> event_row list \<Rightarrow> event_row set" where
  "for_org g rows = {r \<in> set rows. er_stream_seq r \<noteq> None \<and> g \<in> set (e_participant_org_ids (er_event r))}"

definition low :: "nat \<Rightarrow> session \<Rightarrow> nat" where
  "low h sn = (case sn_last sn of None \<Rightarrow> h | Some l \<Rightarrow> l)"

text \<open>\<open>h\<close> is the hub's cursor when the session subscribed. Everything for the organization between the lower end and the
  session's cursor has been sent, in order, and nothing else.\<close>

definition core_ok :: "event_row list \<Rightarrow> nat \<Rightarrow> session \<Rightarrow> bool" where
  "core_ok rows h sn \<longleftrightarrow> sorted_wrt (\<lambda>a b. mseq a < mseq b) (sent_messages sn) \<and>
     (\<forall>m\<in>set (sent_messages sn). (\<exists>r\<in>for_org (sn_org sn) rows. m = event_message r) \<and> low h sn < mseq m \<and> int (mseq m) \<le> sn_cursor sn) \<and>
     (\<forall>r\<in>for_org (sn_org sn) rows. low h sn < seq_of r \<and> int (seq_of r) \<le> sn_cursor sn \<longrightarrow> event_message r \<in> set (sent_messages sn)) \<and>
     (sn_cursor sn = start_cursor (sn_last sn) \<or> int (low h sn) < sn_cursor sn \<and> sn_cursor sn \<le> int (high_water rows))"

text \<open>The messages that wait for the session, in its queue and taken out of it.\<close>

definition backlog :: "SubscriberQueue \<Rightarrow> session \<Rightarrow> message list" where
  "backlog q sn = (case sn_phase sn of Live ms \<Rightarrow> ms @ qu_messages q | _ \<Rightarrow> qu_messages q)"

definition is_live :: "session \<Rightarrow> bool" where
  "is_live sn = (case sn_phase sn of Live _ \<Rightarrow> True | _ \<Rightarrow> False)"

definition wanted :: "session \<Rightarrow> event_row \<Rightarrow> bool" where
  "wanted sn r \<longleftrightarrow> (is_live sn \<longrightarrow> sn_cursor sn < int (seq_of r))"

definition backlog_ok :: "event_row list \<Rightarrow> nat \<Rightarrow> nat \<Rightarrow> session \<Rightarrow> message list \<Rightarrow> bool" where
  "backlog_ok rows c h sn ms \<longleftrightarrow> sorted_wrt (\<lambda>a b. mseq a < mseq b) (numbered ms) \<and>
     (\<forall>m\<in>set (numbered ms). (\<exists>r\<in>for_org (sn_org sn) rows. m = event_message r) \<and> h < mseq m \<and> mseq m \<le> c) \<and>
     (\<forall>r\<in>for_org (sn_org sn) rows. \<forall>m\<in>set (numbered ms). h < seq_of r \<and> wanted sn r \<and> seq_of r \<le> mseq m \<longrightarrow> event_message r \<in> set ms)"

definition complete :: "event_row list \<Rightarrow> nat \<Rightarrow> nat \<Rightarrow> session \<Rightarrow> message list \<Rightarrow> bool" where
  "complete rows c h sn ms \<longleftrightarrow>
     (\<forall>r\<in>for_org (sn_org sn) rows. h < seq_of r \<and> wanted sn r \<and> seq_of r \<le> c \<longrightarrow> event_message r \<in> set ms)"

definition phase_ok :: "event_row list \<Rightarrow> nat \<Rightarrow> session \<Rightarrow> bool" where
  "phase_ok rows h sn \<longleftrightarrow>
     (case sn_phase sn of Starting \<Rightarrow> True
      | Replay hw \<Rightarrow> sn_last sn \<noteq> None \<and> h \<le> hw \<and> hw \<le> high_water rows
      | ReplayBatch hw es \<Rightarrow> sn_last sn \<noteq> None \<and> h \<le> hw \<and> hw \<le> high_water rows \<and>
          sorted_wrt (\<lambda>a b. seq_of a < seq_of b) es \<and> set es \<subseteq> for_org (sn_org sn) rows \<and> (\<forall>e\<in>set es. sn_cursor sn < int (seq_of e) \<and> seq_of e \<le> hw) \<and>
          (\<forall>r\<in>for_org (sn_org sn) rows. \<forall>e\<in>set es. sn_cursor sn < int (seq_of r) \<and> seq_of r \<le> seq_of e \<longrightarrow> r \<in> set es)
      | Live _ \<Rightarrow> \<forall>r\<in>for_org (sn_org sn) rows. low h sn < seq_of r \<and> seq_of r \<le> h \<longrightarrow> int (seq_of r) \<le> sn_cursor sn
      | Ended \<Rightarrow> True)"

definition open_ok :: "event_row list \<Rightarrow> nat \<Rightarrow> nat \<Rightarrow> SubscriberQueue \<Rightarrow> session \<Rightarrow> bool" where
  "open_ok rows c h q sn \<longleftrightarrow> qu_channel q = stream_channel_for_org (sn_org sn) \<and> h \<le> c \<and>
     (qu_terminal q = None \<longrightarrow> qu_registered q) \<and> (qu_terminal q \<noteq> None \<longrightarrow> \<not> qu_registered q \<and> numbered (qu_messages q) = [] \<and> qu_terminal q = Some reset_message) \<and>
     backlog_ok rows c h sn (backlog q sn) \<and> (qu_terminal q = None \<longrightarrow> complete rows c h sn (backlog q sn)) \<and> phase_ok rows h sn"

definition session_ok :: "event_row list \<Rightarrow> nat \<Rightarrow> SubscriberQueue list \<Rightarrow> session \<Rightarrow> bool" where
  "session_ok rows c bus sn \<longleftrightarrow> uuid_range (sn_org sn) \<and>
     (\<exists>h. core_ok rows h sn \<and> (sn_phase sn \<noteq> Ended \<longrightarrow> (\<exists>q. row_by qu_id (sn_queue_id sn) bus = Some q \<and> open_ok rows c h q sn)))"

definition stream_inv :: "stream_sys \<Rightarrow> bool" where
  "stream_inv y \<longleftrightarrow> dispatch_inv (ss_db y) \<and> participants_ok (dd_rows (ss_db y)) \<and>
     hb_cursor (ss_hub y) \<le> high_water (dd_rows (ss_db y)) \<and>
     distinct (map sn_queue_id (ss_sessions y)) \<and> distinct (map qu_id (hb_bus (ss_hub y))) \<and>
     (\<forall>sn\<in>set (ss_sessions y). session_ok (dd_rows (ss_db y)) (hb_cursor (ss_hub y)) (hb_bus (ss_hub y)) sn)"

lemma event_message_simps [simp]:
  "m_seq (event_message r) = er_stream_seq r" "mseq (event_message r) = seq_of r" "m_terminal (event_message r) = False"
  by (simp_all add: event_message_def mseq_def seq_of_def)

lemma numbered_simps [simp]:
  "numbered [] = []" "numbered (xs @ ys) = numbered xs @ numbered ys" "numbered (m # ms) = (if m_seq m = None then numbered ms else m # numbered ms)"
  "set (numbered ms) = {m \<in> set ms. m_seq m \<noteq> None}"
  by (auto simp: numbered_def)

subsection \<open>New rows\<close>

text \<open>What a step of the database does to the rows, seen from the stream.\<close>

definition extends :: "event_row list \<Rightarrow> event_row list \<Rightarrow> bool" where
  "extends rows rows' \<longleftrightarrow> (\<forall>r\<in>set rows. er_stream_seq r \<noteq> None \<longrightarrow> r \<in> set rows') \<and>
     (\<forall>r\<in>set rows'. er_stream_seq r \<noteq> None \<longrightarrow> r \<in> set rows \<or> high_water rows < seq_of r)"

lemma extends_for_org:
  assumes "extends rows rows'"
  shows "for_org g rows \<subseteq> for_org g rows'" "\<And>r. r \<in> for_org g rows' \<Longrightarrow> seq_of r \<le> high_water rows \<Longrightarrow> r \<in> for_org g rows"
    "high_water rows \<le> high_water rows'"
proof -
  show "for_org g rows \<subseteq> for_org g rows'" using assms by (auto simp: extends_def for_org_def)
  show "r \<in> for_org g rows" if "r \<in> for_org g rows'" "seq_of r \<le> high_water rows" for r
    using assms that by (auto simp: extends_def for_org_def)
  have "n \<le> high_water rows'" if "n \<in> visible_seqs rows" for n
  proof -
    have "n \<in> visible_seqs rows'" using assms that by (auto simp: extends_def visible_seqs_def)
    then show ?thesis using high_water_iff [of rows' "high_water rows'"] by simp
  qed
  then show "high_water rows \<le> high_water rows'" by (simp add: high_water_iff)
qed

lemma for_org_high_water: "r \<in> for_org g rows \<Longrightarrow> seq_of r \<le> high_water rows"
  using high_water_iff [of rows "high_water rows"] visible_seq_of [of r rows] by (auto simp: for_org_def)

lemma core_extends:
  assumes "core_ok rows h sn" "extends rows rows'"
  shows "core_ok rows' h sn"
proof -
  note e = extends_for_org [OF assms(2)]
  have cur: "sn_cursor sn = start_cursor (sn_last sn) \<or> int (low h sn) < sn_cursor sn \<and> sn_cursor sn \<le> int (high_water rows)"
    using assms(1) by (simp add: core_ok_def)
  have "event_message r \<in> set (sent_messages sn)" if r: "r \<in> for_org (sn_org sn) rows'" "low h sn < seq_of r" "int (seq_of r) \<le> sn_cursor sn" for r
  proof -
    have "\<not> sn_cursor sn = start_cursor (sn_last sn)" using r(2,3) by (auto simp: start_cursor_def low_def split: option.splits)
    then have "r \<in> for_org (sn_org sn) rows" using e(2) [OF r(1)] cur r(3) by linarith
    then show ?thesis using assms(1) r(2,3) by (simp add: core_ok_def)
  qed
  moreover have "sn_cursor sn = start_cursor (sn_last sn) \<or> int (low h sn) < sn_cursor sn \<and> sn_cursor sn \<le> int (high_water rows')" using cur e(3) by linarith
  ultimately show ?thesis using assms(1) e(1) unfolding core_ok_def by blast
qed

lemma open_extends:
  assumes "open_ok rows c h q sn" "extends rows rows'" "c \<le> high_water rows"
  shows "open_ok rows' c h q sn"
proof -
  note e = extends_for_org [OF assms(2)]
  let ?b = "backlog q sn"
  have b: "backlog_ok rows c h sn ?b" and hc: "h \<le> c" and ph: "phase_ok rows h sn" using assms(1) by (simp_all add: open_ok_def)
  have known: "r \<in> for_org g rows" if "r \<in> for_org g rows'" "seq_of r \<le> c" for r g using e(2) that assms(3) by simp
  have "backlog_ok rows' c h sn ?b"
    unfolding backlog_ok_def
  proof (intro conjI ballI impI)
    fix r m assume "r \<in> for_org (sn_org sn) rows'" "m \<in> set (numbered ?b)" "h < seq_of r \<and> wanted sn r \<and> seq_of r \<le> mseq m"
    moreover from this have "mseq m \<le> c" using b by (simp add: backlog_ok_def)
    ultimately show "event_message r \<in> set ?b" using known [of r] b unfolding backlog_ok_def by (meson le_trans)
  qed (use b e(1) [of "sn_org sn"] in \<open>unfold backlog_ok_def, blast+\<close>)
  moreover have "complete rows' c h sn ?b" if "qu_terminal q = None" using assms(1) that known by (auto simp: open_ok_def complete_def)
  moreover have "phase_ok rows' h sn"
  proof (cases "sn_phase sn")
    case (ReplayBatch hw es)
    have "r \<in> set es" if "r \<in> for_org (sn_org sn) rows'" "x \<in> set es" "sn_cursor sn < int (seq_of r)" "seq_of r \<le> seq_of x" for r x
    proof -
      have "seq_of x \<le> high_water rows" using ph that(2) ReplayBatch by (auto simp: phase_ok_def)
      then have "r \<in> for_org (sn_org sn) rows" using e(2) that(1,4) by simp
      then show ?thesis using ph that ReplayBatch by (auto simp: phase_ok_def)
    qed
    then show ?thesis using ph e(3) subset_trans [OF _ e(1)] ReplayBatch by (simp add: phase_ok_def) blast
  next
    case (Live ms)
    then show ?thesis using ph known hc by (auto simp: phase_ok_def)
  qed (use ph e(3) in \<open>auto simp: phase_ok_def\<close>)
  ultimately show ?thesis using assms(1) by (simp add: open_ok_def)
qed

subsection \<open>Publishing\<close>

lemma put_message_frame [simp]: "qu_id (put_message ch m q) = qu_id q" "qu_channel (put_message ch m q) = qu_channel q"
  by (simp_all add: put_message_def terminate_for_overflow_def)

lemma row_by_publish: "row_by qu_id k (publish ch m bus) = map_option (put_message ch m) (row_by qu_id k bus)"
  by (simp add: publish_def row_by_map)

lemma publish_ids [simp]: "map qu_id (publish ch m bus) = map qu_id bus"
  by (simp add: publish_def)

text \<open>The two things a publication does to the queue of a session: a message at the end, or the reset after an overflow.\<close>

definition pushed :: "message \<Rightarrow> SubscriberQueue \<Rightarrow> SubscriberQueue" where
  "pushed m q = q\<lparr>qu_messages := qu_messages q @ [m]\<rparr>"

definition overflowed :: "SubscriberQueue \<Rightarrow> SubscriberQueue" where
  "overflowed q = q\<lparr>qu_terminal := Some reset_message, qu_messages := [reset_message], qu_registered := False\<rparr>"

lemma put_message_cases:
  assumes "qu_terminal q \<noteq> None \<longrightarrow> \<not> qu_registered q"
  shows "put_message ch m q = q \<or> qu_registered q \<and> qu_channel q = ch \<and> put_message ch m q = pushed m q \<or>
    qu_registered q \<and> qu_channel q = ch \<and> put_message ch m q = overflowed q"
  using assms by (auto simp: put_message_def terminate_for_overflow_def pushed_def overflowed_def)

lemma backlog_pushed: "backlog (pushed m q) sn = backlog q sn @ [m]"
  by (simp add: backlog_def pushed_def split: phase.splits)

lemma backlog_overflowed:
  "backlog q sn = xs @ qu_messages q \<Longrightarrow> backlog (overflowed q) sn = xs @ [reset_message]"
  by (simp add: backlog_def overflowed_def split: phase.splits)

lemma backlog_shape: "\<exists>xs. backlog q sn = xs @ qu_messages q"
  by (cases "sn_phase sn") (auto simp: backlog_def)

lemma reset_unnumbered [simp]: "m_seq reset_message = None"
  by (simp add: reset_message_def)

lemma backlog_ok_mono: "backlog_ok rows c h sn ms \<Longrightarrow> c \<le> c' \<Longrightarrow> backlog_ok rows c' h sn ms"
  unfolding backlog_ok_def by (meson le_trans)

lemma overflowed_ok:
  assumes ok: "open_ok rows c h q sn" and c: "c \<le> c'"
  shows "open_ok rows c' h (overflowed q) sn"
proof -
  obtain xs where xs: "backlog q sn = xs @ qu_messages q" using backlog_shape by blast
  have b: "backlog_ok rows c h sn (xs @ qu_messages q)" using ok xs by (simp add: open_ok_def)
  have "event_message r \<in> set xs"
    if "r \<in> for_org (sn_org sn) rows" "m \<in> set (numbered xs)" "h < seq_of r" "wanted sn r" "seq_of r \<le> mseq m" for r m
  proof -
    have m: "m \<in> set (numbered (xs @ qu_messages q))" using that(2) by simp
    then have in_b: "event_message r \<in> set (xs @ qu_messages q)" using b that unfolding backlog_ok_def by blast
    have "event_message r \<notin> set (qu_messages q)"
    proof
      assume "event_message r \<in> set (qu_messages q)"
      then have "event_message r \<in> set (numbered (qu_messages q))" using that(1) by (auto simp: for_org_def)
      moreover have "\<forall>x\<in>set (numbered xs). \<forall>y\<in>set (numbered (qu_messages q)). mseq x < mseq y"
        using b by (simp add: backlog_ok_def sorted_wrt_append del: numbered_simps(4))
      ultimately have "mseq m < mseq (event_message r)" using that(2) by blast
      then have "mseq m < seq_of r" by simp
      then show False using that(5) by simp
    qed
    then show ?thesis using in_b by simp
  qed
  then have "backlog_ok rows c h sn (xs @ [reset_message])"
    using b unfolding backlog_ok_def by (auto simp: sorted_wrt_append simp del: numbered_simps(4))
  then have "backlog_ok rows c' h sn (backlog (overflowed q) sn)" unfolding backlog_overflowed [OF xs] using c by (rule backlog_ok_mono)
  then show ?thesis using ok c by (simp add: open_ok_def) (simp add: overflowed_def)
qed

lemma quiet_message_ok:
  assumes ok: "open_ok rows c h q sn" and m: "m_seq m = None"
  shows "open_ok rows c h (put_message ch m q) sn"
proof -
  have "qu_terminal q \<noteq> None \<longrightarrow> \<not> qu_registered q" using ok by (simp add: open_ok_def)
  then consider "put_message ch m q = q" | "qu_registered q" "put_message ch m q = pushed m q" | "put_message ch m q = overflowed q"
    using put_message_cases by blast
  then show ?thesis
  proof cases
    case 2
    have "backlog_ok rows c h sn (backlog q sn @ [m])" using ok m unfolding open_ok_def backlog_ok_def by auto
    moreover have "complete rows c h sn (backlog q sn @ [m])" if "qu_terminal q = None" using ok that by (auto simp: open_ok_def complete_def)
    ultimately show ?thesis unfolding 2(2) using ok 2(1) by (simp add: open_ok_def backlog_pushed) (simp add: pushed_def)
  qed (use ok overflowed_ok in auto)
qed

subsection \<open>An event of the hub\<close>

lemma next_event:
  assumes "outbox_ok rows" "sequenced_after c rows = r # rest"
  shows "r \<in> set rows" "er_stream_seq r \<noteq> None" "c < seq_of r"
    "\<And>x. x \<in> set rows \<Longrightarrow> er_stream_seq x \<noteq> None \<Longrightarrow> c < seq_of x \<Longrightarrow> seq_of x \<le> seq_of r \<Longrightarrow> x = r"
proof -
  have set_eq: "set (r # rest) = {x \<in> set rows. er_stream_seq x \<noteq> None \<and> c < seq_of x}" using set_sequenced_after [of c rows] assms(2) by simp
  then show "r \<in> set rows" "er_stream_seq r \<noteq> None" "c < seq_of r" by auto
  show "x = r" if "x \<in> set rows" "er_stream_seq x \<noteq> None" "c < seq_of x" "seq_of x \<le> seq_of r" for x
  proof -
    have "x \<in> set (r # rest)" using set_eq that by blast
    moreover have "\<forall>y\<in>set rest. seq_of r < seq_of y" using sequenced_after_strict [OF assms(1), of c] assms(2) by simp
    ultimately show ?thesis using that(4) by auto
  qed
qed

lemma complete_next:
  assumes "complete rows c h sn ms" "\<And>x. x \<in> for_org (sn_org sn) rows \<Longrightarrow> c < seq_of x \<Longrightarrow> seq_of x \<le> c' \<Longrightarrow> event_message x \<in> set ms'" "set ms \<subseteq> set ms'"
  shows "complete rows c' h sn ms'"
  using assms unfolding complete_def by (meson not_le subsetD)

lemma pushed_event_ok:
  assumes ok: "open_ok rows c h q sn" and nx: "outbox_ok rows" "sequenced_after c rows = r # rest" and reg: "qu_registered q"
    and g: "sn_org sn \<in> set (e_participant_org_ids (er_event r))"
  shows "open_ok rows (seq_of r) h (pushed (event_message r) q) sn"
proof -
  note n = next_event [OF nx]
  let ?b = "backlog q sn" and ?b' = "backlog q sn @ [event_message r]"
  have b: "backlog_ok rows c h sn ?b" and nt: "qu_terminal q = None" and cm: "complete rows c h sn ?b" and hc: "h \<le> c"
    using ok reg by (auto simp: open_ok_def)
  have ro: "r \<in> for_org (sn_org sn) rows" using n(1,2) g by (simp add: for_org_def)
  have cm': "complete rows (seq_of r) h sn ?b'"
    by (rule complete_next [OF cm]) (use n(4) in \<open>auto simp: for_org_def\<close>)
  have le: "mseq m \<le> c" if "m \<in> set (numbered ?b)" for m using b that by (simp add: backlog_ok_def)
  have nb: "numbered ?b' = numbered ?b @ [event_message r]" using n(2) by simp
  have all: "(\<exists>x\<in>for_org (sn_org sn) rows. m = event_message x) \<and> h < mseq m \<and> mseq m \<le> seq_of r" if "m \<in> set (numbered ?b')" for m
    using that b n(3) ro hc unfolding nb backlog_ok_def set_append by (force simp del: numbered_simps(4))
  have "sorted_wrt (\<lambda>a b. mseq a < mseq b) (numbered ?b')"
    unfolding nb sorted_wrt_append using b le n(3) by (force simp: backlog_ok_def simp del: numbered_simps(4))
  with all have "backlog_ok rows (seq_of r) h sn ?b'"
    unfolding backlog_ok_def using cm' unfolding complete_def by (meson le_trans)
  then show ?thesis using ok reg nt cm' n(3) by (simp add: open_ok_def backlog_pushed) (simp add: pushed_def)
qed

lemma skipped_event_ok:
  assumes ok: "open_ok rows c h q sn" and nx: "outbox_ok rows" "sequenced_after c rows = r # rest"
    and g: "sn_org sn \<notin> set (e_participant_org_ids (er_event r)) \<or> qu_terminal q \<noteq> None"
  shows "open_ok rows (seq_of r) h q sn"
proof -
  note n = next_event [OF nx]
  have "complete rows (seq_of r) h sn (backlog q sn)" if "qu_terminal q = None"
    by (rule complete_next [of _ c]) (use ok that n(4) g in \<open>auto simp: open_ok_def for_org_def\<close>)
  moreover have "backlog_ok rows (seq_of r) h sn (backlog q sn)" using ok n(3) backlog_ok_mono by (auto simp: open_ok_def)
  ultimately show ?thesis using ok n(3) by (simp add: open_ok_def)
qed

subsection \<open>A step of a session\<close>

lemma map_filter_app: "List.map_filter f (xs @ ys) = List.map_filter f xs @ List.map_filter f ys"
  by (simp add: List.map_filter_def)

lemma sent_send: "sent_messages (send f sn) = sent_messages sn @ (case f of EventFrame m \<Rightarrow> numbered [m] | _ \<Rightarrow> [])"
  by (simp add: sent_messages_def send_def map_filter_app List.map_filter_simps split: frame.splits)

lemma sent_cong: "sn_sent sn' = sn_sent sn \<Longrightarrow> sent_messages sn' = sent_messages sn"
  by (simp add: sent_messages_def)

lemma core_cong:
  assumes "sn_org sn' = sn_org sn" "sn_last sn' = sn_last sn" "sn_cursor sn' = sn_cursor sn" "sent_messages sn' = sent_messages sn"
  shows "core_ok rows h sn' = core_ok rows h sn"
  using assms by (simp add: core_ok_def low_def)

lemma core_stop: "core_ok rows h sn \<Longrightarrow> (\<And>m. f = EventFrame m \<Longrightarrow> m_seq m = None) \<Longrightarrow> core_ok rows h (stop f sn)"
  by (subst core_cong [of _ sn]) (simp_all add: stop_def send_def sent_messages_def map_filter_app List.map_filter_simps split: frame.splits)

lemma core_cursor_low: "core_ok rows h sn \<Longrightarrow> sn_last sn = Some l \<Longrightarrow> int l \<le> sn_cursor sn"
  by (auto simp: core_ok_def start_cursor_def low_def)

lemma core_deliver:
  assumes core: "core_ok rows h sn" and r: "r \<in> for_org (sn_org sn) rows" "sn_cursor sn < int (seq_of r)" "low h sn < seq_of r"
    and gap: "\<And>x. x \<in> for_org (sn_org sn) rows \<Longrightarrow> sn_cursor sn < int (seq_of x) \<Longrightarrow> low h sn < seq_of x \<Longrightarrow> seq_of x \<le> seq_of r \<Longrightarrow>
      event_message x = event_message r"
    and new: "sn_org sn' = sn_org sn" "sn_last sn' = sn_last sn" "sn_cursor sn' = int (seq_of r)" "sent_messages sn' = sent_messages sn @ [event_message r]"
  shows "core_ok rows h sn'"
proof -
  have lo: "low h sn' = low h sn" using new(2) by (simp add: low_def)
  have "sorted_wrt (\<lambda>a b. mseq a < mseq b) (sent_messages sn')"
    unfolding new(4) sorted_wrt_append using core r(2) by (force simp: core_ok_def)
  moreover have "(\<exists>x\<in>for_org (sn_org sn') rows. m = event_message x) \<and> low h sn' < mseq m \<and> int (mseq m) \<le> sn_cursor sn'" if "m \<in> set (sent_messages sn')" for m
    using that core r unfolding new lo core_ok_def by (auto intro: order_trans [OF _ less_imp_le])
  moreover have "event_message x \<in> set (sent_messages sn')"
    if "x \<in> for_org (sn_org sn') rows" "low h sn' < seq_of x" "int (seq_of x) \<le> sn_cursor sn'" for x
  proof (cases "int (seq_of x) \<le> sn_cursor sn")
    case True
    then show ?thesis using core that unfolding new lo core_ok_def by simp
  next
    case False
    then show ?thesis using gap [of x] that unfolding new lo by simp
  qed
  moreover have "int (low h sn') < sn_cursor sn' \<and> sn_cursor sn' \<le> int (high_water rows)"
    using r(3) for_org_high_water [OF r(1)] unfolding new lo by simp
  ultimately show ?thesis unfolding core_ok_def by blast
qed

lemma strict_take:
  assumes "sorted_wrt (\<lambda>a b. f a < (f b :: nat)) xs" "e \<in> set (take n xs)" "x \<in> set xs" "f x \<le> f e"
  shows "x \<in> set (take n xs)"
proof -
  obtain i j where i: "i < length xs" "x = xs ! i" and j: "j < n" "j < length xs" "e = xs ! j"
    using assms(2,3) by (auto simp: in_set_conv_nth)
  have "i \<le> j" using sorted_wrt_nth_less [OF assms(1), of j i] i j assms(4) by (metis linorder_not_le)
  then show ?thesis using i j by (auto simp: in_set_conv_nth intro!: exI [of _ i])
qed

lemma numbered_queued: "sorted_wrt (\<lambda>a b. mseq a < mseq b) (numbered ms) \<Longrightarrow> numbered (queued_messages ms) = numbered ms"
proof -
  assume s: "sorted_wrt (\<lambda>a b. mseq a < mseq b) (numbered ms)"
  let ?k = "\<lambda>m. (m_seq m = None, case m_seq m of None \<Rightarrow> 0 | Some n \<Rightarrow> n)"
  have "sorted_wrt (\<lambda>a b. ?k a \<le> ?k b) (numbered ms)"
    by (rule sorted_wrt_mono_rel [OF _ s]) (auto simp: mseq_def less_eq_prod_def)
  then have "sorted (map ?k (numbered ms))" by (simp add: sorted_wrt_map)
  then show ?thesis unfolding numbered_def queued_messages_def filter_sort by (rule sort_key_id_if_sorted)
qed

lemma go_live_ok:
  assumes ok: "open_ok rows c h q sn" and nl: "\<not> is_live sn"
    and all: "\<And>r. r \<in> for_org (sn_org sn) rows \<Longrightarrow> low h sn < seq_of r \<Longrightarrow> seq_of r \<le> h \<Longrightarrow> int (seq_of r) \<le> sn_cursor sn"
    and g: "go_live q sn = (q', sn')"
  shows "open_ok rows c h q' sn'"
proof -
  have b: "backlog q sn = qu_messages q" using nl by (simp add: backlog_def is_live_def split: phase.splits)
  have b': "backlog q' sn' = queued_messages (qu_messages q)" and lo: "low h sn' = low h sn" "sn_org sn' = sn_org sn" "sn_cursor sn' = sn_cursor sn"
    and q': "qu_channel q' = qu_channel q" "qu_terminal q' = qu_terminal q" "qu_registered q' = qu_registered q" "qu_messages q' = []"
    and ph: "\<exists>ms. sn_phase sn' = Live ms"
    using g by (auto simp: go_live_def backlog_def low_def)
  have w: "wanted sn r" for r using nl by (simp add: wanted_def)
  have st: "set (queued_messages (qu_messages q)) = set (qu_messages q)" by (simp add: queued_messages_def)
  have bo: "backlog_ok rows c h sn (qu_messages q)" using ok b by (simp add: open_ok_def)
  then have nq: "numbered (queued_messages (qu_messages q)) = numbered (qu_messages q)" by (intro numbered_queued) (simp add: backlog_ok_def)
  have "backlog_ok rows c h sn' (backlog q' sn')" using bo w unfolding b' backlog_ok_def nq st lo by blast
  moreover have "complete rows c h sn' (backlog q' sn')" if "qu_terminal q = None"
    using ok that w unfolding b' complete_def st lo open_ok_def b by blast
  moreover have "phase_ok rows h sn'" using ph all by (auto simp: phase_ok_def lo)
  ultimately show ?thesis using ok by (simp add: open_ok_def lo q')
qed

lemma deliver_ok:
  assumes core: "core_ok rows h sn" and ok: "open_ok rows c h q sn" and lv: "is_live sn" and b: "backlog q sn = m # B"
    and q': "qu_channel q' = qu_channel q" "qu_terminal q' = qu_terminal q" "qu_registered q' = qu_registered q"
      "set (qu_messages q') \<subseteq> set (qu_messages q)" "ms @ qu_messages q' = B"
  shows "core_ok rows h (deliver m ms sn) \<and> (sn_phase (deliver m ms sn) \<noteq> Ended \<longrightarrow> open_ok rows c h q' (deliver m ms sn))"
proof -
  let ?sn = "deliver m ms sn"
  have bo: "backlog_ok rows c h sn (m # B)" using ok b by (simp add: open_ok_def)
  have lo: "low h ?sn = low h sn" "sn_org ?sn = sn_org sn" "sn_last ?sn = sn_last sn"
    by (simp_all add: deliver_def low_def send_def split: option.splits)
  have ph: "\<forall>r\<in>for_org (sn_org sn) rows. low h sn < seq_of r \<and> seq_of r \<le> h \<longrightarrow> int (seq_of r) \<le> sn_cursor sn"
    using ok lv by (auto simp: open_ok_def phase_ok_def is_live_def split: phase.splits)
  have mono: "sn_cursor sn \<le> sn_cursor ?sn" by (auto simp: deliver_def send_def split: option.splits)
  have opn: "open_ok rows c h q' ?sn"
    if live: "sn_phase ?sn \<noteq> Ended" and past: "m_seq m \<noteq> None \<longrightarrow> int (mseq m) \<le> sn_cursor ?sn"
  proof -
    have pl: "sn_phase ?sn = Live ms" using live by (auto simp: deliver_def send_def split: option.splits if_splits)
    have bl: "backlog q' ?sn = B" using q'(5) by (simp add: backlog_def pl)
    have keep: "event_message r \<in> set B" if "r \<in> for_org (sn_org sn) rows" "wanted ?sn r" "event_message r \<in> set (m # B)" for r
    proof -
      have "sn_cursor ?sn < int (seq_of r)" using that(2) by (simp add: wanted_def is_live_def pl)
      then have "event_message r \<noteq> m" using past that(1) by (auto simp: for_org_def)
      then show ?thesis using that(3) by simp
    qed
    have wd: "wanted sn r" if "wanted ?sn r" for r using that mono lv by (auto simp: wanted_def is_live_def pl)
    have sub: "set (numbered B) \<subseteq> set (numbered (m # B))" by auto
    have "backlog_ok rows c h ?sn B"
      unfolding backlog_ok_def lo
    proof (intro conjI ballI impI)
      show "sorted_wrt (\<lambda>a b. mseq a < mseq b) (numbered B)" using bo by (simp add: backlog_ok_def split: if_splits)
    next
      fix x assume "x \<in> set (numbered B)"
      then show "\<exists>r\<in>for_org (sn_org sn) rows. x = event_message r" "h < mseq x" "mseq x \<le> c" using bo sub unfolding backlog_ok_def by blast+
    next
      fix r x assume "r \<in> for_org (sn_org sn) rows" "x \<in> set (numbered B)" "h < seq_of r \<and> wanted ?sn r \<and> seq_of r \<le> mseq x"
      then show "event_message r \<in> set B" using bo sub wd keep unfolding backlog_ok_def by blast
    qed
    moreover have "complete rows c h ?sn B" if "qu_terminal q = None"
      using ok that b wd keep unfolding open_ok_def complete_def lo by metis
    moreover have "phase_ok rows h ?sn" using ph mono by (auto simp: phase_ok_def pl lo)
    moreover have "numbered (qu_messages q') = []" if "qu_terminal q \<noteq> None"
    proof -
      have "set (numbered (qu_messages q)) = {}" using ok that by (simp add: open_ok_def del: numbered_simps)
      then have "set (numbered (qu_messages q')) = {}" using q'(4) by auto
      then show ?thesis by (simp only: set_empty)
    qed
    ultimately show ?thesis using ok q' by (simp add: open_ok_def lo bl)
  qed
  show ?thesis
  proof (cases "m_seq m")
    case None
    have "core_ok rows h ?sn"
      by (subst core_cong [of _ sn]) (use core None in \<open>simp_all add: deliver_def send_def sent_messages_def map_filter_app List.map_filter_simps\<close>)
    then show ?thesis using opn None by blast
  next
    case (Some n)
    then have mn: "mseq m = n" and mem: "m \<in> set (numbered (m # B))" by (simp_all add: mseq_def)
    obtain r where r: "r \<in> for_org (sn_org sn) rows" "m = event_message r" "h < n" using bo mem mn unfolding backlog_ok_def by blast
    have sr: "seq_of r = n" using r(2) mn by simp
    show ?thesis
    proof (cases "int n \<le> sn_cursor sn")
      case True
      have "core_ok rows h ?sn" by (subst core_cong [of _ sn]) (use core Some True in \<open>simp_all add: deliver_def sent_messages_def\<close>)
      then show ?thesis using opn Some mn mono True by fastforce
    next
      case False
      have lown: "low h sn < n" using r(3) False core_cursor_low [OF core] by (cases "sn_last sn") (force simp: low_def)+
      have cur: "sn_cursor ?sn = int n" using Some False by (simp add: deliver_def)
      have gap: "event_message x = event_message r" if x: "x \<in> for_org (sn_org sn) rows" "sn_cursor sn < int (seq_of x)" "low h sn < seq_of x" "seq_of x \<le> seq_of r" for x
      proof -
        have "h < seq_of x" using ph x(1,2,3) by force
        moreover have "wanted sn x" using x(2) by (simp add: wanted_def)
        ultimately have in_b: "event_message x \<in> set (m # B)" using bo mem x(1,4) mn sr unfolding backlog_ok_def by metis
        have "er_stream_seq x \<noteq> None" using x(1) by (simp add: for_org_def)
        then have "event_message x \<in> set (numbered (m # B))" using in_b Some by simp
        moreover have "\<forall>y\<in>set (numbered B). n < mseq y" using bo Some mn by (simp add: backlog_ok_def del: numbered_simps(4))
        ultimately have "event_message x = m" using x(4) sr Some by (auto simp del: numbered_simps(4))
        then show ?thesis using r(2) by simp
      qed
      have "core_ok rows h ?sn"
        by (rule core_deliver [OF core r(1) _ _ gap]) (use False sr lown Some r(2) in \<open>simp_all add: deliver_def lo sent_messages_def send_def map_filter_app List.map_filter_simps\<close>)
      then show ?thesis using opn Some mn cur by simp
    qed
  qed
qed

lemma live_step_ok:
  assumes core: "core_ok rows h sn" and ok: "open_ok rows c h q sn" and ph: "sn_phase sn = Live ms"
    and ctl: "\<And>f m. si_control inp = Some f \<Longrightarrow> f \<noteq> EventFrame m" and st: "sse_step inp rows q sn = (q', sn')"
  shows "core_ok rows h sn' \<and> (sn_phase sn' \<noteq> Ended \<longrightarrow> open_ok rows c h q' sn')"
proof -
  have lv: "is_live sn" by (simp add: is_live_def ph)
  have bl: "backlog q sn = ms @ qu_messages q" by (simp add: backlog_def ph)
  show ?thesis
  proof (cases "si_control inp")
    case (Some f)
    then have "sn' = stop f sn" using st by (simp add: sse_step_def ph)
    moreover have "core_ok rows h (stop f sn)" by (rule core_stop [OF core]) (use ctl [OF Some] in blast)
    ultimately show ?thesis by (simp add: stop_def)
  next
    case None
    note st1 = st [unfolded sse_step_def ph phase.case None option.case]
    show ?thesis
    proof (cases "si_disconnected inp")
      case True
      then have e: "sn' = sn\<lparr>sn_phase := Ended\<rparr>" using st1 by simp
      have "core_ok rows h sn'" by (subst core_cong [of _ sn]) (use core e in \<open>simp_all add: sent_messages_def\<close>)
      then show ?thesis using e by simp
    next
      case False
      show ?thesis
      proof (cases ms)
        case (Cons m rest)
        then have "q' = q" "sn' = deliver m rest sn" using st1 False by simp_all
        then show ?thesis using deliver_ok [OF core ok lv, of m "rest @ qu_messages q" q rest] Cons bl by simp
      next
        case Nil
        show ?thesis
        proof (cases "qu_messages q")
          case n: Nil
          have e: "q' = q" "sn' = send KeepaliveFrame sn" using st1 False Nil n by simp_all
          have same: "sn_phase sn' = sn_phase sn" "sn_org sn' = sn_org sn" "sn_cursor sn' = sn_cursor sn" "sn_last sn' = sn_last sn"
            "sent_messages sn' = sent_messages sn"
            by (simp_all add: e(2) sent_send) (simp_all add: send_def)
          have c: "core_ok rows h sn'" using core core_cong [OF same(2,4,3,5)] by simp
          have "open_ok rows c h q' sn' = open_ok rows c h q sn"
            unfolding open_ok_def backlog_ok_def complete_def wanted_def is_live_def backlog_def phase_ok_def low_def e(1) same by (rule refl)
          then show ?thesis using c ok by simp
        next
          case (Cons m rest)
          then have e: "q' = q\<lparr>qu_messages := rest\<rparr>" "sn' = deliver m [] sn" using st1 False Nil by simp_all
          show ?thesis unfolding e(2) by (rule deliver_ok [OF core ok lv, of m rest]) (use Cons Nil bl e(1) in auto)
        qed
      qed
    qed
  qed
qed

lemma fetch_facts:
  assumes rk: "outbox_ok rows" and f: "fetch_events_for_org g a (Some t) n rows = es"
  shows "sorted_wrt (\<lambda>x y. seq_of x < seq_of y) es" "set es \<subseteq> for_org g rows" "\<And>e. e \<in> set es \<Longrightarrow> a < seq_of e \<and> seq_of e \<le> t"
    "\<And>r e. r \<in> for_org g rows \<Longrightarrow> a < seq_of r \<Longrightarrow> seq_of r \<le> seq_of e \<Longrightarrow> e \<in> set es \<Longrightarrow> r \<in> set es"
    "\<And>r. r \<in> for_org g rows \<Longrightarrow> es = [] \<Longrightarrow> 0 < n \<Longrightarrow> seq_of r \<le> a \<or> t < seq_of r"
proof -
  let ?xs = "filter (\<lambda>r. g \<in> set (e_participant_org_ids (er_event r)) \<and> seq_of r \<le> t) (sequenced_after a rows)"
  have es: "es = take n ?xs" using f by (simp add: fetch_events_for_org_def)
  have st: "sorted_wrt (\<lambda>x y. seq_of x < seq_of y) ?xs" by (rule sorted_wrt_filter [OF sequenced_after_strict [OF rk]])
  have sx: "set ?xs = {r \<in> for_org g rows. a < seq_of r \<and> seq_of r \<le> t}" by (auto simp: set_sequenced_after for_org_def)
  show "sorted_wrt (\<lambda>x y. seq_of x < seq_of y) es" unfolding es by (rule sorted_wrt_take [OF st])
  have sub: "set es \<subseteq> set ?xs" unfolding es by (rule set_take_subset)
  then show "set es \<subseteq> for_org g rows" "\<And>e. e \<in> set es \<Longrightarrow> a < seq_of e \<and> seq_of e \<le> t" unfolding sx by blast+
  show "r \<in> set es" if "r \<in> for_org g rows" "a < seq_of r" "seq_of r \<le> seq_of e" "e \<in> set es" for r e
  proof -
    have "seq_of e \<le> t" using that(4) sub sx by blast
    then have "r \<in> set ?xs" using that sx by simp
    then show ?thesis unfolding es using strict_take [OF st _ _ that(3)] that(4) es by blast
  qed
  show "seq_of r \<le> a \<or> t < seq_of r" if "r \<in> for_org g rows" "es = []" "0 < n" for r
  proof -
    have "set ?xs = {}" using that(2,3) es by auto
    then show ?thesis using that(1) sx by fastforce
  qed
qed

lemma replay_step_ok:
  assumes core: "core_ok rows h sn" and ok: "open_ok rows c h q sn" and rk: "outbox_ok rows" and ch: "c \<le> high_water rows"
    and ph: "sn_phase sn \<in> {Starting} \<union> range Replay" and ctl: "\<And>f m. si_control inp = Some f \<Longrightarrow> f \<noteq> EventFrame m"
    and tm: "\<And>m. qu_terminal q = Some m \<Longrightarrow> m_seq m = None"
    and st: "sse_step inp rows q sn = (q', sn')"
  shows "core_ok rows h sn' \<and> (sn_phase sn' \<noteq> Ended \<longrightarrow> open_ok rows c h q' sn')"
proof -
  have nl: "\<not> is_live sn" using ph by (auto simp: is_live_def)
  have keep: "core_ok rows h (sn\<lparr>sn_phase := p\<rparr>)" for p by (subst core_cong [of _ sn]) (use core in \<open>simp_all add: sent_messages_def\<close>)
  have stopped: "core_ok rows h (stop f sn) \<and> sn_phase (stop f sn) = Ended" if "\<And>m. f = EventFrame m \<Longrightarrow> m_seq m = None" for f
    using core_stop [OF core that] by (simp add: stop_def)
  have move: "open_ok rows c h q (sn\<lparr>sn_phase := p\<rparr>)" if "phase_ok rows h (sn\<lparr>sn_phase := p\<rparr>)" "\<not> is_live (sn\<lparr>sn_phase := p\<rparr>)" for p
  proof -
    have "backlog q (sn\<lparr>sn_phase := p\<rparr>) = backlog q sn" using that(2) nl by (auto simp: backlog_def is_live_def split: phase.splits)
    then show ?thesis using ok that nl by (simp add: open_ok_def backlog_ok_def complete_def wanted_def)
  qed
  have live: ?thesis if "go_live q sn = (q', sn')"
      "\<And>r. r \<in> for_org (sn_org sn) rows \<Longrightarrow> low h sn < seq_of r \<Longrightarrow> seq_of r \<le> h \<Longrightarrow> int (seq_of r) \<le> sn_cursor sn"
    using go_live_ok [OF ok nl that(2,1)] keep that(1) by (auto simp: go_live_def)
  show ?thesis
  proof (cases "sn_phase sn")
    case Starting
    consider "sn_last sn = None" "go_live q sn = (q', sn')" | "sn' = stop ReplayUnavailable sn"
      | l where "sn_last sn = Some l" "q' = q" "sn' = sn\<lparr>sn_phase := Replay (high_water rows)\<rparr>"
      using st Starting by (auto simp: sse_step_def split: if_splits)
    then show ?thesis
    proof cases
      case 1
      show ?thesis by (rule live [OF 1(2)]) (use 1(1) in \<open>simp add: low_def\<close>)
    next
      case 2
      then show ?thesis using stopped [of ReplayUnavailable] by simp
    next
      case (3 l)
      have "h \<le> high_water rows" using ok ch by (simp add: open_ok_def)
      then have "open_ok rows c h q sn'" unfolding 3(3) using 3(1) by (intro move) (simp_all add: phase_ok_def is_live_def)
      then show ?thesis using keep 3 by simp
    qed
  next
    case (Replay hw)
    then have hw: "sn_last sn \<noteq> None" "h \<le> hw" "hw \<le> high_water rows" using ok by (simp_all add: open_ok_def phase_ok_def)
    define es where "es = fetch_events_for_org (sn_org sn) (nat (sn_cursor sn)) (Some hw) BATCH_SIZE rows"
    note ff = fetch_facts [OF rk es_def [symmetric]]
    have pos: "0 \<le> sn_cursor sn" using hw(1) core_cursor_low [OF core] by fastforce
    consider "int hw \<le> sn_cursor sn" "go_live q sn = (q', sn')" | f where "sn' = stop f sn" "\<And>m. f = EventFrame m \<Longrightarrow> m_seq m = None"
      | "es = []" "go_live q sn = (q', sn')" | "q' = q" "sn' = sn\<lparr>sn_phase := ReplayBatch hw es\<rparr>" "es \<noteq> []"
      using st Replay ctl tm by (force simp: sse_step_def overflow_frame_def es_def [symmetric] Let_def split: option.splits if_splits)
    then show ?thesis
    proof cases
      case 1
      show ?thesis by (rule live [OF 1(2)]) (use 1(1) hw(2) in linarith)
    next
      case (2 f)
      then show ?thesis using stopped [of f] by simp
    next
      case 3
      show ?thesis by (rule live [OF 3(2)]) (use ff(5) 3(1) hw(2) pos in \<open>force simp: BATCH_SIZE_def\<close>)
    next
      case 4
      have "phase_ok rows h sn'" unfolding 4(2) phase_ok_def using hw ff(1-4) pos by (auto simp: nat_less_iff)
      then have "open_ok rows c h q sn'" unfolding 4(2) by (intro move) (simp_all add: is_live_def)
      then show ?thesis using keep 4 by simp
    qed
  qed (use ph in auto)
qed

lemma batch_step_ok:
  assumes core: "core_ok rows h sn" and ok: "open_ok rows c h q sn" and ph: "sn_phase sn = ReplayBatch hw es"
    and ctl: "\<And>f m. si_control inp = Some f \<Longrightarrow> f \<noteq> EventFrame m" and tm: "\<And>m. qu_terminal q = Some m \<Longrightarrow> m_seq m = None"
    and st: "sse_step inp rows q sn = (q', sn')"
  shows "core_ok rows h sn' \<and> (sn_phase sn' \<noteq> Ended \<longrightarrow> open_ok rows c h q' sn')"
proof -
  have hw: "sn_last sn \<noteq> None" "h \<le> hw" "hw \<le> high_water rows" "sorted_wrt (\<lambda>a b. seq_of a < seq_of b) es" "set es \<subseteq> for_org (sn_org sn) rows"
    "\<And>e. e \<in> set es \<Longrightarrow> sn_cursor sn < int (seq_of e) \<and> seq_of e \<le> hw"
    "\<And>r e. r \<in> for_org (sn_org sn) rows \<Longrightarrow> e \<in> set es \<Longrightarrow> sn_cursor sn < int (seq_of r) \<Longrightarrow> seq_of r \<le> seq_of e \<Longrightarrow> r \<in> set es"
    using ok by (auto simp: open_ok_def phase_ok_def ph)
  have bl: "backlog q sn = qu_messages q" "\<not> is_live sn" by (simp_all add: backlog_def is_live_def ph)
  have moved: "open_ok rows c h q x"
    if "phase_ok rows h x" "backlog q x = qu_messages q" "\<not> is_live x" "sn_org x = sn_org sn" for x
    using ok that bl by (simp add: open_ok_def backlog_ok_def complete_def wanted_def)
  show ?thesis
  proof (cases es)
    case Nil
    then have e: "q' = q" "sn' = sn\<lparr>sn_phase := Replay hw\<rparr>" using st by (simp_all add: sse_step_def ph)
    have "core_ok rows h sn'" by (subst core_cong [of _ sn]) (use core e in \<open>simp_all add: sent_messages_def\<close>)
    moreover have "open_ok rows c h q sn'" by (rule moved) (use e hw in \<open>simp_all add: phase_ok_def backlog_def is_live_def\<close>)
    ultimately show ?thesis using e by simp
  next
    case (Cons r rs)
    have ended: ?thesis if "sn' = stop f sn" "\<And>m. f = EventFrame m \<Longrightarrow> m_seq m = None" for f
      using core_stop [OF core that(2)] that(1) by (simp add: stop_def)
    show ?thesis
    proof (cases "overflow_frame inp q")
      case (Some f)
      then have "sn' = stop f sn" using st Cons by (simp add: sse_step_def ph)
      then show ?thesis by (rule ended) (use Some tm in \<open>auto simp: overflow_frame_def split: if_splits\<close>)
    next
      case o: None
      show ?thesis
      proof (cases "si_control inp")
        case (Some f)
        then have "sn' = stop f sn" using st Cons o by (simp add: sse_step_def ph)
        then show ?thesis by (rule ended) (use ctl [OF Some] in blast)
      next
        case None
        then have e: "q' = q" "sn' = (send (EventFrame (event_message r)) sn)\<lparr>sn_cursor := int (seq_of r), sn_phase := ReplayBatch hw rs\<rparr>"
          using st Cons o by (simp_all add: sse_step_def ph)
        have r: "r \<in> for_org (sn_org sn) rows" "sn_cursor sn < int (seq_of r)" "er_stream_seq r \<noteq> None" using hw(5,6) Cons by (auto simp: for_org_def)
        have lo: "low h sn < seq_of r" using hw(1) core_cursor_low [OF core] r(2) by (cases "sn_last sn") (force simp: low_def)+
        have after: "\<forall>x\<in>set rs. seq_of r < seq_of x" using hw(4) Cons by simp
        have "core_ok rows h sn'"
        proof (rule core_deliver [OF core r(1,2) lo])
          show "event_message x = event_message r"
            if "x \<in> for_org (sn_org sn) rows" "sn_cursor sn < int (seq_of x)" "seq_of x \<le> seq_of r" for x
            using hw(7) [OF that(1) _ that(2,3)] Cons after that(3) by auto
          show "sent_messages sn' = sent_messages sn @ [event_message r]"
            using r(3) by (simp add: e(2) sent_messages_def send_def map_filter_app List.map_filter_simps)
        qed (simp_all add: e(2) send_def)
        moreover have "phase_ok rows h sn'"
        proof -
          have "x \<in> set rs" if "x \<in> for_org (sn_org sn) rows" "y \<in> set rs" "seq_of r < seq_of x" "seq_of x \<le> seq_of y" for x y
          proof -
            have "x \<in> set es" using hw(7) [of x y] that r(2) Cons by simp
            then show ?thesis using Cons that(3) by auto
          qed
          then show ?thesis using hw after Cons by (auto simp: phase_ok_def e(2) send_def)
        qed
        then have "open_ok rows c h q sn'" by (rule moved) (simp_all add: e(2) send_def backlog_def is_live_def)
        ultimately show ?thesis using e(1) by simp
      qed
    qed
  qed
qed

lemma sse_step_ok:
  assumes core: "core_ok rows h sn" and ok: "open_ok rows c h q sn" and rk: "outbox_ok rows" and ch: "c \<le> high_water rows"
    and ctl: "\<And>f m. si_control inp = Some f \<Longrightarrow> f \<noteq> EventFrame m" and tm: "\<And>m. qu_terminal q = Some m \<Longrightarrow> m_seq m = None"
    and st: "sse_step inp rows q sn = (q', sn')"
  shows "core_ok rows h sn' \<and> (sn_phase sn' \<noteq> Ended \<longrightarrow> open_ok rows c h q' sn')"
proof (cases "sn_phase sn")
  case (ReplayBatch hw es)
  then show ?thesis by (rule batch_step_ok [OF core ok _ ctl tm st])
next
  case (Live ms)
  then show ?thesis by (rule live_step_ok [OF core ok _ ctl st])
next
  case Ended
  then show ?thesis using core st by (simp add: sse_step_def)
next
  case Starting
  show ?thesis by (rule replay_step_ok [OF core ok rk ch _ ctl tm st]) (simp add: Starting)
next
  case (Replay hw)
  show ?thesis by (rule replay_step_ok [OF core ok rk ch _ ctl tm st]) (simp add: Replay)
qed

lemma sse_step_frame:
  assumes "sse_step inp rows q sn = (q', sn')"
  shows "qu_id q' = qu_id q" "sn_queue_id sn' = sn_queue_id sn" "sn_org sn' = sn_org sn" "sn_last sn' = sn_last sn" "qu_terminal q' = qu_terminal q"
    "qu_registered q' = qu_registered q" "qu_channel q' = qu_channel q"
  using assms
  by (auto simp: sse_step_def go_live_def stop_def send_def deliver_def Let_def split: phase.splits if_splits option.splits list.splits)

subsection \<open>The invariant of the pipeline\<close>

lemma control_is_no_event: "fst (control_frame now expires next v) = Some f \<Longrightarrow> f \<noteq> EventFrame m"
  by (auto simp: control_frame_def split: if_splits sum.splits failure.splits)

lemma channel_inj: "uuid_range g \<Longrightarrow> uuid_range k \<Longrightarrow> stream_channel_for_org g = stream_channel_for_org k \<Longrightarrow> g = k"
  using uuid_str_inj by (simp add: stream_channel_for_org_def uuid_range_def)

lemma row_by_fan_out:
  "row_by qu_id k (fold (\<lambda>g. publish (stream_channel_for_org g) m) gs bus) =
   map_option (fold (\<lambda>g. put_message (stream_channel_for_org g) m) gs) (row_by qu_id k bus)"
  by (induction gs arbitrary: bus) (simp_all add: row_by_publish option.map_comp comp_def option.map_id)

lemma fold_put_message:
  assumes "distinct gs" "list_all uuid_range gs" "uuid_range g" "qu_channel q = stream_channel_for_org g"
  shows "fold (\<lambda>g. put_message (stream_channel_for_org g) m) gs q = (if g \<in> set gs then put_message (stream_channel_for_org g) m q else q)"
  using assms
proof (induction gs arbitrary: q)
  case (Cons k gs)
  show ?case
  proof (cases "k = g")
    case True
    then show ?thesis using Cons by simp
  next
    case False
    then have "stream_channel_for_org k \<noteq> stream_channel_for_org g" using channel_inj Cons.prems by auto
    then have "put_message (stream_channel_for_org k) m q = q" using Cons.prems(4) by (simp add: put_message_def)
    then show ?thesis using Cons False by simp
  qed
qed simp

lemma hub_event_ok:
  assumes ok: "open_ok rows c h q sn" and nx: "outbox_ok rows" "sequenced_after c rows = r # rest" and pk: "participants_ok rows" and g: "uuid_range (sn_org sn)"
  shows "open_ok rows (seq_of r) h (fold (\<lambda>g. put_message (stream_channel_for_org g) (event_message r)) (e_participant_org_ids (er_event r)) q) sn"
proof -
  let ?gs = "e_participant_org_ids (er_event r)" and ?q = "put_message (stream_channel_for_org (sn_org sn)) (event_message r) q"
  have "distinct ?gs" "list_all uuid_range ?gs" using pk next_event(1) [OF nx] by (auto simp: participants_ok_def list_all_iff)
  moreover have "qu_channel q = stream_channel_for_org (sn_org sn)" using ok by (simp add: open_ok_def)
  ultimately have f: "fold (\<lambda>g. put_message (stream_channel_for_org g) (event_message r)) ?gs q = (if sn_org sn \<in> set ?gs then ?q else q)"
    using fold_put_message g by simp
  show ?thesis
  proof (cases "sn_org sn \<in> set ?gs")
    case True
    have t: "qu_terminal q \<noteq> None \<longrightarrow> \<not> qu_registered q" "qu_terminal q = None \<longrightarrow> qu_registered q" using ok by (simp_all add: open_ok_def)
    consider "qu_registered q" "?q = pushed (event_message r) q" | "?q = overflowed q" | "?q = q" "\<not> qu_registered q"
    proof (cases "qu_registered q")
      case reg: True
      then have "qu_terminal q = None" "qu_channel q = stream_channel_for_org (sn_org sn)" using t(1) ok by (auto simp: open_ok_def)
      then have "?q = pushed (event_message r) q \<or> ?q = overflowed q"
        using reg by (simp add: put_message_def terminate_for_overflow_def pushed_def overflowed_def)
      then show ?thesis using that(1,2) reg by blast
    next
      case False
      then show ?thesis using that(3) by (simp add: put_message_def)
    qed
    then show ?thesis
    proof cases
      case 1
      show ?thesis unfolding f using True pushed_event_ok [OF ok nx 1(1) True] 1(2) by simp
    next
      case 2
      show ?thesis unfolding f using True overflowed_ok [OF ok] next_event(3) [OF nx] 2 by simp
    next
      case 3
      show ?thesis unfolding f using True skipped_event_ok [OF ok nx] t(2) 3 by auto
    qed
  next
    case False
    then show ?thesis unfolding f using skipped_event_ok [OF ok nx] by simp
  qed
qed

lemma session_queue:
  assumes "session_ok rows c bus sn"
    and "\<And>q h. row_by qu_id (sn_queue_id sn) bus = Some q \<Longrightarrow> open_ok rows c h q sn \<Longrightarrow> \<exists>q'. row_by qu_id (sn_queue_id sn) bus' = Some q' \<and> open_ok rows' c' h q' sn"
    and "\<And>h. core_ok rows h sn \<Longrightarrow> core_ok rows' h sn"
  shows "session_ok rows' c' bus' sn"
  using assms unfolding session_ok_def by blast

lemma fresh_session:
  assumes "open_session k g since bus = (bus', sn)" "k \<notin> qu_id ` set bus" "uuid_range g"
  shows "session_ok rows c bus' sn" "sn_queue_id sn = k" "\<And>j. j \<noteq> k \<Longrightarrow> row_by qu_id j bus' = row_by qu_id j bus"
    "distinct (map qu_id bus) \<Longrightarrow> distinct (map qu_id bus')"
proof -
  have core: "core_ok rows c \<lparr>sn_queue_id = k, sn_org = g, sn_last = since, sn_cursor = start_cursor since, sn_phase = p, sn_sent = [f]\<rparr>"
    if "f = OriginFrame \<or> f = TooManyConnections" for p f
    using that by (auto simp: core_ok_def sent_messages_def List.map_filter_simps low_def start_cursor_def split: option.splits)
  show "session_ok rows c bus' sn"
  proof (cases "subscribe k (stream_channel_for_org g) bus")
    case None
    then show ?thesis using assms core [of TooManyConnections Ended] by (auto simp: open_session_def session_ok_def)
  next
    case (Some b)
    have "row_by qu_id k bus = None" using assms(2) by (simp add: row_by_None_iff)
    then have "row_by qu_id k b = Some \<lparr>qu_id = k, qu_channel = stream_channel_for_org g, qu_messages = [], qu_terminal = None, qu_registered = True\<rparr>"
      using Some by (auto simp: subscribe_def row_by_append split: if_splits)
    moreover have "open_ok rows c c \<lparr>qu_id = k, qu_channel = stream_channel_for_org g, qu_messages = [], qu_terminal = None, qu_registered = True\<rparr>
        \<lparr>sn_queue_id = k, sn_org = g, sn_last = since, sn_cursor = start_cursor since, sn_phase = Starting, sn_sent = [OriginFrame]\<rparr>"
      by (simp add: open_ok_def backlog_ok_def complete_def phase_ok_def backlog_def)
    ultimately show ?thesis using assms Some core [of OriginFrame Starting] by (auto simp: open_session_def session_ok_def)
  qed
  show "sn_queue_id sn = k" using assms(1) by (auto simp: open_session_def split: option.splits)
  show "row_by qu_id j bus' = row_by qu_id j bus" if "j \<noteq> k" for j
    using assms(1) that by (auto simp: open_session_def subscribe_def row_by_append split: option.splits if_splits)
  show "distinct (map qu_id bus')" if "distinct (map qu_id bus)"
    using assms(1,2) that by (auto simp: open_session_def subscribe_def split: option.splits if_splits)
qed

lemma step_extends: "dispatch_step d d' \<Longrightarrow> dispatch_inv d \<Longrightarrow> extends (dd_rows d) (dd_rows d')"
proof -
  assume a: "dispatch_step d d'" "dispatch_inv d"
  have "high_water (dd_rows d) < seq_of r" if "\<forall>m\<in>visible_seqs (dd_rows d). m < seq_of r" "r \<in> set (dd_rows d')" "er_stream_seq r \<noteq> None" for r
  proof -
    have "0 < seq_of r" using dispatch_step_inv [OF a] visible_seq_of [OF that(2,3)] by (simp add: dispatch_inv_def)
    moreover have "high_water (dd_rows d) \<le> seq_of r - 1" using that(1) unfolding high_water_iff by force
    ultimately show ?thesis by linarith
  qed
  then show ?thesis using dispatch_step_visible [OF a] unfolding extends_def by blast
qed

lemma bus_changed:
  assumes inv: "stream_inv y" and ids: "map qu_id bus = map qu_id (hb_bus (ss_hub y))" and c: "c \<le> high_water (dd_rows (ss_db y))"
    and step: "\<And>sn q h. sn \<in> set (ss_sessions y) \<Longrightarrow> uuid_range (sn_org sn) \<Longrightarrow> row_by qu_id (sn_queue_id sn) (hb_bus (ss_hub y)) = Some q \<Longrightarrow>
      open_ok (dd_rows (ss_db y)) (hb_cursor (ss_hub y)) h q sn \<Longrightarrow>
      \<exists>q'. row_by qu_id (sn_queue_id sn) bus = Some q' \<and> open_ok (dd_rows (ss_db y)) c h q' sn"
  shows "stream_inv (y\<lparr>ss_hub := \<lparr>hb_cursor = c, hb_bus = bus, hb_invalidated = b\<rparr>\<rparr>)"
proof -
  have "session_ok (dd_rows (ss_db y)) c bus sn" if sn: "sn \<in> set (ss_sessions y)" for sn
  proof -
    have ok: "session_ok (dd_rows (ss_db y)) (hb_cursor (ss_hub y)) (hb_bus (ss_hub y)) sn" using inv sn by (simp add: stream_inv_def)
    then have "uuid_range (sn_org sn)" by (simp add: session_ok_def)
    from step [OF sn this] show ?thesis by (rule session_queue [OF ok]) auto
  qed
  then show ?thesis using inv ids c by (simp add: stream_inv_def)
qed

lemma quiet_publish_inv:
  assumes "stream_inv y" "\<And>x. x \<in> set ps \<Longrightarrow> m_seq (snd x) = None"
  shows "stream_inv (y\<lparr>ss_hub := (ss_hub y)\<lparr>hb_bus := fold (\<lambda>x. publish (fst x) (snd x)) ps (hb_bus (ss_hub y))\<rparr>\<rparr>)"
proof -
  have ids: "map qu_id (fold (\<lambda>x. publish (fst x) (snd x)) ps bus) = map qu_id bus" for bus
    by (induction ps arbitrary: bus) simp_all
  have q: "\<exists>q'. row_by qu_id k (fold (\<lambda>x. publish (fst x) (snd x)) ps bus) = Some q' \<and> open_ok rows c h q' sn"
    if "row_by qu_id k bus = Some q" "open_ok rows c h q sn" for k bus q rows c h sn
    using that assms(2)
  proof (induction ps arbitrary: bus q)
    case (Cons x ps)
    show ?case
      using Cons.IH [of "publish (fst x) (snd x) bus" "put_message (fst x) (snd x) q"] Cons.prems quiet_message_ok
      by (simp add: row_by_publish)
  qed simp
  let ?bus = "fold (\<lambda>x. publish (fst x) (snd x)) ps (hb_bus (ss_hub y))"
  have "stream_inv (y\<lparr>ss_hub := \<lparr>hb_cursor = hb_cursor (ss_hub y), hb_bus = ?bus, hb_invalidated = hb_invalidated (ss_hub y)\<rparr>\<rparr>)"
  proof (rule bus_changed [OF assms(1) ids])
    show "hb_cursor (ss_hub y) \<le> high_water (dd_rows (ss_db y))" using assms(1) by (simp add: stream_inv_def)
  qed (rule q)
  moreover have "\<lparr>hb_cursor = hb_cursor (ss_hub y), hb_bus = ?bus, hb_invalidated = hb_invalidated (ss_hub y)\<rparr> = (ss_hub y)\<lparr>hb_bus := ?bus\<rparr>" by simp
  ultimately show ?thesis by (simp only:)
qed

lemma hub_step_inv:
  assumes inv: "stream_inv y" and nx: "sequenced_after (hb_cursor (ss_hub y)) (dd_rows (ss_db y)) = r # rest"
  shows "stream_inv (y\<lparr>ss_hub := hub_event r (ss_hub y)\<rparr>)"
proof -
  let ?rows = "dd_rows (ss_db y)" and ?bus = "hb_bus (ss_hub y)"
  have rk: "outbox_ok ?rows" and pk: "participants_ok ?rows" using inv dispatch_outbox_ok by (auto simp: stream_inv_def)
  have ids: "map qu_id (fan_out r ?bus) = map qu_id ?bus"
  proof -
    have "map qu_id (fold (\<lambda>g. publish (stream_channel_for_org g) m) gs bus) = map qu_id bus" for m gs bus by (induction gs arbitrary: bus) simp_all
    then show ?thesis by (simp add: fan_out_def)
  qed
  have c: "seq_of r \<le> high_water ?rows"
    using next_event(1,2) [OF rk nx] high_water_iff [of ?rows "high_water ?rows"] visible_seq_of [of r ?rows] by auto
  show ?thesis unfolding hub_event_def
    by (rule bus_changed [OF inv ids c]) (use hub_event_ok [OF _ rk nx pk] in \<open>auto simp: fan_out_def row_by_fan_out\<close>)
qed

lemma session_replaced:
  assumes "sn' \<in> set (put_row sn_queue_id x sns)" "distinct (map sn_queue_id sns)" "sn \<in> set sns" "sn_queue_id x = sn_queue_id sn"
  shows "sn' = x \<or> sn' \<in> set sns \<and> sn_queue_id sn' \<noteq> sn_queue_id sn"
  using set_put_row [OF assms(1)] assms(4) by auto

lemma run_step_inv:
  assumes inv: "stream_inv y" and sn: "sn \<in> set (ss_sessions y)" and q: "row_by qu_id (sn_queue_id sn) (hb_bus (ss_hub y)) = Some q"
    and ctl: "si_control inp = fst (control_frame now expires next validation)" and st: "sse_step inp (dd_rows (ss_db y)) q sn = (q', sn')"
  shows "stream_inv (y\<lparr>ss_hub := (ss_hub y)\<lparr>hb_bus := put_row qu_id q' (hb_bus (ss_hub y))\<rparr>, ss_sessions := put_row sn_queue_id sn' (ss_sessions y)\<rparr>)"
proof -
  let ?rows = "dd_rows (ss_db y)" and ?bus = "hb_bus (ss_hub y)" and ?c = "hb_cursor (ss_hub y)"
  note fr = sse_step_frame [OF st]
  have qid: "qu_id q = sn_queue_id sn" "qu_id q \<in> qu_id ` set ?bus" using row_by_SomeD [OF q] by (blast intro: imageI)+
  have new: "row_by qu_id (sn_queue_id sn) (put_row qu_id q' ?bus) = Some q'" using qid fr(1) by (simp add: row_by_put_row)
  have rk: "outbox_ok ?rows" and ch: "?c \<le> high_water ?rows" using inv dispatch_outbox_ok by (auto simp: stream_inv_def)
  have "session_ok ?rows ?c (put_row qu_id q' ?bus) x" if x: "x \<in> set (put_row sn_queue_id sn' (ss_sessions y))" for x
  proof -
    consider "x = sn'" | "x \<in> set (ss_sessions y)" "sn_queue_id x \<noteq> sn_queue_id sn"
      using set_put_row [OF x] fr(2) by auto
    then show ?thesis
    proof cases
      case 1
      have "session_ok ?rows ?c ?bus sn" using inv sn by (simp add: stream_inv_def)
      then obtain h where h: "uuid_range (sn_org sn)" "core_ok ?rows h sn" "sn_phase sn \<noteq> Ended \<longrightarrow> open_ok ?rows ?c h q sn"
        using q by (auto simp: session_ok_def)
      have "core_ok ?rows h sn' \<and> (sn_phase sn' \<noteq> Ended \<longrightarrow> open_ok ?rows ?c h q' sn')"
      proof (cases "sn_phase sn = Ended")
        case True
        then show ?thesis using st h(2) by (simp add: sse_step_def)
      next
        case False
        then have ok: "open_ok ?rows ?c h q sn" using h(3) by simp
        then have "m_seq m = None" if "qu_terminal q = Some m" for m using that by (simp add: open_ok_def)
        moreover have "f \<noteq> EventFrame m" if "si_control inp = Some f" for f m
          by (rule control_is_no_event) (use that ctl in simp)
        ultimately show ?thesis by (intro sse_step_ok [OF h(2) ok rk ch _ _ st])
      qed
      then show ?thesis using 1 h(1) new fr(2,3) by (auto simp: session_ok_def)
    next
      case 2
      then have "row_by qu_id (sn_queue_id x) (put_row qu_id q' ?bus) = row_by qu_id (sn_queue_id x) ?bus" using qid fr(1) by (simp add: row_by_put_row)
      then show ?thesis using inv 2(1) by (simp add: stream_inv_def session_ok_def)
    qed
  qed
  then show ?thesis using inv by (simp add: stream_inv_def)
qed

lemma leave_step_inv:
  assumes inv: "stream_inv y" and sn: "sn \<in> set (ss_sessions y)"
  shows "stream_inv (y\<lparr>ss_hub := (ss_hub y)\<lparr>hb_bus := unsubscribe (sn_queue_id sn) (hb_bus (ss_hub y))\<rparr>,
    ss_sessions := put_row sn_queue_id (sn\<lparr>sn_phase := Ended\<rparr>) (ss_sessions y)\<rparr>)"
proof -
  let ?rows = "dd_rows (ss_db y)" and ?bus = "hb_bus (ss_hub y)" and ?c = "hb_cursor (ss_hub y)"
  let ?u = "\<lambda>q. if qu_id q = sn_queue_id sn then q\<lparr>qu_registered := False\<rparr> else q"
  have ids: "map qu_id (unsubscribe (sn_queue_id sn) ?bus) = map qu_id ?bus" by (simp add: unsubscribe_def)
  have "session_ok ?rows ?c (unsubscribe (sn_queue_id sn) ?bus) x" if x: "x \<in> set (put_row sn_queue_id (sn\<lparr>sn_phase := Ended\<rparr>) (ss_sessions y))" for x
  proof -
    consider "x = sn\<lparr>sn_phase := Ended\<rparr>" | "x \<in> set (ss_sessions y)" "sn_queue_id x \<noteq> sn_queue_id sn" using set_put_row [OF x] by auto
    then show ?thesis
    proof cases
      case 1
      obtain h where h: "uuid_range (sn_org sn)" "core_ok ?rows h sn" using inv sn by (auto simp: stream_inv_def session_ok_def)
      have "core_ok ?rows h x" by (subst core_cong [of _ sn]) (use h(2) 1 in \<open>simp_all add: sent_messages_def\<close>)
      then show ?thesis using 1 h(1) by (auto simp: session_ok_def)
    next
      case 2
      have ok: "session_ok ?rows ?c ?bus x" using inv 2(1) by (simp add: stream_inv_def)
      have "row_by qu_id (sn_queue_id x) (unsubscribe (sn_queue_id sn) ?bus) = map_option ?u (row_by qu_id (sn_queue_id x) ?bus)"
        unfolding unsubscribe_def by (rule row_by_map) simp
      moreover have "?u q = q" if "row_by qu_id (sn_queue_id x) ?bus = Some q" for q using row_by_SomeD [OF that] 2(2) by simp
      ultimately show ?thesis by (intro session_queue [OF ok]) auto
    qed
  qed
  then show ?thesis using inv ids by (simp add: stream_inv_def)
qed

lemma stream_step_inv: "stream_step y y' \<Longrightarrow> stream_inv y \<Longrightarrow> stream_inv y'"
proof (induction rule: stream_step.induct)
  case (database y d)
  have di: "dispatch_inv (ss_db y)" using database.prems by (simp add: stream_inv_def)
  have ex: "extends (dd_rows (ss_db y)) (dd_rows d)" by (rule step_extends [OF database.hyps(1) di])
  have c: "hb_cursor (ss_hub y) \<le> high_water (dd_rows (ss_db y))" using database.prems by (simp add: stream_inv_def)
  have "session_ok (dd_rows d) (hb_cursor (ss_hub y)) (hb_bus (ss_hub y)) sn" if "sn \<in> set (ss_sessions y)" for sn
  proof (rule session_queue)
    show "session_ok (dd_rows (ss_db y)) (hb_cursor (ss_hub y)) (hb_bus (ss_hub y)) sn" using database.prems that by (simp add: stream_inv_def)
  qed (use open_extends [OF _ ex c] core_extends [OF _ ex] in blast)+
  then show ?case using database dispatch_step_inv [OF database.hyps(1) di] le_trans [OF c extends_for_org(3) [OF ex]] by (simp add: stream_inv_def)
next
  case (hub y r rest)
  then show ?case by (intro hub_step_inv)
next
  case (local_message m y channel)
  then show ?case using quiet_publish_inv [of y "[(channel, m)]"] by simp
next
  case (invalidation y)
  show ?case
  proof (cases "hb_invalidated (ss_hub y)")
    case True
    let ?ps = "map (\<lambda>c. (c, invalidation_message)) PUBLIC_STREAM_CHANNELS"
    have "m_seq (snd x) = None" if "x \<in> set ?ps" for x using that by (auto simp: invalidation_message_def)
    then have "stream_inv (y\<lparr>ss_hub := (ss_hub y)\<lparr>hb_bus := fold (\<lambda>x. publish (fst x) (snd x)) ?ps (hb_bus (ss_hub y))\<rparr>\<rparr>)"
      by (rule quiet_publish_inv [OF invalidation])
    then show ?thesis using True by (simp add: publish_invalidation_def PUBLIC_STREAM_CHANNELS_def)
  next
    case False
    then show ?thesis using invalidation by (simp add: publish_invalidation_def)
  qed
next
  case (connect k y g since bus sn)
  note f = fresh_session [OF connect.hyps(4,1,3)]
  have "session_ok (dd_rows (ss_db y)) (hb_cursor (ss_hub y)) bus x" if "x \<in> set (ss_sessions y)" for x
  proof -
    have "sn_queue_id x \<noteq> k" using connect.hyps(2) that by auto
    then show ?thesis using connect.prems that f(3) by (simp add: stream_inv_def session_ok_def)
  qed
  then show ?case using connect f(1,2,4) by (auto simp: stream_inv_def)
next
  case (run sn y q inp now expires "next" validation q' sn')
  then show ?case by (intro run_step_inv)
next
  case (leave sn y)
  then show ?case by (intro leave_step_inv)
qed

lemma stream_reachable_inv: "stream_reachable y \<Longrightarrow> stream_inv y"
proof (induction rule: stream_reachable.induct)
  case (start d)
  then show ?case using dispatch_reachable_inv by (simp add: stream_inv_def)
next
  case (step y y')
  then show ?case using stream_step_inv by blast
qed

subsection \<open>Examples\<close>

definition ex_queue :: SubscriberQueue where
  "ex_queue = \<lparr>qu_id = 1, qu_channel = stream_channel_for_org 41, qu_messages = [], qu_terminal = None, qu_registered = True\<rparr>"

definition ex_session :: "int \<Rightarrow> phase \<Rightarrow> frame list \<Rightarrow> session" where
  "ex_session c p fs = \<lparr>sn_queue_id = 1, sn_org = 41, sn_last = Some 0, sn_cursor = c, sn_phase = p, sn_sent = fs\<rparr>"

definition ex_stream :: "session \<Rightarrow> stream_sys" where
  "ex_stream sn = \<lparr>ss_db = ex_numbered, ss_hub = \<lparr>hb_cursor = 2, hb_bus = [ex_queue], hb_invalidated = False\<rparr>, ss_sessions = [sn]\<rparr>"

definition ex_row :: event_row where
  "ex_row = \<lparr>er_id = 7, er_event = ex_event 41, er_created_at = 100, er_dispatched_at = Some 101, er_stream_seq = Some 1, er_delivery_attempts = 1\<rparr>"

definition ex_client :: session where
  "ex_client = ex_session 1 (Live []) [OriginFrame, EventFrame (event_message ex_row)]"

lemma ex_rows:
  "dd_rows ex_numbered = [ex_row, ex_row\<lparr>er_id := 8, er_event := ex_event 42, er_stream_seq := Some 2\<rparr>]" "high_water (dd_rows ex_numbered) = 2"
  "participants_ok (dd_rows ex_numbered)"
  by (simp_all add: ex_numbered_def ex_dispatch_def assign_sequences_def enqueued_row_def ex_row_def high_water_def seq_of_def participants_ok_def
      ex_event_def uuid_range_def)

lemma ex_fetch:
  "fetch_events_for_org 41 0 (Some 2) BATCH_SIZE (dd_rows ex_numbered) = [ex_row]"
  "fetch_events_for_org 41 1 (Some 2) BATCH_SIZE (dd_rows ex_numbered) = []"
  by (simp_all add: ex_rows(1) fetch_events_for_org_def sequenced_after_def ex_row_def seq_of_def ex_event_def BATCH_SIZE_def)

lemma ex_run:
  assumes "stream_reachable (ex_stream sn)" "sn_queue_id sn = 1"
    "sse_step \<lparr>si_control = None, si_db_error = False, si_disconnected = False, si_late_overflow = False\<rparr> (dd_rows ex_numbered) ex_queue sn = (ex_queue, sn')"
    "sn_queue_id sn' = 1"
  shows "stream_reachable (ex_stream sn')"
proof -
  have "si_control \<lparr>si_control = None, si_db_error = False, si_disconnected = False, si_late_overflow = False\<rparr> =
      fst (control_frame 0 1 1 (Inr ()))" by (simp add: control_frame_def)
  from stream_step.run [OF _ _ this, of sn "ex_stream sn" ex_queue ex_queue sn'] assms
  have "stream_step (ex_stream sn) (ex_stream sn')" by (simp add: ex_stream_def ex_queue_def put_row_def)
  then show ?thesis by (rule stream_reachable.step [OF assms(1)])
qed

lemma ex_client_reachable: "stream_reachable (ex_stream ex_client)"
proof -
  let ?y = "\<lparr>ss_db = ex_numbered, ss_hub = \<lparr>hb_cursor = 2, hb_bus = [], hb_invalidated = False\<rparr>, ss_sessions = []\<rparr>"
  have r0: "stream_reachable ?y" using stream_reachable.start [OF ex_numbered_reachable ex_rows(3)] by (simp add: ex_rows(2))
  have "open_session 1 41 (Some 0) [] = ([ex_queue], ex_session 0 Starting [OriginFrame])"
    by (simp add: open_session_def subscribe_def MAX_SUBSCRIBERS_PER_CHANNEL_def ex_queue_def ex_session_def start_cursor_def)
  from stream_step.connect [of 1 ?y 41 "Some 0"] this
  have "stream_step ?y (ex_stream (ex_session 0 Starting [OriginFrame]))" by (simp add: uuid_range_def ex_stream_def)
  then have r1: "stream_reachable (ex_stream (ex_session 0 Starting [OriginFrame]))" by (rule stream_reachable.step [OF r0])
  have r2: "stream_reachable (ex_stream (ex_session 0 (Replay 2) [OriginFrame]))"
    by (rule ex_run [OF r1]) (simp_all add: ex_session_def sse_step_def ex_rows(2))
  have r3: "stream_reachable (ex_stream (ex_session 0 (ReplayBatch 2 [ex_row]) [OriginFrame]))"
    by (rule ex_run [OF r2]) (simp_all add: ex_session_def sse_step_def ex_fetch overflow_frame_def ex_queue_def)
  have r4: "stream_reachable (ex_stream (ex_session 1 (ReplayBatch 2 []) [OriginFrame, EventFrame (event_message ex_row)]))"
    by (rule ex_run [OF r3]) (simp_all add: ex_session_def sse_step_def overflow_frame_def ex_queue_def send_def ex_row_def seq_of_def)
  have r5: "stream_reachable (ex_stream (ex_session 1 (Replay 2) [OriginFrame, EventFrame (event_message ex_row)]))"
    by (rule ex_run [OF r4]) (simp_all add: ex_session_def sse_step_def)
  show ?thesis unfolding ex_client_def
    by (rule ex_run [OF r5]) (simp_all add: ex_session_def sse_step_def overflow_frame_def ex_queue_def ex_fetch(2) [unfolded One_nat_def] go_live_def queued_messages_def)
qed

subsection \<open>Properties\<close>

text \<open>The events of an organization behind a cursor, as messages, in the order of the stream.\<close>

definition org_messages :: "uuid \<Rightarrow> nat \<Rightarrow> event_row list \<Rightarrow> message list" where
  "org_messages g l rows = map event_message (filter (\<lambda>r. g \<in> set (e_participant_org_ids (er_event r))) (sequenced_after l rows))"

lemma sent_is_stream:
  assumes rk: "outbox_ok rows" and core: "core_ok rows h sn" and last: "sn_last sn = Some l"
  shows "sent_messages sn = filter (\<lambda>m. int (mseq m) \<le> sn_cursor sn) (org_messages (sn_org sn) l rows)"
proof (rule strict_same_set [of mseq])
  have lo: "low h sn = l" using last by (simp add: low_def)
  show "sorted_wrt (\<lambda>a b. mseq a < mseq b) (sent_messages sn)" using core by (simp add: core_ok_def)
  have "sorted_wrt (\<lambda>a b. mseq a < mseq b) (org_messages (sn_org sn) l rows)"
    using sorted_wrt_filter [OF sequenced_after_strict [OF rk]] by (simp add: org_messages_def sorted_wrt_map)
  then show "sorted_wrt (\<lambda>a b. mseq a < mseq b) (filter (\<lambda>m. int (mseq m) \<le> sn_cursor sn) (org_messages (sn_org sn) l rows))"
    by (rule sorted_wrt_filter)
  have s: "set (org_messages (sn_org sn) l rows) = event_message ` {r \<in> for_org (sn_org sn) rows. l < seq_of r}"
    by (auto simp: org_messages_def set_sequenced_after for_org_def)
  show "set (sent_messages sn) = set (filter (\<lambda>m. int (mseq m) \<le> sn_cursor sn) (org_messages (sn_org sn) l rows))"
    using core unfolding set_filter s core_ok_def lo by fastforce
qed

text \<open>C38: a private stream delivers exactly the organization's events. Whatever interleaving of commits, numbering, fan-out, overflows, errors and
  other clients, at every moment the numbered events that a client resuming after \<open>l\<close> has been sent are precisely the events of
  its organization numbered above \<open>l\<close> and up to its cursor: none lost, none twice, none of others, in order.\<close>

theorem private_stream_exact:
  assumes "stream_reachable y" "sn \<in> set (ss_sessions y)" "sn_last sn = Some l"
  shows "sent_messages sn = filter (\<lambda>m. int (mseq m) \<le> sn_cursor sn) (org_messages (sn_org sn) l (dd_rows (ss_db y)))"
proof -
  have inv: "stream_inv y" by (rule stream_reachable_inv [OF assms(1)])
  then obtain h where "core_ok (dd_rows (ss_db y)) h sn" using assms(2) by (auto simp: stream_inv_def session_ok_def)
  moreover have "outbox_ok (dd_rows (ss_db y))" using inv dispatch_outbox_ok by (simp add: stream_inv_def)
  ultimately show ?thesis using sent_is_stream assms(3) by blast
qed

theorem private_stream_exact_witness:
  "stream_reachable (ex_stream ex_client) \<and>
   sent_messages ex_client = filter (\<lambda>m. int (mseq m) \<le> 1) (org_messages 41 0 (dd_rows ex_numbered)) \<and> sent_messages ex_client = [event_message ex_row]"
proof -
  have f: "sn_last ex_client = Some 0" "ex_client \<in> set (ss_sessions (ex_stream ex_client))" "sn_org ex_client = 41" "sn_cursor ex_client = 1"
    "ss_db (ex_stream ex_client) = ex_numbered"
    by (simp_all add: ex_client_def ex_session_def ex_stream_def)
  have "sent_messages ex_client = [event_message ex_row]"
    by (simp add: sent_messages_def ex_client_def ex_session_def List.map_filter_simps ex_row_def)
  then show ?thesis using private_stream_exact [OF ex_client_reachable f(2,1)] ex_client_reachable f(3-5) by simp
qed

text \<open>C39: an idle stream is up to date. When the hub has caught up with the outbox and a live client has nothing left in its queue and was not
  reset, it has been sent every numbered event of its organization after the point where it resumed.\<close>

theorem idle_stream_up_to_date:
  assumes "stream_reachable y" "sn \<in> set (ss_sessions y)" "sn_last sn = Some l" "sn_phase sn = Live []"
    and "row_by qu_id (sn_queue_id sn) (hb_bus (ss_hub y)) = Some q" "qu_messages q = []" "qu_terminal q = None"
    and "hb_cursor (ss_hub y) = high_water (dd_rows (ss_db y))"
  shows "sent_messages sn = org_messages (sn_org sn) l (dd_rows (ss_db y))"
proof -
  let ?rows = "dd_rows (ss_db y)"
  have inv: "stream_inv y" by (rule stream_reachable_inv [OF assms(1)])
  then obtain h where h: "core_ok ?rows h sn" "open_ok ?rows (high_water ?rows) h q sn"
    using assms(2,4,5,8) by (auto simp: stream_inv_def session_ok_def)
  have "int (seq_of r) \<le> sn_cursor sn" if r: "r \<in> for_org (sn_org sn) ?rows" "l < seq_of r" for r
  proof (cases "seq_of r \<le> h")
    case True
    then show ?thesis using h(2) r assms(3,4) by (simp add: open_ok_def phase_ok_def low_def)
  next
    case False
    have "complete ?rows (high_water ?rows) h sn []" using h(2) assms(4,6,7) by (simp add: open_ok_def backlog_def)
    then show ?thesis using False r(1) for_org_high_water [OF r(1)] by (force simp: complete_def wanted_def)
  qed
  then have "filter (\<lambda>m. int (mseq m) \<le> sn_cursor sn) (org_messages (sn_org sn) l ?rows) = org_messages (sn_org sn) l ?rows"
    by (auto simp: filter_id_conv org_messages_def set_sequenced_after for_org_def)
  moreover have "outbox_ok ?rows" using inv dispatch_outbox_ok by (simp add: stream_inv_def)
  ultimately show ?thesis using sent_is_stream [OF _ h(1) assms(3)] by simp
qed

theorem idle_stream_up_to_date_witness:
  "stream_reachable (ex_stream ex_client) \<and> sent_messages ex_client = org_messages 41 0 (dd_rows ex_numbered)"
proof -
  have f: "sn_last ex_client = Some 0" "ex_client \<in> set (ss_sessions (ex_stream ex_client))" "sn_org ex_client = 41" "sn_phase ex_client = Live []"
    "row_by qu_id (sn_queue_id ex_client) (hb_bus (ss_hub (ex_stream ex_client))) = Some ex_queue"
    "hb_cursor (ss_hub (ex_stream ex_client)) = high_water (dd_rows (ss_db (ex_stream ex_client)))" "ss_db (ex_stream ex_client) = ex_numbered"
    using ex_rows(2) by (simp_all add: ex_client_def ex_session_def ex_stream_def ex_queue_def)
  have q: "qu_messages ex_queue = []" "qu_terminal ex_queue = None" by (simp_all add: ex_queue_def)
  show ?thesis using idle_stream_up_to_date [OF ex_client_reachable f(2,1,4,5) q f(6)] ex_client_reachable f(3,7) by simp
qed

end
