(* ===== verification/Spec2Isabelle.thy ===== *)
theory Spec2Isabelle
  imports Matching_Refinement Constraints Windows Trade_Properties Market_System Market_Support_Admin Rfq Event_Stream
begin

text \<open>
  A verification development of the market core of the Verdaxis backend (Python, under
  \<^verbatim>\<open>src/app\<close>): an exchange for marine fuels on which buyers place bids, suppliers place asks or publish
  inventory, a matching engine crosses them in price and time priority, and single orders can be hit
  by a counterparty who then confirms, delivers and pays.

  \<^bold>\<open>The parts and where they are modelled.\<close> Each theory translates the named files; the definitions
  keep the names of the functions.

    \<^item> \<^verbatim>\<open>Prelude\<close>: errors as values (\<open>failure + 'a\<close> with \<open>bindR\<close> and \<open>refuse\<close>, so that every raise and early
      return is a branch), Python's string operations, decimals, and tables as lists of rows with
      the contract \<open>row_store\<close> of lookup, update and insert.
    \<^item> \<^verbatim>\<open>Market_Types\<close> (\<^verbatim>\<open>models/\<close>): the rows as records, the enums as datatypes, and \<open>market_db\<close>, the database.
      \<^verbatim>\<open>Example_Market\<close> is a small database for the witnesses.
    \<^item> \<^verbatim>\<open>Windows\<close> (\<^verbatim>\<open>services/availability_windows.py\<close>), \<^verbatim>\<open>Catalog\<close> (\<^verbatim>\<open>market_catalog.py\<close>, \<^verbatim>\<open>demo_identities.py\<close>),
      \<^verbatim>\<open>Constraints\<close> (\<^verbatim>\<open>market_constraints.py\<close>).
    \<^item> \<^verbatim>\<open>Policy\<close> (\<^verbatim>\<open>execution_policy.py\<close>, \<^verbatim>\<open>provenance.py\<close>, \<^verbatim>\<open>market_admission.py\<close>, \<^verbatim>\<open>trade_fees.py\<close>, \<^verbatim>\<open>order_quantity.py\<close>): who
      may trade with whom, at which fee and in which quantity.
    \<^item> \<^verbatim>\<open>Locks\<close> (\<^verbatim>\<open>market_locks.py\<close>, \<^verbatim>\<open>market_transactions.py\<close>, \<^verbatim>\<open>idempotency.py\<close>, \<^verbatim>\<open>command_results.py\<close>, \<^verbatim>\<open>db_errors.py\<close>):
      advisory locks and their order, the bounded retry, replay of recorded commands.
    \<^item> \<^verbatim>\<open>Effects\<close> (\<^verbatim>\<open>audit_service.py\<close>, \<^verbatim>\<open>market_events.py\<close>, \<^verbatim>\<open>org_notifications.py\<close>): audit entries, outbox, notifications.
    \<^item> \<^verbatim>\<open>Inventory_Ledger\<close> (\<^verbatim>\<open>inventory_reservations.py\<close>): free and reserved stock, with the contract \<open>stock_ledger\<close>.
    \<^item> \<^verbatim>\<open>Matching_Engine\<close> (\<^verbatim>\<open>matching_engine.py\<close>); \<^verbatim>\<open>Matching_Refinement\<close> has the abstract price-time allocation.
    \<^item> \<^verbatim>\<open>Canonical_Json\<close>, \<^verbatim>\<open>Order_Terms\<close> (\<^verbatim>\<open>order_terms.py\<close>), \<^verbatim>\<open>Market_Evidence\<close> (\<^verbatim>\<open>market_provenance.py\<close>,
      \<^verbatim>\<open>market_data_eligibility.py\<close>), \<^verbatim>\<open>Request_Party\<close> (\<^verbatim>\<open>request_party.py\<close>, \<^verbatim>\<open>models/market_support.py\<close>).
    \<^item> \<^verbatim>\<open>Trade_Views\<close>, \<^verbatim>\<open>Trade_Lifecycle\<close> (\<^verbatim>\<open>routers/trades.py\<close>): what a viewer sees of a trade, and the routes that hit an
      order and confirm, decline, deliver and pay a trade.
    \<^item> \<^verbatim>\<open>Order_Lifecycle\<close> (\<^verbatim>\<open>order_lifecycle.py\<close>), \<^verbatim>\<open>Post_Only\<close> (\<^verbatim>\<open>market_support_post_only.py\<close>), \<^verbatim>\<open>Order_Create\<close>,
      \<^verbatim>\<open>Order_Amend\<close>, \<^verbatim>\<open>Order_Cancel\<close> (\<^verbatim>\<open>routers/orderbook.py\<close>, \<^verbatim>\<open>services/market_support.py\<close>,
      \<^verbatim>\<open>services/auto_match_side_effects.py\<close>, \<^verbatim>\<open>schemas/orderbook.py\<close>): expiring, placing, amending and cancelling orders.
    \<^item> \<^verbatim>\<open>Inventory_Routes\<close> (\<^verbatim>\<open>routers/inventory.py\<close>, \<^verbatim>\<open>schemas/marketplace.py\<close>): managing and publishing stock.
    \<^item> \<^verbatim>\<open>Market_Invalidation\<close> (\<^verbatim>\<open>market_invalidation.py\<close>, \<open>reject_organization\<close> of \<^verbatim>\<open>routers/auth_simple.py\<close>): taking a rejected
      organization out of the market.
    \<^item> \<^verbatim>\<open>Market_Support_Admin\<close> (\<^verbatim>\<open>routers/market_support.py\<close>): granting and revoking support capabilities, opening and
      leaving support contexts, with the reachable states of the support tables.
    \<^item> \<^verbatim>\<open>Negotiations\<close> (\<^verbatim>\<open>routers/negotiations.py\<close>, \<^verbatim>\<open>models/negotiation.py\<close>, \<^verbatim>\<open>market_catalog_validation.py\<close>): proposing, countering and
      declining a price over a standing order, with the reachable states of the negotiation table.
    \<^item> \<^verbatim>\<open>Rfq\<close> (\<^verbatim>\<open>routers/rfq.py\<close>, \<^verbatim>\<open>models/rfq.py\<close>): requests for quotes, the suppliers' quotes, and what each organization sees
      of them.
    \<^item> \<^verbatim>\<open>Event_Dispatch\<close>, \<^verbatim>\<open>Event_Stream\<close> (\<^verbatim>\<open>market_event_dispatch.py\<close>, \<^verbatim>\<open>event_bus.py\<close>, \<^verbatim>\<open>routers/stream.py\<close>, the token checks of
      \<^verbatim>\<open>routers/auth_simple.py\<close>): numbering of the committed outbox rows by an elected leader, fan-out to the clients of each
      worker, and replay followed by live delivery on an organization's private stream.
    \<^item> \<^verbatim>\<open>Market_System\<close>: all requests as one step relation, and the states reachable from empty books.

  \<^bold>\<open>How they interact.\<close> A route validates its request, reads the database, takes advisory locks
  and row locks in one global order, checks again, writes orders, trades and stock, calls the
  matching engine, and appends audit entries, notifications and outbox events in the same
  transaction. A route is therefore a function of two databases: \<open>pv\<close>, what it read before its locks, and \<open>s\<close>,
  what it sees under them; it returns an error, and then nothing changed, or the new
  database. Support contexts may be expired by a request that is then refused, so the routes that
  touch them return the support tables beside the result.

  \<^bold>\<open>Conventions.\<close> A clock is a function \<open>clk\<close> whose arguments number its readings in the order the
  code takes them; \<open>clk 0\<close> is the transaction's \<open>now()\<close>. Texts are lists of HOL's 8-bit characters, read as the
  code points below 256; stripping and JSON escaping follow Python on these. Amounts are rationals (the columns are unbounded
  NUMERICs with CHECK constraints on scale and range), identifiers natural numbers drawn from
  \<open>next_id\<close>. Code outside the repository is a parameter: the hash functions, the lock outcomes of the
  database and its dialect are fields of \<open>env\<close>, pydantic's JSON dumps and the UUID parser are
  arguments. Calls that only feed derived data (benchmarks, watchlists) are recorded as \<open>projections\<close>.

  \<^bold>\<open>What the lemmas show.\<close> \<^verbatim>\<open>Market_Ledger\<close> states the market invariant: unique keys, references that resolve, legal
  rows, fills that add up, and reserved stock equal to what live orders and pending trades
  commit. The engine breaks the last clause in one case, an incoming stock-backed order that it finds lapsed, whose stock it never
  releases. The invariant therefore has the stranded stock \<open>\<sigma>\<close> of each item as a parameter (\<open>market_inv_upto \<sigma>\<close>, of which \<open>market_inv\<close> is
  the case without any), every lemma holds for all of it, and \<open>match_keeps_ledgers\<close>,
  \<open>publication_sound\<close> and \<open>market_never_oversells\<close> say exactly when it grows. \<^verbatim>\<open>Market_Ledger\<close> also computes how every single write moves the balances. \<^verbatim>\<open>Matching_Ledger\<close>, \<^verbatim>\<open>Trade_Ledger\<close>,
  \<^verbatim>\<open>Trade_Creation\<close>, \<^verbatim>\<open>Trade_Commands\<close> and the order and inventory theories add these up per route; the theorem below joins
  them. Beside the invariant: matching refines the abstract allocation and respects price and time priority; a
  trade follows its state machine and only its parties move it; decline undoes a hit; commands take effect
  once, under their idempotency key; a pending trade whose parties and order are still good can be confirmed; shared slice locks are
  taken in one order and retries are bounded; amendments that keep priority add
  no opportunity to an order that was execution qualified; assisted orders rest; anonymity of the trade views before the hand-off; the SQL
  mirror of the biofuel policy agrees with it on texts without the characters that only Python strips; parsing of windows is a
  projection and no tradable window is expired; negotiations alternate, never execute, and block
  their pair once they lapse; the views of requests for quotes do not interfere; the event
  stream only grows at its end, a drain publishes it in order while it grows (and loses the public invalidation of a
  batch when the next read fails), and each private stream delivers exactly its organization's part of it.

  \<^bold>\<open>Bounds.\<close> No definition needs fuel: the loops recurse on lists, the retry loop on the attempts left (two by
  default, never more than three), the engine on at most \<open>MAX_CROSSING_ORDERS_PER_MATCH\<close> orders, the expiry pass on at most
  \<open>MAX_EXPIRY_ROWS_PER_TRANSACTION\<close>. The calendar of \<^verbatim>\<open>Windows\<close> has the year bounds of Python's \<^verbatim>\<open>date\<close>.

  \<^bold>\<open>Not modelled.\<close> The read side of the order book (lists, aggregates, map), the lists of Market
  Support, authentication and KYC, analytics, benchmarks and forward
  curves, watchlists, quarantine and demo tooling, compliance calculators, news
  and AI, monitoring and start-up code: they are queries, I/O, derived data or workflows beside the market. Two of them
  write market tables and are outside the step relation: the generator of demo orders (\<^verbatim>\<open>demo_activity.py\<close>) and the operator's
  quarantine and seeding scripts. The bodies of the four retired routes of \<^verbatim>\<open>routers/market_support.py\<close> are left out because
  they are never reached (\<open>retired_route_refuses\<close>). Texts of notifications, request metadata of audit entries and event
  payloads are dropped where no decision reads them. Concurrency is covered as far as it can reach
  a request: its preview may be arbitrarily stale, its locked part is atomic.
\<close>

section \<open>The market as a whole\<close>

text \<open>C2: whatever requests arrive, in whatever order and with whatever stale reads before their locks, a market that
  started with empty books never oversells and never loses stock. In every reachable state no order is filled
  beyond its quantity, an order that is still live has exactly the unfilled part remaining, every order and trade
  refers to rows that exist, every item's free stock is not negative, and its reserved stock covers what its live orders and
  pending trades commit. The reserved stock is exactly that commitment for every item but those in \<open>lapsed\<close>: the items of which an
  order lapsed between its amendment or publication and the match in the same transaction, whose stock the engine strands.\<close>

theorem market_never_oversells:
  assumes "market_reachable e cfg fl (s, sd) lapsed"
  shows "keys_ok s \<and> refs_ok s \<and>
    (\<forall>x\<in>set (orders s). filled_quantity s (o_id x) \<le> o_quantity_mt x \<and>
       (live_status (o_status x) \<longrightarrow> o_remaining_quantity_mt x = o_quantity_mt x - filled_quantity s (o_id x))) \<and>
    (\<forall>i\<in>set (inventory s). 0 \<le> i_current_stock_mt i \<and> 0 \<le> committed s (i_id i) \<and> committed s (i_id i) \<le> i_reserved_stock_mt i \<and>
       (i_id i \<notin> lapsed \<longrightarrow> i_reserved_stock_mt i = committed s (i_id i)))"
proof -
  obtain \<sigma> where inv: "market_inv_upto \<sigma> s" and only: "\<And>j. \<sigma> j \<noteq> 0 \<Longrightarrow> j \<in> lapsed" using market_reachable_inv [OF assms] by auto
  then have p: "keys_ok s" "refs_ok s" "rows_ok s" "fills_ok s" "reserves_upto \<sigma> s" by (simp_all add: market_inv_upto_def)
  have "filled_quantity s (o_id x) \<le> o_quantity_mt x \<and>
      (live_status (o_status x) \<longrightarrow> o_remaining_quantity_mt x = o_quantity_mt x - filled_quantity s (o_id x))" if x: "x \<in> set (orders s)" for x
  proof -
    have "order_filled (filled_quantity s (o_id x)) x" "0 \<le> o_remaining_quantity_mt x"
      using p(3,4) x by (simp_all add: fills_ok_def rows_ok_def order_row_ok_def)
    moreover have "live_status (o_status x) \<Longrightarrow> \<not> withdrawn (o_status x)" by (auto simp: live_status_def withdrawn_def)
    ultimately show ?thesis unfolding order_filled_def by (cases "withdrawn (o_status x)") auto
  qed
  moreover have "0 \<le> i_current_stock_mt i \<and> 0 \<le> committed s (i_id i) \<and> committed s (i_id i) \<le> i_reserved_stock_mt i \<and>
      (i_id i \<notin> lapsed \<longrightarrow> i_reserved_stock_mt i = committed s (i_id i))" if "i \<in> set (inventory s)" for i
  proof -
    have "item_of (i_id i) s = Some i" using p(1) that by (intro row_by_distinct) (simp_all add: keys_ok_def)
    then have "reserved_stock s (i_id i) = i_reserved_stock_mt i" "current_stock s (i_id i) = i_current_stock_mt i"
      by (simp_all only: reserved_stock_def current_stock_def option.case)
    moreover have "reserved_stock s (i_id i) = committed s (i_id i) + \<sigma> (i_id i) \<and> 0 \<le> \<sigma> (i_id i) \<and> 0 \<le> current_stock s (i_id i)"
      using p(5) by (simp add: reserves_upto_def)
    ultimately show ?thesis using commitment_nonneg [OF p(3)] only [of "i_id i"] by fastforce
  qed
  ultimately show ?thesis using p(1,2) by blast
qed

theorem market_never_oversells_witness:
  "\<exists>s z. market_reachable ex_env ex_cfg (ex_flags\<lparr>AUTO_MATCHING_ENABLED := False\<rparr>) (s, ex_support) {} \<and> order_of (o_id z) s = Some z \<and>
     filled_quantity s (o_id z) \<le> o_quantity_mt z"
proof -
  let ?fl = "ex_flags\<lparr>AUTO_MATCHING_ENABLED := False\<rparr>"
  obtain s z where r: "publish_inventory_item ex_env ex_cfg ?fl (\<lambda>_. 1000) None (ex_user 11 SUPPLIER 41) 21 ex_shelf_db ex_shelf_db = Inr (s, Placed z)"
    and z: "order_of (o_id z) s = Some z"
    using ex_publication by blast
  have "lapsed_publication ?fl (\<lambda>_. 1000) 21 (Placed z) = {}" by (simp add: lapsed_publication_def)
  with market_reachable.step [OF ex_shelf_reachable market_step.publish [OF r]]
  have re: "market_reachable ex_env ex_cfg ?fl (s, ex_support) {}" by simp
  with market_never_oversells [OF re] show ?thesis using z order_of_mem [OF z] by blast
qed

text \<open>C12: rejecting an organization takes it out of the market and harms nobody else. When the administrator's request
  succeeds, the organization is rejected and has no members, no pending trade names it, none of its orders is
  live, every item's total of free and reserved stock is unchanged, and the market invariant still holds: the
  quantities of the cancelled trades are back with the other side's orders or in free stock.\<close>

theorem rejection_clears_market:
  assumes "market_inv s" "reject_organization e tx_now now cur g pv s = Inr s'"
  shows "market_inv s' \<and>
    (\<forall>t\<in>set (trades s'). t_status t = PENDING_CONFIRMATION \<longrightarrow> t_buyer_id t \<noteq> g \<and> t_seller_id t \<noteq> g) \<and>
    (\<forall>x\<in>set (orders s'). o_organization_id x = g \<longrightarrow> \<not> live_status (o_status x)) \<and>
    (\<forall>k. current_stock s' k + reserved_stock s' k = current_stock s k + reserved_stock s k) \<and>
    (\<forall>org\<in>set (organizations s'). g_id org = g \<longrightarrow> g_verification_status org = ''REJECTED'') \<and>
    (\<forall>u\<in>set (users s'). u_organization_id u \<noteq> Some g)"
  using reject_organization_effect [OF assms] by (auto simp: party_pending_def)

lemma ex_rejection: "\<exists>s'. reject_organization ex_env 1000 1000 ex_admin 41 (ex_traded ex_trade) (ex_traded ex_trade) = Inr s'"
proof -
  let ?x = "hit_order 200 ex_ask"
  have lk: "linked_ids ex_trade = [31]" and pp: "party_pending 41 ex_trade"
    and tr: "t_id ex_trade = 71" "t_buyer_id ex_trade = 42" "t_seller_id ex_trade = 41" "t_quantity_mt ex_trade = 200"
    "t_ask_order_id ex_trade = Some 31"
    by (simp_all add: ex_trade_def linked_ids_def List.map_filter_def party_pending_def)
  have pv: "invalidation_preview s 41 = Inr ([ex_trade], [?x], [?x])"
    if "orders s = [?x, ex_bid]" "trades s = [ex_trade]" for s
    using that by (simp add: invalidation_preview_def pp lk live_status_def MAX_INVALIDATION_ROWS_PER_TRANSACTION_def Let_def)
  have "normalize_availability_window ''SPOT'' = Inr ''SPOT''"
    using normalize_canonical [OF canonical_SPOT] by (simp add: SPOT_WINDOW_def)
  then have keys: "acquire_market_slice_locks ex_env (invalidation_slices [ex_trade] [?x, ?x]) = Inr ()"
    using ex_slice_lock [OF canonical_SPOT]
    by (simp add: invalidation_slices_def acquire_market_slice_locks_def slice_lock_order_def tr List.map_filter_def SPOT_WINDOW_def)
  have lock: "lock_invalidation ex_env 41 (ex_traded ex_trade) s = Inr ([ex_trade], [?x])"
    if "orders s = [?x, ex_bid]" "trades s = [ex_trade]" for s
    using keys by (simp add: lock_invalidation_def pv that lk pp)
  have r: "restored_by_order [ex_trade] 31 = 200" "invalidation_release 1000 41 200 ?x = 500"
    by (simp_all add: restored_by_order_def lk tr invalidation_release_def withdrawn_def)
  have inv: "\<exists>s' evs. invalidate_organization_market_access ex_env 1000 41 actor ''organization_rejected'' reference public (ex_traded ex_trade) s = Inr (s', evs)"
    if s: "orders s = [?x, ex_bid]" "trades s = [ex_trade]" "inventory s = [ex_item]" and ref: "py_strip reference \<noteq> []"
      and org: "organization_of 41 s \<noteq> None" "organization_of 42 s \<noteq> None" for s actor reference public
  proof -
    have own: "lock_and_load_market_organizations s [42, 41] [] False [] = Inr (\<lambda>k. if k \<in> {42, 41} then organization_of k s else None)"
      using org by (auto simp: lock_and_load_market_organizations_def ownership_by_user_def)
    show ?thesis
      using ref own
      by (simp add: invalidate_organization_market_access_def lock s tr r Let_def py_strip_def is_space_def lock_inventory_items_def release_item_def
          cancel_pending_def put_trade_def put_order_def participant_market_event_def)
  qed
  have "py_strip (''organization:'' @ uuid_str 41) \<noteq> []" by (simp add: py_strip_def is_space_def dropWhile_append)
  note i = inv [OF _ _ _ this]
  show ?thesis
    by (simp add: reject_organization_def ex_admin_def Let_def del: append_Cons append.simps, rule i)
      (simp_all add: invalidate_membership_bound_kyc_def put_row_def)
qed

theorem rejection_clears_market_witness:
  "\<exists>s'. reject_organization ex_env 1000 1000 ex_admin 41 (ex_traded ex_trade) (ex_traded ex_trade) = Inr s' \<and>
     market_inv s' \<and> current_stock s' 21 + reserved_stock s' 21 = current_stock (ex_traded ex_trade) 21 + reserved_stock (ex_traded ex_trade) 21"
proof -
  obtain s' where s': "reject_organization ex_env 1000 1000 ex_admin 41 (ex_traded ex_trade) (ex_traded ex_trade) = Inr s'"
    using ex_rejection by blast
  then show ?thesis using rejection_clears_market [OF ex_traded_inv s'] by blast
qed

end
